(* ===== verification/Gateway_Prelude.thy ===== *)
theory Gateway_Prelude
  imports Main "HOL-Library.Sublist" "HOL-Library.Char_ord" "HOL-Library.List_Lexorder"
begin

text \<open>
  The prelude of the development: the collections of facts the component
  theories share and generic lemmas on lists, options and finite maps.  The
  collection \<open>gw_defs\<close> holds the unfolding equations of small
  non-recursive definitions, \<open>gw_simps\<close> the characteristic
  equations of the operations, and \<open>gw_inv\<close> the preservation
  lemmas of the invariants.
\<close>

named_theorems gw_defs
named_theorems gw_simps
named_theorems gw_inv

section \<open>Lists\<close>

text \<open>Position of the last element that satisfies a predicate (a Go map
  filled in a loop over a slice keeps the last index written).\<close>

fun last_index_of :: "('a \<Rightarrow> bool) \<Rightarrow> 'a list \<Rightarrow> nat option" where
  "last_index_of p [] = None"
| "last_index_of p (x # xs) =
     (case last_index_of p xs of
        Some i \<Rightarrow> Some (Suc i)
      | None \<Rightarrow> (if p x then Some 0 else None))"

lemma last_index_of_Some:
  "last_index_of p xs = Some i \<Longrightarrow> i < length xs \<and> p (xs ! i)"
  by (induction xs arbitrary: i) (auto split: option.splits if_splits)

lemma last_index_of_None: "last_index_of p xs = None \<longleftrightarrow> (\<forall>x\<in>set xs. \<not> p x)"
  by (induction xs) (auto split: option.splits)

lemma find_SomeD: "List.find p xs = Some x \<Longrightarrow> x \<in> set xs \<and> p x"
  by (auto simp: find_Some_iff in_set_conv_nth)

lemma find_NoneD: "List.find p xs = None \<Longrightarrow> x \<in> set xs \<Longrightarrow> \<not> p x"
  by (auto simp: find_None_iff)

lemma foldl_append_eq: "foldl (\<lambda>acc x. acc @ f x) acc xs = acc @ concat (map f xs)"
  by (induction xs arbitrary: acc) auto

section \<open>Maps\<close>

lemma map_add_upd_left_dom: "k \<in> dom n \<Longrightarrow> m(k \<mapsto> v) ++ n = m ++ n"
  by (auto simp: map_add_def fun_eq_iff split: option.splits)

lemma foldl_map_upd_dom:
  "dom (foldl (\<lambda>m (k, v). m(k \<mapsto> v)) m kvs) = dom m \<union> fst ` set kvs"
  by (induction kvs arbitrary: m) (auto split: prod.splits)

end
