(* ===== verification/Constants.thy ===== *)
theory Constants
  imports Gateway_Prelude
begin

text \<open>
  The names of environment variables, files, headers and default ports
  (constants/env.go) that the code of the gateway reads.
\<close>

section \<open>Environment variables\<close>

abbreviation UserOwner :: string where
  "UserOwner \<equiv> ''OWNER''"

abbreviation ConsulAddr :: string where
  "ConsulAddr \<equiv> ''CONSUL_ADDR''"

abbreviation ConsulScheme :: string where
  "ConsulScheme \<equiv> ''CONSUL_SCHEME''"

abbreviation ConsulInsecureSkipVerify :: string where
  "ConsulInsecureSkipVerify \<equiv> ''CONSUL_INSECURE_SKIP_VERIFY''"

abbreviation ConsulToken :: string where
  "ConsulToken \<equiv> ''CONSUL_TOKEN''"

abbreviation ConsulDatacenter :: string where
  "ConsulDatacenter \<equiv> ''CONSUL_DATACENTER''"

abbreviation EnvConfigSourceFile :: string where
  "EnvConfigSourceFile \<equiv> ''CONFIG_SOURCE_FILE''"

abbreviation EnvConfigSource :: string where
  "EnvConfigSource \<equiv> ''CONFIG_SOURCE''"

abbreviation EnvConfigFile :: string where
  "EnvConfigFile \<equiv> ''CONFIG_FILE''"

abbreviation PriorityConfigDir :: string where
  "PriorityConfigDir \<equiv> ''PRIORITY_CONFIG''"

abbreviation JwtPubkeyPath :: string where
  "JwtPubkeyPath \<equiv> ''JWT_PUBKEY_PATH''"

abbreviation UseTLS :: string where
  "UseTLS \<equiv> ''USE_TLS''"

abbreviation UseHttp3 :: string where
  "UseHttp3 \<equiv> ''USE_HTTP3''"

abbreviation HTTPPort :: string where
  "HTTPPort \<equiv> ''HTTP_PORT''"

abbreviation HTTP3Port :: string where
  "HTTP3Port \<equiv> ''HTTP3_PORT''"

abbreviation CrtFile :: string where
  "CrtFile \<equiv> ''CRT_FILE_PATH''"

abbreviation KeyFile :: string where
  "KeyFile \<equiv> ''KEY_FILE_PATH''"

abbreviation PoliciesfilePath :: string where
  "PoliciesfilePath \<equiv> ''POLICIES_FILE_PATH''"

abbreviation ModelFilePath :: string where
  "ModelFilePath \<equiv> ''MODEL_FILE_PATH''"

abbreviation CasdoorUrl :: string where
  "CasdoorUrl \<equiv> ''CASDOOR_URL''"

abbreviation Debug :: string where
  "Debug \<equiv> ''Debug''"

abbreviation ProxyReadHeaderTimeout :: string where
  "ProxyReadHeaderTimeout \<equiv> ''PROXY_READ_HEADER_TIMEOUT''"

abbreviation ProxyReadTimeout :: string where
  "ProxyReadTimeout \<equiv> ''PROXY_READ_TIMEOUT''"

abbreviation ProxyWriteTimeout :: string where
  "ProxyWriteTimeout \<equiv> ''PROXY_WRITE_TIMEOUTT''"

abbreviation ProxyIdleTimeout :: string where
  "ProxyIdleTimeout \<equiv> ''PROXY_IDLE_TIMEOUT''"

abbreviation ConfigSourceFile :: string where
  "ConfigSourceFile \<equiv> ''file''"

abbreviation ConfigSourceConfigCenter :: string where
  "ConfigSourceConfigCenter \<equiv> ''config_center''"

abbreviation ConfigDir :: string where
  "ConfigDir \<equiv> ''configs''"

abbreviation SecretsDirName :: string where
  "SecretsDirName \<equiv> ''secrets''"

abbreviation JwtPublicFileName :: string where
  "JwtPublicFileName \<equiv> ''public.pem''"

abbreviation UserOwnerMetadataKey :: string where
  "UserOwnerMetadataKey \<equiv> ''x-md-global-owner''"

abbreviation UserNameMetadataKey :: string where
  "UserNameMetadataKey \<equiv> ''x-md-global-name''"

abbreviation UserRoleMetadataKey :: string where
  "UserRoleMetadataKey \<equiv> ''x-md-global-role''"

abbreviation UserIdMetadataKey :: string where
  "UserIdMetadataKey \<equiv> ''x-md-global-user-id''"

abbreviation PoliciesDirName :: string where
  "PoliciesDirName \<equiv> ''policies''"

abbreviation PoliciesfileName :: string where
  "PoliciesfileName \<equiv> ''policies.csv''"

abbreviation ModelFileFileName :: string where
  "ModelFileFileName \<equiv> ''model.conf''"

abbreviation DefaultHTTPPort :: string where
  "DefaultHTTPPort \<equiv> '':8080''"

abbreviation DefaultHTTP3Port :: string where
  "DefaultHTTP3Port \<equiv> '':443''"

end
