(* ===== verification/Go_Strings.thy ===== *)
theory Go_Strings
  imports Constants
begin

text \<open>
  The operations of Go's standard library on strings that the gateway uses
  (packages strings, strconv, unicode/utf8 and encoding/base64).  A Go string
  is a byte sequence, and so is the HOL type of strings: a character is one
  byte.  TrimSpace and Map follow the UTF-8 decoding of the library; ToLower,
  ToUpper and EqualFold are the library's ASCII cases and leave bytes from 128
  on unchanged.
\<close>

section \<open>Bytes and decoding\<close>

definition byte :: "char \<Rightarrow> nat" where
  "byte c = of_char c"

definition bytes :: "nat list \<Rightarrow> string" where
  "bytes ns = map char_of ns"

lemma byte_lt [simp]: "byte c < 256"
  by (simp add: byte_def)

lemma char_of_byte [simp]: "char_of (byte c) = c"
  by (simp add: byte_def)

lemma byte_inj: "byte c = byte d \<longleftrightarrow> c = d"
  by (metis char_of_byte)

lemma byte_char_of: "n < 256 \<Longrightarrow> byte (char_of n) = n"
  by (simp add: byte_def)

lemma length_bytes [simp]: "length (bytes ns) = length ns"
  by (simp add: bytes_def)

text \<open>Width of the first rune of a non-empty string, as
  \<open>utf8.DecodeRuneInString\<close> computes it: an invalid sequence has
  width 1.\<close>

fun cont_ok :: "nat \<Rightarrow> nat \<Rightarrow> string \<Rightarrow> bool" where
  "cont_ok lo hi [] = False"
| "cont_ok lo hi (c # cs) = (lo \<le> byte c \<and> byte c \<le> hi)"

definition rune_width :: "string \<Rightarrow> nat" where
  "rune_width s =
    (case s of [] \<Rightarrow> 0
     | c # cs \<Rightarrow>
       (let b = byte c;
            k2 = cont_ok 0x80 0xBF (drop 1 cs);
            k3 = cont_ok 0x80 0xBF (drop 2 cs)
        in if 0xC2 \<le> b \<and> b \<le> 0xDF \<and> cont_ok 0x80 0xBF cs then 2
           else if b = 0xE0 \<and> cont_ok 0xA0 0xBF cs \<and> k2 then 3
           else if b = 0xED \<and> cont_ok 0x80 0x9F cs \<and> k2 then 3
           else if 0xE1 \<le> b \<and> b \<le> 0xEF \<and> b \<noteq> 0xED \<and> cont_ok 0x80 0xBF cs \<and> k2 then 3
           else if b = 0xF0 \<and> cont_ok 0x90 0xBF cs \<and> k2 \<and> k3 then 4
           else if 0xF1 \<le> b \<and> b \<le> 0xF3 \<and> cont_ok 0x80 0xBF cs \<and> k2 \<and> k3 then 4
           else if b = 0xF4 \<and> cont_ok 0x80 0x8F cs \<and> k2 \<and> k3 then 4
           else 1))"

lemma rune_width_pos: "0 < rune_width (c # cs)"
  by (simp add: rune_width_def Let_def)

section \<open>Prefixes, suffixes, splitting\<close>

abbreviation hasPrefix :: "string \<Rightarrow> string \<Rightarrow> bool" where
  "hasPrefix s p \<equiv> prefix p s"

abbreviation hasSuffix :: "string \<Rightarrow> string \<Rightarrow> bool" where
  "hasSuffix s p \<equiv> suffix p s"

definition trimPrefix :: "string \<Rightarrow> string \<Rightarrow> string" where
  "trimPrefix s p = (if prefix p s then drop (length p) s else s)"

definition trimSuffix :: "string \<Rightarrow> string \<Rightarrow> string" where
  "trimSuffix s p = (if suffix p s then take (length s - length p) s else s)"

text \<open>TrimLeft and TrimRight take a cutset, not a prefix or suffix.\<close>

definition trimLeft :: "string \<Rightarrow> string \<Rightarrow> string" where
  "trimLeft s cs = dropWhile (\<lambda>c. c \<in> set cs) s"

definition trimRight :: "string \<Rightarrow> string \<Rightarrow> string" where
  "trimRight s cs = rev (dropWhile (\<lambda>c. c \<in> set cs) (rev s))"

fun split_char :: "char \<Rightarrow> string \<Rightarrow> string list" where
  "split_char c [] = [[]]"
| "split_char c (x # xs) =
     (if x = c then [] # split_char c xs
      else case split_char c xs of [] \<Rightarrow> [[x]] | y # ys \<Rightarrow> (x # y) # ys)"

fun join_str :: "string \<Rightarrow> string list \<Rightarrow> string" where
  "join_str sep [] = []"
| "join_str sep [x] = x"
| "join_str sep (x # y # ys) = x @ sep @ join_str sep (y # ys)"

fun contains_str :: "string \<Rightarrow> string \<Rightarrow> bool" where
  "contains_str [] p = (p = [])"
| "contains_str (c # cs) p = (prefix p (c # cs) \<or> contains_str cs p)"

text \<open>strings.Cut: the parts before and after the first separator.\<close>

fun cut_char :: "char \<Rightarrow> string \<Rightarrow> string \<times> string \<times> bool" where
  "cut_char c [] = ([], [], False)"
| "cut_char c (x # xs) =
     (if x = c then ([], xs, True)
      else case cut_char c xs of (a, b, f) \<Rightarrow> (x # a, b, f))"

lemma split_char_ne [simp]: "split_char c s \<noteq> []"
  by (induction s) (auto split: list.splits)

lemma split_char_length: "0 < length (split_char c s)"
  by simp

lemma split_char_no_sep: "p \<in> set (split_char c s) \<Longrightarrow> c \<notin> set p"
proof (induction s arbitrary: p)
  case (Cons x xs)
  obtain y ys where sp: "split_char c xs = y # ys"
    by (metis list.exhaust split_char_ne)
  have "c \<notin> set y" using Cons.IH sp by simp
  then show ?case using Cons.prems Cons.IH sp by (auto split: if_splits)
qed simp

lemma split_char_id: "c \<notin> set s \<Longrightarrow> split_char c s = [s]"
  by (induction s) auto

lemma split_char_append:
  "c \<notin> set a \<Longrightarrow> split_char c (a @ c # b) = a # split_char c b"
  by (induction a) auto

lemma join_str_Cons: "ys \<noteq> [] \<Longrightarrow> join_str sep (x # ys) = x @ sep @ join_str sep ys"
  by (cases ys) auto

lemma join_split: "join_str [c] (split_char c s) = s"
proof (induction s)
  case (Cons x xs)
  obtain y ys where sp: "split_char c xs = y # ys"
    by (metis list.exhaust split_char_ne)
  show ?case
  proof (cases "x = c")
    case True
    then show ?thesis using Cons sp by simp
  next
    case False
    then show ?thesis using Cons sp by (cases ys) auto
  qed
qed simp

lemma split_join:
  "xs \<noteq> [] \<Longrightarrow> \<forall>x\<in>set xs. c \<notin> set x \<Longrightarrow> split_char c (join_str [c] xs) = xs"
  by (induction "[c]" xs rule: join_str.induct) (auto simp: split_char_id split_char_append)

section \<open>ASCII case\<close>

definition lower_char :: "char \<Rightarrow> char" where
  "lower_char c = (if 65 \<le> byte c \<and> byte c \<le> 90 then char_of (byte c + 32) else c)"

definition upper_char :: "char \<Rightarrow> char" where
  "upper_char c = (if 97 \<le> byte c \<and> byte c \<le> 122 then char_of (byte c - 32) else c)"

definition toLower :: "string \<Rightarrow> string" where
  "toLower s = map lower_char s"

definition toUpper :: "string \<Rightarrow> string" where
  "toUpper s = map upper_char s"

definition equalFold :: "string \<Rightarrow> string \<Rightarrow> bool" where
  "equalFold s t \<longleftrightarrow> toLower s = toLower t"

lemma lower_char_idem [simp]: "lower_char (lower_char c) = lower_char c"
  by (auto simp: lower_char_def byte_char_of)

lemma upper_char_idem [simp]: "upper_char (upper_char c) = upper_char c"
  by (auto simp: upper_char_def byte_char_of)

lemma toLower_idem [simp]: "toLower (toLower s) = toLower s"
  by (simp add: toLower_def)

lemma toUpper_idem [simp]: "toUpper (toUpper s) = toUpper s"
  by (simp add: toUpper_def)

lemma toLower_append: "toLower (s @ t) = toLower s @ toLower t"
  by (simp add: toLower_def)

section \<open>TrimSpace\<close>

text \<open>The UTF-8 encodings of the runes with \<open>unicode.IsSpace\<close>.\<close>

definition space_runes :: "string list" where
  "space_runes = map bytes
    ([[9], [10], [11], [12], [13], [32], [0xC2, 0x85], [0xC2, 0xA0], [0xE1, 0x9A, 0x80],
      [0xE2, 0x80, 0x80], [0xE2, 0x80, 0x81], [0xE2, 0x80, 0x82], [0xE2, 0x80, 0x83],
      [0xE2, 0x80, 0x84], [0xE2, 0x80, 0x85], [0xE2, 0x80, 0x86], [0xE2, 0x80, 0x87],
      [0xE2, 0x80, 0x88], [0xE2, 0x80, 0x89], [0xE2, 0x80, 0x8A], [0xE2, 0x80, 0xA8],
      [0xE2, 0x80, 0xA9], [0xE2, 0x80, 0xAF], [0xE2, 0x81, 0x9F], [0xE3, 0x80, 0x80]] :: nat list list)"

lemma space_runes_ne: "r \<in> set space_runes \<Longrightarrow> 0 < length r"
  by (auto simp: space_runes_def bytes_def)

function trimLeftSpace :: "string \<Rightarrow> string" where
  "trimLeftSpace s =
    (case List.find (\<lambda>r. prefix r s) space_runes of
       None \<Rightarrow> s
     | Some r \<Rightarrow> trimLeftSpace (drop (length r) s))"
  by pat_completeness auto
termination
  by (relation "measure length")
     (auto dest!: find_SomeD simp: space_runes_ne dest: prefix_length_le,
      metis diff_less length_0_conv length_greater_0_conv order_less_le_trans prefix_length_le space_runes_ne)

function trimRightSpace :: "string \<Rightarrow> string" where
  "trimRightSpace s =
    (case List.find (\<lambda>r. suffix r s) space_runes of
       None \<Rightarrow> s
     | Some r \<Rightarrow> trimRightSpace (take (length s - length r) s))"
  by pat_completeness auto
termination
  by (relation "measure length")
     (auto dest!: find_SomeD simp: space_runes_ne dest: suffix_length_le,
      metis diff_less length_greater_0_conv order_less_le_trans suffix_length_le space_runes_ne)

declare trimLeftSpace.simps [simp del] trimRightSpace.simps [simp del]

definition trimSpace :: "string \<Rightarrow> string" where
  "trimSpace s = trimRightSpace (trimLeftSpace s)"

lemma trimLeftSpace_noop:
  "\<forall>r\<in>set space_runes. \<not> prefix r s \<Longrightarrow> trimLeftSpace s = s"
  by (subst trimLeftSpace.simps) (auto split: option.splits dest: find_SomeD)

lemma trimRightSpace_noop:
  "\<forall>r\<in>set space_runes. \<not> suffix r s \<Longrightarrow> trimRightSpace s = s"
  by (subst trimRightSpace.simps) (auto split: option.splits dest: find_SomeD)

lemma trimSpace_Nil [simp]: "trimSpace [] = []"
proof -
  have "\<forall>r\<in>set space_runes. \<not> prefix r []" "\<forall>r\<in>set space_runes. \<not> suffix r []"
    using space_runes_ne by auto
  then show ?thesis
    by (simp add: trimSpace_def trimLeftSpace_noop trimRightSpace_noop)
qed

section \<open>Decimal numbers (strconv)\<close>

definition digit_char :: "nat \<Rightarrow> char" where
  "digit_char d = char_of (48 + d)"

fun dec_digits :: "nat \<Rightarrow> string" where
  "dec_digits n = (if n < 10 then [digit_char n] else dec_digits (n div 10) @ [digit_char (n mod 10)])"

declare dec_digits.simps [simp del]

text \<open>strconv.Itoa and FormatInt in base 10.\<close>

definition formatInt :: "int \<Rightarrow> string" where
  "formatInt i = (if i < 0 then CHR ''-'' # dec_digits (nat (- i)) else dec_digits (nat i))"

definition is_digit :: "char \<Rightarrow> bool" where
  "is_digit c \<longleftrightarrow> 48 \<le> byte c \<and> byte c \<le> 57"

definition digit_val :: "char \<Rightarrow> nat" where
  "digit_val c = byte c - 48"

definition dec_value :: "string \<Rightarrow> nat" where
  "dec_value s = foldl (\<lambda>acc c. 10 * acc + digit_val c) 0 s"

text \<open>strconv.ParseInt in base 10 for an integer of the given width: the value
  together with whether the error is nil.  A syntax error gives 0, an
  out-of-range value the nearest bound.\<close>

definition clamp_int :: "bool \<Rightarrow> int \<Rightarrow> int \<Rightarrow> int \<times> bool" where
  "clamp_int neg lim v =
    (if neg then (if v > lim then (- lim, False) else (- v, True))
     else if v \<ge> lim then (lim - 1, False) else (v, True))"

lemma clamp_int_bounds:
  "0 < lim \<Longrightarrow> 0 \<le> v \<Longrightarrow> - lim \<le> fst (clamp_int neg lim v) \<and> fst (clamp_int neg lim v) < lim"
  by (auto simp: clamp_int_def)

definition parseInt :: "nat \<Rightarrow> string \<Rightarrow> int \<times> bool" where
  "parseInt w s =
    (let neg = hasPrefix s ''-'';
         body = (if neg \<or> hasPrefix s ''+'' then tl s else s)
     in if body = [] \<or> \<not> list_all is_digit body then (0, False)
        else clamp_int neg (2 ^ (w - 1)) (int (dec_value body)))"

lemma parseInt_bounds:
  "- (2 ^ (w - 1)) \<le> fst (parseInt w s) \<and> fst (parseInt w s) < 2 ^ (w - 1)"
  unfolding parseInt_def Let_def
  by (cases "(if hasPrefix s ''-'' \<or> hasPrefix s ''+'' then tl s else s) = []
    \<or> \<not> list_all is_digit (if hasPrefix s ''-'' \<or> hasPrefix s ''+'' then tl s else s)")
     (simp_all add: clamp_int_bounds)

lemma is_digit_digit_char: "d < 10 \<Longrightarrow> is_digit (digit_char d)"
  by (simp add: is_digit_def digit_char_def byte_char_of)

lemma digit_val_digit_char: "d < 10 \<Longrightarrow> digit_val (digit_char d) = d"
  by (simp add: digit_val_def digit_char_def byte_char_of)

lemma dec_digits_all: "list_all is_digit (dec_digits n)"
proof (induction n rule: dec_digits.induct)
  case (1 n)
  then show ?case by (subst dec_digits.simps) (simp add: is_digit_digit_char)
qed

lemma dec_digits_ne [simp]: "dec_digits n \<noteq> []"
  by (subst dec_digits.simps) simp

lemma dec_value_snoc: "dec_value (s @ [c]) = 10 * dec_value s + digit_val c"
  by (simp add: dec_value_def)

lemma dec_value_digits: "dec_value (dec_digits n) = n"
proof (induction n rule: dec_digits.induct)
  case (1 n)
  show ?case
  proof (cases "n < 10")
    case True
    then show ?thesis
      by (subst dec_digits.simps) (simp add: dec_value_def digit_val_digit_char)
  next
    case False
    then have "dec_value (dec_digits n) = 10 * (n div 10) + n mod 10"
      by (subst dec_digits.simps) (simp add: 1 dec_value_snoc digit_val_digit_char)
    then show ?thesis by simp
  qed
qed

lemma digits_no_sign: "list_all is_digit (c # cs) \<Longrightarrow> c \<noteq> CHR ''-'' \<and> c \<noteq> CHR ''+''"
  by (auto simp: is_digit_def byte_def)

lemma parseInt_dec_digits:
  assumes "int n < 2 ^ (w - 1)"
  shows "parseInt w (dec_digits n) = (int n, True)"
proof -
  obtain c cs where dd: "dec_digits n = c # cs" by (metis dec_digits_ne list.exhaust)
  have nosign: "c \<noteq> CHR ''-''" "c \<noteq> CHR ''+''"
    using digits_no_sign [of c cs] dec_digits_all [of n] dd by auto
  have "list_all is_digit (c # cs)" "dec_value (c # cs) = n"
    using dec_digits_all [of n] dec_value_digits [of n] dd by simp_all
  then show ?thesis using assms nosign dd by (simp add: parseInt_def clamp_int_def)
qed

lemma parseInt_formatInt_nat: "0 \<le> i \<Longrightarrow> i < 2 ^ (w - 1) \<Longrightarrow> parseInt w (formatInt i) = (i, True)"
  using parseInt_dec_digits [of "nat i" w] by (simp add: formatInt_def)

text \<open>strconv.ParseBool.\<close>

definition parseBool :: "string \<Rightarrow> bool option" where
  "parseBool s =
    (if s \<in> {''1'', ''t'', ''T'', ''TRUE'', ''true'', ''True''} then Some True
     else if s \<in> {''0'', ''f'', ''F'', ''FALSE'', ''false'', ''False''} then Some False
     else None)"

end
