(* ===== verification/Go_Path.thy ===== *)
theory Go_Path
  imports Go_Strings
begin

text \<open>
  Go's lexical path functions (package path; path/filepath has the same
  functions on Unix): Clean, Join, Dir and Base, on the components between
  slashes.  The lemmas characterise the components of a cleaned path and show
  that a relative path that does not clean to a parent directory stays below
  any directory it is joined to.
\<close>

section \<open>Definitions\<close>

abbreviation slash :: char where
  "slash \<equiv> CHR ''/''"

text \<open>One pass over the components with a stack of kept ones (top first).\<close>

fun clean_comps :: "bool \<Rightarrow> string list \<Rightarrow> string list \<Rightarrow> string list" where
  "clean_comps rooted [] st = rev st"
| "clean_comps rooted (c # cs) st =
     (if c = [] \<or> c = ''.'' then clean_comps rooted cs st
      else if c = ''..'' then
        (case st of
           [] \<Rightarrow> clean_comps rooted cs (if rooted then [] else [''..''])
         | t # ts \<Rightarrow> clean_comps rooted cs (if t = ''..'' then ''..'' # st else ts))
      else clean_comps rooted cs (c # st))"

definition path_comps :: "string \<Rightarrow> string list" where
  "path_comps p = clean_comps (hasPrefix p ''/'') (split_char slash p) []"

definition path_Clean :: "string \<Rightarrow> string" where
  "path_Clean p =
    (if p = [] then ''.''
     else if hasPrefix p ''/'' then slash # join_str ''/'' (path_comps p)
     else if path_comps p = [] then ''.''
     else join_str ''/'' (path_comps p))"

definition path_Join :: "string list \<Rightarrow> string" where
  "path_Join elems =
    (case dropWhile (\<lambda>e. e = []) elems of
       [] \<Rightarrow> []
     | es \<Rightarrow> path_Clean (join_str ''/'' es))"

text \<open>path.Split cuts after the last slash; Dir cleans the first part.\<close>

definition path_dirpart :: "string \<Rightarrow> string" where
  "path_dirpart p = rev (dropWhile (\<lambda>c. c \<noteq> slash) (rev p))"

definition path_Dir :: "string \<Rightarrow> string" where
  "path_Dir p = path_Clean (path_dirpart p)"

definition path_Base :: "string \<Rightarrow> string" where
  "path_Base p =
    (if p = [] then ''.''
     else let q = trimRight p ''/''
          in if q = [] then ''/'' else rev (takeWhile (\<lambda>c. c \<noteq> slash) (rev q)))"

section \<open>The components of a cleaned path\<close>

definition plain_comp :: "string \<Rightarrow> bool" where
  "plain_comp c \<longleftrightarrow> c \<noteq> [] \<and> c \<noteq> ''.'' \<and> c \<noteq> ''..'' \<and> slash \<notin> set c"

text \<open>The step equation by case, for the proofs below.\<close>

lemma cc_skip: "c = [] \<or> c = ''.'' \<Longrightarrow> clean_comps r (c # cs) st = clean_comps r cs st"
  by simp

lemma cc_up_Nil: "clean_comps r (''..'' # cs) [] = clean_comps r cs (if r then [] else [''..''])"
  by simp

lemma cc_up_Cons:
  "clean_comps r (''..'' # cs) (t # ts) = clean_comps r cs (if t = ''..'' then ''..'' # t # ts else ts)"
  by simp

lemma cc_push:
  "c \<noteq> [] \<Longrightarrow> c \<noteq> ''.'' \<Longrightarrow> c \<noteq> ''..'' \<Longrightarrow> clean_comps r (c # cs) st = clean_comps r cs (c # st)"
  by simp

lemmas clean_comps_cases = cc_skip cc_up_Nil cc_up_Cons cc_push

declare clean_comps.simps(2) [simp del]

lemma comp_cases:
  obtains (skip) "c = [] \<or> c = ''.''" | (up) "c = ''..''" | (push) "c \<noteq> []" "c \<noteq> ''.''" "c \<noteq> ''..''"
  by blast

lemma split_slash_comp: "c \<in> set (split_char slash p) \<Longrightarrow> slash \<notin> set c"
  by (rule split_char_no_sep)

lemma clean_comps_rooted_plain:
  "\<lbrakk> \<And>c. c \<in> set cs \<Longrightarrow> slash \<notin> set c; list_all plain_comp st \<rbrakk>
    \<Longrightarrow> list_all plain_comp (clean_comps True cs st)"
proof (induction cs arbitrary: st)
  case Nil
  then show ?case by (simp add: list_all_iff)
next
  case (Cons c cs)
  have sl: "\<And>c. c \<in> set cs \<Longrightarrow> slash \<notin> set c" using Cons.prems(1) by simp
  show ?case
  proof (cases c rule: comp_cases)
    case skip
    then show ?thesis using Cons.IH [OF sl Cons.prems(2)] by (simp only: cc_skip)
  next
    case up
    have "plain_comp t \<Longrightarrow> t \<noteq> ''..''" for t by (simp add: plain_comp_def)
    then show ?thesis using Cons.IH [OF sl] Cons.prems(2) up
      by (cases st) (simp_all add: cc_up_Nil cc_up_Cons)
  next
    case push
    then have "plain_comp c" using Cons.prems(1) [of c] by (simp add: plain_comp_def)
    then show ?thesis using Cons.IH [OF sl, of "c # st"] Cons.prems(2) push
      by (simp add: cc_push)
  qed
qed

text \<open>A stack of the relative case: plain components above parent steps.\<close>

definition rel_stack :: "string list \<Rightarrow> bool" where
  "rel_stack st \<longleftrightarrow> (\<exists>ps n. st = ps @ replicate n ''..'' \<and> (\<forall>c\<in>set ps. plain_comp c))"

lemma rel_stack_Nil: "rel_stack []"
  by (auto simp: rel_stack_def intro: exI [of _ "[]"] exI [of _ 0])

lemma rel_stack_Cons_plain: "rel_stack st \<Longrightarrow> plain_comp c \<Longrightarrow> rel_stack (c # st)"
  unfolding rel_stack_def by (metis append_Cons set_ConsD)

lemma rel_stack_up: "rel_stack (''..'' # st) \<Longrightarrow> rel_stack (''..'' # ''..'' # st)"
proof -
  assume "rel_stack (''..'' # st)"
  then obtain ps n where p: "''..'' # st = ps @ replicate n ''..''" "\<forall>c\<in>set ps. plain_comp c"
    by (auto simp: rel_stack_def)
  then have "ps = []" by (cases ps) (auto simp: plain_comp_def)
  with p have "''..'' # ''..'' # st = [] @ replicate (Suc n) ''..''" by simp
  then show ?thesis unfolding rel_stack_def by (metis empty_iff list.set(1))
qed

lemma rel_stack_tl: "rel_stack (t # ts) \<Longrightarrow> t \<noteq> ''..'' \<Longrightarrow> rel_stack ts"
proof -
  assume "rel_stack (t # ts)" "t \<noteq> ''..''"
  then obtain ps n where p: "t # ts = ps @ replicate n ''..''" "\<forall>c\<in>set ps. plain_comp c"
    by (auto simp: rel_stack_def)
  with \<open>t \<noteq> ''..''\<close> obtain ps' where "ps = t # ps'" by (cases ps; cases n) auto
  with p show ?thesis by (auto simp: rel_stack_def)
qed

lemma rel_stack_one: "rel_stack [''..'']"
proof -
  have "[''..''] = [] @ replicate 1 ''..''" by simp
  then show ?thesis unfolding rel_stack_def by (metis empty_iff list.set(1))
qed

lemma clean_comps_rel:
  "\<lbrakk> \<And>c. c \<in> set cs \<Longrightarrow> slash \<notin> set c; rel_stack st \<rbrakk>
    \<Longrightarrow> rel_stack (rev (clean_comps False cs st))"
proof (induction cs arbitrary: st)
  case (Cons c cs)
  have sl: "\<And>c. c \<in> set cs \<Longrightarrow> slash \<notin> set c" using Cons.prems(1) by simp
  show ?case
  proof (cases c rule: comp_cases)
    case skip
    then show ?thesis using Cons.IH [OF sl Cons.prems(2)] by (simp only: cc_skip)
  next
    case up
    then show ?thesis
      using Cons.IH [OF sl] Cons.prems(2) rel_stack_up rel_stack_tl rel_stack_one
      by (cases st) (auto simp: cc_up_Nil cc_up_Cons)
  next
    case push
    then have "plain_comp c" using Cons.prems(1) [of c] by (simp add: plain_comp_def)
    then show ?thesis using Cons.IH [OF sl, of "c # st"] Cons.prems(2) push
      by (simp add: cc_push rel_stack_Cons_plain)
  qed
qed simp

text \<open>Plain components pass through unchanged.\<close>

lemma clean_comps_plain:
  "list_all plain_comp cs \<Longrightarrow> clean_comps r cs st = rev st @ cs"
proof (induction cs arbitrary: st)
  case (Cons c cs)
  then show ?case by (simp add: cc_push plain_comp_def)
qed simp

lemma rooted_comps_plain: "hasPrefix p ''/'' \<Longrightarrow> list_all plain_comp (path_comps p)"
  unfolding path_comps_def
  using clean_comps_rooted_plain [of "split_char slash p" "[]"] split_slash_comp by simp

lemma split_join_plain:
  "list_all plain_comp cs \<Longrightarrow> cs \<noteq> [] \<Longrightarrow> split_char slash (join_str ''/'' cs) = cs"
  by (rule split_join) (auto simp: list_all_iff plain_comp_def)

lemma path_comps_of_rooted:
  assumes "list_all plain_comp cs"
  shows "path_comps (slash # join_str ''/'' cs) = cs"
proof (cases "cs = []")
  case True
  then show ?thesis by (simp add: path_comps_def clean_comps_cases)
next
  case False
  have "clean_comps True cs [] = cs" using clean_comps_plain [OF assms] by simp
  then show ?thesis
    using split_join_plain [OF assms False] by (simp add: path_comps_def cc_skip)
qed

lemma path_Clean_rooted: "hasPrefix p ''/'' \<Longrightarrow> path_Clean p = slash # join_str ''/'' (path_comps p)"
  by (auto simp: path_Clean_def)

lemma path_Clean_rooted_idem:
  "hasPrefix p ''/'' \<Longrightarrow> path_Clean (path_Clean p) = path_Clean p"
  using path_comps_of_rooted [OF rooted_comps_plain] by (simp add: path_Clean_rooted)

section \<open>Joining below a directory\<close>

text \<open>A parent step at the bottom of the stack is never removed.\<close>

lemma clean_comps_bottom:
  "\<exists>ys. clean_comps False cs (xs @ [''..'']) = ''..'' # ys"
proof (induction cs arbitrary: xs)
  case (Cons c cs)
  show ?case
  proof (cases c rule: comp_cases)
    case skip
    then show ?thesis using Cons.IH by (simp only: cc_skip)
  next
    case up
    show ?thesis
    proof (cases xs)
      case Nil
      then show ?thesis using Cons.IH [of "[''..'']"] up by (simp add: cc_up_Cons)
    next
      case (Cons t ts)
      then show ?thesis using Cons.IH [of ts] Cons.IH [of "''..'' # xs"] up
        by (cases "t = ''..''") (simp_all add: cc_up_Cons)
    qed
  next
    case push
    then show ?thesis using Cons.IH [of "c # xs"] by (simp add: cc_push)
  qed
qed simp

lemma clean_comps_above:
  "\<lbrakk> \<nexists>ys. clean_comps False cs st = ''..'' # ys; list_all (\<lambda>t. t \<noteq> ''..'') st \<rbrakk>
    \<Longrightarrow> clean_comps r cs (st @ below) = rev below @ clean_comps False cs st"
proof (induction cs arbitrary: st)
  case (Cons c cs)
  show ?case
  proof (cases c rule: comp_cases)
    case skip
    then show ?thesis using Cons by (simp only: cc_skip)
  next
    case up
    show ?thesis
    proof (cases st)
      case Nil
      then show ?thesis
        using Cons.prems(1) up clean_comps_bottom [of cs "[]"] by (simp add: cc_up_Nil)
    next
      case (Cons t ts)
      then show ?thesis using Cons.IH [of ts] Cons.prems up by (simp add: cc_up_Cons)
    qed
  next
    case push
    then show ?thesis using Cons.IH [of "c # st"] Cons.prems by (simp add: cc_push)
  qed
qed simp

lemma clean_comps_append:
  "clean_comps r (cs @ ds) st = clean_comps r ds (rev (clean_comps r cs st))"
proof (induction cs arbitrary: st)
  case (Cons c cs)
  show ?case
  proof (cases c rule: comp_cases)
    case up
    then show ?thesis using Cons by (cases st) (simp_all add: cc_up_Nil cc_up_Cons)
  next
    case push
    then show ?thesis by (simp add: cc_push Cons)
  qed (simp_all only: append_Cons cc_skip Cons)
qed simp

lemma split_char_join2:
  "split_char slash (a @ slash # b) = split_char slash a @ split_char slash b"
proof (induction a)
  case (Cons x a)
  obtain y ys where "split_char slash a = y # ys" by (metis list.exhaust split_char_ne)
  then show ?case using Cons by auto
qed simp

text \<open>The escape lemma: joining a relative path whose cleaned form does not
  start with a parent step keeps all components of the directory.\<close>

lemma path_comps_join_below:
  assumes rel: "\<not> hasPrefix key ''/''"
    and noup: "\<nexists>ys. path_comps key = ''..'' # ys"
    and root: "root \<noteq> []"
  shows "path_comps (root @ slash # key) = path_comps root @ path_comps key"
proof -
  let ?r = "hasPrefix root ''/''"
  have pre: "hasPrefix (root @ slash # key) ''/'' = ?r"
    using root by (cases root) auto
  have key: "path_comps key = clean_comps False (split_char slash key) []"
    using rel by (simp add: path_comps_def)
  have "clean_comps ?r (split_char slash key) ([] @ rev (path_comps root))
      = rev (rev (path_comps root)) @ clean_comps False (split_char slash key) []"
    by (rule clean_comps_above) (use noup key in auto)
  then show ?thesis
    using key pre by (simp add: path_comps_def split_char_join2 clean_comps_append)
qed

section \<open>The components of a cleaned path, relative paths included\<close>

lemma clean_comps_ups:
  "list_all plain_comp qs \<Longrightarrow>
    clean_comps False (replicate n ''..'' @ qs) (replicate k ''..'') = replicate (n + k) ''..'' @ qs"
proof (induction n arbitrary: k)
  case 0
  then show ?case by (simp add: clean_comps_plain)
next
  case (Suc n)
  have "clean_comps False (replicate (Suc n) ''..'' @ qs) (replicate k ''..'')
      = clean_comps False (replicate n ''..'' @ qs) (replicate (Suc k) ''..'')"
    by (cases k) (simp_all add: cc_up_Nil cc_up_Cons)
  then show ?case using Suc.IH [OF Suc.prems, of "Suc k"] by (simp add: replicate_append_same)
qed

lemma rel_comps_form:
  assumes "\<not> hasPrefix q ''/''"
  obtains n qs where "path_comps q = replicate n ''..'' @ qs" "list_all plain_comp qs"
proof -
  have "rel_stack (rev (path_comps q))"
    using assms clean_comps_rel [of "split_char slash q" "[]"] split_slash_comp rel_stack_Nil
    by (simp add: path_comps_def)
  then obtain ps n where "rev (path_comps q) = ps @ replicate n ''..''" "\<forall>c\<in>set ps. plain_comp c"
    by (auto simp: rel_stack_def)
  then show thesis
    using that [of n "rev ps"] by (metis (no_types, lifting) list_all_iff rev_append rev_replicate rev_swap set_rev)
qed

lemma join_not_rooted:
  assumes "\<forall>c\<in>set cs. slash \<notin> set c \<and> c \<noteq> []" "cs \<noteq> []"
  shows "\<not> hasPrefix (join_str ''/'' cs) ''/''"
proof -
  obtain c cs' where cs: "cs = c # cs'" using assms(2) by (cases cs) auto
  then have "slash \<notin> set c" "c \<noteq> []" using assms(1) by simp_all
  then obtain a as where a: "c = a # as" "a \<noteq> slash" by (cases c) auto
  have "join_str ''/'' cs = a # as @ (if cs' = [] then [] else ''/'' @ join_str ''/'' cs')"
    unfolding cs a(1) by (cases cs') simp_all
  then show ?thesis using a(2) by simp
qed

lemma rel_comps_seps:
  assumes "\<not> hasPrefix q ''/''"
  shows "\<forall>c\<in>set (path_comps q). slash \<notin> set c \<and> c \<noteq> []"
proof -
  obtain n qs where form: "path_comps q = replicate n ''..'' @ qs" "list_all plain_comp qs"
    using rel_comps_form [OF assms] .
  have "slash \<notin> set c \<and> c \<noteq> []" if "c \<in> set (path_comps q)" for c
  proof -
    have "c \<in> set (replicate n ''..'') \<or> c \<in> set qs" using that unfolding form(1) by simp
    then show ?thesis
    proof
      assume "c \<in> set (replicate n ''..'')"
      then have "c = ''..''" by (rule in_set_replicate [THEN iffD1, THEN conjunct1])
      then show ?thesis by simp
    next
      assume "c \<in> set qs"
      then have "plain_comp c" using form(2) by (simp only: list_all_iff)
      then show ?thesis by (simp only: plain_comp_def simp_thms)
    qed
  qed
  then show ?thesis by blast
qed

lemma path_comps_Clean: "path_comps (path_Clean q) = path_comps q"
proof (cases "hasPrefix q ''/''")
  case True
  then show ?thesis using path_comps_of_rooted [OF rooted_comps_plain] by (simp add: path_Clean_rooted)
next
  case False
  obtain n qs where form: "path_comps q = replicate n ''..'' @ qs" "list_all plain_comp qs"
    using rel_comps_form [OF False] .
  show ?thesis
  proof (cases "path_comps q = []")
    case True
    then show ?thesis using False by (auto simp: path_Clean_def path_comps_def clean_comps_cases)
  next
    case ne: False
    note sep = rel_comps_seps [OF False]
    have split: "split_char slash (join_str ''/'' (path_comps q)) = path_comps q"
      using split_join ne sep by blast
    have "\<not> hasPrefix (join_str ''/'' (path_comps q)) ''/''"
      using join_not_rooted [OF sep ne] .
    then have "path_comps (join_str ''/'' (path_comps q)) = clean_comps False (path_comps q) []"
      by (simp add: path_comps_def [of "join_str ''/'' (path_comps q)"] split)
    also have "\<dots> = path_comps q" using clean_comps_ups [OF form(2), of n 0] form(1) by simp
    finally have "path_comps (join_str ''/'' (path_comps q)) = path_comps q" .
    moreover have "q \<noteq> []" using ne by (auto simp: path_comps_def clean_comps_cases)
    ultimately show ?thesis using False ne by (simp add: path_Clean_def)
  qed
qed

lemma hasPrefix_Clean: "q \<noteq> [] \<Longrightarrow> hasPrefix (path_Clean q) ''/'' = hasPrefix q ''/''"
proof (cases "hasPrefix q ''/''")
  case False
  then show ?thesis
    using join_not_rooted [OF rel_comps_seps [OF False]] by (auto simp: path_Clean_def)
qed (simp add: path_Clean_rooted)

end
