(* ===== verification/Go_Http.thy ===== *)
theory Go_Http
  imports Go_Path
begin

text \<open>
  The parts of Go's errors and net/http packages the gateway is written
  against: error values with their chains, header maps with canonical keys,
  requests, responses and the response writer.  A kratos error is the struct of
  that package (its fields are read and written by the gateway); its Is
  method is a parameter of the functions that compare errors.
\<close>

section \<open>Errors\<close>

record kratos_error =
  ke_code :: int
  ke_reason :: string
  ke_message :: string
  ke_metadata :: "(string \<times> string) list"

text \<open>Error values: kratos errors, the sentinels of package context, other
  package-level sentinels (by name), plain text, \<open>fmt.Errorf\<close> with
  one \<open>%w\<close> (its whole text and the wrapped error) and
  \<open>errors.Join\<close>.\<close>

datatype err =
    KratosErr kratos_error
  | CtxCanceled
  | CtxDeadlineExceeded
  | Sentinel string
  | PlainErr string
  | WrapErr string err
  | JoinErr "err list"

text \<open>errors.As with a kratos error target: the first kratos error of the
  chain, depth first.\<close>

fun err_as_kratos :: "err \<Rightarrow> kratos_error option" where
  "err_as_kratos (KratosErr k) = Some k"
| "err_as_kratos CtxCanceled = None"
| "err_as_kratos CtxDeadlineExceeded = None"
| "err_as_kratos (Sentinel s) = None"
| "err_as_kratos (PlainErr s) = None"
| "err_as_kratos (WrapErr s e) = err_as_kratos e"
| "err_as_kratos (JoinErr []) = None"
| "err_as_kratos (JoinErr (e # es)) =
     (case err_as_kratos e of Some k \<Rightarrow> Some k | None \<Rightarrow> err_as_kratos (JoinErr es))"

text \<open>errors.Is: some error of the chain equals the target, or is a kratos
  error whose Is method (the parameter) accepts it.\<close>

fun err_is :: "(kratos_error \<Rightarrow> err \<Rightarrow> bool) \<Rightarrow> err \<Rightarrow> err \<Rightarrow> bool" where
  "err_is kis (KratosErr k) t = kis k t"
| "err_is kis CtxCanceled t = (t = CtxCanceled)"
| "err_is kis CtxDeadlineExceeded t = (t = CtxDeadlineExceeded)"
| "err_is kis (Sentinel s) t = (t = Sentinel s)"
| "err_is kis (PlainErr s) t = False"
| "err_is kis (WrapErr s e) t = err_is kis e t"
| "err_is kis (JoinErr []) t = False"
| "err_is kis (JoinErr (e # es)) t = (err_is kis e t \<or> err_is kis (JoinErr es) t)"

text \<open>The text of an error that is no kratos error.  A kratos error prints
  through its own method, which the gateway only uses in log lines.\<close>

fun err_text :: "(kratos_error \<Rightarrow> string) \<Rightarrow> err \<Rightarrow> string" where
  "err_text kt (KratosErr k) = kt k"
| "err_text kt CtxCanceled = ''context canceled''"
| "err_text kt CtxDeadlineExceeded = ''context deadline exceeded''"
| "err_text kt (Sentinel s) = s"
| "err_text kt (PlainErr s) = s"
| "err_text kt (WrapErr s e) = s"
| "err_text kt (JoinErr es) = join_str [CHR 0x0A] (map (err_text kt) es)"

section \<open>Header maps\<close>

type_synonym header = "string \<rightharpoonup> string list"

definition token_char :: "char \<Rightarrow> bool" where
  "token_char c \<longleftrightarrow> is_digit c \<or> (65 \<le> byte c \<and> byte c \<le> 90) \<or> (97 \<le> byte c \<and> byte c \<le> 122)
     \<or> c \<in> set ''!#$%&*+-.^_|~'' \<or> byte c = 39 \<or> byte c = 96"

fun canon_from :: "bool \<Rightarrow> string \<Rightarrow> string" where
  "canon_from up [] = []"
| "canon_from up (c # cs) =
     (if up then upper_char c else lower_char c) # canon_from (c = CHR ''-'') cs"

definition canonKey :: "string \<Rightarrow> string" where
  "canonKey k = (if list_all token_char k then canon_from True k else k)"

definition hget :: "header \<Rightarrow> string \<Rightarrow> string" where
  "hget h k = (case h (canonKey k) of Some (v # _) \<Rightarrow> v | _ \<Rightarrow> [])"

definition hset :: "header \<Rightarrow> string \<Rightarrow> string \<Rightarrow> header" where
  "hset h k v = h(canonKey k \<mapsto> [v])"

definition hadd :: "header \<Rightarrow> string \<Rightarrow> string \<Rightarrow> header" where
  "hadd h k v = h(canonKey k \<mapsto> (case h (canonKey k) of None \<Rightarrow> [v] | Some vs \<Rightarrow> vs @ [v]))"

definition hdel :: "header \<Rightarrow> string \<Rightarrow> header" where
  "hdel h k = h(canonKey k := None)"

lemma hget_hset_same [simp]: "hget (hset h k v) k = v"
  by (simp add: hget_def hset_def)

lemma hget_hset_other: "canonKey k \<noteq> canonKey k' \<Longrightarrow> hget (hset h k v) k' = hget h k'"
  by (simp add: hget_def hset_def)

lemma hget_hset: "hget (hset h k v) k' = (if canonKey k = canonKey k' then v else hget h k')"
  by (simp add: hget_def hset_def)

lemma hget_hdel: "hget (hdel h k) k' = (if canonKey k = canonKey k' then [] else hget h k')"
  by (simp add: hget_def hdel_def)

text \<open>Evaluation of canonical keys on literals.\<close>

lemma token_char_lits [simp]:
  "token_char (CHR ''a'')" "token_char (CHR ''b'')" "token_char (CHR ''c'')"
  "token_char (CHR ''d'')" "token_char (CHR ''e'')" "token_char (CHR ''f'')"
  "token_char (CHR ''g'')" "token_char (CHR ''h'')" "token_char (CHR ''i'')"
  "token_char (CHR ''j'')" "token_char (CHR ''k'')" "token_char (CHR ''l'')"
  "token_char (CHR ''m'')" "token_char (CHR ''n'')" "token_char (CHR ''o'')"
  "token_char (CHR ''p'')" "token_char (CHR ''q'')" "token_char (CHR ''r'')"
  "token_char (CHR ''s'')" "token_char (CHR ''t'')" "token_char (CHR ''u'')"
  "token_char (CHR ''v'')" "token_char (CHR ''w'')" "token_char (CHR ''x'')"
  "token_char (CHR ''y'')" "token_char (CHR ''z'')" "token_char (CHR ''A'')"
  "token_char (CHR ''B'')" "token_char (CHR ''C'')" "token_char (CHR ''D'')"
  "token_char (CHR ''E'')" "token_char (CHR ''F'')" "token_char (CHR ''G'')"
  "token_char (CHR ''H'')" "token_char (CHR ''I'')" "token_char (CHR ''J'')"
  "token_char (CHR ''K'')" "token_char (CHR ''L'')" "token_char (CHR ''M'')"
  "token_char (CHR ''N'')" "token_char (CHR ''O'')" "token_char (CHR ''P'')"
  "token_char (CHR ''Q'')" "token_char (CHR ''R'')" "token_char (CHR ''S'')"
  "token_char (CHR ''T'')" "token_char (CHR ''U'')" "token_char (CHR ''V'')"
  "token_char (CHR ''W'')" "token_char (CHR ''X'')" "token_char (CHR ''Y'')"
  "token_char (CHR ''Z'')" "token_char (CHR ''0'')" "token_char (CHR ''1'')"
  "token_char (CHR ''2'')" "token_char (CHR ''3'')" "token_char (CHR ''4'')"
  "token_char (CHR ''5'')" "token_char (CHR ''6'')" "token_char (CHR ''7'')"
  "token_char (CHR ''8'')" "token_char (CHR ''9'')" "token_char (CHR ''-'')"
  by (simp_all add: token_char_def is_digit_def byte_def)

lemma upper_char_lits [simp]:
  "upper_char (CHR ''a'') = CHR ''A''" "upper_char (CHR ''b'') = CHR ''B''"
  "upper_char (CHR ''c'') = CHR ''C''" "upper_char (CHR ''d'') = CHR ''D''"
  "upper_char (CHR ''e'') = CHR ''E''" "upper_char (CHR ''f'') = CHR ''F''"
  "upper_char (CHR ''g'') = CHR ''G''" "upper_char (CHR ''h'') = CHR ''H''"
  "upper_char (CHR ''i'') = CHR ''I''" "upper_char (CHR ''j'') = CHR ''J''"
  "upper_char (CHR ''k'') = CHR ''K''" "upper_char (CHR ''l'') = CHR ''L''"
  "upper_char (CHR ''m'') = CHR ''M''" "upper_char (CHR ''n'') = CHR ''N''"
  "upper_char (CHR ''o'') = CHR ''O''" "upper_char (CHR ''p'') = CHR ''P''"
  "upper_char (CHR ''q'') = CHR ''Q''" "upper_char (CHR ''r'') = CHR ''R''"
  "upper_char (CHR ''s'') = CHR ''S''" "upper_char (CHR ''t'') = CHR ''T''"
  "upper_char (CHR ''u'') = CHR ''U''" "upper_char (CHR ''v'') = CHR ''V''"
  "upper_char (CHR ''w'') = CHR ''W''" "upper_char (CHR ''x'') = CHR ''X''"
  "upper_char (CHR ''y'') = CHR ''Y''" "upper_char (CHR ''z'') = CHR ''Z''"
  "upper_char (CHR ''A'') = CHR ''A''" "upper_char (CHR ''B'') = CHR ''B''"
  "upper_char (CHR ''C'') = CHR ''C''" "upper_char (CHR ''D'') = CHR ''D''"
  "upper_char (CHR ''E'') = CHR ''E''" "upper_char (CHR ''F'') = CHR ''F''"
  "upper_char (CHR ''G'') = CHR ''G''" "upper_char (CHR ''H'') = CHR ''H''"
  "upper_char (CHR ''I'') = CHR ''I''" "upper_char (CHR ''J'') = CHR ''J''"
  "upper_char (CHR ''K'') = CHR ''K''" "upper_char (CHR ''L'') = CHR ''L''"
  "upper_char (CHR ''M'') = CHR ''M''" "upper_char (CHR ''N'') = CHR ''N''"
  "upper_char (CHR ''O'') = CHR ''O''" "upper_char (CHR ''P'') = CHR ''P''"
  "upper_char (CHR ''Q'') = CHR ''Q''" "upper_char (CHR ''R'') = CHR ''R''"
  "upper_char (CHR ''S'') = CHR ''S''" "upper_char (CHR ''T'') = CHR ''T''"
  "upper_char (CHR ''U'') = CHR ''U''" "upper_char (CHR ''V'') = CHR ''V''"
  "upper_char (CHR ''W'') = CHR ''W''" "upper_char (CHR ''X'') = CHR ''X''"
  "upper_char (CHR ''Y'') = CHR ''Y''" "upper_char (CHR ''Z'') = CHR ''Z''"
  "upper_char (CHR ''0'') = CHR ''0''" "upper_char (CHR ''1'') = CHR ''1''"
  "upper_char (CHR ''2'') = CHR ''2''" "upper_char (CHR ''3'') = CHR ''3''"
  "upper_char (CHR ''4'') = CHR ''4''" "upper_char (CHR ''5'') = CHR ''5''"
  "upper_char (CHR ''6'') = CHR ''6''" "upper_char (CHR ''7'') = CHR ''7''"
  "upper_char (CHR ''8'') = CHR ''8''" "upper_char (CHR ''9'') = CHR ''9''"
  "upper_char (CHR ''-'') = CHR ''-''"
  by (simp_all add: upper_char_def byte_def char_of_def bit_iff_odd)

lemma lower_char_lits [simp]:
  "lower_char (CHR ''a'') = CHR ''a''" "lower_char (CHR ''b'') = CHR ''b''"
  "lower_char (CHR ''c'') = CHR ''c''" "lower_char (CHR ''d'') = CHR ''d''"
  "lower_char (CHR ''e'') = CHR ''e''" "lower_char (CHR ''f'') = CHR ''f''"
  "lower_char (CHR ''g'') = CHR ''g''" "lower_char (CHR ''h'') = CHR ''h''"
  "lower_char (CHR ''i'') = CHR ''i''" "lower_char (CHR ''j'') = CHR ''j''"
  "lower_char (CHR ''k'') = CHR ''k''" "lower_char (CHR ''l'') = CHR ''l''"
  "lower_char (CHR ''m'') = CHR ''m''" "lower_char (CHR ''n'') = CHR ''n''"
  "lower_char (CHR ''o'') = CHR ''o''" "lower_char (CHR ''p'') = CHR ''p''"
  "lower_char (CHR ''q'') = CHR ''q''" "lower_char (CHR ''r'') = CHR ''r''"
  "lower_char (CHR ''s'') = CHR ''s''" "lower_char (CHR ''t'') = CHR ''t''"
  "lower_char (CHR ''u'') = CHR ''u''" "lower_char (CHR ''v'') = CHR ''v''"
  "lower_char (CHR ''w'') = CHR ''w''" "lower_char (CHR ''x'') = CHR ''x''"
  "lower_char (CHR ''y'') = CHR ''y''" "lower_char (CHR ''z'') = CHR ''z''"
  "lower_char (CHR ''A'') = CHR ''a''" "lower_char (CHR ''B'') = CHR ''b''"
  "lower_char (CHR ''C'') = CHR ''c''" "lower_char (CHR ''D'') = CHR ''d''"
  "lower_char (CHR ''E'') = CHR ''e''" "lower_char (CHR ''F'') = CHR ''f''"
  "lower_char (CHR ''G'') = CHR ''g''" "lower_char (CHR ''H'') = CHR ''h''"
  "lower_char (CHR ''I'') = CHR ''i''" "lower_char (CHR ''J'') = CHR ''j''"
  "lower_char (CHR ''K'') = CHR ''k''" "lower_char (CHR ''L'') = CHR ''l''"
  "lower_char (CHR ''M'') = CHR ''m''" "lower_char (CHR ''N'') = CHR ''n''"
  "lower_char (CHR ''O'') = CHR ''o''" "lower_char (CHR ''P'') = CHR ''p''"
  "lower_char (CHR ''Q'') = CHR ''q''" "lower_char (CHR ''R'') = CHR ''r''"
  "lower_char (CHR ''S'') = CHR ''s''" "lower_char (CHR ''T'') = CHR ''t''"
  "lower_char (CHR ''U'') = CHR ''u''" "lower_char (CHR ''V'') = CHR ''v''"
  "lower_char (CHR ''W'') = CHR ''w''" "lower_char (CHR ''X'') = CHR ''x''"
  "lower_char (CHR ''Y'') = CHR ''y''" "lower_char (CHR ''Z'') = CHR ''z''"
  "lower_char (CHR ''0'') = CHR ''0''" "lower_char (CHR ''1'') = CHR ''1''"
  "lower_char (CHR ''2'') = CHR ''2''" "lower_char (CHR ''3'') = CHR ''3''"
  "lower_char (CHR ''4'') = CHR ''4''" "lower_char (CHR ''5'') = CHR ''5''"
  "lower_char (CHR ''6'') = CHR ''6''" "lower_char (CHR ''7'') = CHR ''7''"
  "lower_char (CHR ''8'') = CHR ''8''" "lower_char (CHR ''9'') = CHR ''9''"
  "lower_char (CHR ''-'') = CHR ''-''"
  by (simp_all add: lower_char_def byte_def char_of_def bit_iff_odd)

lemma canonKey_lits [simp]:
  "canonKey ''Content-Type'' = ''Content-Type''"
  "canonKey ''Origin'' = ''Origin''"
  "canonKey ''X-Error-Reason'' = ''X-Error-Reason''"
  "canonKey ''X-Content-Type-Options'' = ''X-Content-Type-Options''"
  "canonKey ''Grpc-Message'' = ''Grpc-Message''"
  "canonKey ''Grpc-Status'' = ''Grpc-Status''"
  "canonKey ''Access-Control-Max-Age'' = ''Access-Control-Max-Age''"
  "canonKey ''Access-Control-Expose-Headers'' = ''Access-Control-Expose-Headers''"
  "canonKey ''Access-Control-Allow-Credentials'' = ''Access-Control-Allow-Credentials''"
  "canonKey ''Access-Control-Allow-Headers'' = ''Access-Control-Allow-Headers''"
  "canonKey ''Access-Control-Allow-Methods'' = ''Access-Control-Allow-Methods''"
  "canonKey ''Access-Control-Allow-Origin'' = ''Access-Control-Allow-Origin''"
  "canonKey ''X-Forwarded-For'' = ''X-Forwarded-For''"
  "canonKey ''Authorization'' = ''Authorization''"
  "canonKey UserIdMetadataKey = ''X-Md-Global-User-Id''"
  "canonKey UserNameMetadataKey = ''X-Md-Global-Name''"
  "canonKey UserRoleMetadataKey = ''X-Md-Global-Role''"
  "canonKey UserOwnerMetadataKey = ''X-Md-Global-Owner''"
  "canonKey ''Vary'' = ''Vary''"
  "canonKey ''Accept'' = ''Accept''"
  "canonKey ''Content-Length'' = ''Content-Length''"
  "canonKey ''Access-Control-Allow-Private-Network'' = ''Access-Control-Allow-Private-Network''"
  "canonKey ''Access-Control-Request-Private-Network'' = ''Access-Control-Request-Private-Network''"
  "canonKey ''Access-Control-Request-Method'' = ''Access-Control-Request-Method''"
  "canonKey ''Access-Control-Request-Headers'' = ''Access-Control-Request-Headers''"
  "canonKey ''X-Real-IP'' = ''X-Real-Ip''"
  by (simp_all add: canonKey_def)

section \<open>Requests and responses\<close>

text \<open>The last field of a request is the original path the proxy stores in
  the request's context.  A body is what reading it to the end gives: the bytes before the end or
  the first error, and that error.\<close>

record body =
  bd_data :: string
  bd_err :: "err option"

record request =
  rq_method :: string
  rq_host :: string
  rq_scheme :: string
  rq_url_host :: string
  rq_path :: string
  rq_remote_addr :: string
  rq_header :: header
  rq_body :: body
  rq_content_length :: int
  rq_request_uri :: string
  rq_ctx_path :: "string option"

text \<open>A response of an upstream or of a middleware.  \<open>None\<close> as
  header is the nil map: reads see no entry, a write panics.  \<open>None\<close>
  as body is a nil body.\<close>

record response =
  rs_status :: int
  rs_header :: "header option"
  rs_trailer :: header
  rs_body :: "body option"
  rs_content_length :: int

definition rs_get :: "response \<Rightarrow> string \<Rightarrow> string" where
  "rs_get r k = (case rs_header r of None \<Rightarrow> [] | Some h \<Rightarrow> hget h k)"

text \<open>The pair a Go RoundTripper returns, or a panic.\<close>

datatype rt_result = Ret "response option" "err option" | Panicked

type_synonym 'w round_tripper = "request \<Rightarrow> 'w \<Rightarrow> rt_result \<times> 'w"

section \<open>net.SplitHostPort\<close>

definition last_colon :: "string \<Rightarrow> nat option" where
  "last_colon s = last_index_of (\<lambda>c. c = CHR '':'') s"

fun index_of :: "char \<Rightarrow> string \<Rightarrow> nat option" where
  "index_of c [] = None"
| "index_of c (x # xs) = (if x = c then Some 0 else map_option Suc (index_of c xs))"

definition splitHostPort :: "string \<Rightarrow> (string \<times> string) option" where
  "splitHostPort s =
    (case last_colon s of
       None \<Rightarrow> None
     | Some i \<Rightarrow>
         if hasPrefix s ''['' then
           (case index_of (CHR '']'') s of
              None \<Rightarrow> None
            | Some e \<Rightarrow>
                if Suc e \<noteq> i then None
                else if CHR ''['' \<in> set (drop 1 s) \<or> CHR '']'' \<in> set (drop (Suc e) s) then None
                else Some (take (e - 1) (drop 1 s), drop (Suc i) s))
         else if CHR '':'' \<in> set (take i s) then None
         else if CHR ''['' \<in> set s \<or> CHR '']'' \<in> set s then None
         else Some (take i s, drop (Suc i) s))"

end
