(* ===== verification/Gw_Errors.thy ===== *)
theory Gw_Errors
  imports Go_Http
begin

text \<open>
  Package errors, files constants.go and mapping.go: the reasons, the Connect
  codes, the error values of the gateway, and the functions that map a status
  to a Connect code and normalise a reason and a message.  The user-facing
  messages are the UTF-8 bytes of the Go literals.
\<close>

section \<open>constants.go and the constants of mapping.go\<close>

abbreviation InvalidParam :: string where
  "InvalidParam \<equiv> ''INVALID_PARAM''"

abbreviation MissingParam :: string where
  "MissingParam \<equiv> ''MISSING_PARAM''"

abbreviation InvalidRequest :: string where
  "InvalidRequest \<equiv> ''INVALID_REQUEST''"

abbreviation Unauthenticated :: string where
  "Unauthenticated \<equiv> ''UNAUTHENTICATED''"

abbreviation PermissionDenied :: string where
  "PermissionDenied \<equiv> ''PERMISSION_DENIED''"

abbreviation TokenExpired :: string where
  "TokenExpired \<equiv> ''TOKEN_EXPIRED''"

abbreviation InternalError :: string where
  "InternalError \<equiv> ''INTERNAL_ERROR''"

abbreviation ServiceUnavailable :: string where
  "ServiceUnavailable \<equiv> ''SERVICE_UNAVAILABLE''"

abbreviation Timeout :: string where
  "Timeout \<equiv> ''TIMEOUT''"

abbreviation AuthCheckFailed :: string where
  "AuthCheckFailed \<equiv> ''AUTH_CHECK_FAILED''"

abbreviation ForbiddenRoute :: string where
  "ForbiddenRoute \<equiv> ''FORBIDDEN_ROUTE''"

abbreviation OperationDenied :: string where
  "OperationDenied \<equiv> ''OPERATION_DENIED''"

abbreviation InvalidFile :: string where
  "InvalidFile \<equiv> ''INVALID_FILE''"

abbreviation FileReadError :: string where
  "FileReadError \<equiv> ''FILE_READ_ERROR''"

abbreviation DataEmpty :: string where
  "DataEmpty \<equiv> ''DATA_EMPTY''"

abbreviation PEM_DECODE_FAILED :: string where
  "PEM_DECODE_FAILED \<equiv> ''PEM_DECODE_FAILED''"

abbreviation CERT_PARSE_FAILED :: string where
  "CERT_PARSE_FAILED \<equiv> ''CERT_PARSE_FAILED''"

abbreviation NOT_RSA_PUBLIC_KEY :: string where
  "NOT_RSA_PUBLIC_KEY \<equiv> ''NOT_RSA_PUBLIC_KEY''"

abbreviation INVALID_SIGNING_METHOD :: string where
  "INVALID_SIGNING_METHOD \<equiv> ''INVALID_SIGNING_METHOD''"

abbreviation TOKEN_PARSE_FAILED :: string where
  "TOKEN_PARSE_FAILED \<equiv> ''TOKEN_PARSE_FAILED''"

abbreviation INVALID_TOKEN_CLAIMS :: string where
  "INVALID_TOKEN_CLAIMS \<equiv> ''INVALID_TOKEN_CLAIMS''"

abbreviation MISSING_AUTH_TOKEN :: string where
  "MISSING_AUTH_TOKEN \<equiv> ''MISSING_AUTH_TOKEN''"

definition ErrForbiddenRouteMsg :: string where
  "ErrForbiddenRouteMsg = bytes [229, 189, 147, 229, 137, 141, 232, 167, 146, 232, 137, 178, 230, 151, 160, 230,
     157, 131, 232, 174, 191, 233, 151, 174, 232, 175, 165, 232, 181, 132, 230, 186, 144,
     230, 136, 150, 233, 161, 181, 233, 157, 162]"

definition ErrFileContentEmptyMsg :: string where
  "ErrFileContentEmptyMsg = bytes [232, 175, 187, 229, 143, 150, 229, 164, 177, 232, 180, 165, 239, 188, 154, 230,
     150, 135, 228, 187, 182, 229, 134, 133, 229, 174, 185, 228, 184, 186, 231, 169, 186,
     239, 188, 140, 232, 175, 183, 230, 163, 128, 230, 159, 165, 230, 150, 135, 228, 187,
     182, 230, 149, 176, 230, 141, 174]"

abbreviation CodeCanceled :: string where
  "CodeCanceled \<equiv> ''canceled''"

abbreviation CodeUnknown :: string where
  "CodeUnknown \<equiv> ''unknown''"

abbreviation CodeInvalidArgument :: string where
  "CodeInvalidArgument \<equiv> ''invalid_argument''"

abbreviation CodeDeadlineExceeded :: string where
  "CodeDeadlineExceeded \<equiv> ''deadline_exceeded''"

abbreviation CodeNotFound :: string where
  "CodeNotFound \<equiv> ''not_found''"

abbreviation CodeAlreadyExists :: string where
  "CodeAlreadyExists \<equiv> ''already_exists''"

abbreviation CodePermissionDenied :: string where
  "CodePermissionDenied \<equiv> ''permission_denied''"

abbreviation CodeResourceExhausted :: string where
  "CodeResourceExhausted \<equiv> ''resource_exhausted''"

abbreviation CodeFailedPrecondition :: string where
  "CodeFailedPrecondition \<equiv> ''failed_precondition''"

abbreviation CodeAborted :: string where
  "CodeAborted \<equiv> ''aborted''"

abbreviation CodeOutOfRange :: string where
  "CodeOutOfRange \<equiv> ''out_of_range''"

abbreviation CodeUnimplemented :: string where
  "CodeUnimplemented \<equiv> ''unimplemented''"

abbreviation CodeInternal :: string where
  "CodeInternal \<equiv> ''internal''"

abbreviation CodeUnavailable :: string where
  "CodeUnavailable \<equiv> ''unavailable''"

abbreviation CodeDataLoss :: string where
  "CodeDataLoss \<equiv> ''data_loss''"

abbreviation CodeUnauthenticated :: string where
  "CodeUnauthenticated \<equiv> ''unauthenticated''"

abbreviation ReasonNoAvailableNode :: string where
  "ReasonNoAvailableNode \<equiv> ''NO_AVAILABLE_NODE''"

abbreviation ReasonNotFound :: string where
  "ReasonNotFound \<equiv> ''NOT_FOUND''"

abbreviation ReasonMethodNotAllowed :: string where
  "ReasonMethodNotAllowed \<equiv> ''METHOD_NOT_ALLOWED''"

abbreviation ReasonCanceled :: string where
  "ReasonCanceled \<equiv> ''CANCELED''"

abbreviation ReasonDeadlineExceeded :: string where
  "ReasonDeadlineExceeded \<equiv> ''DEADLINE_EXCEEDED''"

abbreviation ReasonBadGateway :: string where
  "ReasonBadGateway \<equiv> ''BAD_GATEWAY''"

abbreviation ReasonUnknown :: string where
  "ReasonUnknown \<equiv> ''UNKNOWN_ERROR''"

abbreviation ErrorDomain :: string where
  "ErrorDomain \<equiv> ''gateway''"

text \<open>kratos errors.New: the fields given, no metadata.\<close>

definition kratos_New :: "int \<Rightarrow> string \<Rightarrow> string \<Rightarrow> kratos_error" where
  "kratos_New code reason msg =
    \<lparr>ke_code = code, ke_reason = reason, ke_message = msg, ke_metadata = []\<rparr>"

definition ErrPermissionDenied :: kratos_error where
  "ErrPermissionDenied = kratos_New 403 PermissionDenied
     (bytes [230, 157, 131, 233, 153, 144, 230, 160, 161, 233, 170, 140, 229, 164, 177, 232,
     180, 165, 239, 188, 140, 232, 175, 183, 230, 163, 128, 230, 159, 165, 230, 147, 141,
     228, 189, 156, 230, 157, 131, 233, 153, 144])"

definition ErrForbiddenRoute :: kratos_error where
  "ErrForbiddenRoute = kratos_New 403 ForbiddenRoute
     ErrForbiddenRouteMsg"

definition ErrOperationDenied :: kratos_error where
  "ErrOperationDenied = kratos_New 403 OperationDenied
     (bytes [230, 147, 141, 228, 189, 156, 230, 157, 131, 233, 153, 144, 228, 184, 141, 232,
     182, 179, 239, 188, 140, 232, 175, 183, 232, 129, 148, 231, 179, 187, 231, 174, 161,
     231, 144, 134, 229, 145, 152, 229, 136, 134, 233, 133, 141, 230, 157, 131, 233, 153,
     144])"

definition ErrAuthCheckFailed :: kratos_error where
  "ErrAuthCheckFailed = kratos_New 500 AuthCheckFailed
     (bytes [230, 151, 160, 230, 179, 149, 233, 170, 140, 232, 175, 129, 230, 157, 131, 233,
     153, 144])"

definition ErrEmptyFile :: kratos_error where
  "ErrEmptyFile = kratos_New 400 InvalidFile
     (bytes [228, 184, 138, 228, 188, 160, 230, 150, 135, 228, 187, 182, 229, 134, 133, 229,
     174, 185, 228, 184, 141, 232, 131, 189, 228, 184, 186, 231, 169, 186])"

definition ErrFileContentEmpty :: kratos_error where
  "ErrFileContentEmpty = kratos_New 422 DataEmpty
     ErrFileContentEmptyMsg"

definition ErrInvalidRequest :: kratos_error where
  "ErrInvalidRequest = kratos_New 400 InvalidRequest
     (bytes [230, 151, 160, 230, 149, 136, 231, 154, 132, 232, 175, 183, 230, 177, 130, 229,
     143, 130, 230, 149, 176])"

definition ErrServiceUnavailable :: kratos_error where
  "ErrServiceUnavailable = kratos_New 503 ServiceUnavailable
     (bytes [230, 156, 141, 229, 138, 161, 230, 154, 130, 230, 151, 182, 228, 184, 141, 229,
     143, 175, 231, 148, 168, 239, 188, 140, 232, 175, 183, 231, 168, 141, 229, 144, 142,
     229, 134, 141, 232, 175, 149])"

definition ErrRouteNotFound :: kratos_error where
  "ErrRouteNotFound = kratos_New 404 ReasonNotFound
     (bytes [232, 175, 183, 230, 177, 130, 231, 154, 132, 232, 181, 132, 230, 186, 144, 228,
     184, 141, 229, 173, 152, 229, 156, 168])"

definition ErrMethodNotAllowed :: kratos_error where
  "ErrMethodNotAllowed = kratos_New 405 ReasonMethodNotAllowed
     (bytes [232, 175, 183, 230, 177, 130, 230, 150, 185, 230, 179, 149, 228, 184, 141, 232,
     162, 171, 229, 133, 129, 232, 174, 184])"

definition ErrInternalServer :: kratos_error where
  "ErrInternalServer = kratos_New 500 InternalError
     (bytes [230, 156, 141, 229, 138, 161, 229, 134, 133, 233, 131, 168, 233, 148, 153, 232,
     175, 175, 239, 188, 140, 232, 175, 183, 231, 168, 141, 229, 144, 142, 233, 135, 141,
     232, 175, 149])"

definition ErrBadGateway :: kratos_error where
  "ErrBadGateway = kratos_New 502 ReasonBadGateway
     (bytes [231, 189, 145, 229, 133, 179, 230, 151, 160, 230, 179, 149, 232, 191, 158, 230,
     142, 165, 229, 136, 176, 229, 144, 142, 231, 171, 175, 230, 156, 141, 229, 138, 161])"

lemmas gateway_error_defs =
  kratos_New_def ErrPermissionDenied_def ErrForbiddenRoute_def ErrOperationDenied_def ErrAuthCheckFailed_def ErrEmptyFile_def ErrFileContentEmpty_def ErrInvalidRequest_def ErrServiceUnavailable_def ErrRouteNotFound_def ErrMethodNotAllowed_def ErrInternalServer_def ErrBadGateway_def

section \<open>mapping.go\<close>

abbreviation StatusClientClosedRequest :: int where
  "StatusClientClosedRequest \<equiv> 499"

definition httpToConnectCode :: "(int \<times> string) list" where
  "httpToConnectCode =
    [(400, CodeInvalidArgument), (401, CodeUnauthenticated), (403, CodePermissionDenied),
     (404, CodeNotFound), (405, CodeUnimplemented), (409, CodeAborted),
     (412, CodeFailedPrecondition), (413, CodeResourceExhausted), (422, CodeInvalidArgument),
     (429, CodeResourceExhausted), (StatusClientClosedRequest, CodeCanceled),
     (500, CodeInternal), (501, CodeUnimplemented), (502, CodeUnavailable),
     (503, CodeUnavailable), (504, CodeDeadlineExceeded)]"

definition ConnectCodeFromHTTP :: "int \<Rightarrow> string" where
  "ConnectCodeFromHTTP status =
    (case map_of httpToConnectCode status of
       Some code \<Rightarrow> code
     | None \<Rightarrow>
         if status \<ge> 500 then CodeInternal
         else if status \<ge> 400 then CodeInvalidArgument
         else CodeUnknown)"

definition reasonFromStatus :: "int \<Rightarrow> string" where
  "reasonFromStatus status =
    (if status = 401 then Unauthenticated
     else if status = 403 then PermissionDenied
     else if status = 404 then ReasonNotFound
     else if status = 405 then ReasonMethodNotAllowed
     else if status = 400 \<or> status = 422 then InvalidRequest
     else if status = StatusClientClosedRequest then ReasonCanceled
     else if status = 504 then ReasonDeadlineExceeded
     else if status = 502 then ReasonBadGateway
     else if status = 503 then ServiceUnavailable
     else if status = 500 then InternalError
     else ReasonUnknown)"

text \<open>The rune function of NormalizeReason, on an ASCII rune.\<close>

definition reason_char :: "char \<Rightarrow> char" where
  "reason_char c =
    (if 97 \<le> byte c \<and> byte c \<le> 122 then char_of (byte c - 32)
     else if (65 \<le> byte c \<and> byte c \<le> 90) \<or> (48 \<le> byte c \<and> byte c \<le> 57) then c
     else CHR ''_'')"

text \<open>strings.Map with that function: every rune outside ASCII becomes one
  underscore, whatever its width.\<close>

function map_reason :: "string \<Rightarrow> string" where
  "map_reason [] = []"
| "map_reason (c # cs) =
     (if byte c < 128 then reason_char c # map_reason cs
      else CHR ''_'' # map_reason (drop (rune_width (c # cs)) (c # cs)))"
  by pat_completeness auto
termination
proof (relation "measure length")
  fix c :: char and cs :: string
  show "(drop (rune_width (c # cs)) (c # cs), c # cs) \<in> measure length"
    using rune_width_pos [of c cs] by (simp add: less_Suc_eq_le)
qed auto

definition NormalizeReason :: "string \<Rightarrow> int \<Rightarrow> string" where
  "NormalizeReason reason status =
    (let normalized = map_reason (trimSpace reason)
     in if normalized = [] \<or> normalized = ''UNKNOWN'' then reasonFromStatus status
        else normalized)"

definition reasonMessages :: "(string \<times> string) list" where
  "reasonMessages =
    [(ReasonNoAvailableNode, bytes [229, 144, 142, 231, 171, 175, 230, 156, 141, 229, 138,
       161, 230, 154, 130, 228, 184, 141, 229, 143, 175, 231, 148, 168, 239, 188, 140,
       232, 175, 183, 231, 168, 141, 229, 144, 142, 233, 135, 141, 232, 175, 149]),
     (ReasonNotFound, bytes [232, 175, 183, 230, 177, 130, 231, 154, 132, 232, 181, 132, 230,
       186, 144, 228, 184, 141, 229, 173, 152, 229, 156, 168]),
     (ReasonMethodNotAllowed, bytes [232, 175, 183, 230, 177, 130, 230, 150, 185, 230, 179,
       149, 228, 184, 141, 232, 162, 171, 229, 133, 129, 232, 174, 184]),
     (ReasonCanceled, bytes [232, 175, 183, 230, 177, 130, 229, 183, 178, 232, 162, 171, 229,
       143, 150, 230, 182, 136]),
     (ReasonDeadlineExceeded, bytes [232, 175, 183, 230, 177, 130, 232, 182, 133, 230, 151,
       182, 239, 188, 140, 232, 175, 183, 231, 168, 141, 229, 144, 142, 233, 135, 141,
       232, 175, 149]),
     (ReasonBadGateway, bytes [231, 189, 145, 229, 133, 179, 230, 151, 160, 230, 179, 149,
       232, 191, 158, 230, 142, 165, 229, 136, 176, 229, 144, 142, 231, 171, 175, 230,
       156, 141, 229, 138, 161]),
     (ReasonUnknown, bytes [230, 156, 141, 229, 138, 161, 229, 188, 130, 229, 184, 184, 239,
       188, 140, 232, 175, 183, 231, 168, 141, 229, 144, 142, 233, 135, 141, 232, 175,
       149]),
     (InvalidParam, bytes [232, 175, 183, 230, 177, 130, 229, 143, 130, 230, 149, 176, 228,
       184, 141, 229, 144, 136, 230, 179, 149]),
     (MissingParam, bytes [231, 188, 186, 229, 176, 145, 229, 191, 133, 232, 166, 129, 231,
       154, 132, 232, 175, 183, 230, 177, 130, 229, 143, 130, 230, 149, 176]),
     (InvalidRequest, bytes [230, 151, 160, 230, 149, 136, 231, 154, 132, 232, 175, 183, 230,
       177, 130, 229, 143, 130, 230, 149, 176]),
     (Unauthenticated, bytes [231, 153, 187, 229, 189, 149, 231, 138, 182, 230, 128, 129, 229,
       183, 178, 229, 164, 177, 230, 149, 136, 239, 188, 140, 232, 175, 183, 233, 135,
       141, 230, 150, 176, 231, 153, 187, 229, 189, 149]),
     (PermissionDenied, bytes [230, 157, 131, 233, 153, 144, 230, 160, 161, 233, 170, 140,
       229, 164, 177, 232, 180, 165, 239, 188, 140, 232, 175, 183, 230, 163, 128, 230,
       159, 165, 230, 147, 141, 228, 189, 156, 230, 157, 131, 233, 153, 144]),
     (TokenExpired, bytes [231, 153, 187, 229, 189, 149, 229, 183, 178, 232, 191, 135, 230,
       156, 159, 239, 188, 140, 232, 175, 183, 233, 135, 141, 230, 150, 176, 231, 153,
       187, 229, 189, 149]),
     (InternalError, bytes [230, 156, 141, 229, 138, 161, 229, 134, 133, 233, 131, 168, 233,
       148, 153, 232, 175, 175, 239, 188, 140, 232, 175, 183, 231, 168, 141, 229, 144,
       142, 233, 135, 141, 232, 175, 149]),
     (ServiceUnavailable, bytes [230, 156, 141, 229, 138, 161, 230, 154, 130, 230, 151, 182,
       228, 184, 141, 229, 143, 175, 231, 148, 168, 239, 188, 140, 232, 175, 183, 231,
       168, 141, 229, 144, 142, 229, 134, 141, 232, 175, 149]),
     (Timeout, bytes [232, 175, 183, 230, 177, 130, 232, 182, 133, 230, 151, 182, 239, 188,
       140, 232, 175, 183, 231, 168, 141, 229, 144, 142, 233, 135, 141, 232, 175, 149]),
     (AuthCheckFailed, bytes [230, 151, 160, 230, 179, 149, 233, 170, 140, 232, 175, 129, 230,
       157, 131, 233, 153, 144]),
     (ForbiddenRoute, ErrForbiddenRouteMsg),
     (OperationDenied, bytes [230, 147, 141, 228, 189, 156, 230, 157, 131, 233, 153, 144, 228,
       184, 141, 232, 182, 179, 239, 188, 140, 232, 175, 183, 232, 129, 148, 231, 179,
       187, 231, 174, 161, 231, 144, 134, 229, 145, 152, 229, 136, 134, 233, 133, 141,
       230, 157, 131, 233, 153, 144]),
     (InvalidFile, bytes [228, 184, 138, 228, 188, 160, 230, 150, 135, 228, 187, 182, 229,
       134, 133, 229, 174, 185, 228, 184, 141, 232, 131, 189, 228, 184, 186, 231, 169,
       186]),
     (FileReadError, bytes [230, 150, 135, 228, 187, 182, 232, 175, 187, 229, 143, 150, 229,
       164, 177, 232, 180, 165]),
     (DataEmpty, ErrFileContentEmptyMsg),
     (''JWT_AUTHN_REQUIRED'', bytes [230, 156, 170, 231, 153, 187, 229, 189, 149, 230, 136,
       150, 231, 153, 187, 229, 189, 149, 229, 183, 178, 229, 164, 177, 230, 149, 136,
       239, 188, 140, 232, 175, 183, 233, 135, 141, 230, 150, 176, 231, 153, 187, 229,
       189, 149]),
     (MISSING_AUTH_TOKEN, bytes [231, 188, 186, 229, 176, 145, 232, 186, 171, 228, 187, 189,
       229, 135, 173, 232, 175, 129, 239, 188, 140, 232, 175, 183, 233, 135, 141, 230,
       150, 176, 231, 153, 187, 229, 189, 149]),
     (TOKEN_PARSE_FAILED, bytes [232, 186, 171, 228, 187, 189, 229, 135, 173, 232, 175, 129,
       230, 151, 160, 230, 149, 136, 239, 188, 140, 232, 175, 183, 233, 135, 141, 230,
       150, 176, 231, 153, 187, 229, 189, 149]),
     (INVALID_TOKEN_CLAIMS, bytes [232, 186, 171, 228, 187, 189, 229, 135, 173, 232, 175, 129,
       230, 151, 160, 230, 149, 136, 239, 188, 140, 232, 175, 183, 233, 135, 141, 230,
       150, 176, 231, 153, 187, 229, 189, 149]),
     (INVALID_SIGNING_METHOD, bytes [232, 186, 171, 228, 187, 189, 229, 135, 173, 232, 175,
       129, 231, 173, 190, 229, 144, 141, 230, 150, 185, 229, 188, 143, 228, 184, 141,
       229, 143, 151, 230, 148, 175, 230, 140, 129]),
     (PEM_DECODE_FAILED, bytes [230, 156, 141, 229, 138, 161, 231, 171, 175, 232, 175, 129,
       228, 185, 166, 232, 167, 163, 230, 158, 144, 229, 164, 177, 232, 180, 165]),
     (CERT_PARSE_FAILED, bytes [230, 156, 141, 229, 138, 161, 231, 171, 175, 232, 175, 129,
       228, 185, 166, 232, 167, 163, 230, 158, 144, 229, 164, 177, 232, 180, 165]),
     (NOT_RSA_PUBLIC_KEY, bytes [230, 156, 141, 229, 138, 161, 231, 171, 175, 232, 175, 129,
       228, 185, 166, 231, 177, 187, 229, 158, 139, 233, 148, 153, 232, 175, 175])]"

definition DefaultMessage :: "string \<Rightarrow> int \<Rightarrow> string" where
  "DefaultMessage reason status =
    (case map_of reasonMessages reason of
       Some msg \<Rightarrow> if msg \<noteq> [] then msg else
         (case map_of reasonMessages (reasonFromStatus status) of
            Some msg' \<Rightarrow> if msg' \<noteq> [] then msg' else the (map_of reasonMessages ReasonUnknown)
          | None \<Rightarrow> the (map_of reasonMessages ReasonUnknown))
     | None \<Rightarrow>
         (case map_of reasonMessages (reasonFromStatus status) of
            Some msg' \<Rightarrow> if msg' \<noteq> [] then msg' else the (map_of reasonMessages ReasonUnknown)
          | None \<Rightarrow> the (map_of reasonMessages ReasonUnknown)))"

section \<open>Normal reasons\<close>

definition reason_ok :: "char \<Rightarrow> bool" where
  "reason_ok c \<longleftrightarrow> (65 \<le> byte c \<and> byte c \<le> 90) \<or> (48 \<le> byte c \<and> byte c \<le> 57) \<or> c = CHR ''_''"

definition normal_reason :: "string \<Rightarrow> bool" where
  "normal_reason r \<longleftrightarrow> r \<noteq> [] \<and> r \<noteq> ''UNKNOWN'' \<and> list_all reason_ok r"

lemma reason_char_ok: "reason_ok (reason_char c)"
  by (auto simp: reason_ok_def reason_char_def byte_char_of)

lemma reason_char_id: "reason_ok c \<Longrightarrow> reason_char c = c"
  by (auto simp: reason_ok_def reason_char_def byte_def)

lemma reason_ok_ascii: "reason_ok c \<Longrightarrow> byte c < 128"
  by (auto simp: reason_ok_def byte_def)

lemma map_reason_ok: "list_all reason_ok (map_reason s)"
  by (induction s rule: map_reason.induct) (auto simp: reason_char_ok, simp_all add: reason_ok_def byte_def)

lemma map_reason_id: "list_all reason_ok s \<Longrightarrow> map_reason s = s"
  by (induction s) (auto simp: reason_char_id dest: reason_ok_ascii)

lemma reasonFromStatus_normal: "normal_reason (reasonFromStatus status)"
  by (simp add: reasonFromStatus_def normal_reason_def reason_ok_def byte_def)

lemma NormalizeReason_normal: "normal_reason (NormalizeReason reason status)"
  using map_reason_ok [of "trimSpace reason"] reasonFromStatus_normal [of status]
  by (auto simp: NormalizeReason_def Let_def normal_reason_def)

text \<open>No byte of a normal reason occurs in the encoding of a space.\<close>

lemma space_rune_bytes: "\<forall>r\<in>set space_runes. \<forall>d\<in>set r. byte d \<le> 32 \<or> 127 < byte d \<and> byte d \<le> 227"
  by (simp add: space_runes_def bytes_def byte_def)

lemma reason_ok_not_space:
  assumes "reason_ok c" "r \<in> set space_runes"
  shows "c \<notin> set r"
proof -
  have "32 < byte c" "byte c < 128" using assms(1) by (auto simp: reason_ok_def byte_def)
  then show ?thesis using space_rune_bytes assms(2) by fastforce
qed

lemma trimSpace_id:
  assumes "\<And>c r. c \<in> set s \<Longrightarrow> r \<in> set space_runes \<Longrightarrow> c \<notin> set r"
  shows "trimSpace s = s"
proof -
  have "\<not> prefix r s" "\<not> suffix r s" if "r \<in> set space_runes" for r
    using assms that space_runes_ne [OF that]
    by (metis hd_in_set length_greater_0_conv set_mono_prefix subsetD)
       (metis assms hd_in_set length_greater_0_conv set_mono_suffix space_runes_ne subsetD that)
  then show ?thesis
    by (simp add: trimSpace_def trimLeftSpace_noop trimRightSpace_noop)
qed

lemma trimSpace_graphic:
  assumes "list_all (\<lambda>c. 32 < byte c \<and> byte c < 127) s"
  shows "trimSpace s = s"
  by (rule trimSpace_id) (use assms space_rune_bytes in \<open>fastforce simp: list_all_iff\<close>)

lemma NormalizeReason_id:
  assumes "normal_reason r"
  shows "NormalizeReason r status = r"
proof -
  have "trimSpace r = r"
    using assms by (intro trimSpace_id) (auto simp: normal_reason_def list_all_iff dest: reason_ok_not_space)
  then show ?thesis using assms by (simp add: NormalizeReason_def normal_reason_def map_reason_id)
qed

section \<open>Messages are never blank\<close>

text \<open>A character outside every space encoding survives trimming.\<close>

definition space_byte :: "char \<Rightarrow> bool" where
  "space_byte c \<longleftrightarrow> (\<exists>r\<in>set space_runes. c \<in> set r)"

lemma trimLeftSpace_keeps: "c \<in> set s \<Longrightarrow> \<not> space_byte c \<Longrightarrow> c \<in> set (trimLeftSpace s)"
proof (induction s rule: trimLeftSpace.induct)
  case (1 s)
  show ?case
  proof (cases "List.find (\<lambda>r. prefix r s) space_runes")
    case None
    then show ?thesis using 1 by (simp add: trimLeftSpace.simps)
  next
    case (Some r)
    then have r: "r \<in> set space_runes" "prefix r s" by (auto dest: find_SomeD)
    then obtain t where "s = r @ t" by (auto simp: prefix_def)
    with r 1 have "c \<in> set (drop (length r) s)" by (auto simp: space_byte_def)
    then show ?thesis using 1 Some by (simp add: trimLeftSpace.simps [of s])
  qed
qed

lemma trimRightSpace_keeps: "c \<in> set s \<Longrightarrow> \<not> space_byte c \<Longrightarrow> c \<in> set (trimRightSpace s)"
proof (induction s rule: trimRightSpace.induct)
  case (1 s)
  show ?case
  proof (cases "List.find (\<lambda>r. suffix r s) space_runes")
    case None
    then show ?thesis using 1 by (simp add: trimRightSpace.simps)
  next
    case (Some r)
    then have r: "r \<in> set space_runes" "suffix r s" by (auto dest: find_SomeD)
    then obtain t where "s = t @ r" by (auto simp: suffix_def)
    with r 1 have "c \<in> set (take (length s - length r) s)" by (auto simp: space_byte_def)
    then show ?thesis using 1 Some by (simp add: trimRightSpace.simps [of s])
  qed
qed

lemma trimSpace_ne: "c \<in> set s \<Longrightarrow> \<not> space_byte c \<Longrightarrow> trimSpace s \<noteq> []"
  unfolding trimSpace_def using trimLeftSpace_keeps trimRightSpace_keeps by fastforce

definition visible :: "string \<Rightarrow> bool" where
  "visible s \<longleftrightarrow> (\<exists>c\<in>set s. 227 < byte c)"

lemma visible_trimSpace: "visible s \<Longrightarrow> trimSpace s \<noteq> []"
proof -
  assume "visible s"
  then obtain c where c: "c \<in> set s" "227 < byte c" by (auto simp: visible_def)
  have "\<not> space_byte c" using c space_rune_bytes by (force simp: space_byte_def)
  with c show ?thesis by (blast dest: trimSpace_ne)
qed

lemma visible_bytes: "227 < n \<Longrightarrow> n < 256 \<Longrightarrow> visible (bytes (n # ns))"
  by (simp add: visible_def bytes_def byte_char_of)

lemma reasonMessages_visible: "list_all (\<lambda>(r, m). visible m) reasonMessages"
  by (simp add: reasonMessages_def ErrForbiddenRouteMsg_def ErrFileContentEmptyMsg_def visible_bytes)

lemma message_visible: "map_of reasonMessages r = Some m \<Longrightarrow> visible m"
  using reasonMessages_visible by (auto simp: list_all_iff dest!: map_of_SomeD)

lemma unknown_message: "\<exists>m. map_of reasonMessages ReasonUnknown = Some m"
  by (simp add: reasonMessages_def)

lemma DefaultMessage_visible: "visible (DefaultMessage reason status)"
proof -
  obtain m where "map_of reasonMessages ReasonUnknown = Some m" using unknown_message by blast
  then have "visible (the (map_of reasonMessages ReasonUnknown))"
    using message_visible [of ReasonUnknown] by simp
  then show ?thesis
    by (auto simp only: DefaultMessage_def split: option.splits if_splits dest: message_visible)
qed

end
