(* ===== verification/Errors_Response.thy ===== *)
theory Errors_Response
  imports Gw_Errors "HOL-Library.AList"
begin

text \<open>
  Package errors, files response.go and cors.go: classification of any error
  value, the error envelope, and the single function through which the gateway
  writes its own error responses.  Parameters of the model (a record of
  functions) are the parts of other packages: the Is method and text of a
  kratos error, protobuf marshalling of ErrorInfo and the table from HTTP
  status to gRPC code.
\<close>

section \<open>Parts of other packages\<close>

record gw_libs =
  lib_kratos_is :: "kratos_error \<Rightarrow> err \<Rightarrow> bool"
  lib_kratos_text :: "kratos_error \<Rightarrow> string"
  lib_marshal_error_info :: "string \<Rightarrow> string \<Rightarrow> (string \<times> string) list \<Rightarrow> string option"
  lib_to_grpc_code :: "int \<Rightarrow> int"

section \<open>The error envelope\<close>

record error_debug =
  dbg_reason :: string
  dbg_domain :: string
  dbg_metadata :: "(string \<times> string) list"

record error_detail =
  det_type :: string
  det_value :: string
  det_debug :: "error_debug option"

record error_body =
  eb_code :: string
  eb_message :: string
  eb_details :: "error_detail list"

record error_info =
  inf_status :: int
  inf_reason :: string
  inf_message :: string
  inf_metadata :: "(string \<times> string) list"

abbreviation ErrorInfoType :: string where
  "ErrorInfoType \<equiv> ''google.rpc.ErrorInfo''"

section \<open>Classification\<close>

definition normalize_info :: "error_info \<Rightarrow> error_info" where
  "normalize_info info =
    (let reason = NormalizeReason (inf_reason info) (inf_status info)
     in info\<lparr>inf_reason := reason,
             inf_message := (if trimSpace (inf_message info) = []
                             then DefaultMessage reason (inf_status info)
                             else inf_message info)\<rparr>)"

definition Classify :: "gw_libs \<Rightarrow> err option \<Rightarrow> error_info" where
  "Classify L e =
    (case e of
       None \<Rightarrow> \<lparr>inf_status = 200, inf_reason = [], inf_message = [], inf_metadata = []\<rparr>
     | Some er \<Rightarrow>
        (case err_as_kratos er of
           Some k \<Rightarrow>
             normalize_info
               \<lparr>inf_status = (if ke_code k \<le> 0 then 500 else ke_code k),
                inf_reason = ke_reason k, inf_message = ke_message k,
                inf_metadata = ke_metadata k\<rparr>
         | None \<Rightarrow>
             (let text = err_text (lib_kratos_text L) er;
                  sr = (if err_is (lib_kratos_is L) er CtxCanceled \<or> text = ''client disconnected''
                        then (StatusClientClosedRequest, ReasonCanceled)
                        else if err_is (lib_kratos_is L) er CtxDeadlineExceeded
                        then (504, ReasonDeadlineExceeded)
                        else (500, ReasonUnknown))
              in normalize_info
                   \<lparr>inf_status = fst sr, inf_reason = snd sr, inf_message = text,
                    inf_metadata = []\<rparr>)))"

text \<open>The loops over the two metadata maps; the second skips empty values.\<close>

definition merge_metadata :: "(string \<times> string) list \<Rightarrow> (string \<times> string) list \<Rightarrow> (string \<times> string) list" where
  "merge_metadata base extra =
    fold (\<lambda>(k, v) m. if v \<noteq> [] then AList.update k v m else m) extra
      (fold (\<lambda>(k, v) m. AList.update k v m) base [])"

section \<open>base64 (RawStdEncoding)\<close>

definition b64_alphabet :: string where
  "b64_alphabet = ''ABCDEFGHIJKLMNOPQRSTUVWXYZabcdefghijklmnopqrstuvwxyz0123456789+/''"

definition b64_char :: "nat \<Rightarrow> char" where
  "b64_char n = b64_alphabet ! (n mod 64)"

fun b64_raw :: "nat list \<Rightarrow> string" where
  "b64_raw [] = []"
| "b64_raw [a] = [b64_char (a div 4), b64_char ((a mod 4) * 16)]"
| "b64_raw [a, b] =
     [b64_char (a div 4), b64_char ((a mod 4) * 16 + b div 16), b64_char ((b mod 16) * 4)]"
| "b64_raw (a # b # c # rest) =
     b64_char (a div 4) # b64_char ((a mod 4) * 16 + b div 16)
       # b64_char ((b mod 16) * 4 + c div 64) # b64_char (c mod 64) # b64_raw rest"

definition base64_encode :: "string \<Rightarrow> string" where
  "base64_encode s = b64_raw (map byte s)"

lemma b64_raw_eq_Nil: "b64_raw ns = [] \<longleftrightarrow> ns = []"
  by (cases ns rule: b64_raw.cases) auto

definition encodeErrorInfo :: "gw_libs \<Rightarrow> string \<Rightarrow> (string \<times> string) list \<Rightarrow> string" where
  "encodeErrorInfo L reason metadata =
    (case lib_marshal_error_info L reason ErrorDomain metadata of
       None \<Rightarrow> []
     | Some raw \<Rightarrow> base64_encode raw)"

definition Build :: "gw_libs \<Rightarrow> err option \<Rightarrow> (string \<times> string) list \<Rightarrow> int \<times> error_body" where
  "Build L e extra =
    (let info = Classify L e;
         metadata = merge_metadata (inf_metadata info) extra;
         debug = \<lparr>dbg_reason = inf_reason info, dbg_domain = ErrorDomain, dbg_metadata = metadata\<rparr>
     in (inf_status info,
         \<lparr>eb_code = ConnectCodeFromHTTP (inf_status info),
          eb_message = inf_message info,
          eb_details = [\<lparr>det_type = ErrorInfoType,
                         det_value = encodeErrorInfo L (inf_reason info) metadata,
                         det_debug = Some debug\<rparr>]\<rparr>))"

section \<open>The response writer\<close>

text \<open>What a handler did to the http.ResponseWriter: the header map, the
  status line and header sent with the first WriteHeader, and the chunks
  written.  An error envelope is one chunk (its JSON text is not expanded).\<close>

datatype chunk = RawBytes string | ErrJson error_body

record response_writer =
  rw_header :: header
  rw_sent :: "(int \<times> header) option"
  rw_chunks :: "chunk list"

definition new_writer :: response_writer where
  "new_writer = \<lparr>rw_header = Map.empty, rw_sent = None, rw_chunks = []\<rparr>"

text \<open>WriteHeader panics on a code outside 100..999; a 1xx code other than 101
  is informational, and a second call is ignored.\<close>

definition writeHeader :: "int \<Rightarrow> response_writer \<Rightarrow> response_writer option" where
  "writeHeader code w =
    (if rw_sent w \<noteq> None then Some w
     else if code < 100 \<or> 999 < code then None
     else if code < 200 \<and> code \<noteq> 101 then Some w
     else Some (w\<lparr>rw_sent := Some (code, rw_header w)\<rparr>))"

definition writeChunk :: "chunk \<Rightarrow> response_writer \<Rightarrow> response_writer" where
  "writeChunk c w =
    (let w' = (if rw_sent w = None then w\<lparr>rw_sent := Some (200, rw_header w)\<rparr> else w)
     in w'\<lparr>rw_chunks := rw_chunks w' @ [c]\<rparr>)"

definition set_header :: "string \<Rightarrow> string \<Rightarrow> response_writer \<Rightarrow> response_writer" where
  "set_header k v w = w\<lparr>rw_header := hset (rw_header w) k v\<rparr>"

section \<open>cors.go\<close>

abbreviation corsAllowMethods :: string where
  "corsAllowMethods \<equiv> ''GET, POST, PUT, DELETE, OPTIONS''"

abbreviation corsAllowHeaders :: string where
  "corsAllowHeaders \<equiv> ''Origin, Content-Length, Content-Type, Authorization, Connect-Protocol-Version, Connect-Accept-Encoding, Connect-Timeout-Ms, Connect-Codec-Compress-Bin''"

abbreviation corsMaxAge :: string where
  "corsMaxAge \<equiv> ''600''"

abbreviation HeaderErrorReason :: string where
  "HeaderErrorReason \<equiv> ''X-Error-Reason''"

abbreviation corsExposeHeaders :: string where
  "corsExposeHeaders \<equiv> HeaderErrorReason"

definition WriteCORSHeaders :: "request \<Rightarrow> response_writer \<Rightarrow> response_writer" where
  "WriteCORSHeaders r w =
    (let origin = hget (rq_header r) ''Origin''
     in if origin = [] then w
        else set_header ''Access-Control-Max-Age'' corsMaxAge
              (set_header ''Access-Control-Expose-Headers'' corsExposeHeaders
                (set_header ''Access-Control-Allow-Credentials'' ''true''
                  (set_header ''Access-Control-Allow-Headers'' corsAllowHeaders
                    (set_header ''Access-Control-Allow-Methods'' corsAllowMethods
                      (set_header ''Access-Control-Allow-Origin'' origin w))))))"

section \<open>Write\<close>

record write_options =
  wo_metadata :: "(string \<times> string) list"
  wo_grpc :: bool

definition no_options :: write_options where
  "no_options = \<lparr>wo_metadata = [], wo_grpc = False\<rparr>"

definition WithMetadata :: "(string \<times> string) list \<Rightarrow> write_options \<Rightarrow> write_options" where
  "WithMetadata md o' = o'\<lparr>wo_metadata := md\<rparr>"

definition WithGRPC :: "bool \<Rightarrow> write_options \<Rightarrow> write_options" where
  "WithGRPC enabled o' = o'\<lparr>wo_grpc := enabled\<rparr>"

definition reasonOf :: "error_body \<Rightarrow> string" where
  "reasonOf body =
    (case eb_details body of
       d # _ \<Rightarrow> (case det_debug d of Some g \<Rightarrow> dbg_reason g | None \<Rightarrow> ReasonUnknown)
     | [] \<Rightarrow> ReasonUnknown)"

definition errorContentType :: "request option \<Rightarrow> string" where
  "errorContentType r =
    (case r of
       Some rq \<Rightarrow>
         if hasPrefix (hget (rq_header rq) ''Content-Type'') ''application/connect+''
         then ''application/connect+json; charset=utf-8''
         else ''application/json; charset=utf-8''
     | None \<Rightarrow> ''application/json; charset=utf-8'')"

definition hex_digit :: "nat \<Rightarrow> char" where
  "hex_digit n = ''0123456789ABCDEF'' ! n"

fun grpcPercentEncode :: "string \<Rightarrow> string" where
  "grpcPercentEncode [] = []"
| "grpcPercentEncode (c # cs) =
     (if 0x20 \<le> byte c \<and> byte c \<le> 0x7E \<and> c \<noteq> CHR ''%''
      then c # grpcPercentEncode cs
      else CHR ''%'' # hex_digit (byte c div 16) # hex_digit (byte c mod 16) # grpcPercentEncode cs)"

text \<open>Write up to its call of WriteHeader: the status, the body and the
  writer with the headers set.\<close>

definition Write_headers :: "gw_libs \<Rightarrow> response_writer \<Rightarrow> request \<Rightarrow> err option
    \<Rightarrow> (write_options \<Rightarrow> write_options) list \<Rightarrow> int \<times> error_body \<times> response_writer" where
  "Write_headers L w r e opts =
    (let wo = fold (\<lambda>f a. f a) opts no_options;
         sb = Build L e (wo_metadata wo);
         w1 = WriteCORSHeaders r w;
         w2 = set_header HeaderErrorReason (reasonOf (snd sb)) w1;
         w3 = set_header ''Content-Type'' (errorContentType (Some r)) w2;
         w4 = set_header ''X-Content-Type-Options'' ''nosniff'' w3;
         w5 = (if wo_grpc wo
               then set_header ''Grpc-Message'' (grpcPercentEncode (eb_message (snd sb)))
                     (set_header ''Grpc-Status'' (formatInt (lib_to_grpc_code L (fst sb))) w4)
               else w4)
     in (fst sb, snd sb, w5))"

text \<open>The status returned is the one computed; \<open>None\<close> is the panic
  of WriteHeader.\<close>

definition Write :: "gw_libs \<Rightarrow> response_writer \<Rightarrow> request \<Rightarrow> err option
    \<Rightarrow> (write_options \<Rightarrow> write_options) list \<Rightarrow> (int \<times> response_writer) option" where
  "Write L w r e opts =
    (case Write_headers L w r e opts of
       (code, body, w5) \<Rightarrow>
         (case writeHeader code w5 of
            None \<Rightarrow> None
          | Some w6 \<Rightarrow> Some (code, writeChunk (ErrJson body) w6)))"

section \<open>Lemmas\<close>

lemma normalize_info_wf:
  "normal_reason (inf_reason (normalize_info i)) \<and> trimSpace (inf_message (normalize_info i)) \<noteq> []
    \<and> inf_status (normalize_info i) = inf_status i \<and> inf_metadata (normalize_info i) = inf_metadata i"
  by (simp add: normalize_info_def Let_def NormalizeReason_normal visible_trimSpace DefaultMessage_visible)

lemma normalize_info_idem: "normalize_info (normalize_info i) = normalize_info i"
  using normalize_info_wf [of i]
  by (simp add: normalize_info_def Let_def NormalizeReason_normal NormalizeReason_id
      visible_trimSpace DefaultMessage_visible)

lemma Classify_kratos:
  "err_as_kratos er = Some k \<Longrightarrow>
    Classify L (Some er) = normalize_info
      \<lparr>inf_status = (if ke_code k \<le> 0 then 500 else ke_code k), inf_reason = ke_reason k,
       inf_message = ke_message k, inf_metadata = ke_metadata k\<rparr>"
  by (simp add: Classify_def)

lemma Classify_status_pos: "0 < inf_status (Classify L (Some er))"
  by (cases "err_as_kratos er") (simp_all add: Classify_def Let_def normalize_info_wf)

lemma Classify_wf:
  "normal_reason (inf_reason (Classify L (Some er))) \<and> trimSpace (inf_message (Classify L (Some er))) \<noteq> []"
  by (cases "err_as_kratos er") (simp_all add: Classify_def Let_def normalize_info_wf)

lemma Build_fields:
  "fst (Build L e x) = inf_status (Classify L e)"
  "eb_message (snd (Build L e x)) = inf_message (Classify L e)"
  "eb_code (snd (Build L e x)) = ConnectCodeFromHTTP (inf_status (Classify L e))"
  "reasonOf (snd (Build L e x)) = inf_reason (Classify L e)"
  "map det_type (eb_details (snd (Build L e x))) = [ErrorInfoType]"
  by (simp_all add: Build_def Let_def reasonOf_def)

lemma grpc_encode_printable:
  "list_all (\<lambda>c. 0x20 \<le> byte c \<and> byte c \<le> 0x7E) (grpcPercentEncode s)"
proof (induction s)
  case (Cons c cs)
  have hex: "0x20 \<le> byte (hex_digit n) \<and> byte (hex_digit n) \<le> 0x7E" if "n < 16" for n
  proof -
    have "n \<in> set [0..<16]" using that by simp
    then show ?thesis by (auto simp: upt_conv_Cons hex_digit_def byte_def)
  qed
  have "byte c div 16 < 16" using byte_lt [of c] by (simp add: less_mult_imp_div_less)
  then show ?case using Cons hex [of "byte c div 16"] hex [of "byte c mod 16"]
    by (auto simp: byte_def)
qed simp

text \<open>The decoding a gRPC client applies, to state that nothing is lost.\<close>

definition hex_val :: "char \<Rightarrow> nat" where
  "hex_val c = (if is_digit c then byte c - 48 else byte c - 55)"

fun grpc_percent_decode :: "string \<Rightarrow> string" where
  "grpc_percent_decode (p # a # b # cs) =
     (if p = CHR ''%'' then char_of (16 * hex_val a + hex_val b) # grpc_percent_decode cs
      else p # grpc_percent_decode (a # b # cs))"
| "grpc_percent_decode (p # cs) = p # grpc_percent_decode cs"
| "grpc_percent_decode [] = []"

lemma hex_val_digit: "n < 16 \<Longrightarrow> hex_val (hex_digit n) = n"
proof -
  assume "n < 16"
  then have "n \<in> set [0..<16]" by simp
  then show ?thesis by (auto simp: upt_conv_Cons hex_digit_def hex_val_def is_digit_def byte_def)
qed

lemma grpc_decode_plain: "c \<noteq> CHR ''%'' \<Longrightarrow> grpc_percent_decode (c # s) = c # grpc_percent_decode s"
  by (cases s rule: grpc_percent_decode.cases) auto

lemma grpc_percent_roundtrip: "grpc_percent_decode (grpcPercentEncode s) = s"
proof (induction s)
  case (Cons c cs)
  have "byte c div 16 < 16" using byte_lt [of c] by (simp add: less_mult_imp_div_less)
  then show ?case using Cons
    by (auto simp: grpc_decode_plain hex_val_digit mult.commute [of 16])
qed simp

text \<open>What the headers of the response are when the first WriteHeader sends
  them.\<close>

lemma writeChunk_sent: "rw_sent w = Some x \<Longrightarrow> rw_sent (writeChunk c w) = Some x"
  by (simp add: writeChunk_def)

lemma writeHeader_sent:
  "writeHeader code w = Some w' \<Longrightarrow> rw_sent w = None \<Longrightarrow> 200 \<le> code \<Longrightarrow>
    rw_sent w' = Some (code, rw_header w) \<and> rw_chunks w' = rw_chunks w"
  by (auto simp: writeHeader_def split: if_splits)

lemma writeHeader_range: "writeHeader code w = Some w' \<Longrightarrow> rw_sent w = None \<Longrightarrow> 100 \<le> code \<and> code \<le> 999"
  by (auto simp: writeHeader_def split: if_splits)

lemma set_header_other [simp]:
  "rw_header (set_header k v w) = hset (rw_header w) k v"
  "rw_sent (set_header k v w) = rw_sent w"
  "rw_chunks (set_header k v w) = rw_chunks w"
  by (simp_all add: set_header_def)

lemma WriteCORSHeaders_other [simp]:
  "rw_sent (WriteCORSHeaders r w) = rw_sent w"
  "rw_chunks (WriteCORSHeaders r w) = rw_chunks w"
  by (simp_all add: WriteCORSHeaders_def Let_def)

lemma WriteCORSHeaders_origin:
  "hget (rw_header (WriteCORSHeaders r w)) ''Access-Control-Allow-Origin'' =
    (let o' = hget (rq_header r) ''Origin''
     in if o' = [] then hget (rw_header w) ''Access-Control-Allow-Origin'' else o')"
  by (simp add: WriteCORSHeaders_def Let_def hget_hset)

lemma Write_defined:
  assumes "rw_sent w = None" "100 \<le> inf_status (Classify L e)" "inf_status (Classify L e) \<le> 999"
  shows "\<exists>w'. Write L w r e opts = Some (inf_status (Classify L e), w')"
  using assms by (auto simp: Write_def Write_headers_def Let_def Build_fields writeHeader_def)

lemma Write_Some:
  assumes "Write L w r e opts = Some (code, w')"
  shows "code = inf_status (Classify L e)"
    and "rw_sent w = None \<Longrightarrow> 200 \<le> code \<Longrightarrow>
      \<exists>h b. rw_sent w' = Some (code, h) \<and> rw_chunks w' = rw_chunks w @ [ErrJson b]
        \<and> b = snd (Build L e (wo_metadata (fold (\<lambda>f a. f a) opts no_options)))
        \<and> hget h HeaderErrorReason = reasonOf b
        \<and> hget h ''Content-Type'' = errorContentType (Some r)
        \<and> hget h ''Access-Control-Allow-Origin''
            = hget (rw_header (WriteCORSHeaders r w)) ''Access-Control-Allow-Origin''"
proof -
  define wo where "wo = fold (\<lambda>f a. f a) opts no_options"
  define b where "b = snd (Build L e (wo_metadata wo))"
  define w4 where "w4 = set_header ''X-Content-Type-Options'' ''nosniff''
    (set_header ''Content-Type'' (errorContentType (Some r))
      (set_header HeaderErrorReason (reasonOf b) (WriteCORSHeaders r w)))"
  define w5 where "w5 = (if wo_grpc wo
               then set_header ''Grpc-Message'' (grpcPercentEncode (eb_message b))
                     (set_header ''Grpc-Status'' (formatInt (lib_to_grpc_code L (inf_status (Classify L e)))) w4)
               else w4)"
  have W: "Write L w r e opts =
      map_option (\<lambda>v. (inf_status (Classify L e), writeChunk (ErrJson b) v))
        (writeHeader (inf_status (Classify L e)) w5)"
    by (auto simp: Write_def Write_headers_def Let_def Build_fields w5_def w4_def b_def wo_def split: option.split)
  then obtain v where v: "writeHeader (inf_status (Classify L e)) w5 = Some v"
    and w': "w' = writeChunk (ErrJson b) v" and code: "code = inf_status (Classify L e)"
    using assms by (cases "writeHeader (inf_status (Classify L e)) w5") auto
  show "code = inf_status (Classify L e)" by (rule code)
  assume fresh: "rw_sent w = None" and big: "200 \<le> code"
  have w5: "rw_sent w5 = None" "rw_chunks w5 = rw_chunks w" using fresh by (simp_all add: w5_def w4_def)
  have h: "hget (rw_header w5) HeaderErrorReason = reasonOf b"
    "hget (rw_header w5) ''Content-Type'' = errorContentType (Some r)"
    "hget (rw_header w5) ''Access-Control-Allow-Origin''
            = hget (rw_header (WriteCORSHeaders r w)) ''Access-Control-Allow-Origin''"
    by (simp_all add: w5_def w4_def hget_hset)
  have v': "rw_sent v = Some (code, rw_header w5)" "rw_chunks v = rw_chunks w"
    using writeHeader_sent [OF v w5(1)] big code w5(2) by simp_all
  then have "rw_sent w' = Some (code, rw_header w5)" "rw_chunks w' = rw_chunks w @ [ErrJson b]"
    by (simp_all add: w' writeChunk_def)
  then show "\<exists>h b. rw_sent w' = Some (code, h) \<and> rw_chunks w' = rw_chunks w @ [ErrJson b]
        \<and> b = snd (Build L e (wo_metadata (fold (\<lambda>f a. f a) opts no_options)))
        \<and> hget h HeaderErrorReason = reasonOf b
        \<and> hget h ''Content-Type'' = errorContentType (Some r)
        \<and> hget h ''Access-Control-Allow-Origin''
            = hget (rw_header (WriteCORSHeaders r w)) ''Access-Control-Allow-Origin''"
    using h by (auto simp: b_def wo_def)
qed

section \<open>Properties\<close>

text \<open>C24: Every error the gateway reports is well formed, whatever error
  value it came from: the reason is not empty and consists of capitals, digits
  and underscores, the message is not blank, the status is positive, and the
  reason in the body's debug detail is the classified one.\<close>

theorem error_envelope_well_formed:
  "normal_reason (reasonOf (snd (Build L (Some e) extra)))
    \<and> trimSpace (eb_message (snd (Build L (Some e) extra))) \<noteq> []
    \<and> 0 < fst (Build L (Some e) extra)
    \<and> eb_code (snd (Build L (Some e) extra)) = ConnectCodeFromHTTP (fst (Build L (Some e) extra))
    \<and> map det_type (eb_details (snd (Build L (Some e) extra))) = [ErrorInfoType]"
  using Classify_wf [of L e] Classify_status_pos [of L e] by (simp add: Build_fields)

text \<open>C25: Write answers a fresh request with exactly one envelope: the status
  it returns (for the metrics) is the status sent, the reason header is the
  reason of the body, the content type follows the request's protocol, and the
  response carries the CORS origin of the request exactly when there is
  one.\<close>

theorem Write_sends_envelope:
  assumes "Write L new_writer r (Some e) opts = Some (code, w')" "200 \<le> code"
  shows "\<exists>h b. rw_sent w' = Some (code, h) \<and> rw_chunks w' = [ErrJson b]
      \<and> code = fst (Build L (Some e) (wo_metadata (fold (\<lambda>f a. f a) opts no_options)))
      \<and> b = snd (Build L (Some e) (wo_metadata (fold (\<lambda>f a. f a) opts no_options)))
      \<and> hget h HeaderErrorReason = reasonOf b
      \<and> hget h ''Content-Type'' = errorContentType (Some r)
      \<and> hget h ''Access-Control-Allow-Origin'' = hget (rq_header r) ''Origin''"
proof -
  have fresh: "rw_sent new_writer = None" "rw_chunks new_writer = []"
    "hget (rw_header new_writer) k = []" for k
    by (simp_all add: new_writer_def hget_def)
  show ?thesis
    using Write_Some(1) [OF assms(1)] Write_Some(2) [OF assms(1) fresh(1) assms(2)] fresh(2,3)
    by (auto simp: Build_fields WriteCORSHeaders_origin Let_def)
qed

definition sample_libs :: gw_libs where
  "sample_libs = \<lparr>lib_kratos_is = (\<lambda>k t. case t of KratosErr t' \<Rightarrow> ke_code k = ke_code t' \<and> ke_reason k = ke_reason t' | _ \<Rightarrow> False), lib_kratos_text = ke_message,
     lib_marshal_error_info = (\<lambda>r d m. Some (r @ d)),
     lib_to_grpc_code = (\<lambda>s. if s = 200 then 0 else 2)\<rparr>"

definition sample_request :: request where
  "sample_request = \<lparr>rq_method = ''GET'', rq_host = ''shop'', rq_scheme = ''http'', rq_url_host = [],
     rq_path = ''/a'', rq_remote_addr = ''10.0.0.1:99'', rq_header = [''Origin'' \<mapsto> [''http://ui'']],
     rq_body = \<lparr>bd_data = [], bd_err = None\<rparr>, rq_content_length = 0,
     rq_request_uri = ''/a'', rq_ctx_path = None\<rparr>"

lemma sample_status: "inf_status (Classify sample_libs (Some CtxDeadlineExceeded)) = 504"
  by (simp add: Classify_def Let_def normalize_info_wf)

theorem Write_sends_envelope_witness:
  "\<exists>w' h b. Write sample_libs new_writer sample_request (Some CtxDeadlineExceeded) [WithGRPC True]
      = Some (504, w') \<and> rw_sent w' = Some (504, h) \<and> rw_chunks w' = [ErrJson b]
    \<and> hget h ''Access-Control-Allow-Origin'' = ''http://ui''"
proof -
  obtain w' where w: "Write sample_libs new_writer sample_request (Some CtxDeadlineExceeded) [WithGRPC True]
      = Some (504, w')"
    using Write_defined [of new_writer sample_libs "Some CtxDeadlineExceeded"]
    by (auto simp add: sample_status new_writer_def)
  have "hget (rq_header sample_request) ''Origin'' = ''http://ui''"
    by (simp add: sample_request_def hget_def)
  then show ?thesis using Write_sends_envelope [OF w] w by auto
qed

text \<open>The value sent in Grpc-Message is printable ASCII and decodes, by
  the percent decoding of the gRPC specification, to the message of the
  error: no byte of a (Chinese) message is lost.\<close>

theorem grpc_message_safe:
  "list_all (\<lambda>c. 0x20 \<le> byte c \<and> byte c \<le> 0x7E) (grpcPercentEncode s)
    \<and> grpc_percent_decode (grpcPercentEncode s) = s"
  by (simp add: grpc_encode_printable grpc_percent_roundtrip)

text \<open>Normalising a reason is idempotent: the reason a client matches on
  does not depend on how often the error passed the classification.\<close>

theorem NormalizeReason_idempotent:
  "NormalizeReason (NormalizeReason reason status) status' = NormalizeReason reason status
    \<and> normal_reason (NormalizeReason reason status)"
  by (simp add: NormalizeReason_normal NormalizeReason_id)

end
