(* ===== verification/Gw_Config.thy ===== *)
theory Gw_Config
  imports Go_Http "HOL-Library.Word"
begin

text \<open>
  The configuration messages of api/gateway/config/v1/gateway.pb.go, as the Go
  code reads them: one record per message, an optional message or field is an
  option, a uint32 is a 32-bit word.  A Duration is the int64 number of
  nanoseconds its AsDuration method returns.  A map field is an association
  list, in the order in which a loop over it happens to run.
\<close>

datatype protocol = UNSPECIFIED | HTTP | GRPC | OtherProtocol int

fun protocol_String :: "protocol \<Rightarrow> string" where
  "protocol_String UNSPECIFIED = ''UNSPECIFIED''"
| "protocol_String HTTP = ''HTTP''"
| "protocol_String GRPC = ''GRPC''"
| "protocol_String (OtherProtocol n) = formatInt n"

datatype condition_cfg =
    Condition_ByStatusCode string
  | Condition_ByHeader string string
  | Condition_None

record retry_config =
  rc_attempts :: "32 word"
  rc_per_try_timeout :: "int option"
  rc_conditions :: "condition_cfg list"
  rc_priorities :: "string list"

record backend =
  bk_target :: string
  bk_weight :: "int option"
  bk_health_check :: bool

record any_msg =
  am_type_url :: string
  am_value :: string

record rule =
  rl_path :: string
  rl_methods :: "string list"

record mw_config =
  mc_name :: string
  mc_options :: "any_msg option"
  mc_required :: bool
  mc_router_filter :: "rule list option"

record endpoint =
  ep_path :: string
  ep_method :: string
  ep_description :: string
  ep_protocol :: protocol
  ep_timeout :: "int option"
  ep_middlewares :: "mw_config list"
  ep_backends :: "backend list"
  ep_retry :: "retry_config option"
  ep_metadata :: "(string \<times> string) list"
  ep_host :: string

record gateway_config =
  gc_name :: string
  gc_version :: string
  gc_hosts :: "string list"
  gc_endpoints :: "endpoint list"
  gc_middlewares :: "mw_config list"
  gc_envs :: "(string \<times> string) list"

record priority_config =
  pc_name :: string
  pc_version :: string
  pc_endpoints :: "endpoint list"

text \<open>Reading a map[string]string: the zero value when the key is absent.\<close>

definition md_get :: "(string \<times> string) list \<Rightarrow> string \<Rightarrow> string" where
  "md_get m k = (case map_of m k of Some v \<Rightarrow> v | None \<Rightarrow> [])"

end
