(* ===== verification/Middleware_Core.thy ===== *)
theory Middleware_Core
  imports Gw_Config Errors_Response
begin

text \<open>
  Package middleware (middleware.go, registry.go, request.go) and the node type
  of client/node.go.  A RoundTripper is a function from a request and the world
  to a result and the world.  The world holds the options of the request in
  flight (the struct its context points to, shared by all layers), the log of
  observable effects (metrics, breaker marks, calls of a selection's done
  function, requests sent) and an extension for the state of the rest of the
  process, which each component instantiates.
\<close>

section \<open>Nodes (client/node.go)\<close>

datatype http_client = GlobalClient | GlobalH2Client | GlobalH2CClient

record node =
  nd_address :: string
  nd_name :: string
  nd_weight :: "int option"
  nd_version :: string
  nd_metadata :: "(string \<times> string) list"
  nd_client :: http_client
  nd_protocol :: protocol

definition newNode :: "string \<Rightarrow> protocol \<Rightarrow> int option \<Rightarrow> (string \<times> string) list \<Rightarrow> string \<Rightarrow> string \<Rightarrow> node" where
  "newNode addr proto weight md version name =
    \<lparr>nd_address = addr, nd_name = name, nd_weight = weight, nd_version = version,
     nd_metadata = md,
     nd_client = (if proto = GRPC
                  then (if hasPrefix addr ''https://'' then GlobalH2Client else GlobalH2CClient)
                  else GlobalClient),
     nd_protocol = proto\<rparr>"

definition node_Scheme :: "node \<Rightarrow> string" where
  "node_Scheme n = toLower (protocol_String (nd_protocol n))"

section \<open>Request options (request.go)\<close>

text \<open>A node filter is the closure NewRequestOptions installs, which reads the
  backends tried so far, or a function given by a caller.\<close>

datatype node_filter = SkipTried | FilterFn "node list \<Rightarrow> node list"

text \<open>The done function of a request is the no-op NewRequestOptions installs
  (\<open>None\<close>) or the one the selector returned with a selection, named by the
  selection's number.  Response times, which are read from the clock, and the
  Values map, which the gateway never reads, are left out.\<close>

record request_options =
  ro_endpoint :: endpoint
  ro_filters :: "node_filter list"
  ro_backends :: "string list"
  ro_metadata :: "(string \<times> string) list"
  ro_upstream_status :: "int list"
  ro_current_node :: "node option"
  ro_done :: "nat option"
  ro_last_attempt :: bool

definition NewRequestOptions :: "endpoint \<Rightarrow> request_options" where
  "NewRequestOptions c =
    \<lparr>ro_endpoint = c, ro_filters = [SkipTried], ro_backends = [], ro_metadata = [],
     ro_upstream_status = [], ro_current_node = None, ro_done = None, ro_last_attempt = False\<rparr>"

text \<open>The filter closure: drop the nodes already tried, unless that would drop
  them all.\<close>

definition skip_tried :: "request_options \<Rightarrow> node list \<Rightarrow> node list" where
  "skip_tried o' nodes =
    (if ro_backends o' = [] then nodes
     else let new = filter (\<lambda>n. nd_address n \<notin> set (ro_backends o')) nodes
          in if new = [] then nodes else new)"

fun apply_filter :: "request_options \<Rightarrow> node_filter \<Rightarrow> node list \<Rightarrow> node list" where
  "apply_filter o' SkipTried nodes = skip_tried o' nodes"
| "apply_filter o' (FilterFn f) nodes = f nodes"

definition WithRequestBackends :: "string list \<Rightarrow> request_options \<Rightarrow> request_options" where
  "WithRequestBackends backend o' = o'\<lparr>ro_backends := ro_backends o' @ backend\<rparr>"

definition WithSelectorFitler :: "(node list \<Rightarrow> node list) \<Rightarrow> request_options \<Rightarrow> request_options" where
  "WithSelectorFitler f o' = o'\<lparr>ro_filters := ro_filters o' @ [FilterFn f]\<rparr>"

text \<open>The context of a request: the options it carries, if any.\<close>

type_synonym request_ctx = "request_options option"

definition FromRequestContext :: "request_ctx \<Rightarrow> request_options option" where
  "FromRequestContext ctx = ctx"

definition EndpointFromContext :: "request_ctx \<Rightarrow> endpoint option" where
  "EndpointFromContext ctx = map_option ro_endpoint ctx"

definition RequestBackendsFromContext :: "request_ctx \<Rightarrow> string list option" where
  "RequestBackendsFromContext ctx = map_option ro_backends ctx"

definition SelectorFiltersFromContext :: "request_ctx \<Rightarrow> node_filter list option" where
  "SelectorFiltersFromContext ctx = map_option ro_filters ctx"

definition WithRequestPath :: "request \<Rightarrow> string \<Rightarrow> request" where
  "WithRequestPath r path = r\<lparr>rq_ctx_path := Some path\<rparr>"

definition RequestPathFromContext :: "request \<Rightarrow> string" where
  "RequestPathFromContext r = (case rq_ctx_path r of Some p \<Rightarrow> p | None \<Rightarrow> [])"

text \<open>Metric labels are read off the endpoint.\<close>

type_synonym metrics_labels = endpoint

definition NewMetricsLabels :: "endpoint \<Rightarrow> metrics_labels" where
  "NewMetricsLabels e = e"

definition lb_Protocol :: "metrics_labels \<Rightarrow> string" where
  "lb_Protocol l = protocol_String (ep_protocol l)"

definition lb_Method :: "metrics_labels \<Rightarrow> string" where
  "lb_Method l = ep_method l"

definition lb_Path :: "metrics_labels \<Rightarrow> string" where
  "lb_Path l = ep_path l"

definition lb_Service :: "metrics_labels \<Rightarrow> string" where
  "lb_Service l = md_get (ep_metadata l) ''service''"

definition lb_BasePath :: "metrics_labels \<Rightarrow> string" where
  "lb_BasePath l = md_get (ep_metadata l) ''basePath''"

definition MetricsLabelsFromContext :: "request_ctx \<Rightarrow> metrics_labels option" where
  "MetricsLabelsFromContext ctx = map_option (\<lambda>o'. NewMetricsLabels (ro_endpoint o')) ctx"

section \<open>The world and RoundTrippers\<close>

text \<open>A metric event is the counter, its label values in order and the
  amount; durations are observed but carry no number.\<close>

datatype event =
    EvCounter string "string list" int
  | EvObserve string "string list"
  | EvBreaker bool
  | EvDone nat "err option"
  | EvUpstream node request
  | EvUnhealthy node
  | EvBodyClosed response
  | EvClosed nat

record 'x world =
  w_opts :: request_options
  w_events :: "event list"
  w_ext :: 'x

definition emit :: "event \<Rightarrow> 'x world \<Rightarrow> 'x world" where
  "emit ev w = w\<lparr>w_events := w_events w @ [ev]\<rparr>"

definition upd_opts :: "(request_options \<Rightarrow> request_options) \<Rightarrow> 'x world \<Rightarrow> 'x world" where
  "upd_opts f w = w\<lparr>w_opts := f (w_opts w)\<rparr>"

definition upd_ext :: "('x \<Rightarrow> 'x) \<Rightarrow> 'x world \<Rightarrow> 'x world" where
  "upd_ext f w = w\<lparr>w_ext := f (w_ext w)\<rparr>"

lemma world_sel [simp]:
  "w_events (emit ev w) = w_events w @ [ev]" "w_opts (emit ev w) = w_opts w" "w_ext (emit ev w) = w_ext w"
  "w_opts (upd_opts f w) = f (w_opts w)" "w_events (upd_opts f w) = w_events w" "w_ext (upd_opts f w) = w_ext w"
  "w_ext (upd_ext g w) = g (w_ext w)" "w_events (upd_ext g w) = w_events w" "w_opts (upd_ext g w) = w_opts w"
  by (simp_all add: emit_def upd_opts_def upd_ext_def)

lemma upd_ext_same [simp]: "upd_ext (\<lambda>_. w_ext w) w = w"
  by (simp add: upd_ext_def)

section \<open>Middlewares (middleware.go)\<close>

type_synonym 'w middleware = "'w round_tripper \<Rightarrow> 'w round_tripper"

text \<open>MiddlewareV2: Process and Close.\<close>

record 'w middleware_v2 =
  mi_process :: "'w middleware"
  mi_close :: "'w \<Rightarrow> err option \<times> 'w"

type_synonym 'w factory = "mw_config \<Rightarrow> 'w \<Rightarrow> (err + 'w middleware) \<times> 'w"
type_synonym 'w factory_v2 = "mw_config \<Rightarrow> 'w \<Rightarrow> (err + 'w middleware_v2) \<times> 'w"

definition no_close :: "'w \<Rightarrow> err option \<times> 'w" where
  "no_close w = (None, w)"

definition of_middleware :: "'w middleware \<Rightarrow> 'w middleware_v2" where
  "of_middleware m = \<lparr>mi_process = m, mi_close = no_close\<rparr>"

definition wrapFactory :: "'w factory \<Rightarrow> 'w factory_v2" where
  "wrapFactory f = (\<lambda>c w. case f c w of
       (Inl e, w') \<Rightarrow> (Inl e, w')
     | (Inr m, w') \<Rightarrow> (Inr (of_middleware m), w'))"

definition NewWithCloser :: "'w middleware \<Rightarrow> ('w \<Rightarrow> err option \<times> 'w) \<Rightarrow> 'w middleware_v2" where
  "NewWithCloser process closer = \<lparr>mi_process = process, mi_close = closer\<rparr>"

definition EmptyMiddleware :: "'w middleware_v2" where
  "EmptyMiddleware = \<lparr>mi_process = (\<lambda>next. next), mi_close = no_close\<rparr>"

section \<open>The registry (registry.go)\<close>

abbreviation ErrNotFound :: err where
  "ErrNotFound \<equiv> Sentinel ''Middleware has not been registered''"

type_synonym 'w registry = "string \<rightharpoonup> 'w factory_v2"

definition NewRegistry :: "'w registry" where
  "NewRegistry = Map.empty"

definition createFullName :: "string \<Rightarrow> string" where
  "createFullName name = toLower (''gateway.middleware.'' @ name)"

definition RegisterV2 :: "string \<Rightarrow> 'w factory_v2 \<Rightarrow> 'w registry \<Rightarrow> 'w registry" where
  "RegisterV2 name f p = p(createFullName name \<mapsto> f)"

definition Register :: "string \<Rightarrow> 'w factory \<Rightarrow> 'w registry \<Rightarrow> 'w registry" where
  "Register name f p = p(createFullName name \<mapsto> wrapFactory f)"

definition getMiddleware :: "'w registry \<Rightarrow> string \<Rightarrow> 'w factory_v2 option" where
  "getMiddleware p name = p (toLower name)"

definition Create :: "'x world registry \<Rightarrow> 'x world factory_v2" where
  "Create p cfg w =
    (case getMiddleware p (createFullName (mc_name cfg)) of
       None \<Rightarrow> (Inl ErrNotFound, w)
     | Some mk \<Rightarrow>
         (if mc_required cfg then
            (case mk cfg w of
               (Inl e, w') \<Rightarrow> (Inl e, emit (EvCounter ''failed_middleware_create'' [mc_name cfg, ''true''] 1) w')
             | (Inr m, w') \<Rightarrow> (Inr m, w'))
          else
            (case mk cfg w of
               (Inl e, w') \<Rightarrow> (Inr EmptyMiddleware, emit (EvCounter ''failed_middleware_create'' [mc_name cfg, ''false''] 1) w')
             | (Inr m, w') \<Rightarrow> (Inr m, w'))))"

section \<open>Lemmas\<close>

lemma createFullName_eq_iff: "createFullName a = createFullName b \<longleftrightarrow> equalFold a b"
  by (simp add: createFullName_def toLower_def equalFold_def)

lemma toLower_createFullName [simp]: "toLower (createFullName a) = createFullName a"
  by (simp add: createFullName_def)

lemma Create_registered:
  "Create (RegisterV2 name f p) cfg w =
    (if equalFold name (mc_name cfg)
     then (case f cfg w of
             (Inl e, w') \<Rightarrow>
               ((if mc_required cfg then Inl e else Inr EmptyMiddleware),
                emit (EvCounter ''failed_middleware_create''
                        [mc_name cfg, if mc_required cfg then ''true'' else ''false''] 1) w')
           | (Inr m, w') \<Rightarrow> (Inr m, w'))
     else Create p cfg w)"
proof -
  obtain r w1 where f: "f cfg w = (r, w1)" by (cases "f cfg w")
  have get: "getMiddleware (p(createFullName name \<mapsto> f)) (createFullName (mc_name cfg)) =
      (if equalFold name (mc_name cfg) then Some f
       else getMiddleware p (createFullName (mc_name cfg)))"
    using createFullName_eq_iff [of "mc_name cfg" name]
    by (auto simp: getMiddleware_def equalFold_def)
  show ?thesis
    by (cases r) (simp_all add: Create_def RegisterV2_def get f)
qed

lemma Create_optional_total:
  "mc_required cfg \<or> fst (Create p cfg w) = Inl ErrNotFound \<or> (\<exists>m. fst (Create p cfg w) = Inr m)"
  by (auto simp: Create_def split: option.splits prod.splits sum.splits if_splits)

lemma skip_tried_subset: "set (skip_tried o' nodes) \<subseteq> set nodes"
  by (auto simp: skip_tried_def Let_def)

lemma skip_tried_nonempty: "nodes \<noteq> [] \<Longrightarrow> skip_tried o' nodes \<noteq> []"
  by (simp add: skip_tried_def Let_def)

lemma skip_tried_fresh:
  "\<exists>n\<in>set nodes. nd_address n \<notin> set (ro_backends o') \<Longrightarrow> n \<in> set (skip_tried o' nodes) \<Longrightarrow>
    nd_address n \<notin> set (ro_backends o')"
  by (auto simp: skip_tried_def Let_def filter_empty_conv split: if_splits)

end
