(* ===== verification/Jwt.thy ===== *)
theory Jwt
  imports Middleware_Core
begin

text \<open>
  Package middleware/jwt: the error the proxy compares with.  The rest of the
  package is in Jwt_Middleware.
\<close>

definition NotAuthN :: kratos_error where
  "NotAuthN = kratos_New 401 ''JWT_AUTHN_REQUIRED''
     (bytes [230, 156, 170, 230, 142, 136, 230, 157, 131, 58, 32, 233, 156, 128, 232, 166, 129,
      232, 186, 171, 228, 187, 189, 233, 170, 140, 232, 175, 129])"

end
