(* ===== verification/Gate.thy ===== *)
theory Gate
  imports Middleware_Core
begin

text \<open>
  The shape shared by the middlewares that let a request pass or answer it
  themselves: a decision on the request and the world, taken before the next
  layer is called, and nothing after it.  The locale is interpreted by the
  jwt, rbac, router filter and ip middlewares.
\<close>

text \<open>The way on from a decision: answer, or call the next layer with the
  request as it leaves the middleware.\<close>

definition go_on :: "(rt_result + request) \<times> 'w \<Rightarrow> 'w round_tripper \<Rightarrow> rt_result \<times> 'w" where
  "go_on dec next = (case dec of (Inl r, w) \<Rightarrow> (r, w) | (Inr req, w) \<Rightarrow> next req w)"

lemma go_on_simps [simp]:
  "go_on (Inl r, w) next = (r, w)"
  "go_on (Inr req, w) next = next req w"
  by (simp_all add: go_on_def)

locale gate =
  fixes m :: "'w middleware"
    and d :: "request \<Rightarrow> 'w \<Rightarrow> (rt_result + request) \<times> 'w"
  assumes run: "m next req w = go_on (d req w) next"
begin

text \<open>A request that is answered here never reaches what is behind.\<close>

lemma answered: "d req w = (Inl r, w') \<Longrightarrow> m next req w = (r, w')"
  by (simp add: run)

lemma passed: "d req w = (Inr req', w') \<Longrightarrow> m next req w = next req' w'"
  by (simp add: run)

text \<open>A result that depends on the next layer shows that the request was let
  through.\<close>

lemma depends_passed:
  assumes "m next req w \<noteq> m next' req w"
  obtains req' w' where "d req w = (Inr req', w')" "\<And>next. m next req w = next req' w'"
proof -
  obtain x w' where d: "d req w = (x, w')" by (cases "d req w")
  show thesis
  proof (cases x)
    case (Inl r)
    then show thesis using assms d by (simp add: answered)
  next
    case (Inr req')
    then show thesis using that d by (simp add: passed)
  qed
qed

end

text \<open>Two gates in a row are a gate.\<close>

definition then_gate :: "(request \<Rightarrow> 'w \<Rightarrow> (rt_result + request) \<times> 'w) \<Rightarrow> (request \<Rightarrow> 'w \<Rightarrow> (rt_result + request) \<times> 'w)
    \<Rightarrow> request \<Rightarrow> 'w \<Rightarrow> (rt_result + request) \<times> 'w" where
  "then_gate d1 d2 req w = (case d1 req w of (Inl r, w1) \<Rightarrow> (Inl r, w1) | (Inr req1, w1) \<Rightarrow> d2 req1 w1)"

lemma gate_compose:
  assumes "gate m1 d1" "gate m2 d2"
  shows "gate (\<lambda>next. m1 (m2 next)) (then_gate d1 d2)"
  by (rule gate.intro)
     (simp add: gate.run [OF assms(1)] gate.run [OF assms(2)] then_gate_def go_on_def split: prod.split sum.split)

text \<open>A gate that identifies the caller: what it passes on is the request with
  some headers set, and those are the only ones it touches.\<close>

locale identity_gate = gate m d
  for m :: "'w middleware" and d :: "request \<Rightarrow> 'w \<Rightarrow> (rt_result + request) \<times> 'w" +
  fixes keys :: "string set"
  assumes only_headers: "d req w = (Inr req', w') \<Longrightarrow> req' = req\<lparr>rq_header := rq_header req'\<rparr>"
    and only_keys: "d req w = (Inr req', w') \<Longrightarrow> k \<notin> keys \<Longrightarrow> rq_header req' k = rq_header req k"
begin

lemma same_target:
  assumes "d req w = (Inr req', w')"
  shows "rq_method req' = rq_method req" "rq_path req' = rq_path req" "rq_body req' = rq_body req"
proof -
  note h = only_headers [OF assms]
  show "rq_method req' = rq_method req" "rq_path req' = rq_path req" "rq_body req' = rq_body req"
    by (subst h, simp)+
qed

end

end
