(* ===== verification/Go_Regexp.thy ===== *)
theory Go_Regexp
  imports Go_Strings
begin

text \<open>
  The part of Go's regexp package the router filter needs: compiling a pattern
  and asking whether it matches a string.  Pattern and string are sequences of
  runes (an invalid byte is U+FFFD).  The syntax covers literals, quoted
  punctuation, the dot, classes in brackets and the Perl classes, groups, with
  or without a name, alternation, the repetitions star, plus and question mark
  (greedy or lazy) and the two anchors; a pattern that uses anything else
  (counted repetition, flags, Unicode classes) is rejected here.
\<close>

section \<open>Runes\<close>

definition rune_value :: "string \<Rightarrow> nat" where
  "rune_value s =
    (case s of
       [a] \<Rightarrow> if byte a < 128 then byte a else 0xFFFD
     | [a, b] \<Rightarrow> (byte a mod 32) * 64 + byte b mod 64
     | [a, b, c] \<Rightarrow> (byte a mod 16) * 4096 + (byte b mod 64) * 64 + byte c mod 64
     | [a, b, c, d] \<Rightarrow> (byte a mod 8) * 262144 + (byte b mod 64) * 4096 + (byte c mod 64) * 64 + byte d mod 64
     | _ \<Rightarrow> 0xFFFD)"

lemma rune_width_ne_pos: "s \<noteq> [] \<Longrightarrow> 0 < rune_width s"
  by (cases s) (simp_all add: rune_width_def Let_def)

function runes :: "string \<Rightarrow> nat list" where
  "runes s = (if s = [] then [] else rune_value (take (rune_width s) s) # runes (drop (rune_width s) s))"
  by pat_completeness auto

termination
  by (relation "measure length") (auto simp: rune_width_ne_pos)

declare runes.simps [simp del]

lemma runes_Nil [simp]: "runes [] = []"
  by (simp add: runes.simps)

lemma runes_ascii: "byte c < 128 \<Longrightarrow> runes (c # s) = byte c # runes s"
proof -
  assume "byte c < 128"
  moreover from this have "rune_width (c # s) = 1" by (simp add: rune_width_def Let_def)
  ultimately show ?thesis by (simp add: runes.simps [of "c # s"] rune_value_def)
qed

text \<open>A byte that is no part of a valid encoding.\<close>

function valid_utf8 :: "string \<Rightarrow> bool" where
  "valid_utf8 s =
    (if s = [] then True
     else if rune_width s = 1 \<and> 128 \<le> byte (hd s) then False
     else valid_utf8 (drop (rune_width s) s))"
  by pat_completeness auto

termination
  by (relation "measure length") (auto simp: rune_width_ne_pos)

declare valid_utf8.simps [simp del]

section \<open>Syntax\<close>

type_synonym rune_set = "bool \<times> (nat \<times> nat) list"

definition in_set_rune :: "rune_set \<Rightarrow> nat \<Rightarrow> bool" where
  "in_set_rune S r \<longleftrightarrow> (list_ex (\<lambda>(lo, hi). lo \<le> r \<and> r \<le> hi) (snd S) \<noteq> fst S)"

datatype re =
    REps
  | RSet rune_set
  | RSeq re re
  | RAlt re re
  | RStar re
  | RBegin
  | REnd

datatype tok =
    TSet rune_set
  | TBegin
  | TEnd
  | TOpen "nat list"
  | TClose
  | TAlt
  | TStar
  | TPlus
  | TOpt

abbreviation lit :: "nat \<Rightarrow> tok" where
  "lit r \<equiv> TSet (False, [(r, r)])"

definition rune_alnum :: "nat \<Rightarrow> bool" where
  "rune_alnum r \<longleftrightarrow> (48 \<le> r \<and> r \<le> 57) \<or> (65 \<le> r \<and> r \<le> 90) \<or> (97 \<le> r \<and> r \<le> 122)"

definition rune_word :: "nat \<Rightarrow> bool" where
  "rune_word r \<longleftrightarrow> rune_alnum r \<or> r = 95"

abbreviation digit_ranges :: "(nat \<times> nat) list" where
  "digit_ranges \<equiv> [(48, 57)]"

abbreviation word_ranges :: "(nat \<times> nat) list" where
  "word_ranges \<equiv> [(48, 57), (65, 90), (95, 95), (97, 122)]"

abbreviation space_ranges :: "(nat \<times> nat) list" where
  "space_ranges \<equiv> [(9, 10), (12, 13), (32, 32)]"

text \<open>The set an escape outside brackets stands for.\<close>

definition escape_set :: "nat \<Rightarrow> rune_set option" where
  "escape_set r =
    (if r < 128 \<and> \<not> rune_alnum r then Some (False, [(r, r)])
     else if r = 100 then Some (False, digit_ranges)
     else if r = 68 then Some (True, digit_ranges)
     else if r = 119 then Some (False, word_ranges)
     else if r = 87 then Some (True, word_ranges)
     else if r = 115 then Some (False, space_ranges)
     else if r = 83 then Some (True, space_ranges)
     else if r = 110 then Some (False, [(10, 10)])
     else if r = 116 then Some (False, [(9, 9)])
     else if r = 114 then Some (False, [(13, 13)])
     else if r = 102 then Some (False, [(12, 12)])
     else None)"

text \<open>One item of a bracket class: an escape (the quoted punctuation and the
  plain Perl classes), a range or a rune.\<close>

definition class_item :: "nat \<Rightarrow> nat list \<Rightarrow> ((nat \<times> nat) list \<times> nat list) option" where
  "class_item c cs =
    (if c = 91 then None
     else if c = 92 then
       (case cs of
          [] \<Rightarrow> None
        | e # cs' \<Rightarrow>
            (case escape_set e of
               Some (neg, rs) \<Rightarrow> if neg then None else Some (rs, cs')
             | None \<Rightarrow> None))
     else
       (case cs of
          d # hi # cs' \<Rightarrow>
            if d \<noteq> 45 \<or> hi = 93 then Some ([(c, c)], cs)
            else if hi = 92 \<or> hi = 91 \<or> hi < c then None
            else Some ([(c, hi)], cs')
        | _ \<Rightarrow> Some ([(c, c)], cs)))"

lemma class_item_shorter: "class_item c cs = Some (xs, t) \<Longrightarrow> length t \<le> length cs"
  by (auto simp: class_item_def split: if_splits list.splits option.splits)

text \<open>The inside of a class up to its closing bracket; \<open>first\<close>
  tells that a bracket there is a literal.\<close>

function class_items :: "bool \<Rightarrow> nat list \<Rightarrow> ((nat \<times> nat) list \<times> nat list) option" where
  "class_items first [] = None"
| "class_items first (c # cs) =
     (if c = 93 \<and> \<not> first then Some ([], cs)
      else (case class_item c cs of
              None \<Rightarrow> None
            | Some (xs, t) \<Rightarrow> map_option (\<lambda>(ys, u). (xs @ ys, u)) (class_items False t)))"
  by pat_completeness auto

termination
  by (relation "measure (\<lambda>(f, cs). length cs)") (auto dest: class_item_shorter)

lemma class_items_shorter: "class_items f cs = Some (xs, t) \<Longrightarrow> length t < length cs"
proof (induction f cs arbitrary: xs t rule: class_items.induct)
  case (2 first c cs)
  then show ?case
    by (fastforce split: if_splits option.splits prod.splits dest: class_item_shorter)
qed simp

section \<open>Tokens\<close>

text \<open>The token at the head of a pattern and the rest; a lazy repetition is
  the same token, since it only changes which match is found.\<close>

definition drop_lazy :: "nat list \<Rightarrow> nat list" where
  "drop_lazy cs = (case cs of c # cs' \<Rightarrow> if c = 63 then cs' else cs | [] \<Rightarrow> [])"

definition group_open :: "nat list \<Rightarrow> (tok \<times> nat list) option" where
  "group_open cs =
    (if take 1 cs \<noteq> [63] then Some (TOpen [], cs)
     else if take 2 cs = [63, 58] then Some (TOpen [], drop 2 cs)
     else
       (let r = (if take 3 cs = [63, 80, 60] then Some (drop 3 cs)
                 else if take 2 cs = [63, 60] then Some (drop 2 cs) else None)
        in case r of
             None \<Rightarrow> None
           | Some ds \<Rightarrow>
               (let name = takeWhile rune_word ds; rest = dropWhile rune_word ds
                in if name = [] \<or> take 1 rest \<noteq> [62] then None
                   else Some (TOpen name, drop 1 rest))))"

definition next_tok :: "nat \<Rightarrow> nat list \<Rightarrow> (tok \<times> nat list) option" where
  "next_tok c cs =
    (if c = 92 then
       (case cs of [] \<Rightarrow> None | e # cs' \<Rightarrow> map_option (\<lambda>S. (TSet S, cs')) (escape_set e))
     else if c = 46 then Some (TSet (True, [(10, 10)]), cs)
     else if c = 91 then
       (let neg = (take 1 cs = [94])
        in map_option (\<lambda>(xs, t). (TSet (neg, xs), t)) (class_items True (if neg then drop 1 cs else cs)))
     else if c = 40 then group_open cs
     else if c = 41 then Some (TClose, cs)
     else if c = 124 then Some (TAlt, cs)
     else if c = 42 then Some (TStar, drop_lazy cs)
     else if c = 43 then Some (TPlus, drop_lazy cs)
     else if c = 63 then Some (TOpt, drop_lazy cs)
     else if c = 94 then Some (TBegin, cs)
     else if c = 36 then Some (TEnd, cs)
     else if c = 123 then None
     else Some (lit c, cs))"

lemma next_tok_shorter: "next_tok c cs = Some (t, r) \<Longrightarrow> length r \<le> length cs"
proof -
  have drops: "length (dropWhile P xs) \<le> length xs" for P and xs :: "nat list"
    by (simp add: length_dropWhile_le)
  have g: "group_open cs = Some (t, r) \<Longrightarrow> length r \<le> length cs"
    using drops [of rune_word "drop 3 cs"] drops [of rune_word "drop 2 cs"]
    by (auto simp: group_open_def Let_def split: if_splits option.splits)
  show "next_tok c cs = Some (t, r) \<Longrightarrow> length r \<le> length cs"
    using g
    by (auto simp: next_tok_def Let_def drop_lazy_def split: if_splits list.splits
        dest: class_items_shorter)
qed

function tokens :: "nat list \<Rightarrow> tok list option" where
  "tokens [] = Some []"
| "tokens (c # cs) =
     (case next_tok c cs of
        None \<Rightarrow> None
      | Some (t, r) \<Rightarrow> map_option (Cons t) (tokens r))"
  by pat_completeness auto

termination
  by (relation "measure length") (auto dest: next_tok_shorter)

section \<open>Parsing\<close>

text \<open>A frame of an open group: the alternatives read so far, and the
  current sequence, last item first, each with a mark that tells whether it is
  already repeated.\<close>

type_synonym re_frame = "re list \<times> (re \<times> bool) list"

definition seq_of :: "(re \<times> bool) list \<Rightarrow> re" where
  "seq_of xs = foldl (\<lambda>acc x. RSeq (fst x) acc) REps xs"

definition close_frame :: "re_frame \<Rightarrow> re" where
  "close_frame fr = fold (\<lambda>a acc. RAlt a acc) (rev (fst fr)) (seq_of (snd fr))"

definition push_item :: "re \<Rightarrow> re_frame \<Rightarrow> re_frame" where
  "push_item r fr = (fst fr, (r, False) # snd fr)"

fun repeat_item :: "(re \<Rightarrow> re) \<Rightarrow> re_frame \<Rightarrow> re_frame option" where
  "repeat_item f (alts, (r, False) # items) = Some (alts, (f r, True) # items)"
| "repeat_item f _ = None"

fun parse_toks :: "tok list \<Rightarrow> re_frame list \<Rightarrow> nat list list \<Rightarrow> re option" where
  "parse_toks ts [] names = None"
| "parse_toks [] (fr # frs) names = (if frs = [] then Some (close_frame fr) else None)"
| "parse_toks (t # ts) (fr # frs) names =
     (case t of
        TSet S \<Rightarrow> parse_toks ts (push_item (RSet S) fr # frs) names
      | TBegin \<Rightarrow> parse_toks ts (push_item RBegin fr # frs) names
      | TEnd \<Rightarrow> parse_toks ts (push_item REnd fr # frs) names
      | TOpen n \<Rightarrow>
          if n \<noteq> [] \<and> n \<in> set names then None
          else parse_toks ts (([], []) # fr # frs) (if n = [] then names else n # names)
      | TClose \<Rightarrow>
          (case frs of
             [] \<Rightarrow> None
           | p # ps \<Rightarrow> parse_toks ts (push_item (close_frame fr) p # ps) names)
      | TAlt \<Rightarrow> parse_toks ts ((fst fr @ [seq_of (snd fr)], []) # frs) names
      | TStar \<Rightarrow> (case repeat_item RStar fr of Some f \<Rightarrow> parse_toks ts (f # frs) names | None \<Rightarrow> None)
      | TPlus \<Rightarrow> (case repeat_item (\<lambda>r. RSeq r (RStar r)) fr of
                   Some f \<Rightarrow> parse_toks ts (f # frs) names | None \<Rightarrow> None)
      | TOpt \<Rightarrow> (case repeat_item (\<lambda>r. RAlt r REps) fr of
                   Some f \<Rightarrow> parse_toks ts (f # frs) names | None \<Rightarrow> None))"

definition re_Compile :: "string \<Rightarrow> re option" where
  "re_Compile p =
    (if \<not> valid_utf8 p then None
     else case tokens (runes p) of None \<Rightarrow> None | Some ts \<Rightarrow> parse_toks ts [([], [])] [])"

section \<open>Matching\<close>

text \<open>The positions at which a match of the expression that starts at a given
  position can end.  A repetition collects positions until nothing new can
  appear: there are at most as many as the text has runes, plus one.\<close>

fun iterate :: "nat \<Rightarrow> (nat \<Rightarrow> nat list) \<Rightarrow> nat list \<Rightarrow> nat list" where
  "iterate 0 f ps = ps"
| "iterate (Suc n) f ps = iterate n f (remdups (ps @ concat (map f ps)))"

fun ends :: "re \<Rightarrow> nat list \<Rightarrow> nat \<Rightarrow> nat list" where
  "ends REps s i = [i]"
| "ends (RSet S) s i = (if i < length s \<and> in_set_rune S (s ! i) then [Suc i] else [])"
| "ends (RSeq a b) s i = concat (map (ends b s) (ends a s i))"
| "ends (RAlt a b) s i = ends a s i @ ends b s i"
| "ends (RStar a) s i = iterate (Suc (length s)) (ends a s) [i]"
| "ends RBegin s i = (if i = 0 then [i] else [])"
| "ends REnd s i = (if i = length s then [i] else [])"

definition re_matches :: "re \<Rightarrow> string \<Rightarrow> bool" where
  "re_matches r s = list_ex (\<lambda>i. ends r (runes s) i \<noteq> []) [0..<Suc (length (runes s))]"

text \<open>regexp.QuoteMeta.\<close>

definition quoteMeta :: "string \<Rightarrow> string" where
  "quoteMeta s = concat (map (\<lambda>c.
     if c \<in> set ''.+*?()|[]{}^$'' \<or> byte c = 0x5C then [CHR 0x5C, c] else [c]) s)"

section \<open>Lemmas\<close>

lemma iterate_mono: "set ps \<subseteq> set (iterate n f ps)"
  by (induction n f ps rule: iterate.induct) auto

lemma ends_RSet_iff [simp]: "j \<in> set (ends (RSet S) s i) \<longleftrightarrow> i < length s \<and> in_set_rune S (s ! i) \<and> j = Suc i"
  by auto

text \<open>What a repetition of one set reaches: the positions up to the first rune
  outside the set.\<close>

lemma iterate_set_reach:
  "j \<in> set (iterate n (ends (RSet S) s) ps) \<longleftrightarrow>
    (\<exists>i\<in>set ps. i \<le> j \<and> j \<le> i + n \<and> (i = j \<or> j \<le> length s) \<and> (\<forall>k. i \<le> k \<and> k < j \<longrightarrow> in_set_rune S (s ! k)))"
proof (induction n arbitrary: ps)
  case 0
  then show ?case by auto
next
  case (Suc n)
  let ?ps = "remdups (ps @ concat (map (ends (RSet S) s) ps))"
  have mem: "i \<in> set ?ps \<longleftrightarrow> i \<in> set ps \<or> (\<exists>h\<in>set ps. h < length s \<and> in_set_rune S (s ! h) \<and> i = Suc h)" for i
    by auto
  show ?case
  proof
    assume "j \<in> set (iterate (Suc n) (ends (RSet S) s) ps)"
    then obtain i where i: "i \<in> set ?ps" "i \<le> j" "j \<le> i + n" "i = j \<or> j \<le> length s"
      "\<forall>k. i \<le> k \<and> k < j \<longrightarrow> in_set_rune S (s ! k)"
      using Suc by auto
    show "\<exists>i\<in>set ps. i \<le> j \<and> j \<le> i + Suc n \<and> (i = j \<or> j \<le> length s)
        \<and> (\<forall>k. i \<le> k \<and> k < j \<longrightarrow> in_set_rune S (s ! k))"
    proof (cases "i \<in> set ps")
      case True
      then show ?thesis using i by fastforce
    next
      case False
      then obtain h where h: "h \<in> set ps" "h < length s" "in_set_rune S (s ! h)" "i = Suc h"
        using i(1) mem by auto
      have "in_set_rune S (s ! k)" if "h \<le> k" "k < j" for k
        using that h i(5) by (cases "k = h") auto
      then show ?thesis using h i by (intro bexI [of _ h]) auto
    qed
  next
    assume "\<exists>i\<in>set ps. i \<le> j \<and> j \<le> i + Suc n \<and> (i = j \<or> j \<le> length s)
        \<and> (\<forall>k. i \<le> k \<and> k < j \<longrightarrow> in_set_rune S (s ! k))"
    then obtain i where i: "i \<in> set ps" "i \<le> j" "j \<le> i + Suc n" "i = j \<or> j \<le> length s"
        "\<forall>k. i \<le> k \<and> k < j \<longrightarrow> in_set_rune S (s ! k)" by blast
    have "\<exists>i\<in>set ?ps. i \<le> j \<and> j \<le> i + n \<and> (i = j \<or> j \<le> length s)
        \<and> (\<forall>k. i \<le> k \<and> k < j \<longrightarrow> in_set_rune S (s ! k))"
    proof (cases "i = j")
      case True
      then show ?thesis using i(1) by (intro bexI [of _ i]) auto
    next
      case False
      then have lt: "i < j" and jl: "j \<le> length s" using i by auto
      then have "in_set_rune S (s ! i)" "i < length s" using i(5) by auto
      then have "Suc i \<in> set ?ps" using i(1) mem by blast
      then show ?thesis using lt jl i by (intro bexI [of _ "Suc i"]) auto
    qed
    then show "j \<in> set (iterate (Suc n) (ends (RSet S) s) ps)"
      unfolding iterate.simps by (simp only: Suc [of ?ps])
  qed
qed


section \<open>Quoted literals\<close>

definition ascii :: "string \<Rightarrow> bool" where
  "ascii s \<longleftrightarrow> list_all (\<lambda>c. byte c < 128) s"

lemma ascii_Cons [simp]: "ascii (c # s) \<longleftrightarrow> byte c < 128 \<and> ascii s" and ascii_Nil [simp]: "ascii []"
  by (simp_all add: ascii_def)

lemma ascii_append [simp]: "ascii (s @ t) \<longleftrightarrow> ascii s \<and> ascii t"
  by (auto simp: ascii_def)

lemma rune_width_ascii: "byte c < 128 \<Longrightarrow> rune_width (c # s) = 1"
  by (simp add: rune_width_def Let_def)

lemma valid_utf8_ascii: "ascii s \<Longrightarrow> valid_utf8 s"
proof (induction s)
  case Nil
  then show ?case by (simp add: valid_utf8.simps)
next
  case (Cons c s)
  then show ?case by (subst valid_utf8.simps) (simp add: rune_width_ascii)
qed

lemma runes_ascii_append: "ascii s \<Longrightarrow> runes (s @ t) = map byte s @ runes t"
  by (induction s) (simp_all add: runes_ascii)

text \<open>A rune below 128 is an ASCII byte.\<close>

lemma cont_ok_Cons: "cont_ok lo hi cs \<Longrightarrow> \<exists>d ds. cs = d # ds \<and> lo \<le> byte d \<and> byte d \<le> hi"
  by (cases cs) auto

lemma rune_width_2: "rune_width (c # cs) = 2 \<Longrightarrow> 0xC2 \<le> byte c \<and> byte c \<le> 0xDF \<and> cont_ok 0x80 0xBF cs"
  by (simp add: rune_width_def Let_def split: if_splits)

lemma rune_width_3:
  "rune_width (c # cs) = 3 \<Longrightarrow> cont_ok 0x80 0xBF (drop 1 cs)
    \<and> (byte c = 0xE0 \<and> cont_ok 0xA0 0xBF cs \<or> 0xE1 \<le> byte c \<and> byte c \<le> 0xEF)"
  by (simp add: rune_width_def Let_def split: if_splits)

lemma rune_width_4:
  "rune_width (c # cs) = 4 \<Longrightarrow> cont_ok 0x80 0xBF (drop 1 cs) \<and> cont_ok 0x80 0xBF (drop 2 cs)
    \<and> (byte c = 0xF0 \<and> cont_ok 0x90 0xBF cs \<or> 0xF1 \<le> byte c \<and> byte c \<le> 0xF4)"
  by (simp add: rune_width_def Let_def split: if_splits)

lemma rune_width_range: "rune_width (c # cs) \<in> {1, 2, 3, 4}"
  by (simp add: rune_width_def Let_def)

lemma mod_window: "k \<le> b \<Longrightarrow> b < k + m \<Longrightarrow> k mod m = 0 \<Longrightarrow> b mod m = b - (k::nat)"
  using mod_add_left_eq [of k m "b - k"] by simp

lemma wide_rune:
  assumes "1 < rune_width s"
  shows "128 \<le> rune_value (take (rune_width s) s)"
proof -
  obtain c cs where s: "s = c # cs" using assms by (cases s) (auto simp: rune_width_def)
  consider "rune_width s = 2" | "rune_width s = 3" | "rune_width s = 4"
    using assms rune_width_range [of c cs] s by auto
  then show ?thesis
  proof cases
    case 1
    then have c: "0xC2 \<le> byte c" "byte c \<le> 0xDF" and "cont_ok 0x80 0xBF cs"
      using rune_width_2 s by blast+
    then obtain d ds where cs: "cs = d # ds" by (blast dest: cont_ok_Cons)
    have "2 \<le> byte c mod 32" using c mod_window [where k = "0xC0" and b = "byte c" and m = "32"] by simp
    then show ?thesis using 1 by (simp add: s cs rune_value_def)
  next
    case 2
    then have c: "byte c = 0xE0 \<and> cont_ok 0xA0 0xBF cs \<or> 0xE1 \<le> byte c \<and> byte c \<le> 0xEF"
      and k: "cont_ok 0x80 0xBF (drop 1 cs)" using rune_width_3 s by blast+
    obtain d e es where cs: "cs = d # e # es" using cont_ok_Cons [OF k] by (cases cs) auto
    have "1 \<le> byte c mod 16 \<or> 32 \<le> byte d mod 64"
      using c cs mod_window [where k = "0xE0" and b = "byte c" and m = "16"] mod_window [where k = "0x80" and b = "byte d" and m = "64"] by auto
    then show ?thesis using 2 by (auto simp add: s cs rune_value_def)
  next
    case 3
    then have c: "byte c = 0xF0 \<and> cont_ok 0x90 0xBF cs \<or> 0xF1 \<le> byte c \<and> byte c \<le> 0xF4"
      and k: "cont_ok 0x80 0xBF (drop 2 cs)" using rune_width_4 s by blast+
    obtain d e f es where cs: "cs = d # e # f # es"
      using cont_ok_Cons [OF k] by (cases cs; cases "tl cs") auto
    have "1 \<le> byte c mod 8 \<or> 16 \<le> byte d mod 64"
      using c cs mod_window [where k = "0xF0" and b = "byte c" and m = "8"] mod_window [where k = "0x80" and b = "byte d" and m = "64"] by auto
    then show ?thesis using 3 by (auto simp add: s cs rune_value_def)
  qed
qed

lemma runes_small:
  assumes "runes s = r # rs" "r < 128"
  shows "\<exists>c t. s = c # t \<and> byte c = r \<and> runes t = rs"
proof -
  have ne: "s \<noteq> []" using assms(1) by auto
  then have eq: "rune_value (take (rune_width s) s) = r" "runes (drop (rune_width s) s) = rs"
    using assms(1) by (simp_all add: runes.simps [of s])
  have w: "rune_width s = 1"
    using wide_rune [of s] eq(1) assms(2) rune_width_ne_pos [OF ne] by fastforce
  obtain c t where s: "s = c # t" using ne by (cases s) auto
  have "byte c = r" using eq(1) w s assms(2) by (auto simp: rune_value_def split: if_splits)
  then show ?thesis using s eq(2) w by auto
qed

lemma runes_prefix:
  assumes "take (length b) (runes s) = map byte b" "ascii b"
  shows "\<exists>t. s = b @ t \<and> runes t = drop (length b) (runes s)"
  using assms
proof (induction b arbitrary: s)
  case (Cons c b)
  then obtain rs where rs: "runes s = byte c # rs" "take (length b) rs = map byte b"
    by (cases "runes s") auto
  then obtain t where t: "s = c # t" "runes t = rs"
    using runes_small [OF rs(1)] Cons.prems(2) byte_inj by auto
  then show ?case using Cons.IH [of t] Cons.prems(2) rs by auto
qed auto

lemma meta_byte:
  "c \<in> set ''.+*?()|[]{}^$'' \<or> byte c = 0x5C \<longleftrightarrow>
    byte c \<in> {46, 43, 42, 63, 40, 41, 124, 91, 93, 123, 125, 94, 36, 92}"
proof
  assume "byte c \<in> {46, 43, 42, 63, 40, 41, 124, 91, 93, 123, 125, 94, 36, 92}"
  then show "c \<in> set ''.+*?()|[]{}^$'' \<or> byte c = 0x5C"
    using char_of_byte [of c] by (auto simp: char_of_def bit_iff_odd)
qed (auto simp: byte_def)


lemma next_tok_plain:
  "r < 128 \<Longrightarrow> r \<notin> {46, 43, 42, 63, 40, 41, 124, 91, 93, 123, 125, 94, 36, 92} \<Longrightarrow> next_tok r cs = Some (lit r, cs)"
  by (simp add: next_tok_def)

lemma next_tok_quoted:
  "r \<in> {46, 43, 42, 63, 40, 41, 124, 91, 93, 123, 125, 94, 36, 92} \<Longrightarrow>
    next_tok 92 (r # cs) = Some (lit r, cs)"
  by (auto simp: next_tok_def escape_set_def rune_alnum_def)

lemma byte_backslash: "byte (CHR 0x5C) = 92"
  by (simp add: byte_def)

lemma quoteMeta_Cons:
  "quoteMeta (c # s) =
    (if byte c \<in> {46, 43, 42, 63, 40, 41, 124, 91, 93, 123, 125, 94, 36, 92}
     then [CHR 0x5C, c] else [c]) @ quoteMeta s"
  by (simp only: quoteMeta_def list.map concat.simps meta_byte)

lemma ascii_quoteMeta: "ascii s \<Longrightarrow> ascii (quoteMeta s)"
  by (induction s) (auto simp: quoteMeta_Cons byte_backslash, simp add: quoteMeta_def)

lemma tokens_quoteMeta:
  "ascii s \<Longrightarrow> tokens (map byte (quoteMeta s) @ rs) = map_option ((@) (map (\<lambda>c. lit (byte c)) s)) (tokens rs)"
proof (induction s)
  case Nil
  then show ?case by (simp add: quoteMeta_def option.map_ident)
next
  case (Cons c s)
  let ?M = "{46, 43, 42, 63, 40, 41, 124, 91, 93, 123, 125, 94, 36, 92} :: nat set"
  show ?case
  proof (cases "byte c \<in> ?M")
    case True
    have "tokens (map byte (quoteMeta (c # s)) @ rs) = tokens (92 # byte c # map byte (quoteMeta s) @ rs)"
      by (simp only: quoteMeta_Cons if_P [OF True]) (simp add: byte_backslash)
    also have "\<dots> = map_option (Cons (lit (byte c))) (tokens (map byte (quoteMeta s) @ rs))"
      by (simp only: tokens.simps next_tok_quoted [OF True]) simp
    finally show ?thesis using Cons by (simp add: option.map_comp comp_def)
  next
    case False
    have "tokens (map byte (quoteMeta (c # s)) @ rs) = tokens (byte c # map byte (quoteMeta s) @ rs)"
      by (simp only: quoteMeta_Cons if_not_P [OF False]) simp
    also have "\<dots> = map_option (Cons (lit (byte c))) (tokens (map byte (quoteMeta s) @ rs))"
      using Cons.prems by (simp only: tokens.simps next_tok_plain [OF _ False] ascii_Cons) simp
    finally show ?thesis using Cons by (simp add: option.map_comp comp_def)
  qed
qed

lemma parse_lits:
  "parse_toks (map (\<lambda>c. lit (f c)) xs @ ts) (fr # frs) names =
    parse_toks ts ((fst fr, rev (map (\<lambda>c. (RSet (False, [(f c, f c)]), False)) xs) @ snd fr) # frs) names"
  by (induction xs arbitrary: fr) (simp_all add: push_item_def)

definition lit_seq :: "nat list \<Rightarrow> re \<Rightarrow> re" where
  "lit_seq xs k = foldr (\<lambda>x acc. RSeq (RSet (False, [(x, x)])) acc) xs k"

lemma foldl_lits:
  "foldl (\<lambda>acc x. RSeq (fst x) acc) k (rev (map (\<lambda>c. (RSet (False, [(f c, f c)]), False)) xs)) = lit_seq (map f xs) k"
  by (induction xs arbitrary: k) (simp_all add: lit_seq_def)

lemma lit_set [simp]: "in_set_rune (False, [(x, x)]) r \<longleftrightarrow> r = x"
  by (auto simp: in_set_rune_def)

lemma any_set [simp]: "in_set_rune (True, [(10, 10)]) r \<longleftrightarrow> r \<noteq> 10"
  by (auto simp: in_set_rune_def)

lemma ends_lit_seq:
  "i \<le> length s \<Longrightarrow> ends (lit_seq xs k) s i = (if take (length xs) (drop i s) = xs then ends k s (i + length xs) else [])"
proof (induction xs arbitrary: i)
  case Nil
  then show ?case by (simp add: lit_seq_def)
next
  case (Cons x xs)
  have step: "ends (lit_seq (x # xs) k) s i = (if i < length s \<and> s ! i = x then ends (lit_seq xs k) s (Suc i) else [])"
    by (auto simp: lit_seq_def)
  show ?case
  proof (cases "i < length s")
    case True
    then have d: "drop i s = s ! i # drop (Suc i) s" by (simp add: Cons_nth_drop_Suc)
    have "ends (lit_seq xs k) s (Suc i) = (if take (length xs) (drop (Suc i) s) = xs then ends k s (Suc i + length xs) else [])"
      using Cons.IH [of "Suc i"] True by simp
    then show ?thesis unfolding step d using True by simp
  next
    case False
    then show ?thesis using step by simp
  qed
qed

text \<open>A quoted literal, then anything, anchored at both ends: the text begins
  with the literal and the rest has no newline.\<close>

lemma re_Compile_prefix:
  assumes "ascii b"
  shows "re_Compile (''^'' @ quoteMeta b @ ''.*$'') =
    Some (RSeq RBegin (lit_seq (map byte b) (RSeq (RStar (RSet (True, [(10, 10)]))) (RSeq REnd REps))))"
proof -
  have asc: "ascii (''^'' @ quoteMeta b @ ''.*$'')"
    using ascii_quoteMeta [OF assms] by (simp add: byte_def)
  have bs: "byte (CHR ''^'') = 94" "byte (CHR ''.'') = 46" "byte (CHR ''*'') = 42" "byte (CHR ''$'') = 36"
    by (simp_all add: byte_def)
  have runes: "runes (''^'' @ quoteMeta b @ ''.*$'') = 94 # map byte (quoteMeta b) @ [46, 42, 36]"
    using runes_ascii_append [OF asc, of "[]"] by (simp add: bs)
  have tail: "tokens [46, 42, 36] = Some [TSet (True, [(10, 10)]), TStar, TEnd]"
    by (simp add: next_tok_def drop_lazy_def)
  have toks: "tokens (runes (''^'' @ quoteMeta b @ ''.*$'')) =
      Some (TBegin # map (\<lambda>c. lit (byte c)) b @ [TSet (True, [(10, 10)]), TStar, TEnd])"
  proof -
    have "next_tok 94 cs = Some (TBegin, cs)" for cs by (simp add: next_tok_def)
    then have "tokens (94 # cs) = map_option (Cons TBegin) (tokens cs)" for cs by simp
    then show ?thesis unfolding runes by (simp only: tokens_quoteMeta [OF assms] tail) simp
  qed
  have valid: "\<not> valid_utf8 (''^'' @ quoteMeta b @ ''.*$'') \<longleftrightarrow> False"
    using valid_utf8_ascii [OF asc] by simp
  show ?thesis
    unfolding re_Compile_def toks valid if_False option.case
    by (simp add: push_item_def parse_lits close_frame_def seq_of_def foldl_lits)
qed

end
