(* ===== verification/Router_Filter.thy ===== *)
theory Router_Filter
  imports Gate Go_Regexp
begin

text \<open>
  Package middleware/routerfilter: path matchers, as the jwt and rbac
  middlewares use them to skip a request, and the filter middleware itself.
  The decoding of the middleware's options (an Any message) is a parameter.
\<close>

section \<open>Path matchers\<close>

record PathMatcher =
  pm_raw :: string
  pm_regex :: re
  pm_methods :: "string list"
  pm_params :: "string list"
  pm_level :: nat

definition word_char :: "char \<Rightarrow> bool" where
  "word_char c \<longleftrightarrow> rune_word (byte c)"

text \<open>FindAllStringSubmatch with a brace, word characters and a brace: the
  names, leftmost matches first.\<close>

fun param_names :: "string \<Rightarrow> string list" where
  "param_names [] = []"
| "param_names (c # cs) =
     (if c = CHR ''{'' \<and> takeWhile word_char cs \<noteq> [] \<and> take 1 (dropWhile word_char cs) = ''}''
      then takeWhile word_char cs # param_names cs
      else param_names cs)"

definition wildcard_level :: "string \<Rightarrow> nat" where
  "wildcard_level p =
    (if hasSuffix p ''/*'' then 1 else if hasSuffix p ''/**'' then 2 else if hasSuffix p ''*'' then 3 else 0)"

text \<open>The Replacer: at each position the first old string that fits.\<close>

fun replace_wildcards :: "string \<Rightarrow> string" where
  "replace_wildcards [] = []"
| "replace_wildcards (c # cs) =
     (if c = CHR ''/'' \<and> take 2 cs = ''**'' then ''(?:/.*)?$'' @ replace_wildcards (drop 2 cs)
      else if c = CHR ''/'' \<and> take 1 cs = ''*'' then ''(?:/[^/]+)?'' @ replace_wildcards (drop 1 cs)
      else if c = CHR ''{'' then ''(?P<'' @ replace_wildcards cs
      else if c = CHR ''}'' then ''>[^/]+)'' @ replace_wildcards cs
      else c # replace_wildcards cs)"

definition pattern_path :: "string \<Rightarrow> string" where
  "pattern_path trimmed =
    (let p = trimSuffix trimmed ''/'' in if hasPrefix p ''/'' then p else CHR ''/'' # p)"

definition pattern_regex :: "string \<Rightarrow> string" where
  "pattern_regex p =
    (if hasSuffix p ''*'' \<and> \<not> hasSuffix p ''/*'' \<and> \<not> hasSuffix p ''/**''
     then ''^'' @ quoteMeta (trimSuffix p ''*'') @ ''.*$''
     else ''^'' @ replace_wildcards p @ (if hasSuffix p ''/**'' then [] else ''$''))"

definition NewPathMatcher :: "string \<Rightarrow> string list \<Rightarrow> PathMatcher option" where
  "NewPathMatcher pattern methods =
    (let trimmed = trimSpace pattern
     in if trimmed = [] then None
        else (let p = pattern_path trimmed
              in case re_Compile (pattern_regex p) of
                   None \<Rightarrow> None
                 | Some r \<Rightarrow>
                     Some \<lparr>pm_raw = p, pm_regex = r, pm_methods = map toUpper methods,
                           pm_params = param_names trimmed, pm_level = wildcard_level trimmed\<rparr>))"

definition request_match_path :: "string \<Rightarrow> string" where
  "request_match_path path =
    (let p = (if path = [] then ''/'' else path)
     in if hasPrefix p ''/'' then p else CHR ''/'' # p)"

text \<open>Match; the path parameters it also returns are ignored by every
  caller.\<close>

definition pm_Match :: "PathMatcher \<Rightarrow> request \<Rightarrow> bool" where
  "pm_Match m req =
    (if pm_methods m \<noteq> [] \<and> rq_method req \<notin> set (pm_methods m) then False
     else re_matches (pm_regex m) (request_match_path (rq_path req)))"

text \<open>The loop over the rules of a middleware configuration: an invalid rule
  stops it.\<close>

fun rule_matchers :: "rule list \<Rightarrow> PathMatcher list option" where
  "rule_matchers [] = Some []"
| "rule_matchers (r # rs) =
     (case NewPathMatcher (rl_path r) (rl_methods r) of
        None \<Rightarrow> None
      | Some m \<Rightarrow> map_option (Cons m) (rule_matchers rs))"

section \<open>The filter middleware\<close>

definition newResponse :: "int \<Rightarrow> header \<Rightarrow> response" where
  "newResponse status h =
    \<lparr>rs_status = status, rs_header = Some h, rs_trailer = Map.empty,
     rs_body = Some \<lparr>bd_data = ''{\"code\":403,\"message\":\"access denied\"}'', bd_err = None\<rparr>,
     rs_content_length = 0\<rparr>"

definition options_response :: response where
  "options_response =
    \<lparr>rs_status = 204,
     rs_header = Some [''Access-Control-Allow-Origin'' \<mapsto> [''*''],
                       ''Access-Control-Allow-Methods'' \<mapsto> [''GET, POST, PUT, DELETE, OPTIONS''],
                       ''Access-Control-Allow-Headers'' \<mapsto> [''*''],
                       ''Access-Control-Max-Age'' \<mapsto> [''600'']],
     rs_trailer = Map.empty, rs_body = None, rs_content_length = 0\<rparr>"

text \<open>The package variable \<open>matched\<close> is never set, so the metrics of
  a rejected request always say false and status 200.\<close>

definition router_filter :: "PathMatcher list \<Rightarrow> 'x world middleware" where
  "router_filter matchers next req w =
    (if rq_method req = ''OPTIONS'' then (Ret (Some options_response) None, w)
     else if list_ex (\<lambda>m. pm_Match m req) matchers then next req w
     else (Ret (Some (newResponse 403 [''Content-Type'' \<mapsto> [''application/json'']])) None,
           emit (EvCounter ''routerfilter_requests_total'' [''false'', rq_method req, rq_path req] 1)
             (emit (EvObserve ''routerfilter_request_duration_seconds'' [''200'']) w)))"

text \<open>The middleware as a gate: what it decides before the next layer.\<close>

definition router_decide :: "PathMatcher list \<Rightarrow> request \<Rightarrow> 'x world \<Rightarrow> (rt_result + request) \<times> 'x world" where
  "router_decide matchers req w =
    (if rq_method req \<noteq> ''OPTIONS'' \<and> list_ex (\<lambda>m. pm_Match m req) matchers then (Inr req, w)
     else case router_filter matchers (\<lambda>_ w. (Panicked, w)) req w of (r, w1) \<Rightarrow> (Inl r, w1))"

interpretation filter_gate: identity_gate "router_filter ms" "router_decide ms" "{}"
  by unfold_locales (auto simp: router_filter_def router_decide_def split: if_splits)

text \<open>\<open>None\<close> of the decoder is its error; the texts of the errors
  are not modelled.\<close>

definition router_filter_Middleware :: "(any_msg \<Rightarrow> rule list option) \<Rightarrow> 'x world factory" where
  "router_filter_Middleware decode c w =
    (case (case mc_options c of None \<Rightarrow> Some [] | Some a \<Rightarrow> decode a) of
       None \<Rightarrow> (Inl (PlainErr ''failed to unmarshal options''), w)
     | Some rules \<Rightarrow>
         (case rule_matchers rules of
            None \<Rightarrow> (Inl (PlainErr ''invalid rule''), w)
          | Some ms \<Rightarrow> (Inr (router_filter ms), w)))"

section \<open>What patterns match\<close>

definition prefix_base :: "string \<Rightarrow> bool" where
  "prefix_base b \<longleftrightarrow> ascii b \<and> hasPrefix b ''/'' \<and> \<not> hasSuffix b ''/'' \<and> \<not> hasSuffix b ''/*''
     \<and> trimSpace (b @ ''*'') = b @ ''*''"

lemma prefix_pattern_path: "prefix_base b \<Longrightarrow> pattern_path (b @ ''*'') = b @ ''*''"
  by (auto simp: prefix_base_def pattern_path_def trimSuffix_def Let_def suffix_def prefix_def)

lemma suffix_snoc_star: "hasSuffix (b @ ''*'') (p @ ''*'') \<longleftrightarrow> hasSuffix b p"
  by (simp add: suffix_def)

lemma prefix_pattern_regex: "prefix_base b \<Longrightarrow> pattern_regex (b @ ''*'') = ''^'' @ quoteMeta b @ ''.*$''"
  using suffix_snoc_star [of b "''/''"] suffix_snoc_star [of b "''/*''"] suffix_snoc_star [of b "[]"]
  by (simp add: prefix_base_def pattern_regex_def trimSuffix_def)

lemma set_drop_nth: "x \<in> set (drop i s) \<longleftrightarrow> (\<exists>k. i \<le> k \<and> k < length s \<and> s ! k = x)"
proof
  assume "\<exists>k. i \<le> k \<and> k < length s \<and> s ! k = x"
  then obtain k where k: "i \<le> k" "k < length s" "s ! k = x" by blast
  then have "drop i s ! (k - i) = x" "k - i < length (drop i s)" by auto
  then show "x \<in> set (drop i s)" using nth_mem by blast
next
  assume "x \<in> set (drop i s)"
  then obtain j where "j < length s - i" "x = s ! (i + j)" by (auto simp: in_set_conv_nth)
  then show "\<exists>k. i \<le> k \<and> k < length s \<and> s ! k = x" by (intro exI [of _ "i + j"]) auto
qed

text \<open>The tail of the expression reaches the end of the text unless a newline
  stands in the way.\<close>

lemma ends_tail:
  "i \<le> length s \<Longrightarrow>
    ends (RSeq (RStar (RSet (True, [(10, 10)]))) (RSeq REnd REps)) s i \<noteq> [] \<longleftrightarrow> 10 \<notin> set (drop i s)"
proof -
  assume i: "i \<le> length s"
  have "ends (RSeq (RStar (RSet (True, [(10, 10)]))) (RSeq REnd REps)) s i \<noteq> [] \<longleftrightarrow>
      length s \<in> set (iterate (Suc (length s)) (ends (RSet (True, [(10, 10)])) s) [i])"
    by (auto simp del: ends.simps(2) iterate.simps)
  also have "\<dots> \<longleftrightarrow> (\<forall>k. i \<le> k \<and> k < length s \<longrightarrow> s ! k \<noteq> 10)"
    using i by (simp only: iterate_set_reach) auto
  also have "\<dots> \<longleftrightarrow> 10 \<notin> set (drop i s)"
    by (auto simp: set_drop_nth)
  finally show ?thesis .
qed

lemma prefix_NewPathMatcher:
  assumes "prefix_base b"
  shows "\<exists>m. NewPathMatcher (b @ ''*'') methods = Some m
    \<and> pm_methods m = map toUpper methods
    \<and> pm_regex m = RSeq RBegin (lit_seq (map byte b) (RSeq (RStar (RSet (True, [(10, 10)]))) (RSeq REnd REps)))"
proof -
  have a: "ascii b" "trimSpace (b @ ''*'') = b @ ''*''" using assms by (simp_all add: prefix_base_def)
  show ?thesis
    unfolding NewPathMatcher_def a(2) Let_def prefix_pattern_path [OF assms] prefix_pattern_regex [OF assms]
      re_Compile_prefix [OF a(1)] by simp
qed

lemma anchored_matches:
  "re_matches (RSeq RBegin (lit_seq xs (RSeq (RStar (RSet (True, [(10, 10)]))) (RSeq REnd REps)))) s \<longleftrightarrow>
    take (length xs) (runes s) = xs \<and> 10 \<notin> set (drop (length xs) (runes s))"
proof -
  let ?k = "RSeq (RStar (RSet (True, [(10, 10)]))) (RSeq REnd REps)"
  have "re_matches (RSeq RBegin (lit_seq xs ?k)) s \<longleftrightarrow> ends (lit_seq xs ?k) (runes s) 0 \<noteq> []"
    by (auto simp: re_matches_def list_ex_iff)
  also have "\<dots> \<longleftrightarrow> take (length xs) (runes s) = xs \<and> ends ?k (runes s) (length xs) \<noteq> []"
    by (simp only: ends_lit_seq [of 0]) simp
  also have "\<dots> \<longleftrightarrow> take (length xs) (runes s) = xs \<and> 10 \<notin> set (drop (length xs) (runes s))"
    using ends_tail [of "length xs" "runes s"] by (metis length_take min.cobounded1 min.commute)
  finally show ?thesis .
qed

text \<open>C38: A pattern that ends in a star but no slash before it compiles, and
  its matcher accepts exactly the requests with one of the given methods (any
  method when none is given) whose rooted path begins with the literal text
  before the star and has no newline after it: the characters of the pattern
  have no special meaning.\<close>

theorem prefix_pattern_matches:
  assumes "prefix_base b"
  shows "case NewPathMatcher (b @ ''*'') methods of
      None \<Rightarrow> False
    | Some m \<Rightarrow> pm_Match m req \<longleftrightarrow>
        (methods = [] \<or> rq_method req \<in> toUpper ` set methods) \<and>
        (\<exists>rest. request_match_path (rq_path req) = b @ rest \<and> 10 \<notin> set (runes rest))"
proof -
  have a: "ascii b" using assms by (simp add: prefix_base_def)
  let ?p = "request_match_path (rq_path req)"
  obtain m where m: "NewPathMatcher (b @ ''*'') methods = Some m" "pm_methods m = map toUpper methods"
    "pm_regex m = RSeq RBegin (lit_seq (map byte b) (RSeq (RStar (RSet (True, [(10, 10)]))) (RSeq REnd REps)))"
    using prefix_NewPathMatcher [OF assms] by blast
  have "take (length b) (runes ?p) = map byte b \<and> 10 \<notin> set (drop (length b) (runes ?p)) \<longleftrightarrow>
      (\<exists>rest. ?p = b @ rest \<and> 10 \<notin> set (runes rest))"
    using runes_prefix [OF _ a, of ?p] runes_ascii_append [OF a] by fastforce
  then show ?thesis
    using m(1) by (simp add: pm_Match_def m(2,3) anchored_matches)
qed

definition user_request :: request where
  "user_request = \<lparr>rq_method = ''GET'', rq_host = ''gw'', rq_scheme = [], rq_url_host = [], rq_path = ''/user.v1/list'',
     rq_remote_addr = ''10.0.0.9:1234'', rq_header = Map.empty, rq_body = \<lparr>bd_data = [], bd_err = None\<rparr>,
     rq_content_length = 0, rq_request_uri = ''/user.v1/list'', rq_ctx_path = None\<rparr>"

lemma prefix_base_sample: "prefix_base ''/user.v1''"
proof -
  have "trimSpace (''/user.v1*'') = ''/user.v1*''"
    by (rule trimSpace_graphic) (simp add: byte_def)
  then show ?thesis by (simp add: prefix_base_def byte_def suffix_def ascii_def)
qed

theorem prefix_pattern_matches_witness:
  "case NewPathMatcher (''/user.v1'' @ ''*'') [''get''] of
      None \<Rightarrow> False
    | Some m \<Rightarrow> pm_Match m user_request \<longleftrightarrow>
        ([''get''] = ([] :: string list) \<or> rq_method user_request \<in> toUpper ` set [''get'']) \<and>
        (\<exists>rest. request_match_path (rq_path user_request) = ''/user.v1'' @ rest \<and> 10 \<notin> set (runes rest))"
  by (rule prefix_pattern_matches [OF prefix_base_sample])

lemma exact_v1_0:
  "NewPathMatcher ''/v1.0'' [] =
    Some \<lparr>pm_raw = ''/v1.0'',
      pm_regex = RSeq RBegin (RSeq (RSet (False, [(47, 47)])) (RSeq (RSet (False, [(118, 118)])) (RSeq (RSet (False, [(49, 49)]))
        (RSeq (RSet (True, [(10, 10)])) (RSeq (RSet (False, [(48, 48)])) (RSeq REnd REps)))))),
      pm_methods = [], pm_params = [], pm_level = 0\<rparr>"
proof -
  have trim: "trimSpace ''/v1.0'' = ''/v1.0''" by (rule trimSpace_graphic) (simp add: byte_def)
  have path: "pattern_path ''/v1.0'' = ''/v1.0''" by (simp add: pattern_path_def trimSuffix_def suffix_def)
  have regex: "pattern_regex ''/v1.0'' = ''^/v1.0$''" by (simp add: pattern_regex_def suffix_def)
  have asc: "ascii ''^/v1.0$''" by (simp add: byte_def)
  have runes: "runes ''^/v1.0$'' = [94, 47, 118, 49, 46, 48, 36]"
    using runes_ascii_append [OF asc, of "[]"] by (simp add: byte_def)
  have toks: "tokens [94, 47, 118, 49, 46, 48, 36] =
      Some [TBegin, lit 47, lit 118, lit 49, TSet (True, [(10, 10)]), lit 48, TEnd]"
    by (simp add: next_tok_def)
  have compile: "re_Compile ''^/v1.0$'' = Some (RSeq RBegin (RSeq (RSet (False, [(47, 47)])) (RSeq (RSet (False, [(118, 118)])) (RSeq (RSet (False, [(49, 49)]))
        (RSeq (RSet (True, [(10, 10)])) (RSeq (RSet (False, [(48, 48)])) (RSeq REnd REps)))))))"
    unfolding re_Compile_def if_not_P [OF valid_utf8_ascii [OF asc, THEN not_not [THEN iffD2]]] runes toks option.case
    by (simp add: push_item_def close_frame_def seq_of_def)
  show ?thesis
    unfolding NewPathMatcher_def trim Let_def path regex compile
    by (simp add: wildcard_level_def suffix_def)
qed

text \<open>A pattern without a wildcard is compiled as it stands: the dot of
  a versioned path is the dot of regular expressions, so the rule for
  /v1.0 also accepts /v1x0.\<close>

theorem exact_pattern_dot_is_wildcard:
  "map_option (\<lambda>m. (pm_Match m (user_request\<lparr>rq_path := ''/v1.0''\<rparr>), pm_Match m (user_request\<lparr>rq_path := ''/v1x0''\<rparr>)))
     (NewPathMatcher ''/v1.0'' []) = Some (True, True)"
proof -
  have runes: "runes ''/v1.0'' = [47, 118, 49, 46, 48]" "runes ''/v1x0'' = [47, 118, 49, 120, 48]"
    using runes_ascii_append [of "''/v1.0''" "[]"] runes_ascii_append [of "''/v1x0''" "[]"] by (simp_all add: byte_def)
  show ?thesis
    unfolding exact_v1_0 option.map
    by (simp add: pm_Match_def request_match_path_def re_matches_def runes in_set_rune_def user_request_def)
qed

end
