(* ===== verification/Go_Os.thy ===== *)
theory Go_Os
  imports Go_Http "HOL-Library.AList"
begin

text \<open>
  The calls of package os the gateway makes: files, directories and the
  environment of the process.  Every file call may fail: the state carries a
  schedule of faults, one for each call, and a theorem that holds for every
  state holds for every schedule.  Paths are compared as strings.  The record
  is extended by the components that keep state of their own.
\<close>

section \<open>The state\<close>

record os =
  os_files :: "(string \<times> string \<times> nat) list"
  os_dirs :: "string list"
  os_env :: "string \<rightharpoonup> string"
  os_calls :: nat
  os_fault :: "nat \<Rightarrow> err option"
  os_rand :: "nat \<Rightarrow> string"

abbreviation ErrNotExist :: err where
  "ErrNotExist \<equiv> Sentinel ''file does not exist''"

abbreviation ErrExist :: err where
  "ErrExist \<equiv> Sentinel ''file already exists''"

text \<open>No error of package os is a kratos error, so errors.Is compares
  sentinels along the chain.\<close>

definition is_not_exist :: "err \<Rightarrow> bool" where
  "is_not_exist e = err_is (\<lambda>k t. False) e ErrNotExist"

text \<open>A fault never claims that a file does not exist.\<close>

definition sys :: "('a os_scheme \<Rightarrow> (err + 'b) \<times> 'a os_scheme) \<Rightarrow> 'a os_scheme \<Rightarrow> (err + 'b) \<times> 'a os_scheme" where
  "sys f w =
    (let w1 = w\<lparr>os_calls := Suc (os_calls w)\<rparr>
     in case os_fault w (os_calls w) of
          Some e \<Rightarrow> if is_not_exist e then f w1 else (Inl e, w1)
        | None \<Rightarrow> f w1)"

section \<open>Calls\<close>

definition file_at :: "'a os_scheme \<Rightarrow> string \<Rightarrow> (string \<times> nat) option" where
  "file_at w p = map_of (os_files w) p"

definition set_file :: "string \<Rightarrow> string \<times> nat \<Rightarrow> 'a os_scheme \<Rightarrow> 'a os_scheme" where
  "set_file p f w = w\<lparr>os_files := AList.update p f (os_files w)\<rparr>"

definition del_file :: "string \<Rightarrow> 'a os_scheme \<Rightarrow> 'a os_scheme" where
  "del_file p w = w\<lparr>os_files := AList.delete p (os_files w)\<rparr>"

text \<open>Stat gives the permission bits.\<close>

definition os_Stat :: "string \<Rightarrow> 'a os_scheme \<Rightarrow> (err + nat) \<times> 'a os_scheme" where
  "os_Stat p = sys (\<lambda>w.
     (case file_at w p of
        Some (c, m) \<Rightarrow> Inr m
      | None \<Rightarrow> if p \<in> set (os_dirs w) then Inr 493 else Inl ErrNotExist, w))"

definition os_ReadFile :: "string \<Rightarrow> 'a os_scheme \<Rightarrow> (err + string) \<times> 'a os_scheme" where
  "os_ReadFile p = sys (\<lambda>w.
     (case file_at w p of
        Some (c, m) \<Rightarrow> Inr c
      | None \<Rightarrow> if p \<in> set (os_dirs w) then Inl (PlainErr ''is a directory'') else Inl ErrNotExist, w))"

definition ancestors :: "string \<Rightarrow> string list" where
  "ancestors p = p # map (\<lambda>i. take i p) (filter (\<lambda>i. 0 < i \<and> p ! i = slash) [0..<length p])"

definition os_MkdirAll :: "string \<Rightarrow> 'a os_scheme \<Rightarrow> (err + unit) \<times> 'a os_scheme" where
  "os_MkdirAll p = sys (\<lambda>w.
     if list_ex (\<lambda>q. file_at w q \<noteq> None) (ancestors p) then (Inl (PlainErr ''not a directory''), w)
     else (Inr (), w\<lparr>os_dirs := remdups (ancestors p @ os_dirs w)\<rparr>))"

text \<open>CreateTemp tries up to 10000 random names and creates the file only if
  it does not exist.\<close>

function temp_name :: "'a os_scheme \<Rightarrow> string \<Rightarrow> nat \<Rightarrow> nat \<Rightarrow> string option" where
  "temp_name w base n i =
    (if n = 0 then None
     else if file_at w (base @ os_rand w i) = None \<and> base @ os_rand w i \<notin> set (os_dirs w)
     then Some (base @ os_rand w i)
     else temp_name w base (n - 1) (Suc i))"
  by pat_completeness auto
termination by (relation "measure (\<lambda>(w, b, n, i). n)") auto

declare temp_name.simps [simp del]

definition dir_base :: "string \<Rightarrow> string \<Rightarrow> string" where
  "dir_base dir pre = (if hasSuffix dir ''/'' then dir @ pre else dir @ slash # pre)"

definition os_CreateTemp :: "string \<Rightarrow> string \<Rightarrow> 'a os_scheme \<Rightarrow> (err + string) \<times> 'a os_scheme" where
  "os_CreateTemp dir pre = sys (\<lambda>w.
     if dir \<notin> set (os_dirs w) then (Inl ErrNotExist, w)
     else case temp_name w (dir_base dir pre) 10000 (os_calls w) of
            None \<Rightarrow> (Inl ErrExist, w)
          | Some p \<Rightarrow> (Inr p, set_file p ([], 384) w))"

text \<open>Calls on an open temporary file.\<close>

definition os_Chmod :: "string \<Rightarrow> nat \<Rightarrow> 'a os_scheme \<Rightarrow> (err + unit) \<times> 'a os_scheme" where
  "os_Chmod p m = sys (\<lambda>w.
     case file_at w p of None \<Rightarrow> (Inl ErrNotExist, w) | Some (c, m') \<Rightarrow> (Inr (), set_file p (c, m) w))"

definition os_Write :: "string \<Rightarrow> string \<Rightarrow> 'a os_scheme \<Rightarrow> (err + unit) \<times> 'a os_scheme" where
  "os_Write p s = sys (\<lambda>w.
     case file_at w p of None \<Rightarrow> (Inl ErrNotExist, w) | Some (c, m) \<Rightarrow> (Inr (), set_file p (c @ s, m) w))"

definition os_Sync :: "string \<Rightarrow> 'a os_scheme \<Rightarrow> (err + unit) \<times> 'a os_scheme" where
  "os_Sync p = sys (\<lambda>w. (Inr (), w))"

definition os_Close :: "string \<Rightarrow> 'a os_scheme \<Rightarrow> (err + unit) \<times> 'a os_scheme" where
  "os_Close p = sys (\<lambda>w. (Inr (), w))"

definition os_WriteFile :: "string \<Rightarrow> string \<Rightarrow> nat \<Rightarrow> 'a os_scheme \<Rightarrow> (err + unit) \<times> 'a os_scheme" where
  "os_WriteFile p s m = sys (\<lambda>w.
     if p \<in> set (os_dirs w) then (Inl (PlainErr ''is a directory''), w)
     else (case file_at w p of
             None \<Rightarrow> (Inr (), set_file p (s, m) w)
           | Some (c, m') \<Rightarrow> (Inr (), set_file p (s, m') w)))"

definition os_Rename :: "string \<Rightarrow> string \<Rightarrow> 'a os_scheme \<Rightarrow> (err + unit) \<times> 'a os_scheme" where
  "os_Rename a b = sys (\<lambda>w.
     case file_at w a of
       None \<Rightarrow> (Inl ErrNotExist, w)
     | Some f \<Rightarrow>
         if b \<in> set (os_dirs w) then (Inl ErrExist, w)
         else if a = b then (Inr (), w)
         else (Inr (), set_file b f (del_file a w)))"

definition os_Remove :: "string \<Rightarrow> 'a os_scheme \<Rightarrow> (err + unit) \<times> 'a os_scheme" where
  "os_Remove p = sys (\<lambda>w.
     case file_at w p of
       Some f \<Rightarrow> (Inr (), del_file p w)
     | None \<Rightarrow>
         if p \<in> set (os_dirs w) then (Inl (PlainErr ''directory not empty''), w) else (Inl ErrNotExist, w))"

text \<open>ReadDir: the names in a directory, sorted, each with whether it is a
  directory.\<close>

definition child_of :: "string \<Rightarrow> string \<Rightarrow> string option" where
  "child_of dir p =
    (let base = dir_base dir [] in
     if prefix base p \<and> length base < length p \<and> slash \<notin> set (drop (length base) p)
     then Some (drop (length base) p) else None)"

definition os_ReadDir :: "string \<Rightarrow> 'a os_scheme \<Rightarrow> (err + (string \<times> bool) list) \<times> 'a os_scheme" where
  "os_ReadDir dir = sys (\<lambda>w.
     if dir \<notin> set (os_dirs w) then (Inl ErrNotExist, w)
     else (Inr (map (\<lambda>n. (n, dir_base dir n \<in> set (os_dirs w)))
                 (sort (remdups (List.map_filter (child_of dir) (map fst (os_files w) @ os_dirs w))))), w))"

section \<open>The environment\<close>

definition os_Getenv :: "string \<Rightarrow> 'a os_scheme \<Rightarrow> string" where
  "os_Getenv k w = (case os_env w k of None \<Rightarrow> [] | Some v \<Rightarrow> v)"

definition env_ok :: "string \<Rightarrow> string \<Rightarrow> bool" where
  "env_ok k v \<longleftrightarrow> k \<noteq> [] \<and> CHR ''='' \<notin> set k \<and> CHR 0x00 \<notin> set k \<and> CHR 0x00 \<notin> set v"

definition os_Setenv :: "string \<Rightarrow> string \<Rightarrow> 'a os_scheme \<Rightarrow> err option \<times> 'a os_scheme" where
  "os_Setenv k v w =
    (if env_ok k v then (None, w\<lparr>os_env := (os_env w)(k \<mapsto> v)\<rparr>)
     else (Some (PlainErr ''setenv: invalid argument''), w))"

definition os_Unsetenv :: "string \<Rightarrow> 'a os_scheme \<Rightarrow> err option \<times> 'a os_scheme" where
  "os_Unsetenv k w = (None, w\<lparr>os_env := (os_env w)(k := None)\<rparr>)"

section \<open>Sequencing\<close>

text \<open>\<open>if x, err := c(); err != nil \{ return wrap(err) \}\<close> before the rest of a
  function that returns an error.\<close>

definition try_call :: "('w \<Rightarrow> (err + 'b) \<times> 'w) \<Rightarrow> (err \<Rightarrow> err) \<Rightarrow> ('b \<Rightarrow> 'w \<Rightarrow> err option \<times> 'w) \<Rightarrow> 'w \<Rightarrow> err option \<times> 'w" where
  "try_call c wrap k w =
    (case c w of (Inl e, w1) \<Rightarrow> (Some (wrap e), w1) | (Inr b, w1) \<Rightarrow> k b w1)"

lemma try_callE:
  assumes "try_call c wrap k w = (r, w')"
  obtains (fail) e where "c w = (Inl e, w')" "r = Some (wrap e)"
    | (ok) b w1 where "c w = (Inr b, w1)" "k b w1 = (r, w')"
  using assms by (auto simp: try_call_def split: prod.splits sum.splits)

lemma try_call_ok: "c w = (Inr b, w1) \<Longrightarrow> try_call c wrap k w = k b w1"
  by (simp add: try_call_def)

section \<open>Lemmas\<close>

lemma file_at_set [simp]: "file_at (set_file p f w) q = (if q = p then Some f else file_at w q)"
  by (simp add: file_at_def set_file_def update_conv)

lemma file_at_del [simp]: "file_at (del_file p w) q = (if q = p then None else file_at w q)"
  by (simp add: file_at_def del_file_def delete_conv)

lemma os_sel [simp]:
  "os_env (set_file p f w) = os_env w" "os_dirs (set_file p f w) = os_dirs w"
  "os_calls (set_file p f w) = os_calls w" "os_fault (set_file p f w) = os_fault w"
  "os_rand (set_file p f w) = os_rand w" "os.more (set_file p f w) = os.more w"
  "os_env (del_file p w) = os_env w" "os_dirs (del_file p w) = os_dirs w"
  "os_calls (del_file p w) = os_calls w" "os_fault (del_file p w) = os_fault w"
  "os_rand (del_file p w) = os_rand w" "os.more (del_file p w) = os.more w"
  by (simp_all add: set_file_def del_file_def)

lemma file_at_upd [simp]:
  "file_at (w\<lparr>os_calls := n\<rparr>) p = file_at w p" "file_at (w\<lparr>os_dirs := ds\<rparr>) p = file_at w p"
  "file_at (w\<lparr>os_env := m\<rparr>) p = file_at w p"
  by (simp_all add: file_at_def)

text \<open>What a call leaves alone: the environment, the fault schedule and the
  state of the components.\<close>

definition same_rest :: "'a os_scheme \<Rightarrow> 'a os_scheme \<Rightarrow> bool" where
  "same_rest w w' \<longleftrightarrow> os_env w' = os_env w \<and> os_fault w' = os_fault w \<and> os.more w' = os.more w"

lemma same_rest_refl [simp]: "same_rest w w"
  and same_rest_trans: "same_rest w w1 \<Longrightarrow> same_rest w1 w2 \<Longrightarrow> same_rest w w2"
  by (simp_all add: same_rest_def)

lemma sysE:
  assumes "sys f w = (r, w')"
  obtains (fault) e where "\<not> is_not_exist e" "r = Inl e" "w' = w\<lparr>os_calls := Suc (os_calls w)\<rparr>"
    | (run) "f (w\<lparr>os_calls := Suc (os_calls w)\<rparr>) = (r, w')"
  using assms by (auto simp: sys_def Let_def split: option.splits if_splits)

lemma sys_ok: "os_fault w = (\<lambda>_. None) \<Longrightarrow> sys f w = f (w\<lparr>os_calls := Suc (os_calls w)\<rparr>)"
  by (simp add: sys_def Let_def)

lemma calls_same_rest:
  "os_Stat p w = (r1, w') \<Longrightarrow> same_rest w w'"
  "os_ReadFile p w = (r2, w') \<Longrightarrow> same_rest w w'"
  "os_MkdirAll p w = (r3, w') \<Longrightarrow> same_rest w w'"
  "os_CreateTemp d pre w = (r4, w') \<Longrightarrow> same_rest w w'"
  "os_Chmod p m w = (r3, w') \<Longrightarrow> same_rest w w'"
  "os_Write p s w = (r3, w') \<Longrightarrow> same_rest w w'"
  "os_Sync p w = (r3, w') \<Longrightarrow> same_rest w w'"
  "os_Close p w = (r3, w') \<Longrightarrow> same_rest w w'"
  "os_WriteFile p s m w = (r3, w') \<Longrightarrow> same_rest w w'"
  "os_Rename p q w = (r3, w') \<Longrightarrow> same_rest w w'"
  "os_Remove p w = (r3, w') \<Longrightarrow> same_rest w w'"
  "os_ReadDir d w = (r5, w') \<Longrightarrow> same_rest w w'"
  by (unfold os_Stat_def os_ReadFile_def os_MkdirAll_def os_CreateTemp_def os_Chmod_def os_Write_def
        os_Sync_def os_Close_def os_WriteFile_def os_Rename_def os_Remove_def os_ReadDir_def)
     (erule sysE; auto simp: same_rest_def split: option.splits if_splits prod.splits)+

text \<open>Calls that change no file.\<close>

lemma calls_same_files:
  "os_Stat p w = (r1, w') \<Longrightarrow> os_files w' = os_files w"
  "os_ReadFile p w = (r2, w') \<Longrightarrow> os_files w' = os_files w"
  "os_MkdirAll p w = (r3, w') \<Longrightarrow> os_files w' = os_files w"
  "os_Sync p w = (r3, w') \<Longrightarrow> os_files w' = os_files w"
  "os_Close p w = (r3, w') \<Longrightarrow> os_files w' = os_files w"
  "os_ReadDir d w = (r5, w') \<Longrightarrow> os_files w' = os_files w"
  by (unfold os_Stat_def os_ReadFile_def os_MkdirAll_def os_Sync_def os_Close_def os_ReadDir_def)
     (erule sysE; auto split: option.splits if_splits prod.splits)+

lemma file_at_cong: "os_files w' = os_files w \<Longrightarrow> file_at w' = file_at w"
  by (simp add: file_at_def fun_eq_iff)

lemma calls_same_more: "same_rest w w' \<Longrightarrow> os.more w' = os.more w"
  by (simp add: same_rest_def)

lemma os_ReadFile_Inr: "os_ReadFile p w = (Inr c, w') \<Longrightarrow> \<exists>m. file_at w p = Some (c, m)"
  by (auto simp: os_ReadFile_def elim!: sysE split: option.splits if_splits)

text \<open>A file that exists is found.\<close>

lemma os_Stat_exists:
  assumes "os_Stat p w = (r, w')" "file_at w p = Some (c, m)"
  shows "(\<exists>e. r = Inl e \<and> \<not> is_not_exist e) \<or> r = Inr m"
  using assms by (auto simp: os_Stat_def elim!: sysE)

lemma os_ReadFile_exists:
  assumes "os_ReadFile p w = (r, w')" "file_at w p = Some (c, m)"
  shows "(\<exists>e. r = Inl e \<and> \<not> is_not_exist e) \<or> r = Inr c"
  using assms by (auto simp: os_ReadFile_def elim!: sysE)

lemma temp_name_fresh:
  "temp_name w base n i = Some p \<Longrightarrow> file_at w p = None \<and> (\<exists>s. p = base @ s)"
proof (induction w base n i rule: temp_name.induct)
  case (1 w base n i)
  then show ?case unfolding temp_name.simps [of w base n i] by (auto split: if_splits)
qed

lemma os_CreateTempE:
  assumes "os_CreateTemp d pre w = (Inr p, w')"
  shows "file_at w p = None" "\<exists>s. p = dir_base d pre @ s"
    "file_at w' q = (if q = p then Some ([], 384) else file_at w q)"
  using assms temp_name_fresh [of _ "dir_base d pre" 10000]
  by (auto simp: os_CreateTemp_def elim!: sysE split: if_splits option.splits dest!: temp_name_fresh)

lemma os_ChangeE:
  "os_Chmod p m w = (r, w') \<Longrightarrow> q \<noteq> p \<Longrightarrow> file_at w' q = file_at w q"
  "os_Chmod p m w = (Inr u, w') \<Longrightarrow> file_at w p = Some (c, m') \<Longrightarrow> file_at w' p = Some (c, m)"
  "os_Write p s w = (r, w') \<Longrightarrow> q \<noteq> p \<Longrightarrow> file_at w' q = file_at w q"
  "os_Write p s w = (Inr u, w') \<Longrightarrow> file_at w p = Some (c, m') \<Longrightarrow> file_at w' p = Some (c @ s, m')"
  "os_Remove p w = (r, w') \<Longrightarrow> q \<noteq> p \<Longrightarrow> file_at w' q = file_at w q"
  by (auto simp: os_Chmod_def os_Write_def os_Remove_def elim!: sysE split: option.splits if_splits)

lemma os_RenameE:
  "os_Rename a b w = (Inl e, w') \<Longrightarrow> file_at w' = file_at w"
  "os_Rename a b w = (Inr u, w') \<Longrightarrow> a \<noteq> b \<Longrightarrow> file_at w' q = (if q = b then file_at w a else if q = a then None else file_at w q)"
  by (auto simp: os_Rename_def fun_eq_iff elim!: sysE split: option.splits if_splits)

text \<open>Calls that leave the state of the components alone.\<close>

definition keeps_more :: "('a os_scheme \<Rightarrow> 'b \<times> 'a os_scheme) \<Rightarrow> bool" where
  "keeps_more f \<longleftrightarrow> (\<forall>w. os.more (snd (f w)) = os.more w)"

named_theorems more_intros

lemma keeps_moreD: "keeps_more f \<Longrightarrow> f w = (r, w') \<Longrightarrow> os.more w' = os.more w"
  by (metis keeps_more_def snd_conv)

lemma keeps_more_ret [more_intros]: "keeps_more (\<lambda>w. (r, w))"
  by (simp add: keeps_more_def)

lemma keeps_more_calls [more_intros]:
  "keeps_more (os_Stat p)" "keeps_more (os_ReadFile p)" "keeps_more (os_MkdirAll p)"
  "keeps_more (os_CreateTemp d pre)" "keeps_more (os_Chmod p m)" "keeps_more (os_Write p s)"
  "keeps_more (os_Sync p)" "keeps_more (os_Close p)" "keeps_more (os_WriteFile p s m)"
  "keeps_more (os_Rename p q)" "keeps_more (os_Remove p)" "keeps_more (os_ReadDir d)"
  using calls_same_rest [THEN calls_same_more] unfolding keeps_more_def by (metis prod.collapse)+

lemma keeps_more_try [more_intros]:
  "keeps_more c \<Longrightarrow> (\<And>b. keeps_more (k b)) \<Longrightarrow> keeps_more (try_call c wrap k)"
proof -
  assume c: "keeps_more c" and k: "\<And>b. keeps_more (k b)"
  have "os.more (snd (try_call c wrap k w)) = os.more w" for w
    using keeps_moreD [OF c] keeps_moreD [OF k] by (auto simp: try_call_def split: prod.splits sum.splits) (metis prod.collapse)
  then show ?thesis by (simp add: keeps_more_def)
qed

end
