(* ===== verification/Loader_Source.thy ===== *)
theory Loader_Source
  imports Go_Os
begin

text \<open>
  Package pkg/loader: the source the gateway reads its configuration and its
  related files from (the config center or a local file), and the replacement
  of a file on disk by an update that is validated first.  The config-center
  SDK is a parameter.  Error texts are the leading words of the format; the
  wrapped error is kept.
\<close>

section \<open>Sources\<close>

record loader_event =
  le_value :: string
  le_deleted :: bool
  le_err :: "err option"

text \<open>The interface Source.  Watch runs its callback for each event and
  returns when it ends.\<close>

record 'w source =
  so_Name :: string
  so_MainKey :: string
  so_Load :: "string \<Rightarrow> 'w \<Rightarrow> (err + string) \<times> 'w"
  so_Watch :: "string \<Rightarrow> (loader_event \<Rightarrow> 'w \<Rightarrow> 'w) \<Rightarrow> 'w \<Rightarrow> err option \<times> 'w"

abbreviation ErrUnsupportedWatch :: err where
  "ErrUnsupportedWatch \<equiv> Sentinel ''watch is not supported''"

definition validateKey :: "string \<Rightarrow> err option" where
  "validateKey key =
    (if key = [] then Some (PlainErr ''configuration key is empty'')
     else let cleaned = path_Clean key
          in if hasPrefix key ''/'' \<or> cleaned = ''..'' \<or> hasPrefix cleaned ''../''
             then Some (PlainErr ''configuration key escapes its source root'')
             else None)"

definition RelatedKey :: "string \<Rightarrow> string \<Rightarrow> string" where
  "RelatedKey mainKey relative =
    (let base = path_Dir mainKey
     in if base = ''.'' then path_Clean relative else path_Join [base, relative])"

subsection \<open>The local file source\<close>

record file_source =
  fs_mainPath :: string
  fs_mainKey :: string
  fs_root :: string

definition pathForKey :: "file_source \<Rightarrow> string \<Rightarrow> err + string" where
  "pathForKey s key =
    (case validateKey key of
       Some e \<Rightarrow> Inl e
     | None \<Rightarrow>
         if key = fs_mainKey s then Inr (fs_mainPath s) else Inr (path_Join [fs_root s, key]))"

definition fileSource_Load :: "file_source \<Rightarrow> string \<Rightarrow> 'a os_scheme \<Rightarrow> (err + string) \<times> 'a os_scheme" where
  "fileSource_Load s key w =
    (case pathForKey s key of
       Inl e \<Rightarrow> (Inl e, w)
     | Inr filePath \<Rightarrow>
         (case os_ReadFile filePath w of
            (Inl e, w1) \<Rightarrow> (Inl (WrapErr ''read local config'' e), w1)
          | (Inr contents, w1) \<Rightarrow>
              if contents = [] then (Inl (PlainErr ''local config is empty''), w1)
              else (Inr contents, w1)))"

definition fileSource :: "file_source \<Rightarrow> 'a os_scheme source" where
  "fileSource s =
    \<lparr>so_Name = ConfigSourceFile, so_MainKey = fs_mainKey s, so_Load = fileSource_Load s,
     so_Watch = (\<lambda>key onEvent w. (Some ErrUnsupportedWatch, w))\<rparr>"

definition NewLocalSource :: "string \<Rightarrow> file_source" where
  "NewLocalSource configFile =
    (let cleaned = path_Clean configFile
     in \<lparr>fs_mainPath = cleaned, fs_mainKey = path_Base cleaned, fs_root = path_Dir cleaned\<rparr>)"

subsection \<open>The config-center source\<close>

text \<open>The SDK's configuration: the fields the gateway reads, the rest as one
  value.\<close>

record cs_config =
  cs_type :: string
  cs_key :: string
  cs_rest :: string

text \<open>One call of the SDK's Watch, as the loop around it sees it: the events
  delivered, the error it ended with, whether the context is done by then and
  whether it is done before the back-off timer fires.\<close>

record watch_round =
  wr_events :: "loader_event list"
  wr_err :: "err option"
  wr_done :: bool
  wr_done_waiting :: bool

record 'w cs_sdk =
  sdk_LoadSourceConfig :: "string \<Rightarrow> 'w \<Rightarrow> (err + cs_config) \<times> 'w"
  sdk_Load :: "cs_config \<Rightarrow> 'w \<Rightarrow> (err + string) \<times> 'w"
  sdk_rounds :: "cs_config \<Rightarrow> watch_round list"

abbreviation watchMinBackoff :: int where
  "watchMinBackoff \<equiv> 1000000000"

abbreviation watchMaxBackoff :: int where
  "watchMaxBackoff \<equiv> 30000000000"

definition configForKey :: "cs_config \<Rightarrow> string \<Rightarrow> err + cs_config" where
  "configForKey c key =
    (case validateKey key of Some e \<Rightarrow> Inl e | None \<Rightarrow> Inr (c\<lparr>cs_key := key\<rparr>))"

text \<open>The loop of Watch over the calls of the SDK, with the delays it waited;
  the flag says whether it has returned (the list is a prefix of what the
  SDK will do, so without a cancellation the loop is still running).\<close>

fun watch_loop :: "int \<Rightarrow> watch_round list \<Rightarrow> (loader_event \<Rightarrow> 'w \<Rightarrow> 'w) \<Rightarrow> 'w \<Rightarrow> int list \<times> bool \<times> 'w" where
  "watch_loop backoff [] onEvent w = ([], False, w)"
| "watch_loop backoff (r # rs) onEvent w =
     (let w1 = fold onEvent (wr_events r) w in
      if wr_done r then ([], True, w1)
      else
        (let delay = (if wr_events r \<noteq> [] then watchMinBackoff else backoff);
             e = (case wr_err r of Some e \<Rightarrow> e | None \<Rightarrow> PlainErr ''watch stream ended without an error'');
             w2 = onEvent \<lparr>le_value = [], le_deleted = False,
                    le_err = Some (WrapErr ''config-center watch stream ended, retry'' e)\<rparr> w1
         in if wr_done_waiting r then ([delay], True, w2)
            else case watch_loop (min (delay * 2) watchMaxBackoff) rs onEvent w2 of
                   (ds, fin, w3) \<Rightarrow> (delay # ds, fin, w3)))"

definition configCenterSource_Load :: "'w cs_sdk \<Rightarrow> cs_config \<Rightarrow> string \<Rightarrow> 'w \<Rightarrow> (err + string) \<times> 'w" where
  "configCenterSource_Load S c key w =
    (case configForKey c key of Inl e \<Rightarrow> (Inl e, w) | Inr cfg \<Rightarrow> sdk_Load S cfg w)"

definition configCenterSource_Watch :: "'w cs_sdk \<Rightarrow> cs_config \<Rightarrow> string \<Rightarrow> (loader_event \<Rightarrow> 'w \<Rightarrow> 'w) \<Rightarrow> 'w \<Rightarrow> err option \<times> 'w" where
  "configCenterSource_Watch S c key onEvent w =
    (case configForKey c key of
       Inl e \<Rightarrow> (Some e, w)
     | Inr cfg \<Rightarrow> (None, snd (snd (watch_loop watchMinBackoff (sdk_rounds S cfg) onEvent w))))"

definition configCenterSource :: "'w cs_sdk \<Rightarrow> cs_config \<Rightarrow> 'w source" where
  "configCenterSource S c =
    \<lparr>so_Name = cs_type c, so_MainKey = cs_key c, so_Load = configCenterSource_Load S c,
     so_Watch = configCenterSource_Watch S c\<rparr>"

definition NewConfigCenterSource :: "'w cs_sdk \<Rightarrow> string \<Rightarrow> 'w \<Rightarrow> (err + 'w source) \<times> 'w" where
  "NewConfigCenterSource S selector w =
    (case sdk_LoadSourceConfig S selector w of
       (Inl e, w1) \<Rightarrow> (Inl e, w1)
     | (Inr cfg, w1) \<Rightarrow>
         if cs_type cfg \<noteq> ConfigSourceConfigCenter then (Inl (PlainErr ''must select config_center''), w1)
         else (Inr (configCenterSource S cfg), w1))"

definition NewSource :: "'a os_scheme cs_sdk \<Rightarrow> 'a os_scheme \<Rightarrow> (err + 'a os_scheme source) \<times> 'a os_scheme" where
  "NewSource S w =
    (let selector = os_Getenv EnvConfigSourceFile w;
         sourceType = os_Getenv EnvConfigSource w
     in if selector \<noteq> [] then NewConfigCenterSource S selector w
        else if sourceType = ConfigSourceFile then
          (let configFile = os_Getenv EnvConfigFile w
           in if configFile = [] then (Inl (PlainErr ''required env CONFIG_FILE is missing''), w)
              else (Inr (fileSource (NewLocalSource configFile)), w))
        else if sourceType = ConfigSourceConfigCenter then (Inl (PlainErr ''CONFIG_SOURCE=config_center is deprecated''), w)
        else if sourceType = [] then (Inl (PlainErr ''required env CONFIG_SOURCE_FILE is missing''), w)
        else (Inl (PlainErr ''unknown CONFIG_SOURCE''), w))"

section \<open>Replacing a file\<close>

type_synonym 'w validator = "string \<Rightarrow> 'w \<Rightarrow> err option \<times> 'w"

text \<open>From the open temporary file to the rename.\<close>

definition fill_and_rename :: "string \<Rightarrow> string \<Rightarrow> nat \<Rightarrow> 'a os_scheme validator option \<Rightarrow> string
    \<Rightarrow> 'a os_scheme \<Rightarrow> err option \<times> 'a os_scheme" where
  "fill_and_rename contents target mode validate temp =
    try_call (os_Chmod temp mode) (WrapErr ''set temporary file permissions'') (\<lambda>_.
    try_call (os_Write temp contents) (WrapErr ''write temporary file'') (\<lambda>_.
    try_call (os_Sync temp) (WrapErr ''sync temporary file'') (\<lambda>_.
    try_call (os_Close temp) (WrapErr ''close temporary file'') (\<lambda>_.
    try_call (\<lambda>w. case validate of
                None \<Rightarrow> (Inr (), w)
              | Some v \<Rightarrow> (case v temp w of (Some e, w1) \<Rightarrow> (Inl e, w1) | (None, w1) \<Rightarrow> (Inr (), w1)))
      (WrapErr ''validate update'') (\<lambda>_.
    try_call (os_Rename temp target) (WrapErr ''replace'') (\<lambda>_ w. (None, w)))))))"

definition replaceFile :: "string \<Rightarrow> string \<Rightarrow> nat \<Rightarrow> 'a os_scheme validator option \<Rightarrow> 'a os_scheme \<Rightarrow> err option \<times> 'a os_scheme" where
  "replaceFile contents target mode validate w =
    (if contents = [] then (Some (PlainErr ''refuse to replace with empty content''), w)
     else
       try_call (os_MkdirAll (path_Dir target)) (WrapErr ''create directory'') (\<lambda>_.
       try_call (os_CreateTemp (path_Dir target) ''.config-'') (WrapErr ''create temporary file'') (\<lambda>temp w1.
         (case fill_and_rename contents target mode validate temp w1 of
            (r, w2) \<Rightarrow> (r, snd (os_Remove temp w2))))) w)"

definition ReplaceFile :: "string \<Rightarrow> string \<Rightarrow> 'a os_scheme validator option \<Rightarrow> 'a os_scheme \<Rightarrow> err option \<times> 'a os_scheme" where
  "ReplaceFile contents target validate w =
    (case os_Stat target w of
       (Inr m, w1) \<Rightarrow> replaceFile contents target m validate w1
     | (Inl e, w1) \<Rightarrow>
         if is_not_exist e then replaceFile contents target 384 validate w1
         else (Some (WrapErr ''inspect existing file'' e), w1))"

type_synonym file_snapshot = "(string \<times> nat) option"

definition snapshotFile :: "string \<Rightarrow> 'a os_scheme \<Rightarrow> (err + file_snapshot) \<times> 'a os_scheme" where
  "snapshotFile target w =
    (case os_Stat target w of
       (Inl e, w1) \<Rightarrow>
         if is_not_exist e then (Inr None, w1) else (Inl (WrapErr ''inspect current file'' e), w1)
     | (Inr m, w1) \<Rightarrow>
         (case os_ReadFile target w1 of
            (Inl e, w2) \<Rightarrow> (Inl (WrapErr ''read current file'' e), w2)
          | (Inr c, w2) \<Rightarrow> (Inr (Some (c, m)), w2)))"

definition restoreFile :: "string \<Rightarrow> file_snapshot \<Rightarrow> 'a os_scheme \<Rightarrow> err option \<times> 'a os_scheme" where
  "restoreFile target snapshot w =
    (case snapshot of
       Some (c, m) \<Rightarrow> replaceFile c target m None w
     | None \<Rightarrow>
         (case os_Remove target w of
            (Inl e, w1) \<Rightarrow>
              if is_not_exist e then (None, w1) else (Some (WrapErr ''remove newly created file'' e), w1)
          | (Inr _, w1) \<Rightarrow> (None, w1)))"

definition SyncFile :: "'a os_scheme source \<Rightarrow> string \<Rightarrow> string \<Rightarrow> 'a os_scheme validator option
    \<Rightarrow> 'a os_scheme \<Rightarrow> err option \<times> 'a os_scheme" where
  "SyncFile source key target validate w =
    (case so_Load source key w of
       (Inl e, w1) \<Rightarrow> (Some e, w1)
     | (Inr contents, w1) \<Rightarrow> ReplaceFile contents target validate w1)"

text \<open>The callback of WatchFile: apply the update, or put the previous file
  and the previous runtime state back.\<close>

definition apply_update :: "string \<Rightarrow> ('a os_scheme \<Rightarrow> err option \<times> 'a os_scheme) option \<Rightarrow> file_snapshot
    \<Rightarrow> 'a os_scheme \<Rightarrow> err option \<times> 'a os_scheme" where
  "apply_update target onChange previous w =
    (case onChange of
       None \<Rightarrow> (None, w)
     | Some change \<Rightarrow>
         (case change w of
            (None, w1) \<Rightarrow> (None, w1)
          | (Some applyErr, w1) \<Rightarrow>
              (let err = WrapErr ''apply update'' applyErr in
               case restoreFile target previous w1 of
                 (Some restoreErr, w2) \<Rightarrow>
                   (Some (JoinErr [err, WrapErr ''restore last known-good file'' restoreErr]), w2)
               | (None, w2) \<Rightarrow>
                   (case change w2 of
                      (None, w3) \<Rightarrow> (Some err, w3)
                    | (Some runtimeErr, w3) \<Rightarrow>
                        (Some (JoinErr [err, WrapErr ''restore runtime from last known-good file'' runtimeErr]), w3)))))"

definition update_event :: "string \<Rightarrow> 'a os_scheme validator option \<Rightarrow> ('a os_scheme \<Rightarrow> err option \<times> 'a os_scheme) option
    \<Rightarrow> loader_event \<Rightarrow> 'a os_scheme \<Rightarrow> err option \<times> 'a os_scheme" where
  "update_event target validate onChange ev w =
    (case le_err ev of
       Some e \<Rightarrow> (Some e, w)
     | None \<Rightarrow>
         if le_deleted ev then (Some (PlainErr ''config-center key was deleted; retaining last known-good file''), w)
         else
           (case snapshotFile target w of
              (Inl e, w1) \<Rightarrow> (Some e, w1)
            | (Inr previous, w1) \<Rightarrow>
                (case ReplaceFile (le_value ev) target validate w1 of
                   (Some e, w2) \<Rightarrow> (Some e, w2)
                 | (None, w2) \<Rightarrow> apply_update target onChange previous w2)))"

text \<open>The events of a watch, with what each reports; and the report that says
  that the previous state could not be put back.\<close>

fun update_events :: "string \<Rightarrow> 'a os_scheme validator option \<Rightarrow> ('a os_scheme \<Rightarrow> err option \<times> 'a os_scheme) option
    \<Rightarrow> loader_event list \<Rightarrow> 'a os_scheme \<Rightarrow> err option list \<times> 'a os_scheme" where
  "update_events target validate onChange [] w = ([], w)"
| "update_events target validate onChange (ev # evs) w =
     (case update_event target validate onChange ev w of
        (r, w1) \<Rightarrow> (case update_events target validate onChange evs w1 of (rs, w2) \<Rightarrow> (r # rs, w2)))"

definition restore_failed :: "err option \<Rightarrow> bool" where
  "restore_failed r \<longleftrightarrow> (\<exists>e f. r = Some (JoinErr [e, f]))"

definition watch_callback :: "string \<Rightarrow> 'a os_scheme validator option \<Rightarrow> ('a os_scheme \<Rightarrow> err option \<times> 'a os_scheme) option
    \<Rightarrow> (err \<Rightarrow> 'a os_scheme \<Rightarrow> 'a os_scheme) option \<Rightarrow> loader_event \<Rightarrow> 'a os_scheme \<Rightarrow> 'a os_scheme" where
  "watch_callback target validate onChange onError ev w =
    (case update_event target validate onChange ev w of
       (Some e, w1) \<Rightarrow> (case onError of None \<Rightarrow> w1 | Some f \<Rightarrow> f e w1)
     | (None, w1) \<Rightarrow> w1)"

definition WatchFile :: "'a os_scheme source \<Rightarrow> string \<Rightarrow> string \<Rightarrow> 'a os_scheme validator option
    \<Rightarrow> ('a os_scheme \<Rightarrow> err option \<times> 'a os_scheme) option \<Rightarrow> (err \<Rightarrow> 'a os_scheme \<Rightarrow> 'a os_scheme) option
    \<Rightarrow> 'a os_scheme \<Rightarrow> err option \<times> 'a os_scheme" where
  "WatchFile source key target validate onChange onError =
    so_Watch source key (watch_callback target validate onChange onError)"

section \<open>A failed replacement changes nothing\<close>

definition keeps_files :: "'a os_scheme validator option \<Rightarrow> bool" where
  "keeps_files validate \<longleftrightarrow> (case validate of None \<Rightarrow> True | Some v \<Rightarrow> \<forall>p w. os_files (snd (v p w)) = os_files w)"

text \<open>What the validator has accepted: it returned no error on a file with
  these contents.\<close>

definition accepts :: "'a os_scheme validator option \<Rightarrow> string \<Rightarrow> bool" where
  "accepts validate c \<longleftrightarrow> (case validate of None \<Rightarrow> True
     | Some v \<Rightarrow> \<exists>p m w. file_at w p = Some (c, m) \<and> fst (v p w) = None)"

lemma validate_step:
  assumes "keeps_files validate"
    and "(case validate of None \<Rightarrow> (Inr (), w)
          | Some v \<Rightarrow> (case v p w of (Some e, w1) \<Rightarrow> (Inl e, w1) | (None, w1) \<Rightarrow> (Inr (), w1))) = (r, w')"
  shows "file_at w' = file_at w"
    and "r = Inr () \<Longrightarrow> file_at w p = Some (c, m) \<Longrightarrow> accepts validate c"
proof -
  show "file_at w' = file_at w"
  proof (cases validate)
    case (Some v)
    obtain r1 w1 where v: "v p w = (r1, w1)" by (cases "v p w")
    have "os_files w1 = os_files w" using assms(1) Some v by (simp add: keeps_files_def) (metis snd_conv)
    then show ?thesis using assms(2) Some v by (auto split: option.splits intro: file_at_cong)
  qed (use assms(2) in simp)
  show "accepts validate c" if "r = Inr ()" "file_at w p = Some (c, m)"
  proof (cases validate)
    case (Some v)
    obtain r1 w1 where v: "v p w = (r1, w1)" by (cases "v p w")
    then have "r1 = None" using assms(2) Some that(1) by (auto split: option.splits)
    then have "fst (v p w) = None" using v by simp
    then show ?thesis using Some that(2) by (auto simp: accepts_def)
  qed (simp add: accepts_def)
qed

lemma fill_and_rename_effect:
  assumes frame: "keeps_files validate" and run: "fill_and_rename contents target mode validate temp w = (r, w')"
    and start: "file_at w temp = Some ([], m0)" and ne: "temp \<noteq> target"
  shows "(\<forall>q. q \<noteq> temp \<longrightarrow> file_at w' q = (if r = None \<and> q = target then Some (contents, mode) else file_at w q))
    \<and> (r = None \<longrightarrow> accepts validate contents)"
  using run unfolding fill_and_rename_def
proof (cases rule: try_callE)
  case (fail e)
  then show ?thesis using os_ChangeE(1) [OF fail(1)] by simp
next
  case (ok u w1)
  have f1: "file_at w1 temp = Some ([], mode)" and o1: "\<And>q. q \<noteq> temp \<Longrightarrow> file_at w1 q = file_at w q"
    using os_ChangeE(1,2) ok(1) start by blast+
  from ok(2) show ?thesis
  proof (cases rule: try_callE)
    case (fail e)
    then show ?thesis using os_ChangeE(3) [OF fail(1)] o1 by simp
  next
    case (ok u w2)
    have f2: "file_at w2 temp = Some (contents, mode)" and o2: "\<And>q. q \<noteq> temp \<Longrightarrow> file_at w2 q = file_at w q"
      using os_ChangeE(3,4) ok(1) f1 o1 by (metis append_Nil)+
    from ok(2) show ?thesis
    proof (cases rule: try_callE)
      case (fail e)
      then show ?thesis using file_at_cong [OF calls_same_files(4) [OF fail(1)]] o2 by simp
    next
      case (ok u w3)
      have e3: "file_at w3 = file_at w2" using ok(1) calls_same_files(4) file_at_cong by blast
      from ok(2) show ?thesis
      proof (cases rule: try_callE)
        case (fail e)
        then show ?thesis using file_at_cong [OF calls_same_files(5) [OF fail(1)]] e3 o2 by simp
      next
        case (ok u w4)
        have e4: "file_at w4 = file_at w2" using ok(1) e3 calls_same_files(5) file_at_cong by metis
        from ok(2) show ?thesis
        proof (cases rule: try_callE)
          case (fail e)
          then show ?thesis using validate_step(1) [OF frame fail(1)] e4 o2 by simp
        next
          case (ok u w5)
          have e5: "file_at w5 = file_at w2" using validate_step(1) [OF frame ok(1)] e4 by simp
          have acc: "accepts validate contents"
            using validate_step(2) [OF frame ok(1)] e4 f2 by simp
          from ok(2) show ?thesis
          proof (cases rule: try_callE)
            case (fail e)
            then show ?thesis using os_RenameE(1) [OF fail(1)] e5 o2 by simp
          next
            case (ok u w6)
            then show ?thesis using os_RenameE(2) [OF ok(1) ne] e5 f2 o2 acc by auto
          qed
        qed
      qed
    qed
  qed
qed

text \<open>The names CreateTemp may use for a target.\<close>

definition temp_path :: "string \<Rightarrow> string \<Rightarrow> bool" where
  "temp_path target p \<longleftrightarrow> prefix (dir_base (path_Dir target) ''.config-'') p"

lemma replaceFile_effect:
  assumes frame: "keeps_files validate" and tgt: "\<not> temp_path target target"
    and run: "replaceFile contents target mode validate w = (r, w')"
  shows "(\<forall>q. \<not> temp_path target q \<longrightarrow>
            file_at w' q = (if r = None \<and> q = target then Some (contents, mode) else file_at w q))
    \<and> (r = None \<longrightarrow> contents \<noteq> [] \<and> accepts validate contents)"
proof (cases "contents = []")
  case True
  then show ?thesis using run by (auto simp: replaceFile_def)
next
  case False
  with run have "try_call (os_MkdirAll (path_Dir target)) (WrapErr ''create directory'') (\<lambda>_.
       try_call (os_CreateTemp (path_Dir target) ''.config-'') (WrapErr ''create temporary file'') (\<lambda>temp w1.
         (case fill_and_rename contents target mode validate temp w1 of
            (r, w2) \<Rightarrow> (r, snd (os_Remove temp w2))))) w = (r, w')"
    by (simp add: replaceFile_def)
  then show ?thesis
  proof (cases rule: try_callE)
    case (fail e)
    then show ?thesis using file_at_cong [OF calls_same_files(3) [OF fail(1)]] by simp
  next
    case (ok u w1)
    have e1: "file_at w1 = file_at w" using ok(1) calls_same_files(3) file_at_cong by blast
    from ok(2) show ?thesis
    proof (cases rule: try_callE)
      case (fail e)
      have "file_at w' = file_at w1" using fail(1)
        by (auto simp: os_CreateTemp_def fun_eq_iff elim!: sysE split: if_splits option.splits)
      then show ?thesis using fail(2) e1 by simp
    next
      case (ok temp w2)
      note new = os_CreateTempE [OF ok(1)]
      have tp: "temp_path target temp" using new(2) by (auto simp: temp_path_def)
      then have ne: "temp \<noteq> target" using tgt by blast
      obtain w3 where f: "fill_and_rename contents target mode validate temp w2 = (r, w3)"
        and w': "w' = snd (os_Remove temp w3)"
        using ok(2) by (auto split: prod.splits)
      have "file_at w2 temp = Some ([], 384)" using new(3) by simp
      note eff = fill_and_rename_effect [OF frame f this ne]
      have rem: "q \<noteq> temp \<Longrightarrow> file_at w' q = file_at w3 q" for q
        using os_ChangeE(5) [of temp w3 "fst (os_Remove temp w3)"] w' by simp
      have "file_at w' q = (if r = None \<and> q = target then Some (contents, mode) else file_at w q)"
        if "\<not> temp_path target q" for q
      proof -
        have q: "q \<noteq> temp" using that tp by blast
        show ?thesis using rem [OF q] eff q new(3) [of q] e1 by simp
      qed
      then show ?thesis using eff False by blast
    qed
  qed
qed

lemma os_Stat_at: "os_Stat p w = (Inr m, w') \<Longrightarrow> file_at w p = Some (c, m') \<Longrightarrow> m = m'"
  by (auto simp: os_Stat_def elim!: sysE)

lemma os_Stat_same: "os_Stat p w = (r, w') \<Longrightarrow> file_at w' = file_at w"
  using calls_same_files(1) file_at_cong by blast

text \<open>The effect of ReplaceFile on every file, for each result.\<close>

lemma ReplaceFile_effect:
  assumes "keeps_files validate" and "\<not> temp_path target target"
    and "ReplaceFile contents target validate w = (r, w')"
  shows "case r of
      Some e \<Rightarrow> \<forall>q. temp_path target q \<or> file_at w' q = file_at w q
    | None \<Rightarrow> contents \<noteq> [] \<and> accepts validate contents
        \<and> map_option fst (file_at w' target) = Some contents
        \<and> (\<forall>q. temp_path target q \<or> q = target \<or> file_at w' q = file_at w q)"
proof -
  obtain st w1 where st: "os_Stat target w = (st, w1)" by (cases "os_Stat target w")
  have e1: "file_at w1 = file_at w" using os_Stat_same [OF st] .
  consider (bad) e where "r = Some (WrapErr ''inspect existing file'' e)" "w' = w1"
    | (go) m where "replaceFile contents target m validate w1 = (r, w')"
    using assms(3) st by (auto simp: ReplaceFile_def split: sum.splits if_splits)
  then show ?thesis
  proof cases
    case go
    note eff = replaceFile_effect [OF assms(1,2) go]
    show ?thesis
    proof (cases r)
      case None
      then have "\<not> temp_path target q \<Longrightarrow> file_at w' q = (if q = target then Some (contents, m) else file_at w q)" for q
        using eff e1 by simp
      then have "file_at w' target = Some (contents, m)"
        and "\<forall>q. temp_path target q \<or> q = target \<or> file_at w' q = file_at w q"
        using assms(2) by (metis)+
      moreover have "contents \<noteq> []" "accepts validate contents" using eff None by simp_all
      ultimately show ?thesis using None by simp
    next
      case (Some e)
      then show ?thesis using eff e1 by auto
    qed
  qed (simp add: e1)
qed

text \<open>C35: ReplaceFile either returns an error, and then every file is as it was
  (but for a leftover temporary file beside the target), or it returns none, and then only the target changed: it holds
  the new, non-empty contents, which the validator accepted.  This holds for
  every schedule of I/O failures.\<close>

theorem ReplaceFile_all_or_nothing:
  assumes "keeps_files validate" and "\<not> temp_path target target"
    and "ReplaceFile contents target validate w = (r, w')"
  shows "case r of
      Some e \<Rightarrow> \<forall>q. temp_path target q \<or> file_at w' q = file_at w q
    | None \<Rightarrow> contents \<noteq> [] \<and> accepts validate contents
        \<and> map_option fst (file_at w' target) = Some contents
        \<and> (\<forall>q. temp_path target q \<or> q = target \<or> file_at w' q = file_at w q)"
  by (rule ReplaceFile_effect [OF assms])

definition sample_os :: os where
  "sample_os = \<lparr>os_files = [(''policies/policies.csv'', (''old'', 416))], os_dirs = [PoliciesDirName],
     os_env = Map.empty, os_calls = 0, os_fault = (\<lambda>_. None), os_rand = (\<lambda>n. ''tmp'')\<rparr>"

theorem ReplaceFile_all_or_nothing_witness:
  "\<exists>r w'. ReplaceFile ''new'' ''policies/policies.csv'' None sample_os = (r, w') \<and>
    (case r of
      Some e \<Rightarrow> \<forall>q. temp_path ''policies/policies.csv'' q \<or> file_at w' q = file_at sample_os q
    | None \<Rightarrow> ''new'' \<noteq> [] \<and> accepts (None :: os validator option) ''new''
        \<and> map_option fst (file_at w' ''policies/policies.csv'') = Some ''new''
        \<and> (\<forall>q. temp_path ''policies/policies.csv'' q \<or> q = ''policies/policies.csv'' \<or> file_at w' q = file_at sample_os q))"
proof -
  obtain r w' where run: "ReplaceFile ''new'' ''policies/policies.csv'' None sample_os = (r, w')"
    by (cases "ReplaceFile ''new'' ''policies/policies.csv'' None sample_os")
  have dir: "path_Dir ''policies/policies.csv'' = PoliciesDirName"
    by (simp add: path_Dir_def path_dirpart_def path_Clean_def path_comps_def clean_comps_cases)
  have "\<not> temp_path ''policies/policies.csv'' ''policies/policies.csv''"
    by (simp add: temp_path_def dir dir_base_def suffix_def)
  moreover have "keeps_files (None :: os validator option)" by (simp add: keeps_files_def)
  ultimately show ?thesis using ReplaceFile_all_or_nothing [OF _ _ run] run by blast
qed

section \<open>A runtime that follows a file\<close>

text \<open>The contract between WatchFile and the callbacks its two clients (the key
  of the jwt middleware, the policy files of the rbac middleware) pass to it:
  the validator touches nothing, the reload changes no file, a reload
  without an error leaves the runtime loaded from the files it depends on, and
  one with an error leaves the runtime as it was.\<close>

locale watched_file =
  fixes target :: string
    and files :: "string set"
    and validate :: "'a os_scheme validator"
    and reload :: "'a os_scheme \<Rightarrow> err option \<times> 'a os_scheme"
    and good :: "string \<Rightarrow> bool"
    and loaded :: "'a \<Rightarrow> (string \<Rightarrow> (string \<times> nat) option) \<Rightarrow> bool"
  assumes validate_files: "os_files (snd (validate p w)) = os_files w"
    and validate_runtime: "os.more (snd (validate p w)) = os.more w"
    and reload_files: "os_files (snd (reload w)) = os_files w"
    and validate_good: "accepts (Some validate) c \<Longrightarrow> good c"
    and reload_ok: "reload w = (None, w') \<Longrightarrow> (\<And>c m. file_at w target = Some (c, m) \<Longrightarrow> good c) \<Longrightarrow> loaded (os.more w') (file_at w)"
    and reload_err: "reload w = (Some e, w') \<Longrightarrow> os.more w' = os.more w"
    and loaded_target: "loaded v f \<Longrightarrow> f target \<noteq> None"
    and loaded_good: "loaded v f \<Longrightarrow> f target = Some (c, m) \<Longrightarrow> good c"
    and loaded_cong: "(\<And>q. q \<in> files \<Longrightarrow> g q = f q) \<Longrightarrow> loaded v f \<Longrightarrow> loaded v g"
    and target_file: "target \<in> files"
begin

definition in_sync :: "'a os_scheme \<Rightarrow> bool" where
  "in_sync w \<longleftrightarrow> loaded (os.more w) (file_at w)"

definition apart :: bool where
  "apart \<longleftrightarrow> (\<forall>q\<in>files. \<not> temp_path target q)"

lemma apart_target: "apart \<Longrightarrow> \<not> temp_path target target"
  using target_file by (auto simp: apart_def)

lemma frame: "keeps_files (Some validate)"
  by (simp add: keeps_files_def validate_files)

lemma reload_file_at: "reload w = (r, w') \<Longrightarrow> file_at w' = file_at w"
  using reload_files [of w] file_at_cong [of w' w] by simp

lemma fill_runtime:
  assumes "v = None \<or> v = Some validate"
  shows "keeps_more (fill_and_rename contents tgt mode v temp)"
proof -
  have "os.more (snd (case v of None \<Rightarrow> (Inr (), w)
      | Some v \<Rightarrow> (case v temp w of (Some e, w1) \<Rightarrow> (Inl e, w1) | (None, w1) \<Rightarrow> (Inr (), w1)))) = os.more w" for w
    using assms validate_runtime [of temp w]
    by (cases v; cases "validate temp w"; cases "fst (validate temp w)") auto
  then have "keeps_more (\<lambda>w. case v of None \<Rightarrow> (Inr (), w)
      | Some v \<Rightarrow> (case v temp w of (Some e, w1) \<Rightarrow> (Inl e, w1) | (None, w1) \<Rightarrow> (Inr (), w1)))"
    by (simp only: keeps_more_def) simp
  then show ?thesis
    unfolding fill_and_rename_def by (intro more_intros)
qed

lemma replace_runtime:
  assumes "replaceFile contents tgt mode v w = (r, w')" "v = None \<or> v = Some validate"
  shows "os.more w' = os.more w"
proof -
  have "keeps_more (\<lambda>w1. case fill_and_rename contents tgt mode v temp w1 of
            (r, w2) \<Rightarrow> (r, snd (os_Remove temp w2)))" for temp
  proof -
    have rm: "os.more (snd (os_Remove temp w)) = os.more w" for w :: "'a os_scheme"
      by (rule keeps_moreD [OF keeps_more_calls(11) surjective_pairing])
    show ?thesis
      using keeps_moreD [OF fill_runtime [OF assms(2)]] by (auto simp: keeps_more_def rm split: prod.splits)
  qed
  then have rest: "keeps_more (try_call (os_MkdirAll (path_Dir tgt)) (WrapErr ''create directory'') (\<lambda>_.
       try_call (os_CreateTemp (path_Dir tgt) ''.config-'') (WrapErr ''create temporary file'') (\<lambda>temp w1.
         (case fill_and_rename contents tgt mode v temp w1 of
            (r, w2) \<Rightarrow> (r, snd (os_Remove temp w2))))))"
    by (intro more_intros)
  have "keeps_more (replaceFile contents tgt mode v)"
  proof (cases "contents = []")
    case True
    show ?thesis unfolding keeps_more_def replaceFile_def if_P [OF True] by simp
  next
    case False
    show ?thesis using rest unfolding keeps_more_def replaceFile_def if_not_P [OF False] .
  qed
  then show ?thesis using assms(1) by (rule keeps_moreD)
qed

lemma ReplaceFile_runtime:
  assumes "ReplaceFile contents tgt (Some validate) w = (r, w')"
  shows "os.more w' = os.more w"
proof -
  obtain st w1 where st: "os_Stat tgt w = (st, w1)" by (cases "os_Stat tgt w")
  have "os.more w1 = os.more w" using calls_same_rest(1) [OF st] by (rule calls_same_more)
  then show ?thesis
    using assms st replace_runtime by (auto simp: ReplaceFile_def split: sum.splits if_splits)
qed

lemma snapshot_effect:
  assumes "snapshotFile target w = (r, w')"
  shows "file_at w' = file_at w \<and> os.more w' = os.more w
    \<and> (\<forall>prev c m. r = Inr prev \<and> file_at w target = Some (c, m) \<longrightarrow> prev = Some (c, m))"
proof -
  obtain st w1 where st: "os_Stat target w = (st, w1)" by (cases "os_Stat target w")
  have 1: "file_at w1 = file_at w" "os.more w1 = os.more w"
    using os_Stat_same [OF st] calls_same_more [OF calls_same_rest(1) [OF st]] by simp_all
  obtain rd w2 where rd: "os_ReadFile target w1 = (rd, w2)" by (cases "os_ReadFile target w1")
  have 2: "file_at w2 = file_at w" "os.more w2 = os.more w"
    using file_at_cong [OF calls_same_files(2) [OF rd]] calls_same_more [OF calls_same_rest(2) [OF rd]] 1 by simp_all
  show ?thesis
    using assms st rd 1 2 os_Stat_exists [OF st] os_ReadFile_exists [OF rd]
    by (auto simp: snapshotFile_def split: sum.splits if_splits)
qed

lemma restore_effect:
  fixes w :: "'a os_scheme"
  assumes "restoreFile target (Some (c, m)) w = (None, w')" "\<not> temp_path target target"
  shows "file_at w' target = Some (c, m)" "os.more w' = os.more w"
  using replaceFile_effect [of None target c m w None w'] replace_runtime [of c target m None w None w'] assms
  by (auto simp: restoreFile_def keeps_files_def)

text \<open>One event: the runtime stays on the contents of the file, unless putting
  the previous state back failed too, which the reported error says.\<close>

lemma update_event_in_sync:
  assumes ap: "apart" and sync: "in_sync w"
    and run: "update_event target (Some validate) (Some reload) ev w = (r, w')"
  shows "in_sync w' \<or> (\<exists>e f. r = Some (JoinErr [e, f]))"
proof -
  note tgt = apart_target [OF ap]
  have "file_at w target \<noteq> None" using sync loaded_target by (auto simp: in_sync_def)
  then obtain c m where cm: "file_at w target = Some (c, m)" by (metis option.exhaust surj_pair)
  obtain sn w1 where sn: "snapshotFile target w = (sn, w1)" by (cases "snapshotFile target w")
  note snap = snapshot_effect [OF sn]
  obtain rp w2 where rp: "ReplaceFile (le_value ev) target (Some validate) w1 = (rp, w2)"
    by (cases "ReplaceFile (le_value ev) target (Some validate) w1")
  have m2: "os.more w2 = os.more w" using ReplaceFile_runtime [OF rp] snap by simp
  note eff = ReplaceFile_effect [OF frame tgt rp]
  consider (same) "w' = w" | (snapped) "w' = w1" | (failed) e where "rp = Some e" "w' = w2"
    | (go) "rp = None" "apply_update target (Some reload) (Some (c, m)) w2 = (r, w')"
  proof -
    have "(case le_err ev of Some e \<Rightarrow> (Some e, w) | None \<Rightarrow>
        if le_deleted ev then (Some (PlainErr ''config-center key was deleted; retaining last known-good file''), w)
        else case sn of Inl e \<Rightarrow> (Some e, w1)
          | Inr previous \<Rightarrow> (case rp of Some e \<Rightarrow> (Some e, w2) | None \<Rightarrow> apply_update target (Some reload) previous w2))
        = (r, w')"
      using run unfolding update_event_def sn prod.case rp .
    then have "w' = w \<or> w' = w1 \<or> (\<exists>e. rp = Some e \<and> w' = w2)
        \<or> (\<exists>prev. rp = None \<and> sn = Inr prev \<and> apply_update target (Some reload) prev w2 = (r, w'))"
      by (auto split: option.splits if_splits sum.splits)
    moreover have "prev = Some (c, m)" if "sn = Inr prev" for prev using snap cm that by blast
    ultimately show thesis using that by blast
  qed
  then show ?thesis
  proof cases
    case same
    then show ?thesis using sync by simp
  next
    case snapped
    then show ?thesis using sync snapshot_effect [OF sn] by (simp add: in_sync_def)
  next
    case failed
    have "file_at w2 q = file_at w q" if "q \<in> files" for q
      using eff failed that ap snap by (auto simp: apart_def)
    then show ?thesis using failed(2) m2 sync loaded_cong unfolding in_sync_def by metis
  next
    case go
    obtain r1 w3 where r1: "reload w2 = (r1, w3)" by (cases "reload w2")
    show ?thesis
    proof (cases r1)
      case None
      have "good d" if "file_at w2 target = Some (d, n)" for d n
        using eff go(1) that validate_good by simp
      then have "loaded (os.more w3) (file_at w2)" using reload_ok r1 None by blast
      then show ?thesis using go(2) r1 None reload_file_at [OF r1] by (simp add: apply_update_def in_sync_def)
    next
      case (Some e)
      obtain rs w4 where rs: "restoreFile target (Some (c, m)) w3 = (rs, w4)"
        by (cases "restoreFile target (Some (c, m)) w3")
      obtain r2 w5 where r2: "reload w4 = (r2, w5)" by (cases "reload w4")
      consider (stuck) "rs \<noteq> None" | (stale) "r2 \<noteq> None" | (restored) "rs = None" "r2 = None" by blast
      then show ?thesis
      proof cases
        case restored
        have "file_at w4 target = Some (c, m)" using restore_effect(1) [OF _ tgt] rs restored(1) by blast
        moreover have "good c" using loaded_good sync cm unfolding in_sync_def by blast
        ultimately have "in_sync w5" using reload_ok [of w4 w5] r2 restored reload_file_at [OF r2] by (simp add: in_sync_def)
        then show ?thesis using go(2) r1 Some rs r2 restored by (simp add: apply_update_def Let_def)
      qed (use go(2) r1 Some rs r2 in \<open>auto simp: apply_update_def Let_def split: option.splits\<close>)
    qed
  qed
qed

text \<open>Start: load the files.\<close>

lemma synced_good:
  assumes "apart" and "SyncFile source key target (Some validate) w = (None, w')"
  shows "\<exists>c m. file_at w' target = Some (c, m) \<and> good c"
proof -
  obtain c w1 where run: "ReplaceFile c target (Some validate) w1 = (None, w')"
    using assms(2) by (auto simp: SyncFile_def split: prod.splits sum.splits)
  then show ?thesis
    using ReplaceFile_effect [OF frame apart_target [OF assms(1)] run] validate_good by auto
qed

lemma reload_in_sync:
  assumes "reload w = (None, w')" and "file_at w target = Some (c, m)" "good c"
  shows "in_sync w'"
  using reload_ok [OF assms(1)] assms(2,3) reload_file_at [OF assms(1)] by (simp add: in_sync_def)

text \<open>Any number of events.\<close>

lemma events_in_sync:
  assumes "apart"
  shows "in_sync w \<Longrightarrow> update_events target (Some validate) (Some reload) evs w = (rs, w') \<Longrightarrow>
    list_all (\<lambda>r. \<not> restore_failed r) rs \<Longrightarrow> in_sync w'"
proof (induction evs arbitrary: w rs)
  case (Cons ev evs)
  obtain r w1 where 1: "update_event target (Some validate) (Some reload) ev w = (r, w1)"
    by (cases "update_event target (Some validate) (Some reload) ev w")
  obtain rs2 w2 where 2: "update_events target (Some validate) (Some reload) evs w1 = (rs2, w2)"
    by (cases "update_events target (Some validate) (Some reload) evs w1")
  have eq: "rs = r # rs2" "w2 = w'" using Cons.prems(2) 1 2 by auto
  have "in_sync w1"
    using update_event_in_sync [OF assms Cons.prems(1) 1] Cons.prems(3) eq by (auto simp: restore_failed_def)
  then show ?case using Cons.IH 2 eq Cons.prems(3) by simp
qed simp

end

section \<open>Keys stay below the source root\<close>

lemma validateKey_no_escape:
  assumes "validateKey key = None"
  shows "\<not> hasPrefix key ''/''" "key \<noteq> []" "\<nexists>ys. path_comps key = ''..'' # ys"
proof -
  show rel: "\<not> hasPrefix key ''/''" and ne: "key \<noteq> []"
    using assms by (auto simp: validateKey_def Let_def split: if_splits)
  show "\<nexists>ys. path_comps key = ''..'' # ys"
  proof
    assume "\<exists>ys. path_comps key = ''..'' # ys"
    then obtain ys where ys: "path_comps key = ''..'' # ys" by blast
    then have "path_Clean key = join_str ''/'' (''..'' # ys)" using rel ne by (simp add: path_Clean_def)
    then have "path_Clean key = ''..'' \<or> hasPrefix (path_Clean key) ''../''" by (cases ys) simp_all
    then show False using assms by (auto simp: validateKey_def Let_def split: if_splits)
  qed
qed

text \<open>A related key of a local source is resolved below the directory of the
  main file: the resolved path is rooted exactly when that directory is, and
  its components begin with those of the directory, so no key, however many
  parent steps it has, reads a file elsewhere.\<close>

theorem local_keys_confined:
  assumes "pathForKey s key = Inr p" and "key \<noteq> fs_mainKey s" and "fs_root s \<noteq> []"
  shows "hasPrefix p ''/'' = hasPrefix (fs_root s) ''/'' \<and> prefix (path_comps (fs_root s)) (path_comps p)"
proof -
  have v: "validateKey key = None" and p: "p = path_Join [fs_root s, key]"
    using assms by (auto simp: pathForKey_def split: option.splits if_splits)
  note key = validateKey_no_escape [OF v]
  have join: "p = path_Clean (fs_root s @ slash # key)"
    using p key(2) assms(3) by (simp add: path_Join_def)
  have "path_comps p = path_comps (fs_root s) @ path_comps key"
    unfolding join path_comps_Clean by (rule path_comps_join_below [OF key(1,3) assms(3)])
  moreover have "hasPrefix p ''/'' = hasPrefix (fs_root s) ''/''"
    unfolding join using hasPrefix_Clean [of "fs_root s @ slash # key"] assms(3) by (cases "fs_root s") auto
  ultimately show ?thesis by simp
qed

definition sample_source :: file_source where
  "sample_source = \<lparr>fs_mainPath = ''/etc/gw/config.yaml'', fs_mainKey = ''config.yaml'', fs_root = ''/etc/gw''\<rparr>"

theorem local_keys_confined_witness:
  "hasPrefix (path_Join [''/etc/gw'', ''secrets/../policies/model.conf'']) ''/'' = hasPrefix (fs_root sample_source) ''/''
    \<and> prefix (path_comps (fs_root sample_source)) (path_comps (path_Join [''/etc/gw'', ''secrets/../policies/model.conf'']))"
proof (rule local_keys_confined)
  have "path_comps ''secrets/../policies/model.conf'' = [PoliciesDirName, ModelFileFileName]"
    by (simp add: path_comps_def clean_comps_cases)
  then have "validateKey ''secrets/../policies/model.conf'' = None"
    by (simp add: validateKey_def path_Clean_def)
  then show "pathForKey sample_source ''secrets/../policies/model.conf'' = Inr (path_Join [''/etc/gw'', ''secrets/../policies/model.conf''])"
    by (simp add: pathForKey_def sample_source_def)
qed (simp_all add: sample_source_def)

section \<open>The back-off of Watch\<close>

text \<open>The reference: the n-th reconnection since the last stream with an event
  waits a second times two to the n, at most half a minute.\<close>

fun backoff_spec :: "nat \<Rightarrow> watch_round list \<Rightarrow> int list" where
  "backoff_spec n [] = []"
| "backoff_spec n (r # rs) =
     (if wr_done r then []
      else (let k = (if wr_events r \<noteq> [] then 0 else n);
                d = min watchMaxBackoff (watchMinBackoff * 2 ^ k)
            in d # (if wr_done_waiting r then [] else backoff_spec (Suc k) rs)))"

lemma backoff_double:
  "min (min watchMaxBackoff (watchMinBackoff * 2 ^ k) * 2) watchMaxBackoff = min watchMaxBackoff (watchMinBackoff * 2 ^ Suc k)"
  by (auto simp: min_def)

lemma watch_loop_backoff:
  "fst (watch_loop (min watchMaxBackoff (watchMinBackoff * 2 ^ n)) rs onEvent w) = backoff_spec n rs"
proof (induction rs arbitrary: n w)
  case (Cons r rs)
  let ?k = "if wr_events r \<noteq> [] then 0 else n"
  have delay: "(if wr_events r \<noteq> [] then watchMinBackoff else min watchMaxBackoff (watchMinBackoff * 2 ^ n))
      = min watchMaxBackoff (watchMinBackoff * 2 ^ ?k)" by simp
  show ?case
    unfolding watch_loop.simps backoff_spec.simps Let_def delay backoff_double
    using Cons.IH [of "Suc ?k"] by (auto split: prod.splits) (metis fst_conv)+
qed simp

text \<open>The reconnection loop of the config center waits as specified: one
  second after a stream that delivered an event, twice as long each further
  time, never more than thirty seconds.\<close>

theorem watch_backoff_exact:
  "fst (watch_loop watchMinBackoff rs onEvent w) = backoff_spec 0 rs
    \<and> list_all (\<lambda>d. watchMinBackoff \<le> d \<and> d \<le> watchMaxBackoff) (fst (watch_loop watchMinBackoff rs onEvent w))"
proof -
  have "fst (watch_loop watchMinBackoff rs onEvent w) = backoff_spec 0 rs"
    using watch_loop_backoff [of 0 rs onEvent w] by simp
  moreover have "list_all (\<lambda>d. watchMinBackoff \<le> d \<and> d \<le> watchMaxBackoff) (backoff_spec n rs)" for n
    by (induction rs arbitrary: n) (simp_all add: Let_def)
  ultimately show ?thesis by simp
qed

end
