(* ===== verification/Go_Json.thy ===== *)
theory Go_Json
  imports Go_Strings
begin

text \<open>
  The part of encoding/json the gateway's own parsing relies on: a JSON array
  of strings decoded into a []string, as Unmarshal does it (null elements give
  the empty string, an invalid UTF-8 byte or a lone surrogate becomes U+FFFD).
\<close>

definition json_ws :: "char \<Rightarrow> bool" where
  "json_ws c \<longleftrightarrow> c = CHR '' '' \<or> byte c = 9 \<or> byte c = 10 \<or> byte c = 13"

definition skip_ws :: "string \<Rightarrow> string" where
  "skip_ws s = dropWhile json_ws s"

definition utf8_encode :: "nat \<Rightarrow> string" where
  "utf8_encode n =
    (if n < 0x80 then bytes [n]
     else if n < 0x800 then bytes [0xC0 + n div 64, 0x80 + n mod 64]
     else if n < 0x10000 then bytes [0xE0 + n div 4096, 0x80 + n div 64 mod 64, 0x80 + n mod 64]
     else bytes [0xF0 + n div 262144, 0x80 + n div 4096 mod 64, 0x80 + n div 64 mod 64, 0x80 + n mod 64])"

abbreviation rune_error :: nat where
  "rune_error \<equiv> 0xFFFD"

definition hex_nibble :: "char \<Rightarrow> nat option" where
  "hex_nibble c =
    (let b = byte c
     in if 48 \<le> b \<and> b \<le> 57 then Some (b - 48)
        else if 97 \<le> b \<and> b \<le> 102 then Some (b - 87)
        else if 65 \<le> b \<and> b \<le> 70 then Some (b - 55)
        else None)"

fun hex4 :: "string \<Rightarrow> (nat \<times> string) option" where
  "hex4 (a # b # c # d # s) =
     (case (hex_nibble a, hex_nibble b, hex_nibble c, hex_nibble d) of
        (Some w, Some x, Some y, Some z) \<Rightarrow> Some (4096 * w + 256 * x + 16 * y + z, s)
      | _ \<Rightarrow> None)"
| "hex4 _ = None"

definition high_surrogate :: "nat \<Rightarrow> bool" where
  "high_surrogate n \<longleftrightarrow> 0xD800 \<le> n \<and> n < 0xDC00"

definition low_surrogate :: "nat \<Rightarrow> bool" where
  "low_surrogate n \<longleftrightarrow> 0xDC00 \<le> n \<and> n < 0xE000"

text \<open>The rune of a \<open>\u\<close> escape and the rest of the input, given
  the four digits already read: a high surrogate joins an escape of a low
  surrogate that follows at once.\<close>

definition join_surrogates :: "nat \<Rightarrow> string \<Rightarrow> nat \<times> string" where
  "join_surrogates n s =
    (if \<not> high_surrogate n \<and> \<not> low_surrogate n then (n, s)
     else if high_surrogate n \<and> take 2 s = [CHR 0x5C, CHR ''u''] then
       (case hex4 (drop 2 s) of
          Some (m, t) \<Rightarrow>
            if low_surrogate m then (0x10000 + (n - 0xD800) * 1024 + (m - 0xDC00), t)
            else (rune_error, s)
        | None \<Rightarrow> (rune_error, s))
     else (rune_error, s))"

definition simple_escape :: "char \<Rightarrow> char option" where
  "simple_escape c =
    (if c = CHR ''\"'' \<or> byte c = 0x5C \<or> c = CHR ''/'' then Some c
     else if c = CHR ''b'' then Some (CHR 0x08)
     else if c = CHR ''f'' then Some (CHR 0x0C)
     else if c = CHR ''n'' then Some (CHR 0x0A)
     else if c = CHR ''r'' then Some (CHR 0x0D)
     else if c = CHR ''t'' then Some (CHR 0x09)
     else None)"

lemma hex4_shorter: "hex4 s = Some (n, t) \<Longrightarrow> length t < length s"
  by (cases s rule: hex4.cases) (auto split: option.splits)

lemma join_surrogates_shorter: "join_surrogates n s = (m, t) \<Longrightarrow> length t \<le> length s"
  by (auto simp: join_surrogates_def split: if_splits option.splits prod.splits dest!: hex4_shorter)

text \<open>One unit of a string literal: a byte, a rune or an escape; its
  decoded bytes and the rest of the input.\<close>

definition json_unit :: "char \<Rightarrow> string \<Rightarrow> (string \<times> string) option" where
  "json_unit c s =
    (if byte c < 0x20 then None
     else if byte c = 0x5C then
       (case s of
          [] \<Rightarrow> None
        | e # s' \<Rightarrow>
            if e = CHR ''u'' then
              (case hex4 s' of
                 None \<Rightarrow> None
               | Some (n, t) \<Rightarrow> (let (m, t') = join_surrogates n t in Some (utf8_encode m, t')))
            else map_option (\<lambda>d. ([d], s')) (simple_escape e))
     else if byte c < 0x80 then Some ([c], s)
     else if rune_width (c # s) \<le> 1 then Some (utf8_encode rune_error, s)
     else Some (take (rune_width (c # s)) (c # s), drop (rune_width (c # s)) (c # s)))"

lemma json_unit_shorter: "json_unit c s = Some (x, r) \<Longrightarrow> length r \<le> length s"
  by (fastforce simp: json_unit_def split: if_splits list.splits option.splits prod.splits
      dest: hex4_shorter join_surrogates_shorter)

text \<open>A string literal, after its opening quote: the decoded bytes and the
  input after the closing quote.\<close>

function json_string :: "string \<Rightarrow> (string \<times> string) option" where
  "json_string [] = None"
| "json_string (c # s) =
     (if c = CHR ''\"'' then Some ([], s)
      else (case json_unit c s of
              None \<Rightarrow> None
            | Some (u, r) \<Rightarrow> map_option (\<lambda>(x, t). (u @ x, t)) (json_string r)))"
  by pat_completeness auto

termination
  by (relation "measure length") (auto dest: json_unit_shorter)

lemma json_string_shorter: "json_string s = Some (x, r) \<Longrightarrow> length r < length s"
proof (induction s arbitrary: x r rule: json_string.induct)
  case (2 c s)
  then show ?case
    by (fastforce split: if_splits option.splits prod.splits dest: json_unit_shorter)
qed simp

text \<open>The elements of an array, after \<open>[\<close> or a comma.\<close>

definition json_elem :: "string \<Rightarrow> (string \<times> string) option" where
  "json_elem s =
    (case s of
       [] \<Rightarrow> None
     | c # s' \<Rightarrow>
         if c = CHR ''\"'' then json_string s'
         else if prefix ''null'' s then Some ([], drop 4 s)
         else None)"

lemma skip_ws_length: "length (skip_ws s) \<le> length s"
  by (simp add: skip_ws_def length_dropWhile_le)

lemma json_elem_shorter: "json_elem s = Some (x, r) \<Longrightarrow> length r < length s"
  by (auto simp: json_elem_def split: list.splits if_splits dest!: json_string_shorter)

function json_elems :: "string \<Rightarrow> (string list \<times> string) option" where
  "json_elems s =
    (case json_elem (skip_ws s) of
       None \<Rightarrow> None
     | Some (x, r) \<Rightarrow>
         (case skip_ws r of
            [] \<Rightarrow> None
          | c # r' \<Rightarrow>
              if c = CHR '']'' then Some ([x], r')
              else if c = CHR '','' then map_option (\<lambda>(xs, t). (x # xs, t)) (json_elems r')
              else None))"
  by pat_completeness auto

termination
proof (relation "measure length", goal_cases)
  case (2 s y x r c r')
  have "Suc (length r') \<le> length r" using skip_ws_length [of r] 2(3) by simp
  moreover have "length r < length s"
    using json_elem_shorter [of "skip_ws s" x r] skip_ws_length [of s] 2(1,2) by simp
  ultimately show ?case by simp
qed simp

declare json_elems.simps [simp del]

text \<open>\<open>json.Unmarshal([]byte(s), &out)\<close> for out of type []string:
  \<open>None\<close> is an error.\<close>

definition json_string_list :: "string \<Rightarrow> string list option" where
  "json_string_list s =
    (case skip_ws s of
       [] \<Rightarrow> None
     | c # s' \<Rightarrow>
         if c = CHR ''['' then
           (case skip_ws s' of
              [] \<Rightarrow> None
            | d # s'' \<Rightarrow>
                if d = CHR '']'' then (if skip_ws s'' = [] then Some [] else None)
                else (case json_elems s' of
                        Some (xs, t) \<Rightarrow> if skip_ws t = [] then Some xs else None
                      | None \<Rightarrow> None))
         else if prefix ''null'' (c # s') \<and> skip_ws (drop 3 s') = [] then Some []
         else None)"

end
