(* ===== verification/Condition.thy ===== *)
theory Condition
  imports Gw_Config Go_Json
begin

text \<open>
  Package proxy/condition: the retry conditions of an endpoint, parsed when
  the endpoint is built and judged on each response.
\<close>

section \<open>Parsed conditions\<close>

datatype condition =
    ByStatusCode "int list"
  | ByHeader string "string list"

text \<open>The loop of byStatusCode.Prepare: it stops at the first part that is no
  16-bit number.\<close>

fun parse_codes :: "string list \<Rightarrow> int list option" where
  "parse_codes [] = Some []"
| "parse_codes (p # ps) =
     (case parseInt 16 p of
        (code, ok) \<Rightarrow> if ok then map_option (Cons code) (parse_codes ps) else None)"

definition byStatusCode_Prepare :: "string \<Rightarrow> condition option" where
  "byStatusCode_Prepare s =
    (let parts = split_char (CHR ''-'') s
     in if parts = [] \<or> 2 < length parts then None
        else map_option ByStatusCode (parse_codes parts))"

definition byStatusCode_Judge :: "int list \<Rightarrow> response \<Rightarrow> bool" where
  "byStatusCode_Judge codes resp =
    (case codes of
       [] \<Rightarrow> False
     | [c] \<Rightarrow> rs_status resp = c
     | c # d # _ \<Rightarrow> c \<le> rs_status resp \<and> rs_status resp \<le> d)"

abbreviation parseAsStringList :: "string \<Rightarrow> string list option" where
  "parseAsStringList \<equiv> json_string_list"

definition byHeader_Prepare :: "string \<Rightarrow> string \<Rightarrow> condition option" where
  "byHeader_Prepare name v =
    (if hasPrefix v ''['' then map_option (ByHeader name) (parseAsStringList v)
     else Some (ByHeader name [v]))"

definition byHeader_Judge :: "string \<Rightarrow> string list \<Rightarrow> response \<Rightarrow> bool" where
  "byHeader_Judge name vals resp =
    (let v = rs_get resp name in if v = [] then False else v \<in> set vals)"

fun Prepare :: "condition_cfg \<Rightarrow> condition option" where
  "Prepare (Condition_ByStatusCode s) = byStatusCode_Prepare s"
| "Prepare (Condition_ByHeader n v) = byHeader_Prepare n v"
| "Prepare Condition_None = None"

fun Judge :: "condition \<Rightarrow> response \<Rightarrow> bool" where
  "Judge (ByStatusCode codes) resp = byStatusCode_Judge codes resp"
| "Judge (ByHeader n vs) resp = byHeader_Judge n vs resp"

fun ParseConditon :: "condition_cfg list \<Rightarrow> condition list option" where
  "ParseConditon [] = Some []"
| "ParseConditon (c # cs) =
     (case Prepare c of
        None \<Rightarrow> None
      | Some d \<Rightarrow> map_option (Cons d) (ParseConditon cs))"

fun JudgeConditons_loop :: "condition list \<Rightarrow> response \<Rightarrow> bool" where
  "JudgeConditons_loop [] resp = False"
| "JudgeConditons_loop (c # cs) resp = (if Judge c resp then True else JudgeConditons_loop cs resp)"

definition JudgeConditons :: "condition list \<Rightarrow> response \<Rightarrow> bool \<Rightarrow> bool" where
  "JudgeConditons cs resp onEmpty = (if cs = [] then onEmpty else JudgeConditons_loop cs resp)"

section \<open>Lemmas\<close>

lemma parse_codes_length: "parse_codes ps = Some cs \<Longrightarrow> length cs = length ps"
  by (induction ps arbitrary: cs) (auto split: prod.splits if_splits)

lemma parse_codes_bounds: "parse_codes ps = Some cs \<Longrightarrow> \<forall>c\<in>set cs. -32768 \<le> c \<and> c < 32768"
proof (induction ps arbitrary: cs)
  case (Cons p ps)
  have "-32768 \<le> fst (parseInt 16 p) \<and> fst (parseInt 16 p) < 32768"
    using parseInt_bounds [of 16 p] by simp
  with Cons show ?case by (auto split: prod.splits if_splits)
qed simp

text \<open>A range with both ends written: the first dash is the separator, so a
  negative bound cannot be written.\<close>

lemma split_no_dash:
  "p \<in> set (split_char (CHR ''-'') s) \<Longrightarrow> \<not> prefix ''-'' p"
  by (auto dest: split_char_no_sep simp: prefix_def)

lemma byStatusCode_Prepare_shape:
  assumes "byStatusCode_Prepare s = Some c"
  shows "\<exists>codes. c = ByStatusCode codes \<and> (length codes = 1 \<or> length codes = 2)
    \<and> (\<forall>k\<in>set codes. -32768 \<le> k \<and> k < 32768)"
proof -
  let ?parts = "split_char (CHR ''-'') s"
  have "?parts \<noteq> []" by simp
  moreover obtain codes where codes: "parse_codes ?parts = Some codes" "c = ByStatusCode codes"
    "\<not> 2 < length ?parts"
    using assms by (auto simp: byStatusCode_Prepare_def Let_def split: if_splits)
  ultimately have "length codes = 1 \<or> length codes = 2"
    using parse_codes_length [OF codes(1)] by (cases ?parts) (auto simp: le_Suc_eq not_less)
  then show ?thesis using codes parse_codes_bounds by blast
qed

lemma ParseConditon_length: "ParseConditon cfgs = Some cs \<Longrightarrow> length cs = length cfgs"
  by (induction cfgs arbitrary: cs) (auto split: option.splits)

lemma ParseConditon_nth: "ParseConditon cfgs = Some cs \<Longrightarrow> i < length cfgs \<Longrightarrow> Prepare (cfgs ! i) = Some (cs ! i)"
proof (induction cfgs arbitrary: cs i)
  case (Cons c cfgs)
  then show ?case by (cases i) (auto split: option.splits)
qed simp

lemma ParseConditon_fails_iff: "ParseConditon cfgs = None \<longleftrightarrow> (\<exists>c\<in>set cfgs. Prepare c = None)"
  by (induction cfgs) (auto split: option.splits)

lemma JudgeConditons_loop_ex: "JudgeConditons_loop cs resp \<longleftrightarrow> (\<exists>c\<in>set cs. Judge c resp)"
  by (induction cs) auto

lemma JudgeConditons_iff:
  "JudgeConditons cs resp onEmpty \<longleftrightarrow> (if cs = [] then onEmpty else \<exists>c\<in>set cs. Judge c resp)"
  by (simp add: JudgeConditons_def JudgeConditons_loop_ex)

lemma formatInt_no_dash: "0 \<le> i \<Longrightarrow> CHR ''-'' \<notin> set (formatInt i)"
  using dec_digits_all [of "nat i"] by (auto simp: formatInt_def list_all_iff is_digit_def byte_def)

lemma Prepare_range:
  assumes "0 \<le> a" "a < 32768" "0 \<le> b" "b < 32768"
  shows "Prepare (Condition_ByStatusCode (formatInt a @ CHR ''-'' # formatInt b)) = Some (ByStatusCode [a, b])"
  using assms
  by (simp add: byStatusCode_Prepare_def split_char_append formatInt_no_dash split_char_id
      parseInt_formatInt_nat)

lemma Prepare_single:
  assumes "0 \<le> a" "a < 32768"
  shows "Prepare (Condition_ByStatusCode (formatInt a)) = Some (ByStatusCode [a])"
  using assms
  by (simp add: byStatusCode_Prepare_def formatInt_no_dash split_char_id parseInt_formatInt_nat)

section \<open>Properties\<close>

text \<open>The text "a-b" written for a retry condition is read back as the
  range it denotes: the prepared condition accepts exactly the responses with
  a status between a and b, and the text "a" exactly the status a.\<close>

theorem status_condition_roundtrip:
  assumes "0 \<le> a" "a < 32768" "0 \<le> b" "b < 32768"
  shows "(\<exists>c. Prepare (Condition_ByStatusCode (formatInt a @ CHR ''-'' # formatInt b)) = Some c
      \<and> (\<forall>r. Judge c r \<longleftrightarrow> a \<le> rs_status r \<and> rs_status r \<le> b))
    \<and> (\<exists>c. Prepare (Condition_ByStatusCode (formatInt a)) = Some c \<and> (\<forall>r. Judge c r \<longleftrightarrow> rs_status r = a))"
  using assms by (auto simp: Prepare_range Prepare_single byStatusCode_Judge_def simp del: Prepare.simps)

theorem status_condition_roundtrip_witness:
  "(\<exists>c. Prepare (Condition_ByStatusCode (formatInt 500 @ CHR ''-'' # formatInt 599)) = Some c
      \<and> (\<forall>r. Judge c r \<longleftrightarrow> 500 \<le> rs_status r \<and> rs_status r \<le> 599))
    \<and> (\<exists>c. Prepare (Condition_ByStatusCode (formatInt 500)) = Some c \<and> (\<forall>r. Judge c r \<longleftrightarrow> rs_status r = 500))"
  using status_condition_roundtrip [of 500 599] by (simp del: Prepare.simps)

end
