(* ===== verification/Retry.thy ===== *)
theory Retry
  imports Condition
begin

text \<open>
  Package proxy, file retry.go: the retry strategy of an endpoint.  Durations
  are int64 nanoseconds, the attempts a uint32 converted to Go's 64-bit int.
\<close>

abbreviation time_Second :: int where
  "time_Second \<equiv> 1000000000"

record retry_strategy =
  rt_attempts :: int
  rt_timeout :: int
  rt_per_try_timeout :: int
  rt_conditions :: "condition list"

definition calcTimeout :: "endpoint \<Rightarrow> int" where
  "calcTimeout e =
    (let timeout = (case ep_timeout e of Some d \<Rightarrow> d | None \<Rightarrow> 0)
     in if timeout \<le> 0 then time_Second else timeout)"

definition calcAttempts :: "endpoint \<Rightarrow> int" where
  "calcAttempts e =
    (case ep_retry e of
       None \<Rightarrow> 1
     | Some r \<Rightarrow> if rc_attempts r = 0 then 1 else uint (rc_attempts r))"

definition calcPerTryTimeout :: "endpoint \<Rightarrow> int" where
  "calcPerTryTimeout e =
    (let t = (case ep_retry e of
                Some r \<Rightarrow>
                  (case rc_per_try_timeout r of
                     Some d \<Rightarrow> d
                   | None \<Rightarrow> (case ep_timeout e of Some d \<Rightarrow> d | None \<Rightarrow> 0))
              | None \<Rightarrow> (case ep_timeout e of Some d \<Rightarrow> d | None \<Rightarrow> 0))
     in if t \<le> 0 then time_Second else t)"

definition parseRetryConditon :: "endpoint \<Rightarrow> condition list option" where
  "parseRetryConditon e =
    (case ep_retry e of None \<Rightarrow> Some [] | Some r \<Rightarrow> ParseConditon (rc_conditions r))"

definition prepareRetryStrategy :: "endpoint \<Rightarrow> retry_strategy option" where
  "prepareRetryStrategy e =
    (case parseRetryConditon e of
       None \<Rightarrow> None
     | Some cs \<Rightarrow>
         Some \<lparr>rt_attempts = calcAttempts e, rt_timeout = calcTimeout e,
               rt_per_try_timeout = calcPerTryTimeout e, rt_conditions = cs\<rparr>)"

definition judgeRetryRequired :: "condition list \<Rightarrow> response \<Rightarrow> bool" where
  "judgeRetryRequired cs resp = JudgeConditons cs resp False"

section \<open>Lemmas\<close>

lemma calcAttempts_bounds: "1 \<le> calcAttempts e \<and> calcAttempts e < 2 ^ 32"
proof (cases "ep_retry e")
  case (Some r)
  have "1 \<le> uint (rc_attempts r)" if "rc_attempts r \<noteq> 0"
    using that uint_0_iff [of "rc_attempts r"] unsigned_greater_eq [of "rc_attempts r"]
    by (metis int_one_le_iff_zero_less order_less_le)
  moreover have "uint (rc_attempts r) < 2 ^ 32"
    using uint_lt2p [of "rc_attempts r"] by simp
  ultimately show ?thesis using Some by (auto simp: calcAttempts_def)
qed (simp add: calcAttempts_def)

lemma calcTimeout_pos: "0 < calcTimeout e"
  by (simp add: calcTimeout_def Let_def)

lemma calcPerTryTimeout_pos: "0 < calcPerTryTimeout e"
  by (simp add: calcPerTryTimeout_def Let_def)

lemma judgeRetryRequired_iff: "judgeRetryRequired cs resp \<longleftrightarrow> (\<exists>c\<in>set cs. Judge c resp)"
  by (auto simp: judgeRetryRequired_def JudgeConditons_iff)

lemma prepareRetryStrategy_Some:
  "prepareRetryStrategy e = Some rs \<Longrightarrow>
    rt_attempts rs = calcAttempts e \<and> rt_timeout rs = calcTimeout e
    \<and> rt_per_try_timeout rs = calcPerTryTimeout e \<and> parseRetryConditon e = Some (rt_conditions rs)"
  by (auto simp: prepareRetryStrategy_def split: option.splits)

section \<open>Properties\<close>

text \<open>Every strategy the gateway builds allows at least one attempt and at
  most as many as the uint32 of the configuration can say, and both time
  limits are positive whatever the configuration holds.\<close>

theorem strategy_bounds:
  assumes "prepareRetryStrategy e = Some rs"
  shows "1 \<le> rt_attempts rs \<and> rt_attempts rs < 2 ^ 32 \<and> 0 < rt_timeout rs \<and> 0 < rt_per_try_timeout rs"
  using prepareRetryStrategy_Some [OF assms] calcAttempts_bounds calcTimeout_pos calcPerTryTimeout_pos
  by simp

definition sample_endpoint :: endpoint where
  "sample_endpoint =
    \<lparr>ep_path = ''/shop/*'', ep_method = ''GET'', ep_description = [], ep_protocol = HTTP,
     ep_timeout = Some (-5), ep_middlewares = [], ep_backends = [],
     ep_retry = Some \<lparr>rc_attempts = 3, rc_per_try_timeout = None,
                       rc_conditions = [Condition_ByStatusCode ''500-599''], rc_priorities = []\<rparr>,
     ep_metadata = [(''service'', ''shop'')], ep_host = []\<rparr>"

lemma sample_strategy:
  "prepareRetryStrategy sample_endpoint = Some
    \<lparr>rt_attempts = 3, rt_timeout = time_Second, rt_per_try_timeout = time_Second,
     rt_conditions = [ByStatusCode [500, 599]]\<rparr>"
  by code_simp

theorem strategy_bounds_witness:
  "\<exists>rs. prepareRetryStrategy sample_endpoint = Some rs \<and> 1 \<le> rt_attempts rs \<and> rt_attempts rs < 2 ^ 32"
  using strategy_bounds [OF sample_strategy] sample_strategy by auto

end
