(* ===== verification/Jwt_Middleware.thy ===== *)
theory Jwt_Middleware
  imports Jwt Gate Router_Filter Loader_Source Retry
begin

text \<open>
  Package middleware/jwt.  The JWT library, the PEM and certificate parsers
  and the hash are parameters; the key the package keeps and the file it is
  loaded from are state.
\<close>

section \<open>Parameters and state\<close>

record jwt_claims =
  jc_user_id :: string
  jc_user_name :: string

text \<open>What ParseWithClaims returns: a token with its claims and its validity
  flag, an error that is ErrTokenExpired, or another error.\<close>

datatype jwt_parse = Parsed jwt_claims bool | ParseExpired | ParseFailed err

text \<open>The parser calls back for the key with the algorithm of the token's
  method; x509 gives the RSA key of a certificate, or \<open>None\<close> when the key is
  of another kind.\<close>

record 'k jwt_lib =
  jl_ParseWithClaims :: "string \<Rightarrow> (string \<Rightarrow> err + 'k option) \<Rightarrow> int \<Rightarrow> jwt_parse"
  jl_pem_Decode :: "string \<Rightarrow> string option"
  jl_x509_Parse :: "string \<Rightarrow> err + 'k option"
  jl_sha256 :: "string \<Rightarrow> string"
  jl_modulus :: "'k \<Rightarrow> string"

record 'k jwt_vars =
  jw_publicKey :: "'k option"
  jw_publicKeyPath :: string
  jw_initialized :: bool
  jw_registered :: bool
  jw_watching :: "(string \<times> string) option"

type_synonym 'k jwt_world = "'k jwt_vars os_scheme"

definition upd_vars :: "('v \<Rightarrow> 'v) \<Rightarrow> 'v os_scheme \<Rightarrow> 'v os_scheme" where
  "upd_vars f w = w\<lparr>os.more := f (os.more w)\<rparr>"

abbreviation jwt_fail :: "int \<Rightarrow> string \<Rightarrow> string \<Rightarrow> err" where
  "jwt_fail code reason msg \<equiv> KratosErr (kratos_New code reason msg)"

section \<open>The key file\<close>

definition getPublicKeyPath :: "'k jwt_world \<Rightarrow> string" where
  "getPublicKeyPath w =
    (let pubPath = os_Getenv JwtPubkeyPath w
     in if pubPath \<noteq> [] then path_Clean pubPath
        else path_Join [ConfigDir, SecretsDirName, JwtPublicFileName])"

definition validatePublicKey :: "'k jwt_lib \<Rightarrow> 'k jwt_world validator" where
  "validatePublicKey L tempPath w =
    (case os_ReadFile tempPath w of
       (Inl e, w1) \<Rightarrow> (Some (jwt_fail 500 ''INTERNAL_ERROR'' (bytes [232, 175, 187, 229, 143, 150, 229, 133, 172, 233, 146, 165, 230, 150, 135, 228,
     187, 182, 229, 164, 177, 232, 180, 165])), w1)
     | (Inr data, w1) \<Rightarrow>
         (case jl_pem_Decode L data of
            None \<Rightarrow> (Some (jwt_fail 400 ''INVALID_PEM_FORMAT'' (bytes [230, 151, 160, 230, 149, 136, 80, 69, 77, 230, 160, 188, 229, 188, 143])), w1)
          | Some block \<Rightarrow>
              (case jl_x509_Parse L block of
                 Inl e \<Rightarrow> (Some (jwt_fail 400 ''CERT_PARSE_FAILED'' (bytes [232, 175, 129, 228, 185, 166, 232, 167, 163, 230, 158, 144, 229, 164, 177, 232,
     180, 165])), w1)
               | Inr cert \<Rightarrow> (None, w1))))"

text \<open>The publicKeyPath variable is set once, before any use, and is an
  argument here.\<close>

definition reloadPublicKey :: "'k jwt_lib \<Rightarrow> string \<Rightarrow> 'k jwt_world \<Rightarrow> err option \<times> 'k jwt_world" where
  "reloadPublicKey L publicKeyPath w =
    (case os_Stat publicKeyPath w of
       (Inl e, w1) \<Rightarrow> (Some (jwt_fail 500 ''INTERNAL_ERROR'' (bytes [230, 150, 135, 228, 187, 182, 231, 138, 182, 230, 128, 129, 232, 142, 183, 229,
     143, 150, 229, 164, 177, 232, 180, 165])), w1)
     | (Inr st, w1) \<Rightarrow>
         (case os_ReadFile publicKeyPath w1 of
            (Inl e, w2) \<Rightarrow> (Some (jwt_fail 500 ''INTERNAL_ERROR'' (bytes [232, 175, 187, 229, 143, 150, 230, 150, 135, 228, 187, 182, 229, 164, 177, 232,
     180, 165])), w2)
          | (Inr data, w2) \<Rightarrow>
              if (case jw_publicKey (os.more w2) of
                    None \<Rightarrow> False
                  | Some k \<Rightarrow> jl_sha256 L data = jl_sha256 L (jl_modulus L k)) then (None, w2)
              else
                (case jl_pem_Decode L data of
                   None \<Rightarrow> (Some (jwt_fail 400 ''PEM_DECODE_FAILED'' (bytes [80, 69, 77, 32, 232, 167, 163, 231, 160, 129, 229, 164, 177, 232, 180, 165])), w2)
                 | Some block \<Rightarrow>
                     (case jl_x509_Parse L block of
                        Inl e \<Rightarrow> (Some (jwt_fail 400 ''CERT_PARSE_FAILED'' (bytes [232, 175, 129, 228, 185, 166, 232, 167, 163, 230, 158, 144, 229, 164, 177, 232,
     180, 165])), w2)
                      | Inr None \<Rightarrow> (Some (jwt_fail 400 ''NOT_RSA_PUBLIC_KEY'' (bytes [233, 157, 158, 32, 82, 83, 65, 32, 229, 133, 172, 233, 146, 165, 231, 177,
     187, 229, 158, 139])), w2)
                      | Inr (Some k) \<Rightarrow> (None, upd_vars (\<lambda>v. v\<lparr>jw_publicKey := Some k\<rparr>) w2)))))"

text \<open>Init.  A started watch is recorded by its key and target; its callback is
  \<open>update_event\<close> with the validator and the reload of this section.\<close>

definition jwt_Init :: "'k jwt_lib \<Rightarrow> 'k jwt_world source \<Rightarrow> 'k jwt_world \<Rightarrow> err option \<times> 'k jwt_world" where
  "jwt_Init L source w =
    (if jw_initialized (os.more w) then (None, w)
     else
       (let path = getPublicKeyPath w;
            w0 = upd_vars (\<lambda>v. v\<lparr>jw_publicKeyPath := path\<rparr>) w;
            key = RelatedKey (so_MainKey source) (path_Join [SecretsDirName, JwtPublicFileName])
        in case os_MkdirAll (path_Dir path) w0 of
             (Inl e, w1) \<Rightarrow> (Some (jwt_fail 500 ''INTERNAL_ERROR'' (bytes [229, 136, 155, 229, 187, 186, 229, 175, 134, 233, 146, 165, 231, 155, 174, 229,
     189, 149, 229, 164, 177, 232, 180, 165])), w1)
           | (Inr u, w1) \<Rightarrow>
               (case SyncFile source key path (Some (validatePublicKey L)) w1 of
                  (Some e, w2) \<Rightarrow> (Some (jwt_fail 500 ''INTERNAL_ERROR'' (bytes [229, 133, 172, 233, 146, 165, 229, 144, 140, 230, 173, 165, 229, 164, 177, 232,
     180, 165])), w2)
                | (None, w2) \<Rightarrow>
                    (case reloadPublicKey L path w2 of
                       (Some e, w3) \<Rightarrow> (Some (jwt_fail 500 ''INTERNAL_ERROR'' (bytes [229, 136, 157, 229, 167, 139, 229, 133, 172, 233, 146, 165, 229, 138, 160, 232,
     189, 189, 229, 164, 177, 232, 180, 165])), w3)
                     | (None, w3) \<Rightarrow>
                         (None, upd_vars (\<lambda>v. v\<lparr>jw_watching := (if so_Name source = ConfigSourceFile then jw_watching v else Some (key, path)),
                                   jw_registered := True, jw_initialized := True\<rparr>) w3)))))"

section \<open>Tokens\<close>

abbreviation jwt_leeway :: int where
  "jwt_leeway \<equiv> 60000000000"

definition key_func :: "'k option \<Rightarrow> string \<Rightarrow> err + 'k option" where
  "key_func publicKey alg =
    (if alg \<noteq> ''RS256'' then Inl (jwt_fail 400 ''INVALID_SIGNING_METHOD'' (bytes [228, 184, 141, 230, 148, 175, 230, 140, 129, 231, 154, 132, 231, 173, 190, 229,
     144, 141, 230, 150, 185, 230, 179, 149]))
     else Inr publicKey)"

definition ParseJwt :: "'k jwt_lib \<Rightarrow> 'k option \<Rightarrow> string \<Rightarrow> err + jwt_claims" where
  "ParseJwt L publicKey tokenString =
    (case jl_ParseWithClaims L tokenString (key_func publicKey) jwt_leeway of
       ParseExpired \<Rightarrow> Inl (jwt_fail 401 ''TOKEN_EXPIRED'' (bytes [228, 187, 164, 231, 137, 140, 229, 183, 178, 232, 191, 135, 230, 156, 159]))
     | ParseFailed e \<Rightarrow> Inl (jwt_fail 401 ''TOKEN_PARSE_FAILED'' (bytes [228, 187, 164, 231, 137, 140, 232, 167, 163, 230, 158, 144, 229, 164, 177, 232,
     180, 165]))
     | Parsed claims valid \<Rightarrow>
         if valid then Inr claims
         else Inl (jwt_fail 401 ''INVALID_TOKEN_CLAIMS'' (bytes [230, 151, 160, 230, 149, 136, 231, 154, 132, 228, 187, 164, 231, 137, 140, 229,
     163, 176, 230, 152, 142])))"

section \<open>The middleware\<close>

definition missing_token :: err where
  "missing_token = jwt_fail 401 ''MISSING_AUTH_TOKEN'' (bytes [231, 188, 186, 229, 176, 145, 66, 101, 97, 114, 101, 114, 32, 116, 111, 107,
     101, 110])"

definition jwt_set_headers :: "jwt_claims \<Rightarrow> request \<Rightarrow> request" where
  "jwt_set_headers c req =
    req\<lparr>rq_header := hset (hset (rq_header req) UserIdMetadataKey (jc_user_id c))
                        UserNameMetadataKey (jc_user_name c)\<rparr>"

text \<open>The handler.  The key is read from the state of the process.\<close>

definition jwt_RoundTrip :: "'k jwt_lib \<Rightarrow> ('x \<Rightarrow> 'k option) \<Rightarrow> PathMatcher list \<Rightarrow> 'x world middleware" where
  "jwt_RoundTrip L key_of matchers next req w =
    (if list_ex (\<lambda>m. pm_Match m req) matchers then next req w
     else
       (let authHeader = hget (rq_header req) ''Authorization'' in
        if \<not> hasPrefix authHeader ''Bearer '' then (Ret None (Some missing_token), w)
        else
          (case ParseJwt L (key_of (w_ext w)) (trimPrefix authHeader ''Bearer '') of
             Inl e \<Rightarrow> (Ret None (Some e), w)
           | Inr claims \<Rightarrow> next (jwt_set_headers claims req) w)))"

definition jwt_Middleware :: "'k jwt_lib \<Rightarrow> ('x \<Rightarrow> 'k option) \<Rightarrow> 'x world factory" where
  "jwt_Middleware L key_of c w =
    (case rule_matchers (case mc_router_filter c of None \<Rightarrow> [] | Some rules \<Rightarrow> rules) of
       None \<Rightarrow> (Inl (jwt_fail 500 ''INTERNAL_ERROR'' (bytes [229, 136, 155, 229, 187, 186, 232, 183, 175, 229, 190, 132, 229, 140, 185, 233,
     133, 141, 229, 153, 168, 229, 164, 177, 232, 180, 165])), w)
     | Some matchers \<Rightarrow> (Inr (jwt_RoundTrip L key_of matchers), w))"

section \<open>The middleware is an identity gate\<close>

definition jwt_decide :: "'k jwt_lib \<Rightarrow> ('x \<Rightarrow> 'k option) \<Rightarrow> PathMatcher list \<Rightarrow> request \<Rightarrow> 'x world
    \<Rightarrow> (rt_result + request) \<times> 'x world" where
  "jwt_decide L key_of matchers req w =
    (if list_ex (\<lambda>m. pm_Match m req) matchers then (Inr req, w)
     else if \<not> hasPrefix (hget (rq_header req) ''Authorization'') ''Bearer '' then (Inl (Ret None (Some missing_token)), w)
     else case ParseJwt L (key_of (w_ext w)) (trimPrefix (hget (rq_header req) ''Authorization'') ''Bearer '') of
            Inl e \<Rightarrow> (Inl (Ret None (Some e)), w)
          | Inr claims \<Rightarrow> (Inr (jwt_set_headers claims req), w))"

interpretation jwt_gate: identity_gate "jwt_RoundTrip L key_of ms" "jwt_decide L key_of ms"
    "{''X-Md-Global-User-Id'', ''X-Md-Global-Name''}" for L key_of ms
proof unfold_locales
  show "jwt_RoundTrip L key_of ms next req w = go_on (jwt_decide L key_of ms req w) next" for "next" req w
    by (simp add: jwt_RoundTrip_def jwt_decide_def Let_def split: sum.split)
next
  show "req' = req\<lparr>rq_header := rq_header req'\<rparr>"
    if "jwt_decide L key_of ms req w = (Inr req', w')" for req w req' w'
    using that by (auto simp: jwt_decide_def jwt_set_headers_def split: if_splits sum.splits)
next
  show "rq_header req' k = rq_header req k"
    if "jwt_decide L key_of ms req w = (Inr req', w')" "k \<notin> {''X-Md-Global-User-Id'', ''X-Md-Global-Name''}" for req w req' w' k
    using that by (auto simp: jwt_decide_def jwt_set_headers_def hset_def split: if_splits sum.splits)
qed

text \<open>What ParseJwt accepts, when the library only reports a valid token after
  checking its signature with the key the callback gave for its algorithm.\<close>

definition checks_signature :: "'k jwt_lib \<Rightarrow> (string \<Rightarrow> string) \<Rightarrow> ('k \<Rightarrow> string \<Rightarrow> jwt_claims \<Rightarrow> bool) \<Rightarrow> bool" where
  "checks_signature L alg_of sig_ok \<longleftrightarrow>
    (\<forall>tok kf lw cl. jl_ParseWithClaims L tok kf lw = Parsed cl True \<longrightarrow>
       (\<exists>k. kf (alg_of tok) = Inr (Some k) \<and> sig_ok k tok cl))"

lemma ParseJwt_signed:
  assumes "checks_signature L alg_of sig_ok" "ParseJwt L key tok = Inr cl"
  shows "alg_of tok = ''RS256'' \<and> (\<exists>k. key = Some k \<and> sig_ok k tok cl)"
proof -
  have "jl_ParseWithClaims L tok (key_func key) jwt_leeway = Parsed cl True"
    using assms(2) by (auto simp: ParseJwt_def split: jwt_parse.splits if_splits)
  then obtain k where "key_func key (alg_of tok) = Inr (Some k)" "sig_ok k tok cl"
    using assms(1) unfolding checks_signature_def by blast
  then show ?thesis by (auto simp: key_func_def split: if_splits)
qed

text \<open>When what lies behind the jwt middleware makes any difference to the
  result, the request either matches a skip rule, or carries a bearer token
  that uses RS256 and is signed with the key in use; then every layer behind
  sees the user id and name of that token, whatever the client had sent in
  these headers.\<close>

theorem jwt_passes_only_signed:
  assumes "checks_signature L alg_of sig_ok"
    and "jwt_RoundTrip L key_of ms next req w \<noteq> jwt_RoundTrip L key_of ms next' req w"
  shows "list_ex (\<lambda>m. pm_Match m req) ms \<or>
    (\<exists>tok k cl. hget (rq_header req) ''Authorization'' = ''Bearer '' @ tok \<and> alg_of tok = ''RS256''
      \<and> key_of (w_ext w) = Some k \<and> sig_ok k tok cl
      \<and> (\<forall>behind. \<exists>req'. jwt_RoundTrip L key_of ms behind req w = behind req' w
          \<and> hget (rq_header req') UserIdMetadataKey = jc_user_id cl
          \<and> hget (rq_header req') UserNameMetadataKey = jc_user_name cl))"
proof (cases "list_ex (\<lambda>m. pm_Match m req) ms")
  case False
  obtain req' w' where d: "jwt_decide L key_of ms req w = (Inr req', w')"
    using jwt_gate.depends_passed [OF assms(2)] by blast
  obtain tok cl where t: "hget (rq_header req) ''Authorization'' = ''Bearer '' @ tok"
    "ParseJwt L (key_of (w_ext w)) tok = Inr cl" "req' = jwt_set_headers cl req" "w' = w"
  proof -
    have pre: "hasPrefix (hget (rq_header req) ''Authorization'') ''Bearer ''"
      using d False by (auto simp: jwt_decide_def split: if_splits)
    then obtain tok where tok: "hget (rq_header req) ''Authorization'' = ''Bearer '' @ tok" by (auto simp: prefix_def)
    then have trim: "trimPrefix (hget (rq_header req) ''Authorization'') ''Bearer '' = tok" by (simp add: trimPrefix_def)
    obtain cl where "ParseJwt L (key_of (w_ext w)) tok = Inr cl" "req' = jwt_set_headers cl req" "w' = w"
      using d pre unfolding jwt_decide_def if_not_P [OF False] trim by (auto split: sum.splits)
    then show thesis using that tok by blast
  qed
  have h: "hget (rq_header req') UserIdMetadataKey = jc_user_id cl"
    "hget (rq_header req') UserNameMetadataKey = jc_user_name cl"
    by (simp_all add: t(3) jwt_set_headers_def hget_hset)
  show ?thesis
    using ParseJwt_signed [OF assms(1) t(2)] t(1) h jwt_gate.passed [OF d] t(4) by blast
qed simp

text \<open>A library that accepts one token.\<close>

definition demo_lib :: "nat jwt_lib" where
  "demo_lib =
    \<lparr>jl_ParseWithClaims = (\<lambda>tok kf lw. if tok = ''good'' then
         (case kf ''RS256'' of Inr (Some k) \<Rightarrow> Parsed \<lparr>jc_user_id = ''u1'', jc_user_name = ''ann''\<rparr> True | _ \<Rightarrow> ParseExpired)
       else ParseExpired),
     jl_pem_Decode = (\<lambda>c. if c = [] then None else Some c), jl_x509_Parse = (\<lambda>b. Inr (Some (length b))), jl_sha256 = (\<lambda>s. s), jl_modulus = (\<lambda>k. [])\<rparr>"

definition bearer_request :: request where
  "bearer_request = user_request\<lparr>rq_header := [''Authorization'' \<mapsto> [''Bearer good''], ''X-Md-Global-User-Id'' \<mapsto> [''root'']]\<rparr>"

lemma demo_checks: "checks_signature demo_lib (\<lambda>t. ''RS256'') (\<lambda>k t c. t = ''good'' \<and> c = \<lparr>jc_user_id = ''u1'', jc_user_name = ''ann''\<rparr>)"
  unfolding checks_signature_def
proof (intro allI impI)
  fix tok kf lw cl
  assume p: "jl_ParseWithClaims demo_lib tok kf lw = Parsed cl True"
  then have "tok = ''good''" by (auto simp: demo_lib_def split: if_splits)
  with p obtain k where "kf ''RS256'' = Inr (Some k)" "cl = \<lparr>jc_user_id = ''u1'', jc_user_name = ''ann''\<rparr>"
    by (auto simp: demo_lib_def split: sum.splits option.splits)
  with \<open>tok = ''good''\<close> show "\<exists>k. kf ''RS256'' = Inr (Some k) \<and> tok = ''good'' \<and> cl = \<lparr>jc_user_id = ''u1'', jc_user_name = ''ann''\<rparr>"
    by blast
qed

definition demo_world :: "unit world" where
  "demo_world = \<lparr>w_opts = NewRequestOptions sample_endpoint, w_events = [], w_ext = ()\<rparr>"

theorem jwt_passes_only_signed_witness:
  "list_ex (\<lambda>m. pm_Match m bearer_request) [] \<or>
    (\<exists>tok k cl. hget (rq_header bearer_request) ''Authorization'' = ''Bearer '' @ tok \<and> ''RS256'' = ''RS256''
      \<and> Some (3 :: nat) = Some k \<and> (tok = ''good'' \<and> cl = \<lparr>jc_user_id = ''u1'', jc_user_name = ''ann''\<rparr>)
      \<and> (\<forall>behind. \<exists>req'. jwt_RoundTrip demo_lib (\<lambda>x. Some 3) [] behind bearer_request demo_world = behind req' demo_world
          \<and> hget (rq_header req') UserIdMetadataKey = jc_user_id cl
          \<and> hget (rq_header req') UserNameMetadataKey = jc_user_name cl))"
proof (rule jwt_passes_only_signed [OF demo_checks])
  have "trimPrefix ''Bearer good'' ''Bearer '' = ''good''" by (simp add: trimPrefix_def)
  then have "jwt_RoundTrip demo_lib (\<lambda>x. Some 3) [] behind bearer_request demo_world =
      behind (jwt_set_headers \<lparr>jc_user_id = ''u1'', jc_user_name = ''ann''\<rparr> bearer_request) demo_world" for behind
    by (simp add: jwt_RoundTrip_def bearer_request_def hget_def ParseJwt_def demo_lib_def key_func_def)
  then show "jwt_RoundTrip demo_lib (\<lambda>x. Some 3) [] (\<lambda>r w. (Panicked, w)) bearer_request demo_world
      \<noteq> jwt_RoundTrip demo_lib (\<lambda>x. Some 3) [] (\<lambda>r w. (Ret None None, w)) bearer_request demo_world"
    by simp
qed

section \<open>The key in use is the key on disk\<close>

text \<open>The key was parsed from these contents, or its modulus has their hash, the
  test reloadPublicKey makes (it compares the digest of the file with that of
  the modulus of the key, which no certificate file has in practice).\<close>

definition jwt_loaded :: "'k jwt_lib \<Rightarrow> 'k jwt_vars \<Rightarrow> string \<Rightarrow> bool" where
  "jwt_loaded L v c =
    (case jw_publicKey v of
       None \<Rightarrow> False
     | Some k \<Rightarrow>
         (case jl_pem_Decode L c of None \<Rightarrow> False | Some b \<Rightarrow> jl_x509_Parse L b = Inr (Some k))
         \<or> jl_sha256 L c = jl_sha256 L (jl_modulus L k))"

lemma upd_vars_sel [simp]:
  "os.more (upd_vars f w) = f (os.more w)" "os_files (upd_vars f w) = os_files w"
  by (simp_all add: upd_vars_def)

lemma file_at_upd_vars [simp]: "file_at (upd_vars f w) p = file_at w p"
  by (simp add: file_at_def)

lemma read_frame:
  "os_files (snd (os_ReadFile p w)) = os_files w" "os.more (snd (os_ReadFile p w)) = os.more w"
  "os_files (snd (os_Stat p w)) = os_files w" "os.more (snd (os_Stat p w)) = os.more w"
  using calls_same_files(1,2) [OF surjective_pairing] calls_same_rest(1,2) [OF surjective_pairing, THEN calls_same_more]
  by blast+

lemma validatePublicKey_frame:
  "os_files (snd (validatePublicKey L p w)) = os_files w" "os.more (snd (validatePublicKey L p w)) = os.more w"
  using read_frame(1,2) [of p w]
  by (auto simp: validatePublicKey_def split: prod.splits sum.splits option.splits)

lemma reloadPublicKey_files: "os_files (snd (reloadPublicKey L path w)) = os_files w"
proof -
  obtain st w1 where 1: "os_Stat path w = (st, w1)" by (cases "os_Stat path w")
  obtain rd w2 where 2: "os_ReadFile path w1 = (rd, w2)" by (cases "os_ReadFile path w1")
  have "os_files w1 = os_files w" "os_files w2 = os_files w"
    using read_frame(1) [of path w1] read_frame(3) [of path w] 1 2 by simp_all
  then show ?thesis
    by (simp add: reloadPublicKey_def 1 2 split: sum.split option.split)
qed

definition key_on_disk :: "'k jwt_lib \<Rightarrow> string \<Rightarrow> 'k jwt_vars \<Rightarrow> (string \<Rightarrow> (string \<times> nat) option) \<Rightarrow> bool" where
  "key_on_disk L path v f = (case f path of None \<Rightarrow> False | Some (c, m) \<Rightarrow> jl_pem_Decode L c \<noteq> None \<and> jwt_loaded L v c)"

lemma validatePublicKey_accepts:
  fixes L :: "'k jwt_lib"
  assumes "accepts (Some (validatePublicKey L :: 'k jwt_world validator)) c"
  shows "jl_pem_Decode L c \<noteq> None"
proof -
  obtain p m w where v: "file_at w p = Some (c, m)" "fst (validatePublicKey L p w) = None"
    using assms by (auto simp: accepts_def)
  obtain d w1 where rd: "os_ReadFile p w = (Inr d, w1)"
    using v(2) by (cases "os_ReadFile p w"; cases "fst (os_ReadFile p w)") (auto simp: validatePublicKey_def)
  then have "d = c" using os_ReadFile_Inr [OF rd] v(1) by simp
  then show ?thesis using v(2) rd by (cases "jl_pem_Decode L c") (auto simp: validatePublicKey_def)
qed

lemma reloadPublicKey_effect:
  assumes "reloadPublicKey L path w = (r, w')"
  shows "r \<noteq> None \<Longrightarrow> os.more w' = os.more w"
    and "r = None \<Longrightarrow> (\<And>c m. file_at w path = Some (c, m) \<Longrightarrow> jl_pem_Decode L c \<noteq> None) \<Longrightarrow>
      key_on_disk L path (os.more w') (file_at w)"
    and "r = None \<Longrightarrow> jw_publicKey (os.more w') \<noteq> None"
proof -
  obtain st w1 where 1: "os_Stat path w = (st, w1)" by (cases "os_Stat path w")
  obtain rd w2 where 2: "os_ReadFile path w1 = (rd, w2)" by (cases "os_ReadFile path w1")
  have more: "os.more w1 = os.more w" "os.more w2 = os.more w"
    using read_frame(2) [of path w1] read_frame(4) [of path w] 1 2 by simp_all
  have at: "file_at w1 = file_at w"
    using read_frame(3) [of path w] 1 by (intro file_at_cong) simp
  show "os.more w' = os.more w" if "r \<noteq> None"
    using assms that more by (auto simp: reloadPublicKey_def 1 2 split: sum.splits option.splits if_splits)
  show "jw_publicKey (os.more w') \<noteq> None" if "r = None"
    using assms that more by (auto simp: reloadPublicKey_def 1 2 split: sum.splits option.splits if_splits)
  show "key_on_disk L path (os.more w') (file_at w)"
    if rn: "r = None" and good: "\<And>c m. file_at w path = Some (c, m) \<Longrightarrow> jl_pem_Decode L c \<noteq> None"
  proof -
    obtain d where d: "rd = Inr d"
      using assms rn by (cases st; cases rd) (auto simp: reloadPublicKey_def 1 2)
    obtain m where "file_at w path = Some (d, m)" using os_ReadFile_Inr 2 d at by metis
    then show ?thesis
      using assms rn more d good [of d m]
      by (auto simp: reloadPublicKey_def 1 2 key_on_disk_def jwt_loaded_def split: sum.splits option.splits if_splits)
  qed
qed

interpretation jwt_file: watched_file path "{path}" "validatePublicKey L" "reloadPublicKey L path"
    "\<lambda>c. jl_pem_Decode L c \<noteq> None" "key_on_disk L path"
  for L :: "'k jwt_lib" and path
proof unfold_locales
  show "key_on_disk L path (os.more w') (file_at w)"
    if "reloadPublicKey L path w = (None, w')" "\<And>c m. file_at w path = Some (c, m) \<Longrightarrow> jl_pem_Decode L c \<noteq> None" for w w'
    using reloadPublicKey_effect(2) that by blast
  show "os.more w' = os.more w" if "reloadPublicKey L path w = (Some e, w')" for w w' e
    using reloadPublicKey_effect(1) that by blast
  show "jl_pem_Decode L c \<noteq> None" if "accepts (Some (validatePublicKey L)) c" for c
    using that by (rule validatePublicKey_accepts)
qed (auto simp: validatePublicKey_frame reloadPublicKey_files key_on_disk_def split: option.splits)


definition demo_source :: "'k jwt_world source" where
  "demo_source = \<lparr>so_Name = ConfigSourceConfigCenter, so_MainKey = ''gateway/config.yaml'',
     so_Load = (\<lambda>k w. (Inr ''cert'', w)), so_Watch = (\<lambda>k f w. (None, w))\<rparr>"

definition demo_os :: "nat jwt_world" where
  "demo_os = os.extend
     \<lparr>os_files = [], os_dirs = [], os_env = [JwtPubkeyPath \<mapsto> ''k/p''], os_calls = 0,
      os_fault = (\<lambda>_. None), os_rand = (\<lambda>n. ''1'')\<rparr>
     \<lparr>jw_publicKey = None, jw_publicKeyPath = [], jw_initialized = False, jw_registered = False, jw_watching = None\<rparr>"

lemma demo_path: "getPublicKeyPath demo_os = ''k/p''" "path_Dir ''k/p'' = ''k''"
  by (simp_all add: getPublicKeyPath_def os_Getenv_def demo_os_def os.defs path_Clean_def path_comps_def
      clean_comps_cases path_Dir_def path_dirpart_def)

text \<open>The key is deleted at its source, which changes nothing, and replaced.\<close>

definition demo_events :: "loader_event list" where
  "demo_events = [\<lparr>le_value = [], le_deleted = True, le_err = None\<rparr>, \<lparr>le_value = ''rotated'', le_deleted = False, le_err = None\<rparr>]"

lemma demo_init:
  "\<exists>w0 r w1. jwt_Init demo_lib demo_source demo_os = (None, w0)
    \<and> update_events ''k/p'' (Some (validatePublicKey demo_lib)) (Some (reloadPublicKey demo_lib ''k/p'')) demo_events w0 = ([Some (PlainErr r), None], w1)"
proof -
  note sys_defs = sys_def os_Stat_def os_ReadFile_def os_MkdirAll_def os_CreateTemp_def os_Chmod_def os_Write_def
    os_Sync_def os_Close_def os_Rename_def os_Remove_def
  show ?thesis
    unfolding jwt_Init_def demo_path Let_def
    by (simp add: demo_path demo_os_def os.defs upd_vars_def demo_source_def SyncFile_def ReplaceFile_def replaceFile_def
        fill_and_rename_def try_call_def sys_defs Let_def ancestors_def file_at_def set_file_def del_file_def
        is_not_exist_def temp_name.simps dir_base_def suffix_def validatePublicKey_def reloadPublicKey_def demo_lib_def
        demo_events_def update_event_def snapshotFile_def apply_update_def)
qed


end
