(* ===== verification/Go_Url.thy ===== *)
theory Go_Url
  imports Go_Http
begin

text \<open>
  The part of Go's net/url the gateway uses: Parse, with its checks of the
  scheme, the authority and the escapes, and the first value of a query key.
  \<open>None\<close> is an error.  The checks of the authority are those of
  Go 1.26 (one colon outside brackets, a valid IPv6 address inside them).
\<close>

record url =
  ul_scheme :: string
  ul_opaque :: string
  ul_host :: string
  ul_path :: string
  ul_raw_query :: string

section \<open>Escapes\<close>

definition hex_value :: "char \<Rightarrow> nat option" where
  "hex_value c =
    (let b = byte c
     in if 48 \<le> b \<and> b \<le> 57 then Some (b - 48)
        else if 97 \<le> b \<and> b \<le> 102 then Some (b - 87)
        else if 65 \<le> b \<and> b \<le> 70 then Some (b - 55)
        else None)"

datatype url_mode = EncodePath | EncodeHost | EncodeQuery

definition is_alnum :: "char \<Rightarrow> bool" where
  "is_alnum c \<longleftrightarrow> is_digit c \<or> (65 \<le> byte c \<and> byte c \<le> 90) \<or> (97 \<le> byte c \<and> byte c \<le> 122)"

text \<open>The bytes below 128 a host may contain unescaped.\<close>

definition host_char :: "char \<Rightarrow> bool" where
  "host_char c \<longleftrightarrow> is_alnum c \<or> c \<in> set ''!$&()*+,;=:[]<>\"-_.~'' \<or> byte c = 39"

text \<open>unescape: in a host only an escaped byte from 128 on or an escaped
  percent sign is allowed, and a byte below 128 must be a host character.\<close>

fun url_unescape :: "url_mode \<Rightarrow> string \<Rightarrow> string option" where
  "url_unescape m [] = Some []"
| "url_unescape m (c # cs) =
     (if c = CHR ''%'' then
        (case cs of
           a # b # rest \<Rightarrow>
             (case (hex_value a, hex_value b) of
                (Some x, Some y) \<Rightarrow>
                  (if m = EncodeHost \<and> 16 * x + y < 128 \<and> \<not> (a = CHR ''2'' \<and> b = CHR ''5'') then None
                   else map_option (Cons (char_of (16 * x + y))) (url_unescape m rest))
              | _ \<Rightarrow> None)
         | _ \<Rightarrow> None)
      else if c = CHR ''+'' \<and> m = EncodeQuery then map_option (Cons (CHR '' '')) (url_unescape m cs)
      else if m = EncodeHost \<and> byte c < 128 \<and> \<not> host_char c then None
      else map_option (Cons c) (url_unescape m cs))"

section \<open>IPv6 addresses\<close>

definition is_hex :: "char \<Rightarrow> bool" where
  "is_hex c \<longleftrightarrow> hex_value c \<noteq> None"

definition ipv6_group :: "string \<Rightarrow> bool" where
  "ipv6_group g \<longleftrightarrow> g \<noteq> [] \<and> length g \<le> 4 \<and> list_all is_hex g"

definition ipv4_octet :: "string \<Rightarrow> bool" where
  "ipv4_octet o' \<longleftrightarrow> o' \<noteq> [] \<and> length o' \<le> 3 \<and> list_all is_digit o' \<and> dec_value o' \<le> 255
     \<and> (length o' = 1 \<or> hd o' \<noteq> CHR ''0'')"

definition valid_ipv4 :: "string \<Rightarrow> bool" where
  "valid_ipv4 s \<longleftrightarrow> (let os = split_char (CHR ''.'') s in length os = 4 \<and> list_all ipv4_octet os)"

text \<open>The number of 16-bit fields a colon-separated list of groups gives, the
  last of which may be an IPv4 address when \<open>v4\<close> is set.\<close>

fun ipv6_fields :: "bool \<Rightarrow> string list \<Rightarrow> nat option" where
  "ipv6_fields v4 [] = Some 0"
| "ipv6_fields v4 [g] =
     (if ipv6_group g then Some 1 else if v4 \<and> valid_ipv4 g then Some 2 else None)"
| "ipv6_fields v4 (g # gs) =
     (if ipv6_group g then map_option Suc (ipv6_fields v4 gs) else None)"

text \<open>The parts around the first \<open>::\<close>.\<close>

fun cut_double_colon :: "string \<Rightarrow> (string \<times> string) option" where
  "cut_double_colon (a # b # cs) =
     (if a = CHR '':'' \<and> b = CHR '':'' then Some ([], cs)
      else map_option (\<lambda>(x, y). (a # x, y)) (cut_double_colon (b # cs)))"
| "cut_double_colon _ = None"

definition ipv6_groups :: "string \<Rightarrow> string list" where
  "ipv6_groups s = (if s = [] then [] else split_char (CHR '':'') s)"

definition valid_ipv6 :: "string \<Rightarrow> bool" where
  "valid_ipv6 s \<longleftrightarrow>
    (case cut_double_colon s of
       None \<Rightarrow> ipv6_fields True (split_char (CHR '':'') s) = Some 8
     | Some (l, r) \<Rightarrow>
         (case (ipv6_fields False (ipv6_groups l), ipv6_fields True (ipv6_groups r)) of
            (Some a, Some b) \<Rightarrow> a + b \<le> 7
          | _ \<Rightarrow> False))"

section \<open>Parse\<close>

definition scheme_start :: "char \<Rightarrow> bool" where
  "scheme_start c \<longleftrightarrow> (65 \<le> byte c \<and> byte c \<le> 90) \<or> (97 \<le> byte c \<and> byte c \<le> 122)"

definition scheme_more :: "char \<Rightarrow> bool" where
  "scheme_more c \<longleftrightarrow> is_digit c \<or> c = CHR ''+'' \<or> c = CHR ''-'' \<or> c = CHR ''.''"

text \<open>getScheme: \<open>None\<close> is the error "missing protocol scheme".\<close>

fun scheme_scan :: "string \<Rightarrow> string \<Rightarrow> (string \<times> string) option option" where
  "scheme_scan acc [] = Some None"
| "scheme_scan acc (c # cs) =
     (if scheme_start c then scheme_scan (c # acc) cs
      else if scheme_more c then (if acc = [] then Some None else scheme_scan (c # acc) cs)
      else if c = CHR '':'' then (if acc = [] then None else Some (Some (rev acc, cs)))
      else Some None)"

definition getScheme :: "string \<Rightarrow> (string \<times> string) option" where
  "getScheme raw =
    (case scheme_scan [] raw of
       None \<Rightarrow> None
     | Some None \<Rightarrow> Some ([], raw)
     | Some (Some (s, rest)) \<Rightarrow> Some (s, rest))"

definition validOptionalPort :: "string \<Rightarrow> bool" where
  "validOptionalPort p \<longleftrightarrow>
    (case p of [] \<Rightarrow> True | c # cs \<Rightarrow> c = CHR '':'' \<and> list_all is_digit cs)"

definition last_index :: "char \<Rightarrow> string \<Rightarrow> nat option" where
  "last_index c s = last_index_of (\<lambda>d. d = c) s"

text \<open>A zone in brackets (after \<open>%25\<close>) is not modelled: such a host
  is an error.\<close>

definition parseHost :: "string \<Rightarrow> string option" where
  "parseHost host =
    (case last_index (CHR ''['') host of
       Some i \<Rightarrow>
         if i \<noteq> 0 then None
         else (case last_index (CHR '']'') host of
                 None \<Rightarrow> None
               | Some j \<Rightarrow>
                   (let colonPort = drop (Suc j) host; name = take (j - 1) (drop 1 host)
                    in if \<not> validOptionalPort colonPort then None
                       else if \<not> valid_ipv6 name then None
                       else Some (''['' @ name @ '']'' @ colonPort)))
     | None \<Rightarrow>
         (case index_of (CHR '':'') host of
            None \<Rightarrow> url_unescape EncodeHost host
          | Some i \<Rightarrow>
              if validOptionalPort (drop i host) then url_unescape EncodeHost host else None))"

definition userinfo_char :: "char \<Rightarrow> bool" where
  "userinfo_char c \<longleftrightarrow> is_alnum c \<or> c \<in> set ''-._:~!$&()*+,;=%@'' \<or> byte c = 39"

definition parseAuthority :: "string \<Rightarrow> string option" where
  "parseAuthority a =
    (case last_index (CHR ''@'') a of
       None \<Rightarrow> parseHost a
     | Some i \<Rightarrow>
         (case parseHost (drop (Suc i) a) of
            None \<Rightarrow> None
          | Some h \<Rightarrow>
              if list_all userinfo_char (take i a) \<and> url_unescape EncodePath (take i a) \<noteq> None
              then Some h else None))"

definition ctl_byte :: "char \<Rightarrow> bool" where
  "ctl_byte c \<longleftrightarrow> byte c < 0x20 \<or> byte c = 0x7F"

definition count_char :: "char \<Rightarrow> string \<Rightarrow> nat" where
  "count_char c s = length (filter (\<lambda>d. d = c) s)"

definition url_parse_main :: "string \<Rightarrow> url option" where
  "url_parse_main raw =
    (if list_ex ctl_byte raw then None
     else if raw = ''*'' then Some \<lparr>ul_scheme = [], ul_opaque = [], ul_host = [], ul_path = ''*'', ul_raw_query = []\<rparr>
     else case getScheme raw of
       None \<Rightarrow> None
     | Some (sch, rest0) \<Rightarrow>
         (let scheme = toLower sch;
              (rest, query) = (if hasSuffix rest0 ''?'' \<and> count_char (CHR ''?'') rest0 = 1
                               then (take (length rest0 - 1) rest0, [])
                               else (case cut_char (CHR ''?'') rest0 of (a, b, _) \<Rightarrow> (a, b)))
          in if \<not> hasPrefix rest ''/'' \<and> scheme \<noteq> [] then
               Some \<lparr>ul_scheme = scheme, ul_opaque = rest, ul_host = [], ul_path = [], ul_raw_query = query\<rparr>
             else if \<not> hasPrefix rest ''/'' \<and> CHR '':'' \<in> set (fst (cut_char (CHR ''/'') rest)) then None
             else if (scheme \<noteq> [] \<or> \<not> hasPrefix rest ''///'') \<and> hasPrefix rest ''//'' then
               (let auth = takeWhile (\<lambda>c. c \<noteq> CHR ''/'') (drop 2 rest);
                    p = dropWhile (\<lambda>c. c \<noteq> CHR ''/'') (drop 2 rest)
                in case (parseAuthority auth, url_unescape EncodePath p) of
                     (Some h, Some path) \<Rightarrow>
                       Some \<lparr>ul_scheme = scheme, ul_opaque = [], ul_host = h, ul_path = path, ul_raw_query = query\<rparr>
                   | _ \<Rightarrow> None)
             else (case url_unescape EncodePath rest of
                     Some path \<Rightarrow>
                       Some \<lparr>ul_scheme = scheme, ul_opaque = [], ul_host = [], ul_path = path, ul_raw_query = query\<rparr>
                   | None \<Rightarrow> None)))"

definition url_Parse :: "string \<Rightarrow> url option" where
  "url_Parse raw =
    (case cut_char (CHR ''#'') raw of
       (u, frag, found) \<Rightarrow>
         (case url_parse_main u of
            None \<Rightarrow> None
          | Some r \<Rightarrow> if found \<and> url_unescape EncodePath frag = None then None else Some r))"

section \<open>Query values\<close>

text \<open>Query().Get: pairs with a semicolon or a bad escape are dropped.\<close>

fun query_get :: "string list \<Rightarrow> string \<Rightarrow> string" where
  "query_get [] k = []"
| "query_get (p # ps) k =
     (if p = [] \<or> CHR '';'' \<in> set p then query_get ps k
      else case cut_char (CHR ''='') p of
        (a, b, _) \<Rightarrow>
          (case (url_unescape EncodeQuery a, url_unescape EncodeQuery b) of
             (Some k', Some v) \<Rightarrow> if k' = k then v else query_get ps k
           | _ \<Rightarrow> query_get ps k))"

definition url_query_get :: "url \<Rightarrow> string \<Rightarrow> string" where
  "url_query_get u k = query_get (split_char (CHR ''&'') (ul_raw_query u)) k"

text \<open>Hostname: the host without port and brackets.\<close>

definition url_Hostname :: "url \<Rightarrow> string" where
  "url_Hostname u =
    (let hp = ul_host u;
         h = (case last_index (CHR '':'') hp of
                Some i \<Rightarrow> if validOptionalPort (drop i hp) then take i hp else hp
              | None \<Rightarrow> hp)
     in if hasPrefix h ''['' \<and> hasSuffix h '']'' then take (length h - 2) (drop 1 h) else h)"

end
