(* ===== verification/Go_Values.thy ===== *)
theory Go_Values
  imports Go_Url Go_Os
begin

text \<open>
  Query parameters of package net/url: parsing a raw query, setting and
  encoding values, and printing a URL.  Values are an association list from a
  key to its values.
\<close>

type_synonym url_values = "(string \<times> string list) list"

definition hex_upper :: "nat \<Rightarrow> char" where
  "hex_upper n = (if n < 10 then char_of (48 + n) else char_of (55 + n))"

definition unreserved :: "char \<Rightarrow> bool" where
  "unreserved c \<longleftrightarrow> is_alnum c \<or> c \<in> set ''-_.~''"

definition queryEscape_char :: "char \<Rightarrow> string" where
  "queryEscape_char c =
    (if unreserved c then [c]
     else if c = CHR '' '' then ''+''
     else [CHR ''%'', hex_upper (byte c div 16), hex_upper (byte c mod 16)])"

definition queryEscape :: "string \<Rightarrow> string" where
  "queryEscape s = concat (map queryEscape_char s)"

definition values_Set :: "string \<Rightarrow> string \<Rightarrow> url_values \<Rightarrow> url_values" where
  "values_Set k v vs = AList.update k [v] vs"

definition values_Add :: "string \<Rightarrow> string \<Rightarrow> url_values \<Rightarrow> url_values" where
  "values_Add k v vs = AList.update k ((case map_of vs k of None \<Rightarrow> [] | Some l \<Rightarrow> l) @ [v]) vs"

definition values_get :: "url_values \<Rightarrow> string \<Rightarrow> string list" where
  "values_get vs k = (case map_of vs k of None \<Rightarrow> [] | Some l \<Rightarrow> l)"

definition values_Encode :: "url_values \<Rightarrow> string" where
  "values_Encode vs =
    join_str ''&'' (concat (map (\<lambda>(k, l). map (\<lambda>v. queryEscape k @ CHR ''='' # queryEscape v) l) (sort_key fst vs)))"

text \<open>Query(): pairs with a semicolon or a bad escape are dropped.\<close>

fun parse_pairs :: "string list \<Rightarrow> url_values \<Rightarrow> url_values" where
  "parse_pairs [] vs = vs"
| "parse_pairs (p # ps) vs =
     (if p = [] \<or> CHR '';'' \<in> set p then parse_pairs ps vs
      else case cut_char (CHR ''='') p of
        (a, b, _) \<Rightarrow>
          (case (url_unescape EncodeQuery a, url_unescape EncodeQuery b) of
             (Some k, Some v) \<Rightarrow> parse_pairs ps (values_Add k v vs)
           | _ \<Rightarrow> parse_pairs ps vs))"

definition parse_query :: "string \<Rightarrow> url_values" where
  "parse_query q = parse_pairs (split_char (CHR ''&'') q) []"

section \<open>Round trip of one escaped value\<close>

lemma is_alnum_not_pct: "unreserved c \<Longrightarrow> c \<noteq> CHR ''%'' \<and> c \<noteq> CHR ''+'' \<and> c \<noteq> CHR ''&'' \<and> c \<noteq> CHR ''='' \<and> c \<noteq> CHR '';''"
  by (auto simp: unreserved_def is_alnum_def is_digit_def byte_def)

lemma hex_value_upper: "n < 16 \<Longrightarrow> hex_value (hex_upper n) = Some n"
  by (auto simp: hex_value_def hex_upper_def byte_char_of Let_def)

lemma unescape_escape_char:
  "url_unescape EncodeQuery (queryEscape_char c @ s) = map_option (Cons c) (url_unescape EncodeQuery s)"
proof -
  consider (plain) "unreserved c" | (space) "\<not> unreserved c" "c = CHR '' ''" | (hex) "\<not> unreserved c" "c \<noteq> CHR '' ''" by blast
  then show ?thesis
  proof cases
    case plain
    then show ?thesis using is_alnum_not_pct [OF plain] by (simp add: queryEscape_char_def)
  next
    case space
    then show ?thesis by (simp add: queryEscape_char_def)
  next
    case hex
    have b: "byte c div 16 < 16" "16 * (byte c div 16) + byte c mod 16 = byte c"
      using byte_lt [of c] by (simp_all add: less_mult_imp_div_less)
    show ?thesis
      unfolding queryEscape_char_def if_not_P [OF hex(1)] if_not_P [OF hex(2)]
      by (simp add: hex_value_upper b)
  qed
qed

lemma unescape_queryEscape: "url_unescape EncodeQuery (queryEscape s) = Some s"
  by (induction s) (simp_all add: queryEscape_def unescape_escape_char)

lemma hex_upper_clean: "n < 16 \<Longrightarrow> hex_upper n \<notin> {CHR ''&'', CHR ''='', CHR '';''}"
  using hex_value_upper [of n] by (auto simp: hex_value_def byte_def)

lemma queryEscape_clean: "set (queryEscape s) \<inter> {CHR ''&'', CHR ''='', CHR '';''} = {}"
proof (induction s)
  case (Cons c s)
  have "byte c div 16 < 16" "byte c mod 16 < 16" using byte_lt [of c] by (simp_all add: less_mult_imp_div_less)
  then have "set (queryEscape_char c) \<inter> {CHR ''&'', CHR ''='', CHR '';''} = {}"
    using hex_upper_clean [of "byte c div 16"] hex_upper_clean [of "byte c mod 16"] is_alnum_not_pct [of c]
    by (auto simp: queryEscape_char_def)
  then show ?case using Cons by (auto simp: queryEscape_def)
qed (simp add: queryEscape_def)

section \<open>Round trip of a set of values\<close>

lemma cut_char_append: "d \<notin> set a \<Longrightarrow> cut_char d (a @ d # b) = (a, b, True)"
  by (induction a) auto

lemma parse_pair_escaped:
  "parse_pairs ((queryEscape k @ CHR ''='' # queryEscape v) # ps) vs = parse_pairs ps (values_Add k v vs)"
proof -
  have "CHR ''='' \<notin> set (queryEscape k)" using queryEscape_clean [of k] by blast
  then have cut: "cut_char (CHR ''='') (queryEscape k @ CHR ''='' # queryEscape v) = (queryEscape k, queryEscape v, True)"
    using cut_char_append by simp
  have "CHR '';'' \<notin> set (queryEscape k @ CHR ''='' # queryEscape v)"
    using queryEscape_clean [of k] queryEscape_clean [of v] by auto
  then show ?thesis unfolding parse_pairs.simps cut
    by (simp add: unescape_queryEscape)
qed

lemma parse_values_of_key:
  "parse_pairs (map (\<lambda>v. queryEscape k @ CHR ''='' # queryEscape v) l @ ps) vs
    = parse_pairs ps (foldl (\<lambda>vs v. values_Add k v vs) vs l)"
  by (induction l arbitrary: vs) (simp_all add: parse_pair_escaped del: parse_pairs.simps(2))

lemma foldl_Add_fresh:
  "map_of vs k = Some l0 \<Longrightarrow> map_of (foldl (\<lambda>vs v. values_Add k v vs) vs l) k = Some (l0 @ l)"
  "k' \<noteq> k \<Longrightarrow> map_of (foldl (\<lambda>vs v. values_Add k v vs) vs l) k' = map_of vs k'"
  by (induction l arbitrary: vs l0) (simp_all add: values_Add_def update_conv)

lemma foldl_Add:
  "values_get (foldl (\<lambda>vs v. values_Add k v vs) vs l) k' = values_get vs k' @ (if k' = k then l else [])"
  by (induction l arbitrary: vs) (auto simp: values_Add_def values_get_def update_conv split: option.splits)

lemma parse_encoded:
  "values_get (parse_pairs (concat (map (\<lambda>(k, l). map (\<lambda>v. queryEscape k @ CHR ''='' # queryEscape v) l) kvs)) vs) k
    = values_get vs k @ concat (map snd (filter (\<lambda>(k', l). k' = k) kvs))"
proof (induction kvs arbitrary: vs)
  case (Cons kv kvs)
  obtain k' l where kv: "kv = (k', l)" by (cases kv)
  show ?case by (simp add: kv parse_values_of_key Cons foldl_Add del: parse_pairs.simps(2))
qed simp

lemma filter_key_distinct:
  "distinct (map fst kvs) \<Longrightarrow> concat (map snd (filter (\<lambda>(k', l). k' = k) kvs)) = values_get kvs k"
proof (induction kvs)
  case (Cons kv kvs)
  obtain k' l where kv: "kv = (k', l)" by (cases kv)
  have "k \<notin> fst ` set kvs \<Longrightarrow> filter (\<lambda>(k', l). k' = k) kvs = []"
    by (force simp: filter_empty_conv)
  then show ?case using Cons kv by (auto simp: values_get_def)
qed (simp add: values_get_def)

lemma values_get_sort: "distinct (map fst vs) \<Longrightarrow> values_get (sort_key fst vs) k = values_get vs k"
proof -
  assume d: "distinct (map fst vs)"
  have "distinct (map fst (sort_key fst vs))" using d by (simp add: distinct_map)
  then have "map_of (sort_key fst vs) = map_of vs" using map_of_inject_set [OF _ d] by simp
  then show ?thesis by (simp only: values_get_def)
qed

lemma join_split_query: "xs \<noteq> [] \<Longrightarrow> list_all (\<lambda>x. CHR ''&'' \<notin> set x) xs \<Longrightarrow> split_char (CHR ''&'') (join_str ''&'' xs) = xs"
  by (rule split_join) (simp_all add: list_all_iff)

text \<open>What the gateway encodes as a query, a server that parses it by the same
  rules reads back: every key has its values, in order, whatever bytes the
  keys and values contain.\<close>

lemma query_roundtrip:
  assumes "distinct (map fst vs)"
  shows "values_get (parse_query (values_Encode vs)) k = values_get vs k"
proof -
  let ?kvs = "sort_key fst vs"
  let ?ps = "concat (map (\<lambda>(k, l). map (\<lambda>v. queryEscape k @ CHR ''='' # queryEscape v) l) ?kvs)"
  have clean: "list_all (\<lambda>x. CHR ''&'' \<notin> set x) ?ps"
  proof -
    have "CHR ''&'' \<notin> set (queryEscape k @ CHR ''='' # queryEscape v)" for k v
      using queryEscape_clean [of k] queryEscape_clean [of v] by auto
    then show ?thesis by (auto simp: list_all_iff simp del: set_append)
  qed
  have "parse_query (values_Encode vs) = parse_pairs ?ps []"
  proof (cases "?ps = []")
    case True
    then show ?thesis unfolding parse_query_def values_Encode_def True by simp
  next
    case False
    show ?thesis unfolding parse_query_def values_Encode_def join_split_query [OF False clean] ..
  qed
  then show ?thesis
    using parse_encoded [of ?kvs "[]" k] filter_key_distinct [of ?kvs k] values_get_sort [OF assms, of k] assms
    by (simp add: values_get_def [of "[]"] distinct_map)
qed

lemma query_roundtrip_example:
  "values_get (parse_query (values_Encode [(''gateway'', [''a b&c'']), (''ip_addr'', [''::1''])])) ''gateway'' = [''a b&c'']"
  using query_roundtrip [of "[(''gateway'', [''a b&c'']), (''ip_addr'', [''::1''])]" "''gateway''"]
  by (simp add: values_get_def)

end
