(* ===== verification/Rbac.thy ===== *)
theory Rbac
  imports Gate Router_Filter Loader_Source Go_Values Retry
begin

text \<open>
  Package middleware/rbac.  The casbin library, the casdoor service and the
  decoding of its answer are parameters; the policy files, the enforcer, the
  role cache and the package variables are state.
\<close>

section \<open>Parameters and state\<close>

text \<open>A casbin model made from a text, an enforcer made from a model and the
  contents of the policy file, the policy loaded into an enforcer from such
  contents, and a decision.  The file adapter hands an error of reading the
  file on.\<close>

record ('m, 'e) casbin =
  cb_NewModelFromString :: "string \<Rightarrow> err + 'm"
  cb_NewEnforcer :: "'m \<Rightarrow> string \<Rightarrow> err + 'e"
  cb_LoadPolicy :: "'e \<Rightarrow> string \<Rightarrow> err + 'e"
  cb_Enforce :: "'e \<Rightarrow> string \<Rightarrow> string \<Rightarrow> string \<Rightarrow> err + bool"

record 'e rbac_vars =
  rb_enforcer :: "'e option"
  rb_casdoorUrl :: string
  rb_userOwner :: string
  rb_initialized :: bool
  rb_localPolicyFile :: string
  rb_localModelFile :: string
  rb_registered :: bool
  rb_watching :: "(string \<times> string) list"

type_synonym 'e rbac_world = "'e rbac_vars os_scheme"

definition upd_rbac :: "('v \<Rightarrow> 'v) \<Rightarrow> 'v os_scheme \<Rightarrow> 'v os_scheme" where
  "upd_rbac f w = w\<lparr>os.more := f (os.more w)\<rparr>"

lemma upd_rbac_sel [simp]:
  "os.more (upd_rbac f w) = f (os.more w)" "os_files (upd_rbac f w) = os_files w"
  "file_at (upd_rbac f w) p = file_at w p"
  by (simp_all add: upd_rbac_def file_at_def)

section \<open>Policy files\<close>

abbreviation policies_rel :: string where
  "policies_rel \<equiv> ''policies/policies.csv''"

abbreviation model_rel :: string where
  "model_rel \<equiv> ''policies/model.conf''"

definition initPaths :: "'e rbac_world \<Rightarrow> err option \<times> 'e rbac_world" where
  "initPaths w =
    (let w1 = (if rb_localModelFile (os.more w) = []
               then upd_rbac (\<lambda>v. v\<lparr>rb_localModelFile := path_Join [ConfigDir, PoliciesDirName, ModelFileFileName]\<rparr>) w else w);
         w2 = (if rb_localPolicyFile (os.more w1) = []
               then upd_rbac (\<lambda>v. v\<lparr>rb_localPolicyFile := path_Join [ConfigDir, PoliciesDirName, PoliciesfileName]\<rparr>) w1 else w1)
     in case os_MkdirAll (path_Dir (rb_localPolicyFile (os.more w2))) w2 of
          (Inl e, w3) \<Rightarrow> (Some e, w3)
        | (Inr u, w3) \<Rightarrow> (None, w3))"

definition validateFileContent :: "'e rbac_world validator" where
  "validateFileContent p w =
    (case os_ReadFile p w of
       (Inl e, w1) \<Rightarrow> (Some (KratosErr ErrFileContentEmpty), w1)
     | (Inr content, w1) \<Rightarrow>
         if content = [] then (Some (KratosErr ErrEmptyFile), w1) else (None, w1))"

definition syncEssentialFiles :: "'e rbac_world source \<Rightarrow> 'e rbac_world \<Rightarrow> err option \<times> 'e rbac_world" where
  "syncEssentialFiles source w =
    (case SyncFile source (RelatedKey (so_MainKey source) policies_rel) (rb_localPolicyFile (os.more w))
            (Some validateFileContent) w of
       (Some e, w1) \<Rightarrow> (Some e, w1)
     | (None, w1) \<Rightarrow>
         SyncFile source (RelatedKey (so_MainKey source) model_rel) (rb_localModelFile (os.more w1))
            (Some validateFileContent) w1)"

definition adapter_read :: "err + string \<Rightarrow> (string \<Rightarrow> err + 'e) \<Rightarrow> err + 'e" where
  "adapter_read r f = (case r of Inl e \<Rightarrow> Inl e | Inr s \<Rightarrow> f s)"

text \<open>The first read is the one of the hash in the log line.  The two paths are
  set once by InitEnforcer and are arguments here.\<close>

definition initializeEnforcer :: "('m, 'e) casbin \<Rightarrow> string \<Rightarrow> string \<Rightarrow> 'e rbac_world \<Rightarrow> err option \<times> 'e rbac_world" where
  "initializeEnforcer B modelFile policyFile w =
    (let w1 = snd (os_ReadFile modelFile w) in
     case os_ReadFile modelFile w1 of
       (Inl e, w2) \<Rightarrow> (Some (KratosErr ErrFileContentEmpty), w2)
     | (Inr modelContent, w2) \<Rightarrow>
         (case cb_NewModelFromString B modelContent of
            Inl e \<Rightarrow> (Some (KratosErr ErrFileContentEmpty), w2)
          | Inr m \<Rightarrow>
              (case os_ReadFile policyFile w2 of (policy, w3) \<Rightarrow>
               case adapter_read policy (cb_NewEnforcer B m) of
                 Inl e \<Rightarrow> (Some (KratosErr ErrAuthCheckFailed), w3)
               | Inr enf0 \<Rightarrow>
                   (case os_ReadFile policyFile w3 of (policy2, w4) \<Rightarrow>
                    case adapter_read policy2 (cb_LoadPolicy B enf0) of
                      Inl e \<Rightarrow> (Some (WrapErr ''load RBAC policy'' e), w4)
                    | Inr enf \<Rightarrow> (None, upd_rbac (\<lambda>v. v\<lparr>rb_enforcer := Some enf\<rparr>) w4)))))"

definition reloadPolicy :: "('m, 'e) casbin \<Rightarrow> string \<Rightarrow> string \<Rightarrow> 'e rbac_world \<Rightarrow> err option \<times> 'e rbac_world" where
  "reloadPolicy B modelFile policyFile = initializeEnforcer B modelFile policyFile"

text \<open>setupWatchers: the keys and targets whose watches are started.\<close>

definition setupWatchers :: "'e rbac_world source \<Rightarrow> 'e rbac_world \<Rightarrow> 'e rbac_world" where
  "setupWatchers source w =
    (if so_Name source = ConfigSourceFile then w
     else upd_rbac (\<lambda>v. v\<lparr>rb_watching :=
       [(RelatedKey (so_MainKey source) policies_rel, rb_localPolicyFile v),
        (RelatedKey (so_MainKey source) model_rel, rb_localModelFile v)]\<rparr>) w)"

definition InitEnforcer :: "('m, 'e) casbin \<Rightarrow> 'e rbac_world source \<Rightarrow> 'e rbac_world \<Rightarrow> err option \<times> 'e rbac_world" where
  "InitEnforcer B source w =
    (if rb_initialized (os.more w) then (None, w)
     else
       (let w0 = upd_rbac (\<lambda>v. v\<lparr>rb_casdoorUrl := os_Getenv CasdoorUrl w, rb_userOwner := os_Getenv UserOwner w,
                   rb_localPolicyFile := os_Getenv PoliciesfilePath w,
                   rb_localModelFile := os_Getenv ModelFilePath w\<rparr>) w
        in case initPaths w0 of
             (Some e, w1) \<Rightarrow> (Some e, w1)
           | (None, w1) \<Rightarrow>
               (case syncEssentialFiles source w1 of
                  (Some e, w2) \<Rightarrow> (Some e, w2)
                | (None, w2) \<Rightarrow>
                    (case initializeEnforcer B (rb_localModelFile (os.more w2)) (rb_localPolicyFile (os.more w2)) w2 of
                       (Some e, w3) \<Rightarrow> (Some e, w3)
                     | (None, w3) \<Rightarrow>
                         (None, upd_rbac (\<lambda>v. v\<lparr>rb_registered := True, rb_initialized := True\<rparr>)
                                  (setupWatchers source w3))))))"

section \<open>The role cache\<close>

text \<open>Times are nanoseconds.\<close>

record 'v cache_item =
  ci_value :: 'v
  ci_expiration :: int

record 'v cache =
  ca_items :: "string \<rightharpoonup> 'v cache_item"
  ca_interval :: int

definition NewCache :: "int \<Rightarrow> int \<Rightarrow> 'v cache" where
  "NewCache expiration cleanupInterval = \<lparr>ca_items = Map.empty, ca_interval = cleanupInterval\<rparr>"

definition cache_Get :: "'v cache \<Rightarrow> int \<Rightarrow> string \<Rightarrow> 'v option" where
  "cache_Get c now key =
    (case ca_items c key of
       None \<Rightarrow> None
     | Some item \<Rightarrow> if now > ci_expiration item then None else Some (ci_value item))"

definition cache_Set :: "string \<Rightarrow> 'v \<Rightarrow> int \<Rightarrow> 'v cache \<Rightarrow> 'v cache" where
  "cache_Set key value now c =
    c\<lparr>ca_items := (ca_items c)(key \<mapsto> \<lparr>ci_value = value, ci_expiration = now + 300000000000\<rparr>)\<rparr>"

definition cache_cleanup :: "int \<Rightarrow> 'v cache \<Rightarrow> 'v cache" where
  "cache_cleanup now c =
    c\<lparr>ca_items := (\<lambda>k. case ca_items c k of
        None \<Rightarrow> None | Some v \<Rightarrow> if now > ci_expiration v then None else Some v)\<rparr>"

section \<open>Roles\<close>

text \<open>The casdoor service answers a URL with the body of its response; the
  decoder of encoding/json gives the user's id and the names of its roles.\<close>

record 'x casdoor =
  cd_get :: "string \<Rightarrow> string \<Rightarrow> string \<Rightarrow> 'x \<Rightarrow> (err + string) \<times> 'x"
  cd_decode :: "string \<Rightarrow> (string \<times> string list) option"

text \<open>The request: scheme and host, path, and the query that parsing and
  encoding the given one yields.  A URL that does not parse gives no request,
  and reading its URL panics (the outer \<open>None\<close>).\<close>

definition casdoor_query :: "string \<Rightarrow> string" where
  "casdoor_query raw = values_Encode (parse_query raw)"

definition fetchRolesFromCasdoor :: "'x casdoor \<Rightarrow> string \<Rightarrow> string \<Rightarrow> 'x \<Rightarrow> (kratos_error + string) option \<times> 'x" where
  "fetchRolesFromCasdoor D casdoorUrl userID x =
    (case url_Parse (casdoorUrl @ ''/api/get-user?userId='' @ userID) of
       None \<Rightarrow> (None, x)
     | Some u \<Rightarrow>
         (case cd_get D (ul_scheme u @ ''://'' @ ul_host u) (ul_path u) (casdoor_query (ul_raw_query u)) x of
            (Inl e, x1) \<Rightarrow> (Some (Inl ErrServiceUnavailable), x1)
          | (Inr body, x1) \<Rightarrow>
              (case cd_decode D body of
                 None \<Rightarrow> (Some (Inl ErrInvalidRequest), x1)
               | Some (uid, roles) \<Rightarrow>
                   (let role = (if uid \<noteq> [] \<and> roles \<noteq> [] then hd roles else [])
                    in (Some (Inr (if role = [] then ''user'' else role)), x1)))))"

text \<open>The part of the process state the handler uses.\<close>

record ('e, 'x) rbac_state =
  rs_enforcer :: "'e option"
  rs_casdoorUrl :: string
  rs_userOwner :: string
  rs_cache :: "string cache"
  rs_now :: int
  rs_service :: 'x

definition getUserRoles :: "'x casdoor \<Rightarrow> string \<Rightarrow> ('e, 'x) rbac_state \<Rightarrow> (kratos_error + string) option \<times> ('e, 'x) rbac_state" where
  "getUserRoles D userID s =
    (case fetchRolesFromCasdoor D (rs_casdoorUrl s) userID (rs_service s) of
       (Some (Inr role), x1) \<Rightarrow>
         (Some (Inr role), s\<lparr>rs_service := x1, rs_cache := cache_Set userID role (rs_now s) (rs_cache s)\<rparr>)
     | (r, x1) \<Rightarrow> (r, s\<lparr>rs_service := x1\<rparr>))"

section \<open>The middleware\<close>

definition rbac_set_headers :: "string \<Rightarrow> string \<Rightarrow> string \<Rightarrow> request \<Rightarrow> request" where
  "rbac_set_headers role owner userID req =
    req\<lparr>rq_header := hset (hset (hset (rq_header req) UserRoleMetadataKey role)
                         UserOwnerMetadataKey owner) UserIdMetadataKey userID\<rparr>"

text \<open>The handler; a nil enforcer panics.\<close>

definition rbac_RoundTrip :: "('m, 'e) casbin \<Rightarrow> 'x casdoor \<Rightarrow> PathMatcher list \<Rightarrow> ('e, 'x) rbac_state world middleware" where
  "rbac_RoundTrip B D matchers next req w =
    (if list_ex (\<lambda>m. pm_Match m req) matchers then next req w
     else
       (let userID = hget (rq_header req) UserIdMetadataKey in
        if userID = [] then (Ret None (Some (KratosErr ErrPermissionDenied)), w)
        else
          (case getUserRoles D userID (w_ext w) of
             (None, s1) \<Rightarrow> (Panicked, upd_ext (\<lambda>_. s1) w)
           | (Some (Inl e), s1) \<Rightarrow> (Ret None (Some (KratosErr ErrAuthCheckFailed)), upd_ext (\<lambda>_. s1) w)
           | (Some (Inr role), s1) \<Rightarrow>
               (let w1 = upd_ext (\<lambda>_. s1) w in
                case rs_enforcer s1 of
                  None \<Rightarrow> (Panicked, w1)
                | Some enf \<Rightarrow>
                    (case cb_Enforce B enf role (rq_path req) (rq_method req) of
                       Inl e \<Rightarrow> (Ret None (Some (KratosErr ErrAuthCheckFailed)), w1)
                     | Inr allowed \<Rightarrow>
                         if allowed then next (rbac_set_headers role (rs_userOwner s1) userID req) w1
                         else (Ret None (Some (KratosErr ErrForbiddenRoute)), w1))))))"

definition rbac_Middleware :: "('m, 'e) casbin \<Rightarrow> 'x casdoor \<Rightarrow> ('e, 'x) rbac_state world factory" where
  "rbac_Middleware B D c w =
    (case rule_matchers (case mc_router_filter c of None \<Rightarrow> [] | Some rules \<Rightarrow> rules) of
       None \<Rightarrow> (Inl (KratosErr ErrInvalidRequest), w)
     | Some matchers \<Rightarrow> (Inr (rbac_RoundTrip B D matchers), w))"

section \<open>The enforcer in use is the one of the files\<close>

text \<open>The enforcer was built from these contents of the model and policy files.\<close>

definition enforcer_of :: "('m, 'e) casbin \<Rightarrow> string \<Rightarrow> string \<Rightarrow> 'e option" where
  "enforcer_of B mc pc =
    (case cb_NewModelFromString B mc of
       Inl e \<Rightarrow> None
     | Inr m \<Rightarrow>
         (case cb_NewEnforcer B m pc of
            Inl e \<Rightarrow> None
          | Inr e0 \<Rightarrow> (case cb_LoadPolicy B e0 pc of Inl e \<Rightarrow> None | Inr e1 \<Rightarrow> Some e1)))"

definition policy_on_disk :: "('m, 'e) casbin \<Rightarrow> string \<Rightarrow> string \<Rightarrow> 'e rbac_vars \<Rightarrow> (string \<Rightarrow> (string \<times> nat) option) \<Rightarrow> bool" where
  "policy_on_disk B modelFile policyFile v f =
    (case (f modelFile, f policyFile) of
       (Some (mc, m1), Some (pc, m2)) \<Rightarrow> rb_enforcer v \<noteq> None \<and> rb_enforcer v = enforcer_of B mc pc
     | _ \<Rightarrow> False)"

lemma read_same: "os_ReadFile p w = (r, w') \<Longrightarrow> file_at w' = file_at w \<and> os.more w' = os.more w"
  using calls_same_files(2) [THEN file_at_cong] calls_same_rest(2) [THEN calls_same_more] by blast

lemma initializeEnforcer_effect:
  assumes "initializeEnforcer B mf pf w = (r, w')"
  shows "file_at w' = file_at w" "os_files w' = os_files w"
    "r \<noteq> None \<Longrightarrow> os.more w' = os.more w"
    "r = None \<Longrightarrow> policy_on_disk B mf pf (os.more w') (file_at w)"
proof -
  obtain r0 w1 where 0: "os_ReadFile mf w = (r0, w1)" by (cases "os_ReadFile mf w")
  obtain r1 w2 where 1: "os_ReadFile mf w1 = (r1, w2)" by (cases "os_ReadFile mf w1")
  obtain r2 w3 where 2: "os_ReadFile pf w2 = (r2, w3)" by (cases "os_ReadFile pf w2")
  obtain r3 w4 where 3: "os_ReadFile pf w3 = (r3, w4)" by (cases "os_ReadFile pf w3")
  note same = read_same [OF 0] read_same [OF 1] read_same [OF 2] read_same [OF 3]
  note fls = calls_same_files(2) [OF 0] calls_same_files(2) [OF 1] calls_same_files(2) [OF 2] calls_same_files(2) [OF 3]
  show files: "os_files w' = os_files w"
    using assms fls by (auto simp: initializeEnforcer_def Let_def 0 1 2 3 split: sum.splits)
  then show "file_at w' = file_at w" by (rule file_at_cong)
  show "os.more w' = os.more w" if "r \<noteq> None"
    using assms same that by (auto simp: initializeEnforcer_def Let_def 0 1 2 3 split: sum.splits)
  show "policy_on_disk B mf pf (os.more w') (file_at w)" if rn: "r = None"
  proof -
    obtain mc where mc: "r1 = Inr mc" using assms rn by (cases r1) (auto simp: initializeEnforcer_def Let_def 0 1)
    obtain m where m: "cb_NewModelFromString B mc = Inr m"
      using assms rn mc by (cases "cb_NewModelFromString B mc") (auto simp: initializeEnforcer_def Let_def 0 1)
    obtain pc where pc: "r2 = Inr pc"
      using assms rn mc m by (cases r2) (auto simp: initializeEnforcer_def Let_def 0 1 2 adapter_read_def)
    obtain e0 where e0: "cb_NewEnforcer B m pc = Inr e0"
      using assms rn mc m pc by (cases "cb_NewEnforcer B m pc") (auto simp: initializeEnforcer_def Let_def 0 1 2 adapter_read_def)
    obtain pc2 where pc2: "r3 = Inr pc2"
      using assms rn mc m pc e0 by (cases r3) (auto simp: initializeEnforcer_def Let_def 0 1 2 3 adapter_read_def)
    obtain e1 where e1: "cb_LoadPolicy B e0 pc2 = Inr e1"
      using assms rn mc m pc e0 pc2
      by (cases "cb_LoadPolicy B e0 pc2") (auto simp: initializeEnforcer_def Let_def 0 1 2 3 adapter_read_def)
    obtain a b c where at: "file_at w mf = Some (mc, a)" "file_at w pf = Some (pc, b)" "file_at w pf = Some (pc2, c)"
      using os_ReadFile_Inr 1 2 3 mc pc pc2 same by metis
    then have "pc2 = pc" by simp
    have "rb_enforcer (os.more w') = Some e1"
      using assms mc m pc e0 pc2 e1 by (auto simp: initializeEnforcer_def Let_def 0 1 2 3 adapter_read_def)
    then show ?thesis using at m e0 e1 \<open>pc2 = pc\<close> by (simp add: policy_on_disk_def enforcer_of_def)
  qed
qed

lemma validateFileContent_frame:
  "os_files (snd (validateFileContent p w)) = os_files w" "os.more (snd (validateFileContent p w)) = os.more w"
proof -
  obtain r w1 where 0: "os_ReadFile p w = (r, w1)" by (cases "os_ReadFile p w")
  show "os_files (snd (validateFileContent p w)) = os_files w" "os.more (snd (validateFileContent p w)) = os.more w"
    using read_same [OF 0] calls_same_files(2) [OF 0] by (simp_all add: validateFileContent_def 0 split: sum.split)
qed

lemma policy_on_disk_cong:
  "(\<And>q. q \<in> {mf, pf} \<Longrightarrow> g q = f q) \<Longrightarrow> policy_on_disk B mf pf v f \<Longrightarrow> policy_on_disk B mf pf v g"
  by (simp add: policy_on_disk_def)

text \<open>The same contract, for each of the two files.\<close>

interpretation policy_file: watched_file pf "{mf, pf}" validateFileContent "reloadPolicy B mf pf" "\<lambda>_. True" "policy_on_disk B mf pf"
  for B :: "('m, 'e) casbin" and mf pf
proof unfold_locales
  show "policy_on_disk B mf pf (os.more w') (file_at w)" if "reloadPolicy B mf pf w = (None, w')" for w w'
    using initializeEnforcer_effect(4) that unfolding reloadPolicy_def by blast
  show "os.more w' = os.more w" if "reloadPolicy B mf pf w = (Some e, w')" for w w' e
    using initializeEnforcer_effect(3) that unfolding reloadPolicy_def by blast
  show "os_files (snd (reloadPolicy B mf pf w)) = os_files w" for w
    unfolding reloadPolicy_def by (rule initializeEnforcer_effect(2) [OF surjective_pairing])
qed (auto simp: validateFileContent_frame policy_on_disk_def split: option.splits)

interpretation model_file: watched_file mf "{mf, pf}" validateFileContent "initializeEnforcer B mf pf" "\<lambda>_. True" "policy_on_disk B mf pf"
  for B :: "('m, 'e) casbin" and mf pf
proof unfold_locales
  show "policy_on_disk B mf pf (os.more w') (file_at w)" if "initializeEnforcer B mf pf w = (None, w')" for w w'
    using initializeEnforcer_effect(4) that by blast
  show "os.more w' = os.more w" if "initializeEnforcer B mf pf w = (Some e, w')" for w w' e
    using initializeEnforcer_effect(3) that by blast
  show "os_files (snd (initializeEnforcer B mf pf w)) = os_files w" for w
    by (rule initializeEnforcer_effect(2) [OF surjective_pairing])
qed (auto simp: validateFileContent_frame policy_on_disk_def split: option.splits)

text \<open>The events of the two watches, in any order (true: the policy file).\<close>

fun rbac_events :: "('m, 'e) casbin \<Rightarrow> string \<Rightarrow> string \<Rightarrow> (bool \<times> loader_event) list \<Rightarrow> 'e rbac_world
    \<Rightarrow> err option list \<times> 'e rbac_world" where
  "rbac_events B mf pf [] w = ([], w)"
| "rbac_events B mf pf ((p, ev) # evs) w =
     (case (if p then update_event pf (Some validateFileContent) (Some (reloadPolicy B mf pf)) ev w
            else update_event mf (Some validateFileContent) (Some (initializeEnforcer B mf pf)) ev w) of
        (r, w1) \<Rightarrow> (case rbac_events B mf pf evs w1 of (rs, w2) \<Rightarrow> (r # rs, w2)))"

definition no_temp_clash :: "string \<Rightarrow> string \<Rightarrow> bool" where
  "no_temp_clash mf pf \<longleftrightarrow> \<not> temp_path mf mf \<and> \<not> temp_path mf pf \<and> \<not> temp_path pf mf \<and> \<not> temp_path pf pf"

lemma rbac_events_in_sync:
  assumes "no_temp_clash mf pf"
  shows "policy_on_disk B mf pf (os.more w) (file_at w) \<Longrightarrow> rbac_events B mf pf evs w = (rs, w') \<Longrightarrow>
    list_all (\<lambda>r. \<not> restore_failed r) rs \<Longrightarrow> policy_on_disk B mf pf (os.more w') (file_at w')"
proof (induction evs arbitrary: w rs)
  case (Cons pev evs)
  obtain p ev where pev: "pev = (p, ev)" by (cases pev)
  obtain r w1 where 1: "(if p then update_event pf (Some validateFileContent) (Some (reloadPolicy B mf pf)) ev w
            else update_event mf (Some validateFileContent) (Some (initializeEnforcer B mf pf)) ev w) = (r, w1)"
    by (metis surj_pair)
  obtain rs2 w2 where 2: "rbac_events B mf pf evs w1 = (rs2, w2)" by (cases "rbac_events B mf pf evs w1")
  have eq: "rs = r # rs2" "w2 = w'" using Cons.prems(2) by (simp_all add: pev 1 2)
  have ok: "\<not> (\<exists>e f. r = Some (JoinErr [e, f]))" using Cons.prems(3) eq by (simp add: restore_failed_def)
  have "policy_on_disk B mf pf (os.more w1) (file_at w1)"
  proof (cases p)
    case True
    have "policy_file.apart pf mf" using assms by (simp add: policy_file.apart_def no_temp_clash_def)
    then show ?thesis
      using policy_file.update_event_in_sync [of pf mf B w ev r w1] Cons.prems(1) 1 True ok
      by (simp add: policy_file.in_sync_def)
  next
    case False
    have "model_file.apart mf pf" using assms by (simp add: model_file.apart_def no_temp_clash_def)
    then show ?thesis
      using model_file.update_event_in_sync [of mf pf B w ev r w1] Cons.prems(1) 1 False ok
      by (simp add: model_file.in_sync_def)
  qed
  then show ?case using Cons.IH 2 eq Cons.prems(3) by simp
qed simp

lemma initializeEnforcer_paths:
  assumes "initializeEnforcer B mf pf w = (None, w')"
  shows "rb_localModelFile (os.more w') = rb_localModelFile (os.more w)"
    "rb_localPolicyFile (os.more w') = rb_localPolicyFile (os.more w)"
proof -
  obtain r0 w1 where 0: "os_ReadFile mf w = (r0, w1)" by (cases "os_ReadFile mf w")
  obtain r1 w2 where 1: "os_ReadFile mf w1 = (r1, w2)" by (cases "os_ReadFile mf w1")
  obtain r2 w3 where 2: "os_ReadFile pf w2 = (r2, w3)" by (cases "os_ReadFile pf w2")
  obtain r3 w4 where 3: "os_ReadFile pf w3 = (r3, w4)" by (cases "os_ReadFile pf w3")
  note same = read_same [OF 0] read_same [OF 1] read_same [OF 2] read_same [OF 3]
  show "rb_localModelFile (os.more w') = rb_localModelFile (os.more w)"
    "rb_localPolicyFile (os.more w') = rb_localPolicyFile (os.more w)"
    using assms same by (auto simp: initializeEnforcer_def Let_def 0 1 2 3 split: sum.splits)
qed

lemma InitEnforcer_on_disk:
  assumes "\<not> rb_initialized (os.more w)" "InitEnforcer B source w = (None, w0)"
  shows "policy_on_disk B (rb_localModelFile (os.more w0)) (rb_localPolicyFile (os.more w0)) (os.more w0) (file_at w0)"
proof -
  let ?w0 = "upd_rbac (\<lambda>v. v\<lparr>rb_casdoorUrl := os_Getenv CasdoorUrl w, rb_userOwner := os_Getenv UserOwner w,
                   rb_localPolicyFile := os_Getenv PoliciesfilePath w,
                   rb_localModelFile := os_Getenv ModelFilePath w\<rparr>) w"
  obtain ip w1 where ip: "initPaths ?w0 = (ip, w1)" by (cases "initPaths ?w0")
  obtain sy w2 where sy: "syncEssentialFiles source w1 = (sy, w2)" by (cases "syncEssentialFiles source w1")
  let ?mf = "rb_localModelFile (os.more w2)" and ?pf = "rb_localPolicyFile (os.more w2)"
  obtain ie w3 where ie: "initializeEnforcer B ?mf ?pf w2 = (ie, w3)" by (cases "initializeEnforcer B ?mf ?pf w2")
  have run: "(if ip = None \<and> sy = None \<and> ie = None
      then w0 = upd_rbac (\<lambda>v. v\<lparr>rb_registered := True, rb_initialized := True\<rparr>) (setupWatchers source w3) else False)"
    using assms(2) unfolding InitEnforcer_def if_not_P [OF assms(1)] Let_def ip prod.case
    by (cases ip; cases sy; cases ie) (auto simp: sy ie)
  then have w0: "w0 = upd_rbac (\<lambda>v. v\<lparr>rb_registered := True, rb_initialized := True\<rparr>) (setupWatchers source w3)" and "ie = None"
    by (auto split: if_splits)
  then have ie': "initializeEnforcer B ?mf ?pf w2 = (None, w3)" using ie by simp
  have sel: "rb_enforcer (os.more w0) = rb_enforcer (os.more w3)" "file_at w0 = file_at w3"
    "rb_localModelFile (os.more w0) = ?mf" "rb_localPolicyFile (os.more w0) = ?pf"
    using initializeEnforcer_paths [OF ie'] by (simp_all add: w0 setupWatchers_def fun_eq_iff)
  have "policy_on_disk B ?mf ?pf (os.more w3) (file_at w3)"
    using initializeEnforcer_effect(1,4) [OF ie'] by simp
  then show ?thesis unfolding policy_on_disk_def sel .
qed

text \<open>C30: After a successful InitEnforcer and any sequence of events of the two
  watches, one at a time (Rbac_Locks has those that overlap), each in any
  schedule of I/O failures, requests are judged by an
  enforcer built from the model file and the policy file that are on disk, as
  long as no event reports that the previous state could not be put back: a
  broken update is never in force.\<close>

theorem rbac_policy_follows_files:
  assumes "\<not> rb_initialized (os.more w)" and "InitEnforcer B source w = (None, w0)"
    and "no_temp_clash (rb_localModelFile (os.more w0)) (rb_localPolicyFile (os.more w0))"
    and "rbac_events B (rb_localModelFile (os.more w0)) (rb_localPolicyFile (os.more w0)) evs w0 = (rs, w1)"
    and "list_all (\<lambda>r. \<not> restore_failed r) rs"
  shows "policy_on_disk B (rb_localModelFile (os.more w0)) (rb_localPolicyFile (os.more w0)) (os.more w1) (file_at w1)"
  using rbac_events_in_sync [OF assms(3) InitEnforcer_on_disk [OF assms(1,2)] assms(4,5)] .

text \<open>The role is taken from whatever user the answer is about: that the answer
  has an identifier is checked, not that it is the one asked for.\<close>

lemma returned_id_not_compared:
  assumes "url_Parse (casdoorUrl @ ''/api/get-user?userId='' @ userID) = Some u"
    and "cd_get D (ul_scheme u @ ''://'' @ ul_host u) (ul_path u) (casdoor_query (ul_raw_query u)) x = (Inr body, x1)"
    and "cd_decode D body = Some (other, role # rs)" "other \<noteq> []" "role \<noteq> []"
  shows "fetchRolesFromCasdoor D casdoorUrl userID x = (Some (Inr role), x1)"
  using assms by (simp add: fetchRolesFromCasdoor_def Let_def)

section \<open>The middleware is an identity gate\<close>

definition rbac_decide :: "('m, 'e) casbin \<Rightarrow> 'x casdoor \<Rightarrow> PathMatcher list \<Rightarrow> request \<Rightarrow> ('e, 'x) rbac_state world
    \<Rightarrow> (rt_result + request) \<times> ('e, 'x) rbac_state world" where
  "rbac_decide B D matchers req w =
    (let userID = hget (rq_header req) UserIdMetadataKey in
     if list_ex (\<lambda>m. pm_Match m req) matchers then (Inr req, w)
     else if userID = [] then (Inl (Ret None (Some (KratosErr ErrPermissionDenied))), w)
     else case getUserRoles D userID (w_ext w) of
         (None, s1) \<Rightarrow> (Inl Panicked, upd_ext (\<lambda>_. s1) w)
       | (Some (Inl e), s1) \<Rightarrow> (Inl (Ret None (Some (KratosErr ErrAuthCheckFailed))), upd_ext (\<lambda>_. s1) w)
       | (Some (Inr role), s1) \<Rightarrow>
           (case rs_enforcer s1 of
              None \<Rightarrow> (Inl Panicked, upd_ext (\<lambda>_. s1) w)
            | Some enf \<Rightarrow>
                (case cb_Enforce B enf role (rq_path req) (rq_method req) of
                   Inl e \<Rightarrow> (Inl (Ret None (Some (KratosErr ErrAuthCheckFailed))), upd_ext (\<lambda>_. s1) w)
                 | Inr allowed \<Rightarrow>
                     (if allowed then Inr (rbac_set_headers role (rs_userOwner s1) userID req)
                      else Inl (Ret None (Some (KratosErr ErrForbiddenRoute))), upd_ext (\<lambda>_. s1) w))))"

lemma rbac_decide_cases:
  assumes "rbac_decide B D ms req w = (Inr req', w')"
  shows "(list_ex (\<lambda>m. pm_Match m req) ms \<and> req' = req \<and> w' = w) \<or>
    (\<exists>role s1 enf. hget (rq_header req) UserIdMetadataKey \<noteq> []
      \<and> getUserRoles D (hget (rq_header req) UserIdMetadataKey) (w_ext w) = (Some (Inr role), s1)
      \<and> rs_enforcer s1 = Some enf \<and> cb_Enforce B enf role (rq_path req) (rq_method req) = Inr True
      \<and> req' = rbac_set_headers role (rs_userOwner s1) (hget (rq_header req) UserIdMetadataKey) req
      \<and> w' = upd_ext (\<lambda>_. s1) w)"
proof (cases "list_ex (\<lambda>m. pm_Match m req) ms")
  case False
  obtain g s1 where g: "getUserRoles D (hget (rq_header req) UserIdMetadataKey) (w_ext w) = (g, s1)"
    by (cases "getUserRoles D (hget (rq_header req) UserIdMetadataKey) (w_ext w)")
  show ?thesis
    using assms False g
    by (auto simp: rbac_decide_def Let_def split: if_splits option.splits sum.splits)
qed (use assms in \<open>simp add: rbac_decide_def Let_def\<close>)

interpretation rbac_gate: identity_gate "rbac_RoundTrip B D ms" "rbac_decide B D ms"
    "{''X-Md-Global-Role'', ''X-Md-Global-Owner'', ''X-Md-Global-User-Id''}" for B D ms
proof unfold_locales
  show "rbac_RoundTrip B D ms next req w = go_on (rbac_decide B D ms req w) next" for "next" req w
    by (simp add: rbac_RoundTrip_def rbac_decide_def Let_def split: prod.split option.split sum.split)
next
  show "req' = req\<lparr>rq_header := rq_header req'\<rparr>"
    if "rbac_decide B D ms req w = (Inr req', w')" for req w req' w'
    using rbac_decide_cases [OF that] by (auto simp: rbac_set_headers_def)
next
  show "rq_header req' k = rq_header req k"
    if "rbac_decide B D ms req w = (Inr req', w')"
      "k \<notin> {''X-Md-Global-Role'', ''X-Md-Global-Owner'', ''X-Md-Global-User-Id''}" for req w req' w' k
    using rbac_decide_cases [OF that(1)] that(2) by (auto simp: rbac_set_headers_def hset_def)
qed

text \<open>A user id is put into the lookup unescaped: an id with an ampersand
  reaches casdoor as several parameters, here a second user id.\<close>

theorem role_lookup_injection:
  "values_get (parse_query (casdoor_query ''userId=guest&userId=admin'')) ''userId'' = [''guest'', ''admin'']"
proof -
  have q: "parse_query ''userId=guest&userId=admin'' = [(''userId'', [''guest'', ''admin''])]"
    by (simp add: parse_query_def values_Add_def)
  show ?thesis
    unfolding casdoor_query_def q using query_roundtrip [of "[(''userId'', [''guest'', ''admin''])]" "''userId''"]
    by (simp add: values_get_def)
qed

section \<open>A run\<close>

definition demo_casbin :: "(string, string) casbin" where
  "demo_casbin = \<lparr>cb_NewModelFromString = Inr, cb_NewEnforcer = (\<lambda>m p. Inr m), cb_LoadPolicy = (\<lambda>e p. Inr (e @ p)),
     cb_Enforce = (\<lambda>e role path meth. Inr (role = ''admin''))\<rparr>"

definition demo_rbac_source :: "string rbac_world source" where
  "demo_rbac_source = \<lparr>so_Name = ConfigSourceFile, so_MainKey = ''config.yaml'',
     so_Load = (\<lambda>k w. (Inr k, w)), so_Watch = (\<lambda>k f w. (None, w))\<rparr>"

definition demo_rbac_os :: "string rbac_world" where
  "demo_rbac_os = os.extend
     \<lparr>os_files = [], os_dirs = [], os_env = [PoliciesfilePath \<mapsto> ''k/p'', ModelFilePath \<mapsto> ''k/m''], os_calls = 0,
      os_fault = (\<lambda>_. None), os_rand = (\<lambda>n. ''1'')\<rparr>
     \<lparr>rb_enforcer = None, rb_casdoorUrl = [], rb_userOwner = [], rb_initialized = False,
      rb_localPolicyFile = [], rb_localModelFile = [], rb_registered = False, rb_watching = []\<rparr>"

lemma demo_rbac_paths: "path_Dir ''k/p'' = ''k''" "path_Dir ''k/m'' = ''k''"
  "RelatedKey ''config.yaml'' policies_rel = policies_rel" "RelatedKey ''config.yaml'' model_rel = model_rel"
  by (simp_all add: path_Clean_def path_comps_def clean_comps_cases path_Dir_def path_dirpart_def RelatedKey_def)

text \<open>The policy is deleted at its source, which changes nothing, and replaced;
  then the model is replaced.\<close>

definition demo_rbac_events :: "(bool \<times> loader_event) list" where
  "demo_rbac_events = [(True, \<lparr>le_value = [], le_deleted = True, le_err = None\<rparr>),
     (True, \<lparr>le_value = ''newp'', le_deleted = False, le_err = None\<rparr>), (False, \<lparr>le_value = ''newm'', le_deleted = False, le_err = None\<rparr>)]"

lemma demo_rbac_run:
  "\<exists>w0 r w1. InitEnforcer demo_casbin demo_rbac_source demo_rbac_os = (None, w0)
    \<and> rb_localModelFile (os.more w0) = ''k/m'' \<and> rb_localPolicyFile (os.more w0) = ''k/p''
    \<and> rbac_events demo_casbin ''k/m'' ''k/p'' demo_rbac_events w0 = ([Some (PlainErr r), None, None], w1)
    \<and> file_at w1 ''k/m'' = Some (''newm'', 384) \<and> file_at w1 ''k/p'' = Some (''newp'', 384)"
proof -
  note sys_defs = sys_def os_Stat_def os_ReadFile_def os_MkdirAll_def os_CreateTemp_def os_Chmod_def os_Write_def
    os_Sync_def os_Close_def os_Rename_def os_Remove_def
  show ?thesis
    by (simp add: demo_rbac_paths InitEnforcer_def initPaths_def syncEssentialFiles_def setupWatchers_def initializeEnforcer_def
        demo_rbac_os_def os.defs upd_rbac_def demo_rbac_source_def SyncFile_def ReplaceFile_def replaceFile_def
        fill_and_rename_def try_call_def sys_defs Let_def ancestors_def file_at_def set_file_def del_file_def
        is_not_exist_def temp_name.simps dir_base_def suffix_def validateFileContent_def demo_casbin_def os_Getenv_def
        adapter_read_def reloadPolicy_def demo_rbac_events_def update_event_def snapshotFile_def apply_update_def)
qed

theorem rbac_policy_follows_files_witness:
  "\<exists>w0 rs w1. InitEnforcer demo_casbin demo_rbac_source demo_rbac_os = (None, w0)
    \<and> rbac_events demo_casbin ''k/m'' ''k/p'' demo_rbac_events w0 = (rs, w1) \<and> rb_enforcer (os.more w1) = Some ''newmnewp''"
proof -
  obtain w0 r w1 where i: "InitEnforcer demo_casbin demo_rbac_source demo_rbac_os = (None, w0)"
    and p: "rb_localModelFile (os.more w0) = ''k/m''" "rb_localPolicyFile (os.more w0) = ''k/p''"
    and ev: "rbac_events demo_casbin ''k/m'' ''k/p'' demo_rbac_events w0 = ([Some (PlainErr r), None, None], w1)"
    and at: "file_at w1 ''k/m'' = Some (''newm'', 384)" "file_at w1 ''k/p'' = Some (''newp'', 384)"
    using demo_rbac_run by blast
  have "no_temp_clash ''k/m'' ''k/p''"
    by (simp add: no_temp_clash_def temp_path_def demo_rbac_paths dir_base_def suffix_def)
  moreover have "\<not> rb_initialized (os.more demo_rbac_os)" by (simp add: demo_rbac_os_def os.defs)
  moreover have "list_all (\<lambda>r. \<not> restore_failed r) [Some (PlainErr r), None, None]" by (simp add: restore_failed_def)
  ultimately have "policy_on_disk demo_casbin ''k/m'' ''k/p'' (os.more w1) (file_at w1)"
    using rbac_policy_follows_files [OF _ i, unfolded p, OF _ _ ev] by blast
  then have "rb_enforcer (os.more w1) = Some ''newmnewp''"
    by (simp add: policy_on_disk_def at enforcer_of_def demo_casbin_def)
  then show ?thesis using i ev by blast
qed

end
