(* ===== verification/Mux.thy ===== *)
theory Mux
  imports Middleware_Core
begin

text \<open>
  Package router/mux (and the interface of router/router.go): the router of
  the gateway over the one of gorilla/mux, which is a parameter: whether a
  route has a template error, which route a request selects, and the answer
  the library gives itself (its redirects).  Handlers are functions of the
  response writer, the request and the world.
\<close>

section \<open>Handlers\<close>

datatype 'w outcome = Finished response_writer 'w | HPanic response_writer 'w

type_synonym 'w handler = "response_writer \<Rightarrow> request \<Rightarrow> 'w \<Rightarrow> 'w outcome"

type_synonym 'w closer = "'w \<Rightarrow> err option \<times> 'w"

text \<open>A handler that ends with a call of errors.Write.\<close>

definition write_outcome :: "gw_libs \<Rightarrow> response_writer \<Rightarrow> request \<Rightarrow> err \<Rightarrow> (write_options \<Rightarrow> write_options) list
    \<Rightarrow> (int \<Rightarrow> 'w \<Rightarrow> 'w) \<Rightarrow> 'w \<Rightarrow> 'w outcome" where
  "write_outcome L wr r e opts fin w =
    (case Write L wr r (Some e) opts of
       Some (code, wr') \<Rightarrow> Finished wr' (fin code w)
     | None \<Rightarrow> HPanic (snd (snd (Write_headers L wr r (Some e) opts))) w)"

section \<open>The parts of gorilla/mux\<close>

text \<open>What the gateway tells the library about a route.\<close>

datatype matcher =
    MHost string
  | MPathPrefix string
  | MPath string
  | MMethods "string list"
  | MFunc "request \<Rightarrow> bool"

datatype selection = Selected nat | NoRoute | BadMethod | Redirected string

record gorilla =
  go_route_error :: "matcher list \<Rightarrow> err option"
  go_accepts :: "matcher \<Rightarrow> request \<Rightarrow> bool"
  go_select :: "bool \<Rightarrow> matcher list list \<Rightarrow> request \<Rightarrow> selection"

text \<open>The documented dispatch: routes are tested in the order they were added,
  the first whose matchers all accept wins, a matcher function accepts what
  it returns true for, and the methods of a route are compared in upper case.\<close>

definition gorilla_dispatch :: "gorilla \<Rightarrow> bool" where
  "gorilla_dispatch G \<longleftrightarrow>
    (\<forall>f r. go_accepts G (MFunc f) r = f r) \<and>
    (\<forall>ms r. go_accepts G (MMethods ms) r = (rq_method r \<in> set (map toUpper ms))) \<and>
    (\<forall>strict rs r i. go_select G strict rs r = Selected i \<longrightarrow>
        i < length rs \<and> list_all (\<lambda>m. go_accepts G m r) (rs ! i)
        \<and> (\<forall>j<i. \<not> list_all (\<lambda>m. go_accepts G m r) (rs ! j)))"

section \<open>The router\<close>

definition mux_parseBool :: "string \<Rightarrow> bool \<Rightarrow> bool" where
  "mux_parseBool in' defV =
    (if in' = [] then defV
     else case parseBool in' of Some v \<Rightarrow> v | None \<Rightarrow> defV)"

text \<open>ENABLE\_STRICT\_SLASH, read once at start.\<close>

definition EnableStrictSlash :: "(string \<Rightarrow> string) \<Rightarrow> bool" where
  "EnableStrictSlash getenv = mux_parseBool (getenv ''ENABLE_STRICT_SLASH'') False"

record 'w route =
  rou_matchers :: "matcher list"
  rou_handler :: "'w handler"

record 'w mux_router =
  mr_strict :: bool
  mr_routes :: "'w route list"
  mr_closers :: "'w closer list"
  mr_not_found :: "'w handler"
  mr_bad_method :: "'w handler"

definition ProtectedHandler :: "gw_libs \<Rightarrow> 'w handler \<Rightarrow> 'w handler" where
  "ProtectedHandler L h wr r w =
    (if hget (rq_header r) ''X-Forwarded-For'' \<noteq> []
     then write_outcome L wr r (KratosErr ErrForbiddenRoute) [] (\<lambda>_ w. w) w
     else h wr r w)"

definition NewRouter :: "gw_libs \<Rightarrow> bool \<Rightarrow> 'w handler \<Rightarrow> 'w handler \<Rightarrow> 'w handler \<Rightarrow> 'w mux_router" where
  "NewRouter L strict metrics notFound methodNotAllowed =
    \<lparr>mr_strict = strict,
     mr_routes = [\<lparr>rou_matchers = [MPath ''/metrics''], rou_handler = ProtectedHandler L metrics\<rparr>],
     mr_closers = [], mr_not_found = notFound, mr_bad_method = methodNotAllowed\<rparr>"

definition cleanPath :: "string \<Rightarrow> string" where
  "cleanPath p =
    (if p = [] then ''/''
     else let p' = (if hd p \<noteq> slash then slash # p else p);
              np = path_Clean p'
          in if last p' = slash \<and> np \<noteq> ''/'' then np @ ''/'' else np)"

text \<open>The regular expression \<open>^/service(\.|/)\<close> of a gRPC
  route, with the service name quoted.\<close>

definition grpc_service_match :: "string \<Rightarrow> request \<Rightarrow> bool" where
  "grpc_service_match svc r =
    (prefix (slash # svc) (rq_path r)
      \<and> (case drop (Suc (length svc)) (rq_path r) of
           c # _ \<Rightarrow> c = CHR ''.'' \<or> c = slash
         | [] \<Rightarrow> False))"

definition path_matcher :: "string \<Rightarrow> string \<Rightarrow> matcher" where
  "path_matcher pattern proto =
    (if hasSuffix pattern ''*'' then
       (let pre = trimRight pattern ''*''
        in if equalFold proto ''GRPC'' then
             (let svc = trimPrefix pre ''/''
              in if svc \<noteq> [] then MFunc (grpc_service_match svc) else MPathPrefix pre)
           else MPathPrefix pre)
     else MPath pattern)"

definition route_matchers :: "string \<Rightarrow> string \<Rightarrow> string \<Rightarrow> string \<Rightarrow> matcher list" where
  "route_matchers pattern meth host proto =
    (if host \<noteq> [] then [MHost host] else []) @ [path_matcher pattern proto]
    @ (if meth \<noteq> [] \<and> meth \<noteq> ''*'' then [MMethods [meth, ''OPTIONS'']] else [])"

text \<open>Handle: the route is added by NewRoute before its templates are
  compiled, so a failed registration leaves it behind (the library never
  selects a route with an error) but registers no closer.\<close>

definition Handle :: "gorilla \<Rightarrow> string \<Rightarrow> string \<Rightarrow> string \<Rightarrow> string \<Rightarrow> 'w handler \<Rightarrow> 'w closer
    \<Rightarrow> 'w mux_router \<Rightarrow> err option \<times> 'w mux_router" where
  "Handle G pattern meth host proto handler closer r =
    (let ms = route_matchers pattern meth host proto;
         r1 = r\<lparr>mr_routes := mr_routes r @ [\<lparr>rou_matchers = ms, rou_handler = handler\<rparr>]\<rparr>
     in case go_route_error G ms of
          Some e \<Rightarrow> (Some e, r1)
        | None \<Rightarrow> (None, r1\<lparr>mr_closers := mr_closers r @ [closer]\<rparr>))"

definition mux_ServeHTTP :: "gorilla \<Rightarrow> 'w mux_router \<Rightarrow> 'w handler" where
  "mux_ServeHTTP G r wr req w =
    (let req' = req\<lparr>rq_path := cleanPath (rq_path req)\<rparr>
     in case go_select G (mr_strict r) (map rou_matchers (mr_routes r)) req' of
          Selected i \<Rightarrow> rou_handler (mr_routes r ! i) wr req' w
        | NoRoute \<Rightarrow> mr_not_found r wr req' w
        | BadMethod \<Rightarrow> mr_bad_method r wr req' w
        | Redirected url \<Rightarrow>
            (let wr' = set_header ''Location'' url wr
             in case writeHeader 301 wr' of Some wr'' \<Rightarrow> Finished wr'' w | None \<Rightarrow> HPanic wr' w))"

text \<open>The loop of SyncClose, once the wait for the requests in flight is over:
  an error of one closer does not stop the others.\<close>

definition SyncClose :: "'w mux_router \<Rightarrow> 'w \<Rightarrow> 'w" where
  "SyncClose r w = foldl (\<lambda>w c. snd (c w)) w (mr_closers r)"

section \<open>Lemmas\<close>

lemma Handle_closers:
  "mr_closers (snd (Handle G pat m h p hd' c r)) =
    (if fst (Handle G pat m h p hd' c r) = None then mr_closers r @ [c] else mr_closers r)"
  by (auto simp: Handle_def Let_def split: option.split)

lemma Handle_routes:
  "mr_routes (snd (Handle G pat m h p hd' c r)) =
    mr_routes r @ [\<lparr>rou_matchers = route_matchers pat m h p, rou_handler = hd'\<rparr>]"
  by (auto simp: Handle_def Let_def split: option.split)

lemma Handle_frame [simp]:
  "mr_strict (snd (Handle G pat m h p hd' c r)) = mr_strict r"
  "mr_not_found (snd (Handle G pat m h p hd' c r)) = mr_not_found r"
  "mr_bad_method (snd (Handle G pat m h p hd' c r)) = mr_bad_method r"
  by (auto simp: Handle_def Let_def split: option.split)

lemma grpc_service_match_iff:
  "grpc_service_match svc r \<longleftrightarrow>
    (\<exists>rest. rq_path r = slash # svc @ CHR ''.'' # rest \<or> rq_path r = slash # svc @ slash # rest)"
  by (auto simp: grpc_service_match_def prefix_def split: list.splits)


text \<open>cleanPath, described by the components of the path.\<close>

definition root_path :: "string \<Rightarrow> string" where
  "root_path p = (if hasPrefix p ''/'' then p else slash # p)"

lemma root_path_rooted: "hasPrefix (root_path p) ''/''"
  by (auto simp: root_path_def)

lemma cleanPath_eq:
  "cleanPath p =
    (let cs = path_comps (root_path p)
     in if cs = [] then ''/''
        else slash # join_str ''/'' cs @ (if p \<noteq> [] \<and> last p = slash then ''/'' else []))"
proof (cases "p = []")
  case True
  have "path_comps ''/'' = []" by code_simp
  then show ?thesis using True by (simp add: cleanPath_def root_path_def)
next
  case False
  have p': "(if hd p \<noteq> slash then slash # p else p) = root_path p"
    using False by (cases p) (auto simp: root_path_def)
  have lst: "last (root_path p) = last p" using False by (simp add: root_path_def)
  have cl: "path_Clean (root_path p) = slash # join_str ''/'' (path_comps (root_path p))"
    by (rule path_Clean_rooted [OF root_path_rooted])
  have ne: "join_str ''/'' cs \<noteq> []" if plain: "list_all plain_comp cs" and cs: "cs \<noteq> []" for cs
  proof -
    obtain c ds where "cs = c # ds" using cs by (cases cs) auto
    then show ?thesis using plain by (cases ds) (auto simp: plain_comp_def)
  qed
  show ?thesis
    using False lst ne [OF rooted_comps_plain [OF root_path_rooted]]
    by (simp add: cleanPath_def Let_def p' cl)
qed

lemma split_join_slash:
  assumes "list_all plain_comp cs" "cs \<noteq> []"
  shows "split_char slash (slash # join_str ''/'' cs) = [] # cs"
    and "split_char slash (slash # join_str ''/'' cs @ ''/'') = [] # cs @ [[]]"
  using split_join_plain [OF assms] split_char_join2 [of "slash # join_str ''/'' cs" "[]"]
  by simp_all

lemma cleanPath_comps:
  "\<exists>cs tl. list_all plain_comp cs \<and> (tl = [] \<or> tl = [[]])
    \<and> split_char slash (cleanPath p) = [] # cs @ tl \<and> (cs = [] \<longrightarrow> tl = [[]])"
proof (cases "path_comps (root_path p) = []")
  case True
  then have "split_char slash (cleanPath p) = [] # [] @ [[]]" by (simp add: cleanPath_eq)
  then show ?thesis by (intro exI [of _ "[]"] exI [of _ "[[]]"]) simp
next
  case False
  note pl = rooted_comps_plain [OF root_path_rooted]
  show ?thesis
  proof (cases "p \<noteq> [] \<and> last p = slash")
    case True
    then have "split_char slash (cleanPath p) = [] # path_comps (root_path p) @ [[]]"
      using False split_join_slash(2) [OF pl False] by (simp add: cleanPath_eq Let_def)
    then show ?thesis using pl False by blast
  next
    case nosl: False
    then have "split_char slash (cleanPath p) = [] # path_comps (root_path p) @ []"
      using False split_join_slash(1) [OF pl False] by (auto simp add: cleanPath_eq Let_def)
    then show ?thesis using pl False by blast
  qed
qed

lemma cleanPath_rooted: "hasPrefix (cleanPath p) ''/''"
  by (simp add: cleanPath_eq Let_def)

lemma root_path_cleanPath: "root_path (cleanPath p) = cleanPath p"
  using cleanPath_rooted by (simp add: root_path_def)

lemma path_comps_cleanPath: "path_comps (cleanPath p) = path_comps (root_path p)"
proof -
  let ?cs = "path_comps (root_path p)"
  note pl = rooted_comps_plain [OF root_path_rooted, of p]
  show ?thesis
  proof (cases "?cs = []")
    case True
    moreover have "path_comps ''/'' = []" by code_simp
    ultimately show ?thesis by (simp add: cleanPath_eq)
  next
    case False
    have tl: "path_comps (slash # join_str ''/'' ?cs @ ''/'') = ?cs"
    proof -
      have "path_comps (slash # join_str ''/'' ?cs @ ''/'')
          = clean_comps True ([] # ?cs @ [[]]) []"
        using split_join_slash(2) [OF pl False] by (simp add: path_comps_def [of "slash # _"])
      also have "\<dots> = ?cs"
        using clean_comps_append [of True ?cs "[[]]" "[]"] clean_comps_plain [OF pl, of True "[]"]
        by (simp add: cc_skip)
      finally show ?thesis .
    qed
    show ?thesis using False tl path_comps_of_rooted [OF pl] by (simp add: cleanPath_eq Let_def)
  qed
qed

lemma join_str_last: "xs \<noteq> [] \<Longrightarrow> \<exists>a. join_str sep xs = a @ last xs"
proof (induction sep xs rule: join_str.induct)
  case (3 sep x y ys)
  then obtain a where "join_str sep (y # ys) = a @ last (y # ys)" by blast
  then show ?case by (intro exI [of _ "x @ sep @ a"]) simp
qed auto

lemma cleanPath_idem: "cleanPath (cleanPath p) = cleanPath p"
proof -
  let ?cs = "path_comps (root_path p)"
  note pl = rooted_comps_plain [OF root_path_rooted, of p]
  have lastcs: "last (slash # join_str ''/'' ?cs) \<noteq> slash" if ne: "?cs \<noteq> []"
  proof -
    have "slash \<notin> set (last ?cs)" "last ?cs \<noteq> []"
      using pl ne by (auto simp: list_all_iff plain_comp_def)
    moreover obtain a where "join_str ''/'' ?cs = a @ last ?cs"
      using join_str_last [OF ne] by blast
    ultimately show ?thesis by (metis append_is_Nil_conv last_ConsR last_appendR last_in_set)
  qed
  show ?thesis
  proof (cases "?cs = []")
    case True
    then show ?thesis using path_comps_cleanPath [of p] cleanPath_eq [of "cleanPath p"]
      by (simp add: root_path_cleanPath) (simp add: cleanPath_eq)
  next
    case False
    have "(cleanPath p \<noteq> [] \<and> last (cleanPath p) = slash) = (p \<noteq> [] \<and> last p = slash)"
      using False lastcs [OF False] by (auto simp: cleanPath_eq Let_def split: if_splits)
    then show ?thesis
      using False path_comps_cleanPath [of p]
      by (subst cleanPath_eq) (simp add: root_path_cleanPath Let_def, simp add: cleanPath_eq Let_def)
  qed
qed


section \<open>Properties\<close>

text \<open>C18: The path a route is chosen by is canonical: rooted, free of
  dot and dot-dot segments, and unchanged by a second cleaning, so no request
  reaches a route through a path that climbs out of its prefix.\<close>

theorem cleanPath_canonical:
  "hasPrefix (cleanPath p) ''/'' \<and> cleanPath (cleanPath p) = cleanPath p
    \<and> list_all (\<lambda>c. c \<noteq> ''.'' \<and> c \<noteq> ''..'') (split_char slash (cleanPath p))"
proof -
  obtain cs tl where cs: "list_all plain_comp cs" and tl: "tl = [] \<or> tl = [[]]"
    and split: "split_char slash (cleanPath p) = [] # cs @ tl"
    using cleanPath_comps by blast
  have "list_all (\<lambda>c. c \<noteq> ''.'' \<and> c \<noteq> ''..'') cs"
    using cs by (rule list.pred_mono_strong) (simp add: plain_comp_def)
  then have "list_all (\<lambda>c. c \<noteq> ''.'' \<and> c \<noteq> ''..'') (split_char slash (cleanPath p))"
    using tl by (elim disjE) (simp_all add: split)
  then show ?thesis by (simp add: cleanPath_rooted cleanPath_idem)
qed

text \<open>A gorilla router that dispatches as documented, for the witnesses.\<close>

fun first_index :: "('a \<Rightarrow> bool) \<Rightarrow> 'a list \<Rightarrow> nat option" where
  "first_index p [] = None"
| "first_index p (x # xs) = (if p x then Some 0 else map_option Suc (first_index p xs))"

lemma first_index_Some:
  "first_index p xs = Some i \<Longrightarrow> i < length xs \<and> p (xs ! i) \<and> (\<forall>j<i. \<not> p (xs ! j))"
proof (induction xs arbitrary: i)
  case (Cons x xs)
  then show ?case by (auto split: if_splits simp: nth_Cons split: nat.split)
qed simp

fun sample_accepts :: "matcher \<Rightarrow> request \<Rightarrow> bool" where
  "sample_accepts (MHost h) r = (rq_host r = h)"
| "sample_accepts (MPathPrefix p) r = prefix p (rq_path r)"
| "sample_accepts (MPath p) r = (rq_path r = p)"
| "sample_accepts (MMethods ms) r = (rq_method r \<in> set (map toUpper ms))"
| "sample_accepts (MFunc f) r = f r"

definition sample_gorilla :: gorilla where
  "sample_gorilla = \<lparr>go_route_error = (\<lambda>ms. None), go_accepts = sample_accepts,
     go_select = (\<lambda>strict rs r. case first_index (list_all (\<lambda>m. sample_accepts m r)) rs of
        Some i \<Rightarrow> Selected i | None \<Rightarrow> NoRoute)\<rparr>"

lemma sample_gorilla_dispatch: "gorilla_dispatch sample_gorilla"
  by (auto simp: gorilla_dispatch_def sample_gorilla_def split: option.splits dest!: first_index_Some)

text \<open>C19: A request is served by the route of a gRPC service only if its
  path lies directly under that service name: a sibling service whose name
  begins with the same letters is not captured, and neither is a method the
  route does not name, in either case (OPTIONS apart).\<close>

theorem grpc_route_serves_its_service:
  assumes "gorilla_dispatch G"
    and "go_select G strict (map rou_matchers (mr_routes r)) req = Selected i"
    and "rou_matchers (mr_routes r ! i) = route_matchers pattern meth host proto"
    and "hasSuffix pattern ''*''" "equalFold proto ''GRPC''"
    and "svc = trimPrefix (trimRight pattern ''*'') ''/''" "svc \<noteq> []"
  shows "(\<exists>rest. rq_path req = slash # svc @ CHR ''.'' # rest \<or> rq_path req = slash # svc @ slash # rest)
    \<and> (meth = [] \<or> meth = ''*'' \<or> rq_method req = toUpper meth \<or> rq_method req = ''OPTIONS'')"
proof -
  have i: "i < length (map rou_matchers (mr_routes r))"
    and "list_all (\<lambda>m. go_accepts G m req) (map rou_matchers (mr_routes r) ! i)"
    using assms(1,2) unfolding gorilla_dispatch_def by blast+
  then have acc: "list_all (\<lambda>m. go_accepts G m req) (route_matchers pattern meth host proto)"
    using assms(3) by simp
  have opt: "toUpper ''OPTIONS'' = ''OPTIONS''" by code_simp
  have "path_matcher pattern proto = MFunc (grpc_service_match svc)"
    using assms(4-7) by (simp add: path_matcher_def)
  then have "grpc_service_match svc req"
    "meth = [] \<or> meth = ''*'' \<or> rq_method req = toUpper meth \<or> rq_method req = ''OPTIONS''"
    using acc assms(1) opt by (auto simp: route_matchers_def gorilla_dispatch_def)
  then show ?thesis by (simp add: grpc_service_match_iff)
qed

definition sample_router :: "nat mux_router" where
  "sample_router = snd (Handle sample_gorilla ''/shop.Cart*'' ''POST'' [] ''GRPC'' (\<lambda>wr r w. Finished wr w)
      (\<lambda>w. (None, w)) (NewRouter sample_libs False (\<lambda>wr r w. Finished wr w) (\<lambda>wr r w. Finished wr w)
        (\<lambda>wr r w. Finished wr w)))"

definition sample_grpc_request :: request where
  "sample_grpc_request = sample_request\<lparr>rq_method := ''POST'', rq_path := ''/shop.Cart/Add''\<rparr>"

lemma sample_router_routes:
  "map rou_matchers (mr_routes sample_router) =
    [[MPath ''/metrics''], route_matchers ''/shop.Cart*'' ''POST'' [] ''GRPC'']"
  by (simp add: sample_router_def Handle_routes NewRouter_def)

lemma sample_grpc_accepts:
  "list_all (\<lambda>m. sample_accepts m sample_grpc_request) (route_matchers ''/shop.Cart*'' ''POST'' [] ''GRPC'')"
  by code_simp

theorem grpc_route_serves_its_service_witness:
  "go_select sample_gorilla False (map rou_matchers (mr_routes sample_router)) sample_grpc_request = Selected 1
    \<and> (\<exists>rest. rq_path sample_grpc_request = ''/shop.Cart'' @ CHR ''.'' # rest
        \<or> rq_path sample_grpc_request = ''/shop.Cart'' @ slash # rest)"
proof -
  have sel: "go_select sample_gorilla False (map rou_matchers (mr_routes sample_router)) sample_grpc_request = Selected 1"
    using sample_grpc_accepts
    by (simp add: sample_router_routes sample_gorilla_def)
       (simp add: sample_grpc_request_def)
  have route: "rou_matchers (mr_routes sample_router ! 1) = route_matchers ''/shop.Cart*'' ''POST'' [] ''GRPC''"
  proof -
    have "length (map rou_matchers (mr_routes sample_router)) = 2"
      unfolding sample_router_routes by simp
    then have "1 < length (mr_routes sample_router)" by simp
    from nth_map [OF this, of rou_matchers] show ?thesis by (simp add: sample_router_routes)
  qed
  have svc: "''shop.Cart'' = trimPrefix (trimRight ''/shop.Cart*'' ''*'') ''/''" "equalFold ''GRPC'' ''GRPC''"
    by (code_simp, simp add: equalFold_def)
  show ?thesis
    using grpc_route_serves_its_service [OF sample_gorilla_dispatch sel route _ svc(2) svc(1)] sel
    by (simp add: suffix_def)
qed

end
