(* ===== verification/Proxy.thy ===== *)
theory Proxy
  imports Mux Retry Jwt
begin

text \<open>
  Package proxy, file proxy.go: the handler of an endpoint with its retry loop
  over the middleware chain and the client, the construction of an endpoint,
  the replacement of the router on a configuration update, and the entry point
  that recovers from panics.  Parameters are the state of the request's overall
  deadline, the retry feature switch, the endpoint's retry breaker (package
  sre) and the connection to the client, all functions of the world's
  extension.  The per-try timeout is only a deadline of the context passed on:
  its expiry shows as an error of the round trip.
\<close>

section \<open>Parameters\<close>

record 'x proxy_env =
  px_libs :: gw_libs
  px_gorilla :: gorilla
  px_strict :: bool
  px_metrics :: "'x world handler"
  px_ctx_err :: "'x \<Rightarrow> err option"
  px_retry_enabled :: "'x \<Rightarrow> bool"
  px_breaker_allow :: "endpoint \<Rightarrow> 'x \<Rightarrow> err option \<times> 'x"
  px_breaker_mark :: "endpoint \<Rightarrow> bool \<Rightarrow> 'x \<Rightarrow> 'x"
  px_write :: "string \<Rightarrow> 'x \<Rightarrow> (nat \<times> err option) \<times> 'x"

record 'w gw_client =
  cl_round_trip :: "'w round_tripper"
  cl_close :: "'w closer"

type_synonym 'w client_factory = "endpoint \<Rightarrow> 'w \<Rightarrow> (err + 'w gw_client) \<times> 'w"

section \<open>X-Forwarded-For\<close>

text \<open>An empty list stands for the nil slice that tells the proxy to leave
  the header out.\<close>

definition setXFFHeader :: "request \<Rightarrow> request" where
  "setXFFHeader req =
    (case splitHostPort (rq_remote_addr req) of
       None \<Rightarrow> req
     | Some (ip, _) \<Rightarrow>
         (case rq_header req ''X-Forwarded-For'' of
            None \<Rightarrow> req\<lparr>rq_header := hset (rq_header req) ''X-Forwarded-For'' ip\<rparr>
          | Some [] \<Rightarrow> req
          | Some prior \<Rightarrow>
              req\<lparr>rq_header := hset (rq_header req) ''X-Forwarded-For''
                                 (join_str '', '' prior @ '', '' @ ip)\<rparr>))"

section \<open>Metrics\<close>

definition label_values :: "request \<Rightarrow> metrics_labels \<Rightarrow> string list" where
  "label_values req l = [lb_Protocol l, rq_method req, lb_Path l, lb_Service l, lb_BasePath l]"

definition receivedBytesAdd :: "request \<Rightarrow> metrics_labels \<Rightarrow> int \<Rightarrow> 'x world \<Rightarrow> 'x world" where
  "receivedBytesAdd req l n = emit (EvCounter ''requests_rx_bytes'' (label_values req l) n)"

definition sentBytesAdd :: "request \<Rightarrow> metrics_labels \<Rightarrow> int \<Rightarrow> 'x world \<Rightarrow> 'x world" where
  "sentBytesAdd req l n = emit (EvCounter ''requests_tx_bytes'' (label_values req l) n)"

definition requestsTotalIncr :: "request \<Rightarrow> metrics_labels option \<Rightarrow> int \<Rightarrow> 'x world \<Rightarrow> 'x world" where
  "requestsTotalIncr req labels code =
    (case labels of
       None \<Rightarrow> emit (EvCounter ''requests_code_total''
                 [''HTTP'', rq_method req, rq_path req, formatInt code, [], []] 1)
     | Some l \<Rightarrow> emit (EvCounter ''requests_code_total''
                 [lb_Protocol l, rq_method req, lb_Path l, formatInt code, lb_Service l, lb_BasePath l] 1))"

definition requestsDurationObserve :: "request \<Rightarrow> metrics_labels \<Rightarrow> 'x world \<Rightarrow> 'x world" where
  "requestsDurationObserve req l = emit (EvObserve ''requests_duration_seconds'' (label_values req l))"

definition retryStateIncr :: "request \<Rightarrow> metrics_labels \<Rightarrow> bool \<Rightarrow> 'x world \<Rightarrow> 'x world" where
  "retryStateIncr req l success =
    emit (EvCounter ''requests_retry_state''
      (label_values req l @ [if success then ''true'' else ''false'']) 1)"

text \<open>splitRetryMetricsHandler: the two closures over the labels.\<close>

definition markSuccessStat :: "request \<Rightarrow> metrics_labels \<Rightarrow> nat \<Rightarrow> 'x world \<Rightarrow> 'x world" where
  "markSuccessStat req l i w = (if i = 0 then w else retryStateIncr req l True w)"

definition markFailedStat :: "gw_libs \<Rightarrow> request \<Rightarrow> metrics_labels \<Rightarrow> nat \<Rightarrow> err \<Rightarrow> 'x world \<Rightarrow> 'x world" where
  "markFailedStat L req l i e w =
    (if i = 0 then w
     else if err_is (lib_kratos_is L) e CtxCanceled then w
     else retryStateIncr req l False w)"

section \<open>Error responses\<close>

definition error_opts :: "metrics_labels option \<Rightarrow> (write_options \<Rightarrow> write_options) list" where
  "error_opts labels =
    (case labels of
       None \<Rightarrow> []
     | Some l \<Rightarrow> [WithMetadata [(''service'', lb_Service l), (''path'', lb_Path l)],
                   WithGRPC (lb_Protocol l = protocol_String GRPC)])"

definition writeError :: "gw_libs \<Rightarrow> response_writer \<Rightarrow> request \<Rightarrow> err \<Rightarrow> metrics_labels option
    \<Rightarrow> 'x world \<Rightarrow> 'x world outcome" where
  "writeError L wr req e labels w =
    write_outcome L wr req e (error_opts labels) (requestsTotalIncr req labels) w"

definition notFoundHandler :: "gw_libs \<Rightarrow> 'x world handler" where
  "notFoundHandler L wr req w =
    write_outcome L wr req (KratosErr ErrRouteNotFound) [WithMetadata [(''path'', rq_path req)]]
      (\<lambda>code. emit (EvCounter ''requests_code_total''
         [''HTTP'', rq_method req, ''/404'', formatInt code, [], []] 1)) w"

definition methodNotAllowedHandler :: "gw_libs \<Rightarrow> 'x world handler" where
  "methodNotAllowedHandler L wr req w =
    write_outcome L wr req (KratosErr ErrMethodNotAllowed) [WithMetadata [(''path'', rq_path req)]]
      (\<lambda>code. emit (EvCounter ''requests_code_total''
         [''HTTP'', rq_method req, ''/405'', formatInt code, [], []] 1)) w"

section \<open>The middleware chain\<close>

text \<open>buildMiddleware walks the list from its end: the first entry becomes
  the outermost layer.  An unknown middleware is skipped, any other error
  stops the construction.\<close>

fun build_rev :: "gw_libs \<Rightarrow> 'w factory_v2 \<Rightarrow> mw_config list \<Rightarrow> 'w round_tripper \<Rightarrow> 'w
    \<Rightarrow> (err + 'w round_tripper) \<times> 'w" where
  "build_rev L mf [] next w = (Inr next, w)"
| "build_rev L mf (c # cs) next w =
     (case mf c w of
        (Inl e, w1) \<Rightarrow>
          if err_is (lib_kratos_is L) e ErrNotFound then build_rev L mf cs next w1 else (Inl e, w1)
      | (Inr m, w1) \<Rightarrow> build_rev L mf cs (mi_process m next) w1)"

definition buildMiddleware :: "gw_libs \<Rightarrow> 'w factory_v2 \<Rightarrow> mw_config list \<Rightarrow> 'w round_tripper \<Rightarrow> 'w
    \<Rightarrow> (err + 'w round_tripper) \<times> 'w" where
  "buildMiddleware L mf ms next w = build_rev L mf (rev ms) next w"

section \<open>The retry loop\<close>

definition markSuccess :: "'x proxy_env \<Rightarrow> endpoint \<Rightarrow> request \<Rightarrow> nat \<Rightarrow> 'x world \<Rightarrow> 'x world" where
  "markSuccess E e req i w =
    (let w1 = markSuccessStat req (NewMetricsLabels e) i w
     in if 0 < i then emit (EvBreaker True) (upd_ext (px_breaker_mark E e True) w1) else w1)"

definition markFailed :: "'x proxy_env \<Rightarrow> endpoint \<Rightarrow> request \<Rightarrow> nat \<Rightarrow> err \<Rightarrow> 'x world \<Rightarrow> 'x world" where
  "markFailed E e req i er w =
    (let w1 = markFailedStat (px_libs E) req (NewMetricsLabels e) i er w
     in if 0 < i then emit (EvBreaker False) (upd_ext (px_breaker_mark E e False) w1) else w1)"

definition assertion_failed :: err where
  "assertion_failed = KratosErr (kratos_New 500 ''ASSERTION_FAILED'' ''assertion failed'')"

text \<open>An error after which the loop gives up at once.\<close>

definition auth_rejection :: "gw_libs \<Rightarrow> err \<Rightarrow> bool" where
  "auth_rejection L e \<longleftrightarrow>
    err_is (lib_kratos_is L) e (KratosErr NotAuthN) \<or> err_is (lib_kratos_is L) e (KratosErr ErrPermissionDenied)"

definition set_last_attempt :: "'x world \<Rightarrow> 'x world" where
  "set_last_attempt = upd_opts (\<lambda>o'. o'\<lparr>ro_last_attempt := True\<rparr>)"

datatype 'w loop_result = LoopDone "response option" "err option" 'w | LoopPanic 'w

datatype 'w step_result = Stop "'w loop_result" | Again "response option" "err option" 'w

text \<open>The end of the loop body, once the round trip has returned.\<close>

definition after_round_trip :: "'x proxy_env \<Rightarrow> endpoint \<Rightarrow> condition list \<Rightarrow> request \<Rightarrow> nat
    \<Rightarrow> rt_result \<times> 'x world \<Rightarrow> 'x world step_result" where
  "after_round_trip E e conds req i res =
    (case res of
       (Panicked, w) \<Rightarrow> Stop (LoopPanic w)
     | (Ret r1 (Some e1), w) \<Rightarrow>
         if auth_rejection (px_libs E) e1 then Stop (LoopDone r1 (Some e1) w)
         else Again r1 (Some e1) (markFailed E e req i e1 w)
     | (Ret None None, w) \<Rightarrow>
         if conds = [] then Stop (LoopDone None None (markSuccess E e req i (set_last_attempt w)))
         else Stop (LoopPanic w)
     | (Ret (Some r1) None, w) \<Rightarrow>
         if \<not> judgeRetryRequired conds r1
         then Stop (LoopDone (Some r1) None (markSuccess E e req i (set_last_attempt w)))
         else Again (Some r1) None (markFailed E e req i assertion_failed w))"

text \<open>One pass through the loop body: attempt \<open>i\<close>, with
  \<open>resp\<close> and \<open>er\<close> the two variables of the handler.  The
  request is cloned with a reader over the whole body.\<close>

definition attempt_request :: "request \<Rightarrow> request" where
  "attempt_request req = req\<lparr>rq_body := \<lparr>bd_data = bd_data (rq_body req), bd_err = None\<rparr>\<rparr>"

definition attempt :: "'x proxy_env \<Rightarrow> endpoint \<Rightarrow> condition list \<Rightarrow> 'x world round_tripper \<Rightarrow> request
    \<Rightarrow> bool \<Rightarrow> nat \<Rightarrow> response option \<Rightarrow> err option \<Rightarrow> 'x world \<Rightarrow> 'x world step_result" where
  "attempt E e conds tripper req final i resp er w =
    (if 0 < i \<and> \<not> px_retry_enabled E (w_ext w) then Stop (LoopDone resp er w)
     else
       (case (if 0 < i then px_breaker_allow E e (w_ext w) else (None, w_ext w)) of
          (Some be, x1) \<Rightarrow> Stop (LoopDone resp er (markFailed E e req i be (upd_ext (\<lambda>_. x1) w)))
        | (None, x1) \<Rightarrow>
            (let w1 = upd_ext (\<lambda>_. x1) w;
                 w2 = (if final then set_last_attempt w1 else w1)
             in case px_ctx_err E (w_ext w2) of
                  Some ce \<Rightarrow> Stop (LoopDone resp (Some ce) (markFailed E e req i ce w2))
                | None \<Rightarrow> after_round_trip E e conds req i (tripper (attempt_request req) w2))))"

text \<open>The loop: \<open>n\<close> attempts are left.\<close>

fun retry_loop :: "'x proxy_env \<Rightarrow> endpoint \<Rightarrow> condition list \<Rightarrow> 'x world round_tripper \<Rightarrow> request
    \<Rightarrow> nat \<Rightarrow> nat \<Rightarrow> response option \<Rightarrow> err option \<Rightarrow> 'x world \<Rightarrow> 'x world loop_result" where
  "retry_loop E e conds tripper req 0 i resp er w = LoopDone resp er w"
| "retry_loop E e conds tripper req (Suc n) i resp er w =
     (case attempt E e conds tripper req (n = 0) i resp er w of
        Stop r \<Rightarrow> r
      | Again resp' er' w' \<Rightarrow> retry_loop E e conds tripper req n (Suc i) resp' er' w')"

section \<open>The answer to the client\<close>

definition trailer_prefix :: string where
  "trailer_prefix = ''Trailer:''"

text \<open>\<open>headers[k] = v\<close> for every entry, without canonicalisation.\<close>

definition copy_header :: "header option \<Rightarrow> response_writer \<Rightarrow> response_writer" where
  "copy_header h wr =
    (case h of None \<Rightarrow> wr | Some hd' \<Rightarrow> wr\<lparr>rw_header := rw_header wr ++ hd'\<rparr>)"

definition add_trailers :: "header \<Rightarrow> response_writer \<Rightarrow> response_writer" where
  "add_trailers t wr = wr\<lparr>rw_header := (\<lambda>k.
      if prefix trailer_prefix k \<and> t (drop (length trailer_prefix) k) \<noteq> None
      then t (drop (length trailer_prefix) k) else rw_header wr k)\<rparr>"

definition call_done :: "err option \<Rightarrow> 'x world \<Rightarrow> 'x world" where
  "call_done e w = (case ro_done (w_opts w) of None \<Rightarrow> w | Some d \<Rightarrow> emit (EvDone d e) w)"

text \<open>doCopyBody: an empty body makes no call of Write; copy, account, report to the selector, close the body.\<close>

definition doCopyBody :: "'x proxy_env \<Rightarrow> metrics_labels \<Rightarrow> request \<Rightarrow> response \<Rightarrow> response_writer
    \<Rightarrow> 'x world \<Rightarrow> response_writer \<times> 'x world" where
  "doCopyBody E l req resp wr w =
    (case rs_body resp of
       None \<Rightarrow> (wr, w)
     | Some b \<Rightarrow>
         (let ((n, we), x1) = (if bd_data b = [] then ((0, None), w_ext w)
                               else px_write E (bd_data b) (w_ext w));
              sent = (if we = None then length (bd_data b) else n);
              er = (if we = None then bd_err b else we);
              wr1 = (if bd_data b = [] then wr
                     else writeChunk (RawBytes (take sent (bd_data b))) wr);
              w1 = upd_ext (\<lambda>_. x1) w
          in case er of
               Some e1 \<Rightarrow>
                 (wr1, emit (EvBodyClosed resp) (sentBytesAdd req l (int sent) (call_done (Some e1) w1)))
             | None \<Rightarrow>
                 (add_trailers (rs_trailer resp) wr1,
                  emit (EvBodyClosed resp) (call_done None (sentBytesAdd req l (int sent) w1)))))"

definition send_response :: "'x proxy_env \<Rightarrow> metrics_labels \<Rightarrow> request \<Rightarrow> response \<Rightarrow> response_writer
    \<Rightarrow> 'x world \<Rightarrow> 'x world outcome" where
  "send_response E l req resp wr w =
    (let wr1 = copy_header (rs_header resp) wr
     in case writeHeader (rs_status resp) wr1 of
          None \<Rightarrow> HPanic wr1 w
        | Some wr2 \<Rightarrow>
            (case doCopyBody E l req resp wr2 w of
               (wr3, w3) \<Rightarrow> Finished wr3 (requestsTotalIncr req (Some l) (rs_status resp) w3)))"

text \<open>The deferred observation runs on every way out, panics included.\<close>

fun and_finally :: "('w \<Rightarrow> 'w) \<Rightarrow> 'w outcome \<Rightarrow> 'w outcome" where
  "and_finally f (Finished wr w) = Finished wr (f w)"
| "and_finally f (HPanic wr w) = HPanic wr (f w)"

definition endpoint_handler :: "'x proxy_env \<Rightarrow> endpoint \<Rightarrow> retry_strategy \<Rightarrow> 'x world round_tripper
    \<Rightarrow> 'x world handler" where
  "endpoint_handler E e rs tripper wr req0 w0 =
    (let l = NewMetricsLabels e;
         req = setXFFHeader (WithRequestPath req0 (rq_path req0));
         w = upd_opts (\<lambda>_. NewRequestOptions e) w0
     in and_finally (requestsDurationObserve req l)
          (case bd_err (rq_body req) of
             Some be \<Rightarrow> writeError (px_libs E) wr req be (Some l) w
           | None \<Rightarrow>
               (case retry_loop E e (rt_conditions rs) tripper req (nat (rt_attempts rs)) 0 None None
                       (receivedBytesAdd req l (int (length (bd_data (rq_body req)))) w) of
                  LoopPanic w1 \<Rightarrow> HPanic wr w1
                | LoopDone resp (Some er) w1 \<Rightarrow> writeError (px_libs E) wr req er (Some l) w1
                | LoopDone None None w1 \<Rightarrow> HPanic wr w1
                | LoopDone (Some resp) None w1 \<Rightarrow> send_response E l req resp wr w1)))"

section \<open>Building an endpoint\<close>

definition closeOnError :: "'w closer \<Rightarrow> err option \<Rightarrow> 'w \<Rightarrow> 'w" where
  "closeOnError c e w = (if e = None then w else snd (c w))"

text \<open>The error text of a bad retry condition is not modelled.\<close>

definition condition_error :: err where
  "condition_error = PlainErr ''invalid condition''"

definition buildEndpoint :: "'x proxy_env \<Rightarrow> 'x world client_factory \<Rightarrow> 'x world factory_v2 \<Rightarrow> endpoint
    \<Rightarrow> mw_config list \<Rightarrow> 'x world \<Rightarrow> (err + 'x world handler \<times> 'x world closer) \<times> 'x world" where
  "buildEndpoint E cf mf e ms w =
    (case cf e w of
       (Inl er, w1) \<Rightarrow> (Inl er, w1)
     | (Inr cl, w1) \<Rightarrow>
         (let fail = (\<lambda>er w'. (Inl er, closeOnError (cl_close cl) (Some er) w'))
          in case buildMiddleware (px_libs E) mf (ep_middlewares e) (cl_round_trip cl) w1 of
               (Inl er, w2) \<Rightarrow> fail er w2
             | (Inr t1, w2) \<Rightarrow>
                 (case buildMiddleware (px_libs E) mf ms t1 w2 of
                    (Inl er, w3) \<Rightarrow> fail er w3
                  | (Inr t2, w3) \<Rightarrow>
                      (case prepareRetryStrategy e of
                         None \<Rightarrow> fail condition_error w3
                       | Some rs \<Rightarrow> (Inr (endpoint_handler E e rs t2, cl_close cl), w3)))))"

section \<open>The proxy\<close>

text \<open>The router in use and the routers handed to the background close.\<close>

record 'w proxy =
  py_router :: "'w mux_router"
  py_closing :: "'w mux_router list"

definition new_router :: "'x proxy_env \<Rightarrow> 'x world mux_router" where
  "new_router E = NewRouter (px_libs E) (px_strict E) (px_metrics E)
      (notFoundHandler (px_libs E)) (methodNotAllowedHandler (px_libs E))"

definition proxy_New :: "'x proxy_env \<Rightarrow> 'x world proxy" where
  "proxy_New E = \<lparr>py_router = new_router E, py_closing = []\<rparr>"

text \<open>The loop of Update over the endpoints: the router so far, the number of
  endpoints registered and the closers whose deferred close is pending (last
  deferred first).\<close>

fun update_loop :: "'x proxy_env \<Rightarrow> 'x world client_factory \<Rightarrow> 'x world factory_v2 \<Rightarrow> mw_config list
    \<Rightarrow> endpoint list \<Rightarrow> 'x world mux_router \<Rightarrow> nat \<Rightarrow> 'x world closer list \<Rightarrow> 'x world
    \<Rightarrow> 'x world mux_router \<times> nat \<times> 'x world closer list \<times> 'x world" where
  "update_loop E cf mf ms [] r k ds w = (r, k, ds, w)"
| "update_loop E cf mf ms (e # es) r k ds w =
     (case buildEndpoint E cf mf e ms w of
        (Inl er, w1) \<Rightarrow> update_loop E cf mf ms es r k ds w1
      | (Inr (h, c), w1) \<Rightarrow>
          (case Handle (px_gorilla E) (ep_path e) (ep_method e) (ep_host e)
                  (protocol_String (ep_protocol e)) h c r of
             (Some er, r1) \<Rightarrow> update_loop E cf mf ms es r1 k (c # ds) w1
           | (None, r1) \<Rightarrow> update_loop E cf mf ms es r1 (Suc k) (c # ds) w1))"

definition update_error :: "nat \<Rightarrow> err" where
  "update_error n =
    PlainErr (''all '' @ formatInt (int n) @ '' endpoints failed to build, last error: <nil>'')"

definition tryCloseRouter :: "'w mux_router \<Rightarrow> 'w proxy \<Rightarrow> 'w proxy" where
  "tryCloseRouter r p = p\<lparr>py_closing := py_closing p @ [r]\<rparr>"

definition Update :: "'x proxy_env \<Rightarrow> 'x world client_factory \<Rightarrow> 'x world factory_v2 \<Rightarrow> gateway_config
    \<Rightarrow> 'x world proxy \<Rightarrow> 'x world \<Rightarrow> err option \<times> 'x world proxy \<times> 'x world" where
  "Update E cf mf c p w =
    (case update_loop E cf mf (gc_middlewares c) (gc_endpoints c) (new_router E) 0 [] w of
       (r, k, ds, w1) \<Rightarrow>
         if k = 0 \<and> gc_endpoints c \<noteq> [] then
           (let er = update_error (length (gc_endpoints c))
            in (Some er, p, foldl (\<lambda>w d. closeOnError d (Some er) w) w1 ds))
         else (None, tryCloseRouter (py_router p) (p\<lparr>py_router := r\<rparr>),
               foldl (\<lambda>w d. closeOnError d None w) w1 ds))"

text \<open>ServeHTTP: a panic of the router is answered with a bad gateway.\<close>

definition proxy_ServeHTTP :: "'x proxy_env \<Rightarrow> 'x world proxy \<Rightarrow> 'x world handler" where
  "proxy_ServeHTTP E p wr req w =
    (case mux_ServeHTTP (px_gorilla E) (py_router p) wr req w of
       Finished wr1 w1 \<Rightarrow> Finished wr1 w1
     | HPanic wr1 w1 \<Rightarrow>
         write_outcome (px_libs E) wr1 (req\<lparr>rq_path := cleanPath (rq_path req)\<rparr>)
           (KratosErr ErrBadGateway) [] (\<lambda>_ w. w) w1)"


section \<open>Lemmas on the retry loop\<close>

definition count_events :: "(event \<Rightarrow> bool) \<Rightarrow> 'x world \<Rightarrow> nat" where
  "count_events p w = length (filter p (w_events w))"

definition is_upstream :: "event \<Rightarrow> bool" where
  "is_upstream ev = (case ev of EvUpstream n r \<Rightarrow> True | _ \<Rightarrow> False)"

definition is_breaker :: "event \<Rightarrow> bool" where
  "is_breaker ev = (case ev of EvBreaker b \<Rightarrow> True | _ \<Rightarrow> False)"

abbreviation upstream_calls :: "'x world \<Rightarrow> nat" where
  "upstream_calls \<equiv> count_events is_upstream"

lemma count_emit [simp]: "count_events p (emit ev w) = count_events p w + (if p ev then 1 else 0)"
  by (simp add: count_events_def)

lemma count_upd [simp]:
  "count_events p (upd_opts f w) = count_events p w" "count_events p (upd_ext g w) = count_events p w"
  by (simp_all add: count_events_def)

lemma is_upstream_simps [simp]:
  "is_upstream (EvUpstream n r)" "\<not> is_upstream (EvCounter a b c)" "\<not> is_upstream (EvObserve a b)"
  "\<not> is_upstream (EvBreaker t)" "\<not> is_upstream (EvDone d e)" "\<not> is_upstream (EvBodyClosed rs)"
  by (simp_all add: is_upstream_def)

lemma mark_no_upstream [simp]:
  "upstream_calls (markFailed E e req i er w) = upstream_calls w"
  "upstream_calls (markSuccess E e req i w) = upstream_calls w"
  "upstream_calls (set_last_attempt w) = upstream_calls w"
  by (simp_all add: markFailed_def markSuccess_def markFailedStat_def markSuccessStat_def
      retryStateIncr_def Let_def set_last_attempt_def)

fun loop_world :: "'w loop_result \<Rightarrow> 'w" where
  "loop_world (LoopDone r e w) = w"
| "loop_world (LoopPanic w) = w"

fun step_world :: "'w step_result \<Rightarrow> 'w" where
  "step_world (Stop r) = loop_world r"
| "step_world (Again r e w) = w"

lemma after_round_trip_simps:
  "after_round_trip E e conds req i (Panicked, w) = Stop (LoopPanic w)"
  "after_round_trip E e conds req i (Ret r1 (Some e1), w) =
     (if auth_rejection (px_libs E) e1 then Stop (LoopDone r1 (Some e1) w)
      else Again r1 (Some e1) (markFailed E e req i e1 w))"
  "after_round_trip E e conds req i (Ret None None, w) =
     (if conds = [] then Stop (LoopDone None None (markSuccess E e req i (set_last_attempt w)))
      else Stop (LoopPanic w))"
  "after_round_trip E e conds req i (Ret (Some r2) None, w) =
     (if \<not> judgeRetryRequired conds r2
      then Stop (LoopDone (Some r2) None (markSuccess E e req i (set_last_attempt w)))
      else Again (Some r2) None (markFailed E e req i assertion_failed w))"
  by (simp_all add: after_round_trip_def split: option.split)

lemma after_round_trip_upstream:
  "upstream_calls (step_world (after_round_trip E e conds req i (res, w))) = upstream_calls w"
  by (simp add: after_round_trip_def split: rt_result.split option.split)

text \<open>The four ways an attempt goes: not made, denied by the breaker, too
  late, or made in a world with the same events.\<close>

lemma attempt_cases:
  obtains (off) "attempt E e conds tripper req final i resp er w = Stop (LoopDone resp er w)" "0 < i"
  | (denied) be x1 where "attempt E e conds tripper req final i resp er w =
        Stop (LoopDone resp er (markFailed E e req i be (upd_ext (\<lambda>_. x1) w)))" "0 < i"
  | (expired) ce w2 where "attempt E e conds tripper req final i resp er w =
        Stop (LoopDone resp (Some ce) (markFailed E e req i ce w2))"
      "w_events w2 = w_events w"
  | (tried) w2 where "attempt E e conds tripper req final i resp er w =
        after_round_trip E e conds req i (tripper (attempt_request req) w2)"
      "w_events w2 = w_events w"
proof (cases "0 < i \<and> \<not> px_retry_enabled E (w_ext w)")
  case True
  then show thesis using off by (simp add: attempt_def)
next
  case False
  obtain den x1 where ba: "(if 0 < i then px_breaker_allow E e (w_ext w) else (None, w_ext w)) = (den, x1)"
    by (cases "if 0 < i then px_breaker_allow E e (w_ext w) else (None, w_ext w)")
  define w2 where "w2 = (if final then set_last_attempt (upd_ext (\<lambda>_. x1) w) else upd_ext (\<lambda>_. x1) w)"
  have w2: "w_events w2 = w_events w" by (simp add: w2_def set_last_attempt_def)
  note eq = attempt_def [of E e conds tripper req final i resp er w, unfolded if_not_P [OF False] ba prod.case]
  show thesis
  proof (cases den)
    case None
    note eq' = eq [unfolded None option.case Let_def, folded w2_def]
    show thesis
    proof (cases "px_ctx_err E (w_ext w2)")
      case e: None
      show thesis using tried [OF _ w2] eq' by (simp add: e)
    next
      case (Some ce)
      show thesis using expired [OF _ w2, of ce] eq' by (simp add: Some)
    qed
  next
    case (Some be)
    have "0 < i" using ba Some by (auto split: if_splits)
    then show thesis using denied [of be x1] eq Some by simp
  qed
qed

lemma attempt_calls:
  assumes "\<And>r w. upstream_calls (snd (tripper r w)) \<le> upstream_calls w + k"
  shows "upstream_calls (step_world (attempt E e conds tripper req final i resp er w)) \<le> upstream_calls w + k"
proof (cases rule: attempt_cases [of E e conds tripper req final i resp er w])
  case (tried w2)
  have "upstream_calls w2 = upstream_calls w" using tried(2) by (simp add: count_events_def)
  then show ?thesis
    using tried(1) assms [of "attempt_request req" w2]
      after_round_trip_upstream [of E e conds req i "fst (tripper (attempt_request req) w2)"
        "snd (tripper (attempt_request req) w2)"]
    by simp
next
  case (expired ce w2)
  then show ?thesis by (simp add: count_events_def [of is_upstream w] count_events_def [of is_upstream w2])
qed simp_all

lemma retry_loop_calls:
  assumes "\<And>r w. upstream_calls (snd (tripper r w)) \<le> upstream_calls w + k"
  shows "upstream_calls (loop_world (retry_loop E e conds tripper req n i resp er w)) \<le> upstream_calls w + n * k"
proof (induction n arbitrary: i resp er w)
  case (Suc n)
  have a: "upstream_calls (step_world (attempt E e conds tripper req (n = 0) i resp er w)) \<le> upstream_calls w + k"
    using assms by (rule attempt_calls)
  show ?case
  proof (cases "attempt E e conds tripper req (n = 0) i resp er w")
    case (Stop r)
    then show ?thesis using a by simp
  next
    case (Again r1 e1 w1)
    then show ?thesis using a Suc [of "Suc i" r1 e1 w1] by simp
  qed
qed simp

end
