(* ===== verification/Proxy_Spec.thy ===== *)
theory Proxy_Spec
  imports Proxy
begin

text \<open>
  What the proxy promises: an abstract specification of the retry loop that
  the handler refines, bounds on the requests a client request causes, the
  order of the middleware chain, the release of resources on failed
  construction, the atomicity of updates and the absence of unanswered
  panics.
\<close>

section \<open>The abstract retry loop\<close>

text \<open>What one pass through the loop meets: whether retries are enabled and what
  the retry breaker says (both asked from the second pass on), whether the
  request is too late, and what the chain answers.\<close>

record turn =
  tn_enabled :: bool
  tn_denied :: "err option"
  tn_late :: "err option"
  tn_result :: rt_result

text \<open>What the client is owed, over the turns: the last result stands when
  retries are off, denied or used up; a deadline replaces the error; an
  authentication rejection and the first response no condition wants retried end
  the loop.  \<open>None\<close> is a panic; the number counts the calls of the chain.\<close>

fun retry_spec :: "(err \<Rightarrow> bool) \<Rightarrow> condition list \<Rightarrow> bool \<Rightarrow> turn list \<Rightarrow> response option \<times> err option
    \<Rightarrow> (response option \<times> err option) option \<times> nat" where
  "retry_spec auth conds retrying [] prev = (Some prev, 0)"
| "retry_spec auth conds retrying (t # ts) prev =
     (if retrying \<and> (\<not> tn_enabled t \<or> tn_denied t \<noteq> None) then (Some prev, 0)
      else
        (case tn_late t of
           Some e \<Rightarrow> (Some (fst prev, Some e), 0)
         | None \<Rightarrow>
             (let again = (\<lambda>res. map_prod id Suc (retry_spec auth conds True ts res))
              in case tn_result t of
                   Panicked \<Rightarrow> (None, 1)
                 | Ret r (Some e) \<Rightarrow> if auth e then (Some (r, Some e), 1) else again (r, Some e)
                 | Ret None None \<Rightarrow> (if conds = [] then Some (None, None) else None, 1)
                 | Ret (Some r) None \<Rightarrow>
                     if judgeRetryRequired conds r then again (Some r, None) else (Some (Some r, None), 1))))"

text \<open>The turns the process deals to the loop, pass after pass, from the world
  \<open>w\<close> on: the breaker is asked from the second pass on, the chain gets the body
  again, and a pass that ends in another one marks a failure first.  Nothing is
  asked of the environment: what it answers can depend on all that was done to
  it, marks included.\<close>

definition turn_error :: "rt_result \<Rightarrow> err" where
  "turn_error res = (case res of Ret r (Some e) \<Rightarrow> e | _ \<Rightarrow> assertion_failed)"

fun turns :: "'x proxy_env \<Rightarrow> endpoint \<Rightarrow> 'x world round_tripper \<Rightarrow> request \<Rightarrow> nat \<Rightarrow> nat \<Rightarrow> 'x world \<Rightarrow> turn list" where
  "turns E e tripper req 0 i w = []"
| "turns E e tripper req (Suc n) i w =
     (let ba = (if 0 < i then px_breaker_allow E e (w_ext w) else (None, w_ext w));
          w1 = upd_ext (\<lambda>_. snd ba) w;
          w2 = (if n = 0 then set_last_attempt w1 else w1);
          rt = tripper (attempt_request req) w2
      in \<lparr>tn_enabled = px_retry_enabled E (w_ext w), tn_denied = fst ba, tn_late = px_ctx_err E (w_ext w2), tn_result = fst rt\<rparr>
         # turns E e tripper req n (Suc i) (markFailed E e req i (turn_error (fst rt)) (snd rt)))"

fun loop_answer :: "'x world loop_result \<Rightarrow> (response option \<times> err option) option" where
  "loop_answer (LoopDone r er w) = Some (r, er)"
| "loop_answer (LoopPanic w) = None"

text \<open>A RoundTripper that plays a script kept in the world.\<close>

definition scripted :: "(response option \<times> err option) list world round_tripper" where
  "scripted r w = (Ret (fst (hd (w_ext w))) (snd (hd (w_ext w))), upd_ext tl w)"

text \<open>Nothing but the results decides: retries are enabled, the breaker
  allows, no deadline expires, and the marks do not touch the script.\<close>

definition permissive :: "'x proxy_env \<Rightarrow> bool" where
  "permissive E \<longleftrightarrow> (\<forall>x. px_retry_enabled E x) \<and> (\<forall>e x. px_breaker_allow E e x = (None, x))
    \<and> (\<forall>x. px_ctx_err E x = None) \<and> (\<forall>e b x. px_breaker_mark E e b x = x)"

lemma mark_ext [simp]:
  assumes "permissive E"
  shows "w_ext (markFailed E e req i er w) = w_ext w" "w_ext (markSuccess E e req i w) = w_ext w"
  using assms by (simp_all add: permissive_def markFailed_def markSuccess_def markFailedStat_def
      markSuccessStat_def retryStateIncr_def Let_def)

lemma set_last_count [simp]: "count_events p (set_last_attempt w) = count_events p w"
  by (simp add: set_last_attempt_def)

lemma set_last_ext [simp]: "w_ext (set_last_attempt w) = w_ext w"
  by (simp add: set_last_attempt_def)

lemma attempt_permissive:
  assumes "permissive E"
  shows "attempt E e conds tripper req final i resp er w =
    after_round_trip E e conds req i
      (tripper (attempt_request req)
        (if final then set_last_attempt (upd_ext (\<lambda>_. w_ext w) w) else upd_ext (\<lambda>_. w_ext w) w))"
  using assms by (simp add: attempt_def permissive_def Let_def)

lemma retry_loop_refines:
  assumes one: "\<And>r w. upstream_calls (snd (tripper r w)) = Suc (upstream_calls w)"
  shows "retry_spec (auth_rejection (px_libs E)) conds (0 < i) (turns E e tripper req n i w) (resp, er) = (a, k) \<Longrightarrow>
    loop_answer (retry_loop E e conds tripper req n i resp er w) = a
    \<and> upstream_calls (loop_world (retry_loop E e conds tripper req n i resp er w)) = upstream_calls w + k"
proof (induction n arbitrary: i resp er w a k)
  case (Suc n)
  obtain den x1 where ba: "(if 0 < i then px_breaker_allow E e (w_ext w) else (None, w_ext w)) = (den, x1)"
    by (cases "if 0 < i then px_breaker_allow E e (w_ext w) else (None, w_ext w)")
  define w2 where "w2 = (if n = 0 then set_last_attempt (upd_ext (\<lambda>_. x1) w) else upd_ext (\<lambda>_. x1) w)"
  obtain res w3 where rt: "tripper (attempt_request req) w2 = (res, w3)" by fastforce
  have calls: "upstream_calls w2 = upstream_calls w" "upstream_calls w3 = Suc (upstream_calls w)"
    using one [of "attempt_request req" w2] rt by (simp_all add: w2_def)
  define ts where "ts = turns E e tripper req n (Suc i) (markFailed E e req i (turn_error res) w3)"
  have spec: "turns E e tripper req (Suc n) i w =
      \<lparr>tn_enabled = px_retry_enabled E (w_ext w), tn_denied = den, tn_late = px_ctx_err E (w_ext w2), tn_result = res\<rparr> # ts"
    unfolding turns.simps ba Let_def snd_conv fst_conv w2_def [symmetric] rt ts_def ..
  note att = attempt_def [of E e conds tripper req "n = 0" i resp er w, unfolded ba prod.case Let_def, folded w2_def, unfolded rt]
  have den0: "i = 0 \<Longrightarrow> den = None" using ba by simp
  note prems = Suc.prems [unfolded spec retry_spec.simps turn.simps]
  show ?case
  proof (cases "0 < i \<and> (\<not> px_retry_enabled E (w_ext w) \<or> den \<noteq> None)")
    case True
    then show ?thesis using prems att by (auto split: option.splits)
  next
    case go: False
    then have den: "den = None" using den0 by auto
    show ?thesis
    proof (cases "px_ctx_err E (w_ext w2)")
      case (Some ce)
      then show ?thesis using prems [unfolded if_not_P [OF go]] att go den calls by auto
    next
      case None
      have att': "attempt E e conds tripper req (n = 0) i resp er w = after_round_trip E e conds req i (res, w3)"
        using att go den None by auto
      note prems' = prems [unfolded if_not_P [OF go] None option.case Let_def]
      have rec: "loop_answer (retry_loop E e conds tripper req n (Suc i) r1 e1 w4) = a' \<and>
          upstream_calls (loop_world (retry_loop E e conds tripper req n (Suc i) r1 e1 w4)) = upstream_calls w + k'"
        if "w4 = markFailed E e req i (turn_error res) w3"
          "map_prod id Suc (retry_spec (auth_rejection (px_libs E)) conds True ts (r1, e1)) = (a', k')" for r1 e1 w4 a' k'
        using Suc.IH [of "Suc i" w4 r1 e1] that calls
        by (cases "retry_spec (auth_rejection (px_libs E)) conds True ts (r1, e1)") (auto simp: ts_def)
      show ?thesis
      proof (cases res)
        case Panicked
        then show ?thesis using prems' att' calls by (simp add: after_round_trip_simps)
      next
        case (Ret r1 e1)
        then show ?thesis
          using prems' att' calls rec
          by (cases r1; cases e1) (auto simp: after_round_trip_simps turn_error_def split: if_splits)
      qed
    qed
  qed
qed simp


definition sample_env :: "'x proxy_env" where
  "sample_env = \<lparr>px_libs = sample_libs, px_gorilla = sample_gorilla, px_strict = False,
     px_metrics = (\<lambda>wr r w. Finished wr w), px_ctx_err = (\<lambda>x. None), px_retry_enabled = (\<lambda>x. True),
     px_breaker_allow = (\<lambda>e x. (None, x)), px_breaker_mark = (\<lambda>e b x. x),
     px_write = (\<lambda>s x. ((length s, None), x))\<rparr>"

definition sample_response :: "int \<Rightarrow> response" where
  "sample_response st = \<lparr>rs_status = st, rs_header = Some [''Content-Type'' \<mapsto> [''text/plain'']],
     rs_trailer = Map.empty, rs_body = Some \<lparr>bd_data = ''hello'', bd_err = None\<rparr>, rs_content_length = 5\<rparr>"

definition sample_world :: "'x \<Rightarrow> 'x world" where
  "sample_world x = \<lparr>w_opts = NewRequestOptions sample_endpoint, w_events = [], w_ext = x\<rparr>"

lemma sample_permissive: "permissive sample_env"
  by (simp add: permissive_def sample_env_def)

lemma sample_judge: "judgeRetryRequired [ByStatusCode [500, 599]] (sample_response st) = (500 \<le> st \<and> st \<le> 599)"
  by (simp add: judgeRetryRequired_iff byStatusCode_Judge_def sample_response_def)

definition sample_script :: "(response option \<times> err option) list" where
  "sample_script = [(Some (sample_response 503), None), (Some (sample_response 200), None),
     (Some (sample_response 404), None)]"

text \<open>A process whose state is a script and the number of failures marked with
  the retry breaker, which denies once it heard of one.\<close>

definition breaking_env :: "((response option \<times> err option) list \<times> nat) proxy_env" where
  "breaking_env = sample_env\<lparr>
     px_breaker_allow := (\<lambda>e x. (if snd x = 0 then None else Some (PlainErr ''retry breaker is open''), x)),
     px_breaker_mark := (\<lambda>e good x. if good then x else apsnd Suc x)\<rparr>"

definition play :: "((response option \<times> err option) list \<times> nat) world round_tripper" where
  "play r w =
    (case fst (w_ext w) of [] \<Rightarrow> Panicked | (p, e) # s \<Rightarrow> Ret p e,
     upd_ext (apfst tl) (emit (EvUpstream (newNode ''10.0.0.2:80'' HTTP None [] [] ''shop'') r) w))"

lemma play_calls: "upstream_calls (snd (play r w)) = Suc (upstream_calls w)"
  by (simp add: play_def)


section \<open>Requests upstream\<close>

fun outcome_world :: "'w outcome \<Rightarrow> 'w" where
  "outcome_world (Finished wr w) = w"
| "outcome_world (HPanic wr w) = w"

fun outcome_writer :: "'w outcome \<Rightarrow> response_writer" where
  "outcome_writer (Finished wr w) = wr"
| "outcome_writer (HPanic wr w) = wr"

lemma finally_sel [simp]:
  "outcome_world (and_finally f oc) = f (outcome_world oc)"
  "outcome_writer (and_finally f oc) = outcome_writer oc"
  by (cases oc; simp)+

text \<open>Kinds of events that answering a client does not produce.\<close>

definition quiet :: "(event \<Rightarrow> bool) \<Rightarrow> bool" where
  "quiet p \<longleftrightarrow> (\<forall>n ls k. \<not> p (EvCounter n ls k)) \<and> (\<forall>n ls. \<not> p (EvObserve n ls))
    \<and> (\<forall>d e. \<not> p (EvDone d e)) \<and> (\<forall>r. \<not> p (EvBodyClosed r))"

lemma quiet_kinds [simp]: "quiet is_upstream" "quiet is_breaker"
  by (simp_all add: quiet_def is_upstream_def is_breaker_def)

lemma metrics_quiet [simp]:
  assumes "quiet p"
  shows "count_events p (requestsTotalIncr req l c w) = count_events p w"
    "count_events p (requestsDurationObserve req ml w) = count_events p w"
    "count_events p (receivedBytesAdd req ml n w) = count_events p w"
    "count_events p (sentBytesAdd req ml n w) = count_events p w"
    "count_events p (call_done de w) = count_events p w"
  using assms by (simp_all add: quiet_def requestsTotalIncr_def requestsDurationObserve_def
      receivedBytesAdd_def sentBytesAdd_def call_done_def split: option.split)

lemma quiet_closed: "quiet p \<Longrightarrow> \<not> p (EvBodyClosed r)"
  by (simp add: quiet_def)

lemma writeError_quiet: "quiet p \<Longrightarrow> count_events p (outcome_world (writeError L wr req e l w)) = count_events p w"
  by (simp add: writeError_def write_outcome_def split: option.split)

lemma doCopyBody_quiet: "quiet p \<Longrightarrow> count_events p (snd (doCopyBody E l req resp wr w)) = count_events p w"
  by (auto simp: doCopyBody_def Let_def quiet_closed split: option.split prod.split)

lemma send_response_quiet:
  "quiet p \<Longrightarrow> count_events p (outcome_world (send_response E l req resp wr w)) = count_events p w"
  using doCopyBody_quiet [of p E l req resp _ w]
  by (auto simp: send_response_def Let_def split: option.split prod.split) (metis snd_conv)

text \<open>C4: One client request causes at most attempts times k requests
  upstream, where k bounds what one pass through the middleware chain and the
  client sends; this holds for every outcome, panics included.\<close>

theorem handler_upstream_bound:
  assumes "\<And>r w. upstream_calls (snd (tripper r w)) \<le> upstream_calls w + k"
  shows "upstream_calls (outcome_world (endpoint_handler E e rs tripper wr req w))
    \<le> upstream_calls w + nat (rt_attempts rs) * k"
proof -
  define l where "l = NewMetricsLabels e"
  define rq where "rq = setXFFHeader (WithRequestPath req (rq_path req))"
  define w1 where "w1 = upd_opts (\<lambda>_. NewRequestOptions e) w"
  define lp where "lp = retry_loop E e (rt_conditions rs) tripper rq (nat (rt_attempts rs)) 0 None None
      (receivedBytesAdd rq l (int (length (bd_data (rq_body rq)))) w1)"
  have w1: "upstream_calls w1 = upstream_calls w" by (simp add: w1_def)
  have lp: "upstream_calls (loop_world lp) \<le> upstream_calls w + nat (rt_attempts rs) * k"
    unfolding lp_def using retry_loop_calls [of tripper k, OF assms] w1
    by (metis metrics_quiet(3) quiet_kinds(1))
  have "upstream_calls (outcome_world (endpoint_handler E e rs tripper wr req w)) =
      (case bd_err (rq_body rq) of
         Some be \<Rightarrow> upstream_calls w
       | None \<Rightarrow> upstream_calls (loop_world lp))"
    by (auto simp: endpoint_handler_def Let_def l_def [symmetric] rq_def [symmetric] w1_def [symmetric]
        lp_def [symmetric] writeError_quiet send_response_quiet w1
        split: option.split loop_result.split)
  then show ?thesis using lp by (simp split: option.splits)
qed


text \<open>A RoundTripper that records one request upstream and plays a script.\<close>

definition recorded :: "(response option \<times> err option) list world round_tripper" where
  "recorded r w = scripted r (emit (EvUpstream (newNode ''10.0.0.2:80'' HTTP None [] [] ''shop'') r) w)"

lemma recorded_calls: "upstream_calls (snd (recorded r w)) \<le> upstream_calls w + 1"
  by (simp add: recorded_def scripted_def)

theorem handler_upstream_bound_witness:
  "upstream_calls (outcome_world (endpoint_handler sample_env sample_endpoint
      \<lparr>rt_attempts = 3, rt_timeout = 1, rt_per_try_timeout = 1, rt_conditions = []\<rparr>
      recorded new_writer sample_request (sample_world sample_script))) \<le> 3"
  using handler_upstream_bound [of recorded 1, OF recorded_calls, of "sample_env" sample_endpoint
      "\<lparr>rt_attempts = 3, rt_timeout = 1, rt_per_try_timeout = 1, rt_conditions = []\<rparr>"
      new_writer sample_request "sample_world sample_script"]
  by (simp add: sample_world_def count_events_def)

section \<open>Answers\<close>

lemma attempt_first_ok:
  assumes "px_ctx_err E (w_ext w) = None"
    and "tripper (attempt_request req) (if final then set_last_attempt w else w) = (Ret (Some resp) None, w1)"
    and "\<not> judgeRetryRequired conds resp"
  shows "attempt E e conds tripper req final 0 r0 e0 w = Stop (LoopDone (Some resp) None (set_last_attempt w1))"
  using assms by (cases final) (simp_all add: attempt_def Let_def after_round_trip_simps markSuccess_def markSuccessStat_def)

text \<open>The response the client receives is the one the chain returned.\<close>

lemma doCopyBody_sent: "rw_sent wr = Some x \<Longrightarrow> rw_sent (fst (doCopyBody E l req resp wr w)) = Some x"
  by (auto simp: doCopyBody_def Let_def writeChunk_sent add_trailers_def split: option.split prod.split)

lemma send_response_eq:
  assumes "rw_sent wr = None" "rw_header wr = Map.empty" "200 \<le> rs_status resp" "rs_status resp \<le> 999"
  shows "\<exists>wr2. send_response E l req resp wr w =
        Finished (fst (doCopyBody E l req resp wr2 w))
          (requestsTotalIncr req (Some l) (rs_status resp) (snd (doCopyBody E l req resp wr2 w)))
      \<and> rw_sent wr2 = Some (rs_status resp, case rs_header resp of None \<Rightarrow> Map.empty | Some h \<Rightarrow> h)
      \<and> rw_chunks wr2 = rw_chunks wr"
proof -
  define wr1 where "wr1 = copy_header (rs_header resp) wr"
  define wr2 where "wr2 = wr1\<lparr>rw_sent := Some (rs_status resp, rw_header wr1)\<rparr>"
  have h: "rw_header wr1 = (case rs_header resp of None \<Rightarrow> Map.empty | Some h \<Rightarrow> h)"
    "rw_sent wr1 = None" "rw_chunks wr1 = rw_chunks wr"
    using assms(1,2) by (auto simp: wr1_def copy_header_def split: option.split)
  have wh: "writeHeader (rs_status resp) wr1 = Some wr2"
    using h assms(3,4) by (simp add: writeHeader_def wr2_def)
  have "send_response E l req resp wr w = Finished (fst (doCopyBody E l req resp wr2 w))
          (requestsTotalIncr req (Some l) (rs_status resp) (snd (doCopyBody E l req resp wr2 w)))"
    by (simp add: send_response_def Let_def wr1_def [symmetric] wh split: prod.split)
  then show ?thesis using h by (auto simp: wr2_def)
qed

lemma doCopyBody_full:
  assumes "rs_body resp = Some \<lparr>bd_data = data, bd_err = None\<rparr>" "data \<noteq> []"
    and "fst (px_write E data (w_ext w)) = (n, None)"
  shows "rw_chunks (fst (doCopyBody E l req resp wr w)) = rw_chunks wr @ [RawBytes data]"
  using assms by (auto simp: doCopyBody_def Let_def writeChunk_def add_trailers_def split: prod.split)

text \<open>C7: When the first attempt returns a response no retry condition
  matches, the client receives exactly that status, those headers and that
  body, after one call of the chain, and the retry breaker is not touched.\<close>

theorem first_response_forwarded:
  assumes "tripper (attempt_request rq)
        (let w1 = receivedBytesAdd rq (NewMetricsLabels e) (int (length (bd_data (rq_body req))))
                    (upd_opts (\<lambda>_. NewRequestOptions e) w)
         in if rt_attempts rs = 1 then set_last_attempt w1 else w1) = (Ret (Some resp) None, w1)"
    and "rq = setXFFHeader (WithRequestPath req (rq_path req))"
    and "1 \<le> rt_attempts rs" "bd_err (rq_body req) = None" "px_ctx_err E (w_ext w) = None"
    and "\<not> judgeRetryRequired (rt_conditions rs) resp"
    and "200 \<le> rs_status resp" "rs_status resp \<le> 999"
    and "rs_body resp = Some \<lparr>bd_data = data, bd_err = None\<rparr>" "data \<noteq> []"
    and "fst (px_write E data (w_ext w1)) = (length data, None)"
  shows "\<exists>wr' w'. endpoint_handler E e rs tripper new_writer req w = Finished wr' w'
    \<and> rw_sent wr' = Some (rs_status resp, case rs_header resp of None \<Rightarrow> Map.empty | Some h \<Rightarrow> h)
    \<and> rw_chunks wr' = [RawBytes data]
    \<and> count_events is_breaker w' = count_events is_breaker w1"
proof -
  define l where "l = NewMetricsLabels e"
  define w0 where "w0 = receivedBytesAdd rq l (int (length (bd_data (rq_body req)))) (upd_opts (\<lambda>_. NewRequestOptions e) w)"
  obtain n where n: "nat (rt_attempts rs) = Suc n"
    using assms(3) by (cases "nat (rt_attempts rs)") auto
  have fin: "(n = 0) = (rt_attempts rs = 1)" using n assms(3) by linarith
  have body: "rq_body rq = rq_body req"
    by (auto simp: assms(2) setXFFHeader_def WithRequestPath_def split: option.split prod.split list.split)
  have ctx: "px_ctx_err E (w_ext w0) = None"
    using assms(5) by (simp add: w0_def receivedBytesAdd_def)
  have att: "attempt E e (rt_conditions rs) tripper rq (n = 0) 0 None None w0
      = Stop (LoopDone (Some resp) None (set_last_attempt w1))"
  proof (rule attempt_first_ok [OF ctx _ assms(6)])
    show "tripper (attempt_request rq) (if n = 0 then set_last_attempt w0 else w0) = (Ret (Some resp) None, w1)"
      unfolding fin w0_def l_def using assms(1) unfolding Let_def .
  qed
  have loop: "retry_loop E e (rt_conditions rs) tripper rq (nat (rt_attempts rs)) 0 None None w0
      = LoopDone (Some resp) None (set_last_attempt w1)"
    by (simp add: n att)
  have fresh: "rw_sent new_writer = None" "rw_header new_writer = Map.empty" "rw_chunks new_writer = []"
    by (simp_all add: new_writer_def)
  have handler: "endpoint_handler E e rs tripper new_writer req w =
      and_finally (requestsDurationObserve rq l) (send_response E l rq resp new_writer (set_last_attempt w1))"
    using loop assms(4) body
    by (simp add: endpoint_handler_def Let_def assms(2) [symmetric] l_def [symmetric] w0_def [symmetric])
  obtain wr2 where send: "send_response E l rq resp new_writer (set_last_attempt w1) =
        Finished (fst (doCopyBody E l rq resp wr2 (set_last_attempt w1)))
          (requestsTotalIncr rq (Some l) (rs_status resp) (snd (doCopyBody E l rq resp wr2 (set_last_attempt w1))))"
      and sent: "rw_sent wr2 = Some (rs_status resp, case rs_header resp of None \<Rightarrow> Map.empty | Some h \<Rightarrow> h)"
      and ch: "rw_chunks wr2 = []"
    using send_response_eq [OF fresh(1,2) assms(7,8), of E l rq "set_last_attempt w1"] fresh(3) by auto
  have full: "rw_chunks (fst (doCopyBody E l rq resp wr2 (set_last_attempt w1))) = [RawBytes data]"
    using doCopyBody_full [OF assms(9,10), of E "set_last_attempt w1" "length data" l rq wr2] assms(11) ch by simp
  show ?thesis
    using full doCopyBody_sent [OF sent, of E l rq resp "set_last_attempt w1"]
      doCopyBody_quiet [of is_breaker E l rq resp wr2 "set_last_attempt w1"]
    by (simp add: handler send)
qed


definition one_try :: retry_strategy where
  "one_try = \<lparr>rt_attempts = 1, rt_timeout = 1, rt_per_try_timeout = 1, rt_conditions = []\<rparr>"

theorem first_response_forwarded_witness:
  "\<exists>wr' w'. endpoint_handler sample_env sample_endpoint one_try recorded new_writer sample_request
        (sample_world [(Some (sample_response 200), None)]) = Finished wr' w'
    \<and> rw_chunks wr' = [RawBytes ''hello''] \<and> count_events is_breaker w' = 0"
proof -
  let ?w = "sample_world [(Some (sample_response 200), None)] :: (response option \<times> err option) list world"
  define rq where "rq = setXFFHeader (WithRequestPath sample_request (rq_path sample_request))"
  define w0 where "w0 = set_last_attempt (receivedBytesAdd rq (NewMetricsLabels sample_endpoint)
      (int (length (bd_data (rq_body sample_request)))) (upd_opts (\<lambda>_. NewRequestOptions sample_endpoint) ?w))"
  define w1 where "w1 = snd (recorded (attempt_request rq) w0)"
  have t: "recorded (attempt_request rq) w0 = (Ret (Some (sample_response 200)) None, w1)"
    by (simp add: w1_def recorded_def scripted_def w0_def receivedBytesAdd_def sample_world_def)
  have nobreak: "count_events is_breaker w1 = 0"
    by (simp add: w1_def recorded_def scripted_def w0_def receivedBytesAdd_def sample_world_def
        count_events_def is_breaker_def set_last_attempt_def)
  show ?thesis
    using first_response_forwarded [of recorded rq sample_endpoint sample_request ?w one_try
        "sample_response 200" w1 "sample_env" "''hello''"] t nobreak
    by (auto simp: one_try_def Let_def w0_def rq_def sample_env_def judgeRetryRequired_iff
        sample_response_def sample_request_def)
qed


section \<open>The middleware chain\<close>

text \<open>The result a factory gives a configuration, when it does not depend on
  the world; an entry either stops the construction or is one layer (an
  unknown one the identity).\<close>

definition fatal :: "gw_libs \<Rightarrow> (mw_config \<Rightarrow> err + 'w middleware_v2) \<Rightarrow> mw_config \<Rightarrow> bool" where
  "fatal L res c = (case res c of Inl e \<Rightarrow> \<not> err_is (lib_kratos_is L) e ErrNotFound | Inr m \<Rightarrow> False)"

definition layer :: "(mw_config \<Rightarrow> err + 'w middleware_v2) \<Rightarrow> mw_config \<Rightarrow> 'w middleware" where
  "layer res c t = (case res c of Inl e \<Rightarrow> t | Inr m \<Rightarrow> mi_process m t)"

lemma build_rev_append:
  "build_rev G mf (xs @ ys) t w =
    (case build_rev G mf xs t w of (Inl e, w1) \<Rightarrow> (Inl e, w1) | (Inr t1, w1) \<Rightarrow> build_rev G mf ys t1 w1)"
  by (induction xs arbitrary: t w) (auto split: prod.split sum.split)

text \<open>What every middleware of a list keeps of the round tripper it wraps.\<close>

lemma build_rev_keeps:
  assumes "\<And>c w m w' t. c \<in> set cs \<Longrightarrow> mf c w = (Inr m, w') \<Longrightarrow> P t \<Longrightarrow> P (mi_process m t)"
    and "build_rev G mf cs t w = (Inr t', w')" and "P t"
  shows "P t'"
  using assms
proof (induction cs arbitrary: t w)
  case (Cons c cs)
  obtain r w1 where m: "mf c w = (r, w1)" by (cases "mf c w")
  have rest: "P (mi_process m t)" if "c' \<in> set cs" "mf c' w = (Inr m, w')" "P t" for c' w m w' t
    using Cons.prems(1) [of c'] that by simp
  show ?case
  proof (cases r)
    case (Inl e)
    then have "build_rev G mf cs t w1 = (Inr t', w')" using Cons.prems(2) m by (auto split: if_splits)
    from Cons.IH [OF rest this Cons.prems(3)] show ?thesis .
  next
    case (Inr mi)
    then have p: "P (mi_process mi t)" using Cons.prems(1) [of c w mi w1 t] Cons.prems(3) m by simp
    have "build_rev G mf cs (mi_process mi t) w1 = (Inr t', w')" using Cons.prems(2) m Inr by simp
    from Cons.IH [OF rest this p] show ?thesis .
  qed
qed simp

lemma build_rev_chain:
  assumes "\<And>c w. fst (mf c w) = res c" "list_all (\<lambda>c. \<not> fatal L res c) cs"
  shows "fst (build_rev L mf cs t w) = Inr (fold (layer res) cs t)"
  using assms(2)
proof (induction cs arbitrary: t w)
  case (Cons c cs)
  obtain r w1 where m: "mf c w = (r, w1)" by (cases "mf c w")
  with assms(1) have r: "r = res c" by (metis fst_conv)
  have IH: "fst (build_rev L mf cs t' w1) = Inr (fold (layer res) cs t')" for t'
    using Cons by simp
  show ?case
  proof (cases r)
    case (Inl e)
    then have "layer res c t = t" "err_is (lib_kratos_is L) e ErrNotFound"
      using r Cons.prems by (simp_all add: layer_def fatal_def)
    then show ?thesis using m Inl IH by simp
  next
    case (Inr mi)
    then have "layer res c t = mi_process mi t" using r by (simp add: layer_def)
    then show ?thesis using m Inr IH by simp
  qed
qed simp

lemma build_rev_fatal:
  assumes "\<And>c w. fst (mf c w) = res c"
  shows "\<exists>c\<in>set cs. fatal L res c \<Longrightarrow> \<exists>e. fst (build_rev L mf cs t w) = Inl e"
proof (induction cs arbitrary: t w)
  case (Cons c cs)
  obtain r w1 where m: "mf c w = (r, w1)" by (cases "mf c w")
  with assms(1) have r: "r = res c" by (metis fst_conv)
  then show ?case using Cons m by (cases r) (auto simp: fatal_def split: sum.splits)
qed simp

lemma buildMiddleware_chain:
  assumes "\<And>c w. fst (mf c w) = res c" "list_all (\<lambda>c. \<not> fatal L res c) ms"
  shows "fst (buildMiddleware L mf ms t w) = Inr (foldr (layer res) ms t)"
  using build_rev_chain [of mf res L "rev ms" t w, OF assms(1)] assms(2)
  by (simp add: buildMiddleware_def foldr_conv_fold list_all_iff)

lemma buildMiddleware_cases:
  "(\<exists>e w1. buildMiddleware L mf ms t w = (Inl e, w1)) \<or> (\<exists>t' w1. buildMiddleware L mf ms t w = (Inr t', w1))"
  by (metis old.sum.exhaust surj_pair)

text \<open>C10: The chain of an endpoint is the global middlewares around the
  endpoint's own around the client, each list in the order of the
  configuration, unknown ones left out; the handler runs the retry loop on
  exactly that chain.\<close>

theorem endpoint_chain_order:
  assumes "\<And>c w. fst (mf c w) = res c"
    and "list_all (\<lambda>c. \<not> fatal (px_libs E) res c) (ms @ ep_middlewares e)"
    and "cf e w = (Inr cl, w1)" and "prepareRetryStrategy e = Some rs"
  shows "\<exists>w'. buildEndpoint E cf mf e ms w =
    (Inr (endpoint_handler E e rs (foldr (layer res) (ms @ ep_middlewares e) (cl_round_trip cl)), cl_close cl), w')"
proof -
  have local: "fst (buildMiddleware (px_libs E) mf (ep_middlewares e) (cl_round_trip cl) w1)
      = Inr (foldr (layer res) (ep_middlewares e) (cl_round_trip cl))"
    using assms(1,2) by (intro buildMiddleware_chain) auto
  then obtain w2 where w2: "buildMiddleware (px_libs E) mf (ep_middlewares e) (cl_round_trip cl) w1
      = (Inr (foldr (layer res) (ep_middlewares e) (cl_round_trip cl)), w2)"
    by (metis prod.collapse)
  have "fst (buildMiddleware (px_libs E) mf ms (foldr (layer res) (ep_middlewares e) (cl_round_trip cl)) w2)
      = Inr (foldr (layer res) ms (foldr (layer res) (ep_middlewares e) (cl_round_trip cl)))"
    using assms(1,2) by (intro buildMiddleware_chain) auto
  then obtain w3 where w3: "buildMiddleware (px_libs E) mf ms (foldr (layer res) (ep_middlewares e) (cl_round_trip cl)) w2
      = (Inr (foldr (layer res) ms (foldr (layer res) (ep_middlewares e) (cl_round_trip cl))), w3)"
    by (metis prod.collapse)
  show ?thesis
    by (simp add: buildEndpoint_def assms(3,4) Let_def w2 w3)
qed

text \<open>A factory of header-adding middlewares, for the witness.\<close>

definition tag_result :: "mw_config \<Rightarrow> err + 'w middleware_v2" where
  "tag_result c =
    (if mc_name c = ''missing'' then Inl ErrNotFound
     else Inr (of_middleware (\<lambda>t r. t (r\<lparr>rq_header := hadd (rq_header r) ''X-Tag'' (mc_name c)\<rparr>))))"

definition tag_factory :: "'w factory_v2" where
  "tag_factory c w = (tag_result c, w)"

definition mw_named :: "string \<Rightarrow> mw_config" where
  "mw_named n = \<lparr>mc_name = n, mc_options = None, mc_required = False, mc_router_filter = None\<rparr>"

definition sample_client :: "nat world gw_client" where
  "sample_client = \<lparr>cl_round_trip = (\<lambda>r w. (Ret (Some (sample_response 200)) None, w)),
     cl_close = (\<lambda>w. (None, emit (EvClosed 7) w))\<rparr>"

definition chain_endpoint :: endpoint where
  "chain_endpoint = sample_endpoint\<lparr>ep_middlewares := [mw_named ''missing'', mw_named ''local'']\<rparr>"

lemma chain_strategy: "prepareRetryStrategy chain_endpoint = prepareRetryStrategy sample_endpoint"
  by (simp add: chain_endpoint_def prepareRetryStrategy_def parseRetryConditon_def calcAttempts_def
      calcTimeout_def calcPerTryTimeout_def cong: option.case_cong)

theorem endpoint_chain_order_witness:
  "\<exists>w' rs. buildEndpoint sample_env (\<lambda>e w. (Inr sample_client, w)) tag_factory chain_endpoint
      [mw_named ''global''] (sample_world 0) =
    (Inr (endpoint_handler sample_env chain_endpoint rs
       (foldr (layer tag_result) [mw_named ''global'', mw_named ''missing'', mw_named ''local'']
          (cl_round_trip sample_client)), cl_close sample_client), w')"
proof -
  have res: "fst (tag_factory c w) = tag_result c" for c and w :: "nat world" by (simp add: tag_factory_def)
  have ok: "list_all (\<lambda>c. \<not> fatal (px_libs sample_env) (tag_result :: mw_config \<Rightarrow> err + nat world middleware_v2) c)
      ([mw_named ''global''] @ ep_middlewares chain_endpoint)"
    by (simp add: fatal_def tag_result_def list_all_iff)
  have mws: "ep_middlewares chain_endpoint = [mw_named ''missing'', mw_named ''local'']"
    by (simp add: chain_endpoint_def)
  show ?thesis
    using endpoint_chain_order [where mf = tag_factory and cf = "\<lambda>e w. (Inr sample_client, w)"
          and w = "sample_world 0", OF res ok refl chain_strategy [THEN trans, OF sample_strategy]]
    unfolding mws by auto
qed

section \<open>Failed construction\<close>

text \<open>An endpoint that cannot be built, because of a middleware or of a
  retry condition, closes the client made for it: the world it leaves is one
  the client's Close has run on.\<close>

theorem failed_endpoint_closes_client:
  assumes "cf e w = (Inr cl, w1)" "buildEndpoint E cf mf e ms w = (Inl er, w')"
  shows "\<exists>w2. w' = snd (cl_close cl w2)"
  using assms
  by (auto simp: buildEndpoint_def Let_def closeOnError_def split: prod.splits sum.splits option.splits)

lemma bad_condition_endpoint:
  "prepareRetryStrategy (sample_endpoint\<lparr>ep_retry := Some \<lparr>rc_attempts = 2, rc_per_try_timeout = None,
      rc_conditions = [Condition_ByStatusCode ''500-''], rc_priorities = []\<rparr>\<rparr>) = None"
  by code_simp

theorem failed_endpoint_closes_client_witness:
  "\<exists>er w'. buildEndpoint sample_env (\<lambda>e w. (Inr sample_client, w)) tag_factory
      (sample_endpoint\<lparr>ep_retry := Some \<lparr>rc_attempts = 2, rc_per_try_timeout = None,
          rc_conditions = [Condition_ByStatusCode ''500-''], rc_priorities = []\<rparr>\<rparr>) [] (sample_world 0)
      = (Inl er, w') \<and> (\<exists>w2. w' = snd (cl_close sample_client w2)) \<and> EvClosed 7 \<in> set (w_events w')"
proof -
  let ?e = "sample_endpoint\<lparr>ep_retry := Some \<lparr>rc_attempts = 2, rc_per_try_timeout = None,
          rc_conditions = [Condition_ByStatusCode ''500-''], rc_priorities = []\<rparr>\<rparr>"
  have mws: "ep_middlewares ?e = []" by (simp add: sample_endpoint_def)
  obtain w' where b: "buildEndpoint sample_env (\<lambda>e w. (Inr sample_client, w)) tag_factory ?e [] (sample_world 0)
      = (Inl condition_error, w')"
    by (simp add: buildEndpoint_def mws buildMiddleware_def bad_condition_endpoint)
  obtain w2 where "w' = snd (cl_close sample_client w2)"
    using failed_endpoint_closes_client [OF _ b] by auto
  then show ?thesis using b by (auto simp: sample_client_def)
qed

section \<open>Updates\<close>

lemma update_loop_counts:
  "update_loop E cf mf ms es r k ds w = (r', k', ds', w') \<Longrightarrow>
    length (mr_closers r') - length (mr_closers r) = k' - k \<and> k \<le> k' \<and> length (mr_closers r) \<le> length (mr_closers r')
    \<and> (\<exists>rs. mr_routes r' = mr_routes r @ rs) \<and> (\<exists>cs. mr_closers r' = mr_closers r @ cs)"
proof (induction es arbitrary: r k ds w)
  case (Cons e es)
  obtain b w1 where b: "buildEndpoint E cf mf e ms w = (b, w1)" by force
  show ?case
  proof (cases b)
    case (Inl er)
    then show ?thesis using Cons b by simp
  next
    case (Inr hc)
    obtain h c where hc: "hc = (h, c)" by (cases hc)
    obtain o1 r1 where hd': "Handle (px_gorilla E) (ep_path e) (ep_method e) (ep_host e)
        (protocol_String (ep_protocol e)) h c r = (o1, r1)" by force
    have cl: "mr_closers r1 = (if o1 = None then mr_closers r @ [c] else mr_closers r)"
      using Handle_closers [of "px_gorilla E" "ep_path e" "ep_method e" "ep_host e"
          "protocol_String (ep_protocol e)" h c r] hd' by simp
    have rt: "\<exists>rs. mr_routes r1 = mr_routes r @ rs"
      using Handle_routes [of "px_gorilla E" "ep_path e" "ep_method e" "ep_host e"
          "protocol_String (ep_protocol e)" h c r] hd' by auto
    show ?thesis
    proof (cases o1)
      case None
      then have u: "update_loop E cf mf ms es r1 (Suc k) (c # ds) w1 = (r', k', ds', w')"
        using Cons.prems b Inr hc hd' by simp
      show ?thesis using Cons.IH [OF u] cl rt None by auto
    next
      case (Some er)
      then have u: "update_loop E cf mf ms es r1 k (c # ds) w1 = (r', k', ds', w')"
        using Cons.prems b Inr hc hd' by simp
      show ?thesis using Cons.IH [OF u] cl rt Some by auto
    qed
  qed
qed simp

text \<open>One closer for each route that gorilla/mux accepted.\<close>

definition accepted :: "'x proxy_env \<Rightarrow> 'w route \<Rightarrow> bool" where
  "accepted E x \<longleftrightarrow> go_route_error (px_gorilla E) (rou_matchers x) = None"

lemma update_loop_closers:
  "update_loop E cf mf ms es r k ds w = (r', k', ds', w') \<Longrightarrow>
    \<exists>rs. mr_routes r' = mr_routes r @ rs \<and> length (mr_closers r') = length (mr_closers r) + length (filter (accepted E) rs)"
proof (induction es arbitrary: r k ds w)
  case (Cons e es)
  obtain b w1 where b: "buildEndpoint E cf mf e ms w = (b, w1)" by force
  show ?case
  proof (cases b)
    case (Inl er)
    then show ?thesis using Cons b by simp
  next
    case (Inr hc)
    obtain h c where hc: "hc = (h, c)" by (cases hc)
    obtain o1 r1 where hd': "Handle (px_gorilla E) (ep_path e) (ep_method e) (ep_host e)
        (protocol_String (ep_protocol e)) h c r = (o1, r1)" by force
    let ?x = "\<lparr>rou_matchers = route_matchers (ep_path e) (ep_method e) (ep_host e) (protocol_String (ep_protocol e)), rou_handler = h\<rparr>"
    have r1: "mr_routes r1 = mr_routes r @ [?x]"
      "length (mr_closers r1) = length (mr_closers r) + length (filter (accepted E) [?x])"
      using hd' by (auto simp: Handle_def accepted_def Let_def split: option.splits)
    obtain k1 where "update_loop E cf mf ms es r1 k1 (c # ds) w1 = (r', k', ds', w')"
      using Cons.prems b Inr hc hd' by (auto split: option.splits)
    from Cons.IH [OF this] r1 show ?thesis by auto
  qed
qed simp

text \<open>C9: Update is all or nothing for the router in use: when it reports
  an error the proxy is unchanged and there were endpoints to serve; when it
  succeeds the new router keeps the metrics route first and holds one closer
  for each route that was accepted behind it, at least one unless there are no
  endpoints, and the replaced router is handed to the background close.\<close>

theorem Update_atomic:
  "case Update E cf mf c p w of
     (Some er, p', w') \<Rightarrow> p' = p \<and> gc_endpoints c \<noteq> []
   | (None, p', w') \<Rightarrow>
       py_closing p' = py_closing p @ [py_router p]
       \<and> (\<exists>rs. mr_routes (py_router p') = mr_routes (new_router E) @ rs
           \<and> length (mr_closers (py_router p')) = length (filter (accepted E) rs))
       \<and> (gc_endpoints c = [] \<or> (\<exists>cl cls. mr_closers (py_router p') = cl # cls))"
proof -
  obtain r k ds w1 where u: "update_loop E cf mf (gc_middlewares c) (gc_endpoints c) (new_router E) 0 [] w
      = (r, k, ds, w1)"
    by (metis prod_cases4)
  have nil: "mr_closers (new_router E) = []" by (simp add: new_router_def NewRouter_def)
  have ne: "k = 0 \<or> mr_closers r \<noteq> []" using update_loop_counts [OF u, unfolded nil] by auto
  have closers: "\<exists>rs. mr_routes r = mr_routes (new_router E) @ rs \<and> length (mr_closers r) = length (filter (accepted E) rs)"
    using update_loop_closers [OF u] nil by simp
  show ?thesis
  proof (cases "k = 0 \<and> gc_endpoints c \<noteq> []")
    case True
    then show ?thesis by (simp add: Update_def u Let_def)
  next
    case False
    have "Update E cf mf c p w = (None, tryCloseRouter (py_router p) (p\<lparr>py_router := r\<rparr>),
        foldl (\<lambda>w d. closeOnError d None w) w1 ds)"
      unfolding Update_def u prod.case if_not_P [OF False] by simp
    then show ?thesis using closers ne False by (auto simp: tryCloseRouter_def neq_Nil_conv)
  qed
qed

text \<open>The background close of a router runs the closer of every endpoint it
  registered, in order, whatever errors they return.\<close>

lemma SyncClose_runs_all:
  "SyncClose (r\<lparr>mr_closers := cs @ ds\<rparr>) w = SyncClose (r\<lparr>mr_closers := ds\<rparr>) (SyncClose (r\<lparr>mr_closers := cs\<rparr>) w)"
  by (simp add: SyncClose_def)

lemma foldl_close_none: "foldl (\<lambda>w d. closeOnError d None w) w ds = w"
  by (induction ds) (simp_all add: closeOnError_def)

section \<open>No request is left unanswered\<close>

lemma Write_valid_status:
  assumes "100 \<le> inf_status (Classify L e)" "inf_status (Classify L e) \<le> 999"
  shows "\<exists>x. Write L w r e opts = Some x"
  using assms
  by (auto simp: Write_def Write_headers_def Let_def Build_fields writeHeader_def split: option.split)

lemma Write_already_sent:
  assumes "Write L wr r e opts = Some (code, wr')" "rw_sent wr = Some s"
  shows "rw_sent wr' = Some s"
proof -
  obtain c b wr1 where h: "Write_headers L wr r e opts = (c, b, wr1)" by (cases "Write_headers L wr r e opts")
  have s1: "rw_sent wr1 = Some s"
    using h assms(2) by (auto simp: Write_headers_def Let_def)
  then have "writeHeader c wr1 = Some wr1" by (simp add: writeHeader_def)
  then have "wr' = writeChunk (ErrJson b) wr1" using assms(1) h by (simp add: Write_def)
  then show ?thesis using s1 by (simp add: writeChunk_sent)
qed

lemma bad_gateway_status: "inf_status (Classify L (Some (KratosErr ErrBadGateway))) = 502"
  by (simp add: Classify_def normalize_info_wf ErrBadGateway_def kratos_New_def)

text \<open>C3: A panic anywhere in the router, a middleware or the handler does
  not escape the entry point: every request finishes, and a request whose
  handler panicked before its status was sent is answered with 502.\<close>

theorem every_request_answered:
  "case mux_ServeHTTP (px_gorilla E) (py_router p) wr req w of
     Finished wr1 w1 \<Rightarrow> proxy_ServeHTTP E p wr req w = Finished wr1 w1
   | HPanic wr1 w1 \<Rightarrow> \<exists>wr'. proxy_ServeHTTP E p wr req w = Finished wr' w1
       \<and> (case rw_sent wr1 of None \<Rightarrow> (\<exists>h. rw_sent wr' = Some (502, h)) | Some s \<Rightarrow> rw_sent wr' = Some s)"
proof (cases "mux_ServeHTTP (px_gorilla E) (py_router p) wr req w")
  case (Finished wr1 w1)
  then show ?thesis by (simp add: proxy_ServeHTTP_def)
next
  case (HPanic wr1 w1)
  let ?req = "req\<lparr>rq_path := cleanPath (rq_path req)\<rparr>"
  obtain code wr' where W: "Write (px_libs E) wr1 ?req (Some (KratosErr ErrBadGateway)) [] = Some (code, wr')"
    using Write_valid_status [of "px_libs E" "Some (KratosErr ErrBadGateway)" wr1 ?req "[]"]
    by (auto simp: bad_gateway_status)
  have code: "code = 502" using Write_Some(1) [OF W] bad_gateway_status by simp
  note sent = Write_already_sent [OF W]
  have "proxy_ServeHTTP E p wr req w = Finished wr' w1"
    using HPanic W by (simp add: proxy_ServeHTTP_def write_outcome_def)
  then show ?thesis
    using HPanic sent Write_Some(2) [OF W] code by (auto split: option.split)
qed

section \<open>What serves a request after an update\<close>

text \<open>Every handler of a router that Update made comes from an endpoint or was
  there before.\<close>

lemma update_loop_handlers:
  assumes "\<And>e w h c w'. buildEndpoint E cf mf e ms w = (Inr (h, c), w') \<Longrightarrow> Q h"
  shows "update_loop E cf mf ms es r n ds w = (r', n', ds', w') \<Longrightarrow> \<forall>x \<in> set (mr_routes r). Q (rou_handler x) \<Longrightarrow>
    (\<forall>x \<in> set (mr_routes r'). Q (rou_handler x)) \<and> mr_not_found r' = mr_not_found r \<and> mr_bad_method r' = mr_bad_method r"
proof (induction es arbitrary: r n ds w)
  case (Cons e es)
  obtain b w1 where b: "buildEndpoint E cf mf e ms w = (b, w1)" by force
  show ?case
  proof (cases b)
    case (Inl er)
    then show ?thesis using Cons b by simp
  next
    case (Inr hc)
    obtain h c where hc: "hc = (h, c)" by (cases hc)
    obtain o1 r1 where hd': "Handle (px_gorilla E) (ep_path e) (ep_method e) (ep_host e)
        (protocol_String (ep_protocol e)) h c r = (o1, r1)" by force
    have r1: "mr_routes r1 = mr_routes r @ [\<lparr>rou_matchers = route_matchers (ep_path e) (ep_method e) (ep_host e)
          (protocol_String (ep_protocol e)), rou_handler = h\<rparr>]"
      and same: "mr_not_found r1 = mr_not_found r" "mr_bad_method r1 = mr_bad_method r"
      using Handle_routes Handle_frame hd' by (metis snd_conv)+
    have "Q h" using assms b Inr hc by blast
    then have q: "\<forall>x \<in> set (mr_routes r1). Q (rou_handler x)" using Cons.prems(2) r1 by auto
    obtain n1 where u: "update_loop E cf mf ms es r1 n1 (c # ds) w1 = (r', n', ds', w')"
      using Cons.prems(1) b Inr hc hd' by (auto split: option.splits)
    show ?thesis using Cons.IH [OF u q] same by simp
  qed
qed simp

lemma proxy_world: "outcome_world (proxy_ServeHTTP E p wr req w) = outcome_world (mux_ServeHTTP (px_gorilla E) (py_router p) wr req w)"
  by (simp add: proxy_ServeHTTP_def write_outcome_def split: outcome.split option.split)

text \<open>After a successful update a request is served by the handler of an
  endpoint, by one of the three of the router itself, or by none at all when the
  router redirects it.\<close>

lemma Update_serves:
  assumes "gorilla_dispatch (px_gorilla E)" and "Update E cf mf cfg p w0 = (None, p', w0')"
    and "\<And>e w h c w'. buildEndpoint E cf mf e (gc_middlewares cfg) w = (Inr (h, c), w') \<Longrightarrow> Q h"
    and "Q (ProtectedHandler (px_libs E) (px_metrics E))" "Q (notFoundHandler (px_libs E))" "Q (methodNotAllowedHandler (px_libs E))"
  obtains (unchanged) "outcome_world (proxy_ServeHTTP E p' wr req w) = w"
  | (served) h where "Q h"
      "outcome_world (proxy_ServeHTTP E p' wr req w) = outcome_world (h wr (req\<lparr>rq_path := cleanPath (rq_path req)\<rparr>) w)"
proof -
  obtain r n ds v where u: "update_loop E cf mf (gc_middlewares cfg) (gc_endpoints cfg) (new_router E) 0 [] w0 = (r, n, ds, v)"
    and p': "py_router p' = r"
    using assms(2) by (auto simp: Update_def Let_def tryCloseRouter_def split: prod.splits if_splits)
  have "\<forall>x \<in> set (mr_routes (new_router E)). Q (rou_handler x)"
    using assms(4) by (simp add: new_router_def NewRouter_def)
  from update_loop_handlers [OF _ u this] assms(3)
  have q: "\<forall>x \<in> set (mr_routes r). Q (rou_handler x)" "Q (mr_not_found r)" "Q (mr_bad_method r)"
    using assms(5,6) by (simp_all add: new_router_def NewRouter_def)
  let ?req = "req\<lparr>rq_path := cleanPath (rq_path req)\<rparr>"
  have mux: "outcome_world (proxy_ServeHTTP E p' wr req w) = outcome_world (mux_ServeHTTP (px_gorilla E) r wr req w)"
    by (simp add: proxy_world p')
  show thesis
  proof (cases "go_select (px_gorilla E) (mr_strict r) (map rou_matchers (mr_routes r)) ?req")
    case (Selected i)
    then have "i < length (mr_routes r)" using assms(1) unfolding gorilla_dispatch_def by (metis length_map)
    then show thesis using served [of "rou_handler (mr_routes r ! i)"] q(1) mux Selected by (simp add: mux_ServeHTTP_def)
  next
    case NoRoute
    then show thesis using served [OF q(2)] mux by (simp add: mux_ServeHTTP_def)
  next
    case BadMethod
    then show thesis using served [OF q(3)] mux by (simp add: mux_ServeHTTP_def)
  next
    case (Redirected url)
    then show thesis using unchanged mux by (simp add: mux_ServeHTTP_def Let_def split: option.splits)
  qed
qed

section \<open>Bodies of responses\<close>

definition body_closed :: "event \<Rightarrow> bool" where
  "body_closed ev = (case ev of EvBodyClosed r \<Rightarrow> True | _ \<Rightarrow> False)"

abbreviation bodies_closed :: "'x world \<Rightarrow> nat" where
  "bodies_closed \<equiv> count_events body_closed"

lemma bodies_closed_simps [simp]:
  "bodies_closed (markFailed E e req i er w) = bodies_closed w" "bodies_closed (markSuccess E e req i w) = bodies_closed w"
  "bodies_closed (set_last_attempt w) = bodies_closed w" "bodies_closed (requestsTotalIncr req l c w) = bodies_closed w"
  "bodies_closed (requestsDurationObserve req ml w) = bodies_closed w" "bodies_closed (receivedBytesAdd req ml n w) = bodies_closed w"
  "bodies_closed (sentBytesAdd req ml n w) = bodies_closed w" "bodies_closed (call_done de w) = bodies_closed w"
  "bodies_closed (outcome_world (writeError L wr req er l w)) = bodies_closed w"
  by (simp_all add: body_closed_def markFailed_def markSuccess_def markFailedStat_def markSuccessStat_def retryStateIncr_def
      set_last_attempt_def requestsTotalIncr_def requestsDurationObserve_def receivedBytesAdd_def sentBytesAdd_def
      call_done_def writeError_def write_outcome_def Let_def split: option.split)

text \<open>A property of the log of events that the accounting of attempts and the
  chain keep is kept by the loop.\<close>

lemma retry_loop_keeps:
  assumes "\<And>v v'. w_events v' = w_events v \<Longrightarrow> P v \<Longrightarrow> P v'"
    and "\<And>i er v. P v \<Longrightarrow> P (markFailed E e req i er v)" and "\<And>i v. P v \<Longrightarrow> P (markSuccess E e req i v)"
    and "\<And>r v. P v \<Longrightarrow> P (snd (tripper r v))"
  shows "P w \<Longrightarrow> P (loop_world (retry_loop E e conds tripper req n i resp er w))"
proof (induction n arbitrary: i resp er w)
  case (Suc n)
  have upd: "P v \<Longrightarrow> P (set_last_attempt v)" "P v \<Longrightarrow> P (upd_ext g v)" for v g
    using assms(1) [of "set_last_attempt v" v] assms(1) [of "upd_ext g v" v] by (simp_all add: set_last_attempt_def upd_ext_def upd_opts_def)
  have "P (step_world (attempt E e conds tripper req (n = 0) i resp er w))"
  proof (rule attempt_cases [of E e conds tripper req "n = 0" i resp er w])
    fix w2
    assume t: "attempt E e conds tripper req (n = 0) i resp er w =
        after_round_trip E e conds req i (tripper (attempt_request req) w2)" and w2: "w_events w2 = w_events w"
    obtain res w3 where r: "tripper (attempt_request req) w2 = (res, w3)" by fastforce
    have "P w3" using assms(4) [OF assms(1) [OF w2 Suc.prems], of "attempt_request req"] r by simp
    then show ?thesis using t r assms(2,3) upd by (auto simp: after_round_trip_def split: rt_result.split option.split)
  next
    fix ce w2
    assume "attempt E e conds tripper req (n = 0) i resp er w = Stop (LoopDone resp (Some ce) (markFailed E e req i ce w2))"
      and "w_events w2 = w_events w"
    then show ?thesis using assms(1,2) Suc.prems by simp
  qed (use Suc.prems assms(2) upd in simp_all)
  then show ?case
    by (cases "attempt E e conds tripper req (n = 0) i resp er w") (simp_all add: Suc.IH)
qed simp

lemma retry_loop_closes_none:
  assumes "\<And>r w. bodies_closed (snd (tripper r w)) = bodies_closed w"
  shows "bodies_closed (loop_world (retry_loop E e conds tripper req n i resp er w)) = bodies_closed w"
  by (rule retry_loop_keeps [where P = "\<lambda>v. bodies_closed v = bodies_closed w"])
    (simp_all add: assms, simp add: count_events_def)

text \<open>However many responses the attempts of a request have brought, the handler
  closes the body of at most one of them, the one it sends: a response that a
  retry condition rejects is dropped with its body open.\<close>

theorem rejected_responses_stay_open:
  assumes "\<And>r w. bodies_closed (snd (tripper r w)) = bodies_closed w"
  shows "bodies_closed (outcome_world (endpoint_handler E e rs tripper wr req w)) \<le> bodies_closed w + 1"
proof -
  have copy: "bodies_closed (snd (doCopyBody E l rq resp wr1 v)) \<le> bodies_closed v + 1" for l rq resp wr1 v
    by (auto simp: doCopyBody_def Let_def split: option.split prod.split)
  have send: "bodies_closed (outcome_world (send_response E l rq resp wr1 v)) \<le> bodies_closed v + 1" for l rq resp wr1 v
    using copy by (auto simp: send_response_def Let_def split: option.split prod.split) (metis snd_conv)
  define l where "l = NewMetricsLabels e"
  define rq where "rq = setXFFHeader (WithRequestPath req (rq_path req))"
  define w1 where "w1 = upd_opts (\<lambda>_. NewRequestOptions e) w"
  define lp where "lp = retry_loop E e (rt_conditions rs) tripper rq (nat (rt_attempts rs)) 0 None None
      (receivedBytesAdd rq l (int (length (bd_data (rq_body rq)))) w1)"
  have lp: "bodies_closed (loop_world lp) = bodies_closed w"
    unfolding lp_def using retry_loop_closes_none [of tripper, OF assms] by (simp add: w1_def)
  have "bodies_closed (outcome_world (endpoint_handler E e rs tripper wr req w)) \<le>
      (case bd_err (rq_body rq) of Some be \<Rightarrow> bodies_closed w1 | None \<Rightarrow> bodies_closed (loop_world lp) + 1)"
    using send [of l rq]
    by (auto simp: endpoint_handler_def Let_def l_def [symmetric] rq_def [symmetric] w1_def [symmetric] lp_def [symmetric]
        split: option.split loop_result.split)
  then show ?thesis using lp by (simp add: w1_def split: option.splits)
qed

theorem rejected_responses_stay_open_witness:
  "bodies_closed (outcome_world (endpoint_handler sample_env sample_endpoint
      \<lparr>rt_attempts = 3, rt_timeout = 1, rt_per_try_timeout = 1, rt_conditions = [ByStatusCode [500, 599]]\<rparr>
      recorded new_writer sample_request (sample_world sample_script))) \<le> 1"
proof -
  have "bodies_closed (snd (recorded r w)) = bodies_closed w" for r and w :: "(response option \<times> err option) list world"
    by (simp add: recorded_def scripted_def body_closed_def)
  from rejected_responses_stay_open [of recorded, OF this, of sample_env sample_endpoint _ new_writer sample_request "sample_world sample_script"]
  show ?thesis by (simp add: sample_world_def count_events_def)
qed

section \<open>X-Forwarded-For\<close>

text \<open>The address the gateway saw is the last entry of the
  X-Forwarded-For header it sends upstream, after whatever the client sent;
  the original path travels with the request.\<close>

theorem forwarded_for_appended:
  assumes "splitHostPort (rq_remote_addr req) = Some (ip, port)"
    and "rq_header req ''X-Forwarded-For'' = Some prior" "prior \<noteq> []"
  shows "rq_header (setXFFHeader (WithRequestPath req path)) ''X-Forwarded-For''
      = Some [join_str '', '' (prior @ [ip])]
    \<and> RequestPathFromContext (setXFFHeader (WithRequestPath req path)) = path"
proof -
  have j: "join_str sep (xs @ [y]) = join_str sep xs @ sep @ y" if "xs \<noteq> []" for sep :: string and xs y
    using that by (induction sep xs rule: join_str.induct) auto
  show ?thesis
    using assms j [OF assms(3), of "'', ''" ip]
    by (cases prior)
      (simp_all add: setXFFHeader_def WithRequestPath_def hset_def RequestPathFromContext_def)
qed

definition xff_request :: request where
  "xff_request = sample_request\<lparr>rq_header := [''X-Forwarded-For'' \<mapsto> [''1.1.1.1'', ''2.2.2.2'']]\<rparr>"

lemma xff_split: "splitHostPort (rq_remote_addr xff_request) = Some (''10.0.0.1'', ''99'')"
  by code_simp

theorem forwarded_for_appended_witness:
  "rq_header (setXFFHeader (WithRequestPath xff_request ''/a'')) ''X-Forwarded-For''
      = Some [''1.1.1.1, 2.2.2.2, 10.0.0.1'']"
  using forwarded_for_appended [OF xff_split, of "[''1.1.1.1'', ''2.2.2.2'']" "''/a''"]
  by (simp add: xff_request_def)

end
