(* ===== verification/Auth_Chain.thy ===== *)
theory Auth_Chain
  imports Jwt_Middleware Rbac Proxy_Spec
begin

text \<open>
  The jwt middleware in front of the rbac middleware, and how the retry loop of
  the proxy treats what they reject.
\<close>

section \<open>Identity and permission\<close>

text \<open>Matching reads the method and the path only.\<close>

lemma pm_Match_target: "rq_method req' = rq_method req \<Longrightarrow> rq_path req' = rq_path req \<Longrightarrow> pm_Match m req' = pm_Match m req"
  by (simp add: pm_Match_def)

lemma jwt_decide_cases:
  assumes "jwt_decide L key_of ms req w = (Inr req', w')"
  shows "w' = w \<and> ((list_ex (\<lambda>m. pm_Match m req) ms \<and> req' = req) \<or>
    (\<exists>tok cl. hget (rq_header req) ''Authorization'' = ''Bearer '' @ tok
      \<and> ParseJwt L (key_of (w_ext w)) tok = Inr cl \<and> req' = jwt_set_headers cl req))"
proof (cases "list_ex (\<lambda>m. pm_Match m req) ms")
  case False
  have pre: "hasPrefix (hget (rq_header req) ''Authorization'') ''Bearer ''"
    using assms False by (auto simp: jwt_decide_def split: if_splits)
  then obtain tok where tok: "hget (rq_header req) ''Authorization'' = ''Bearer '' @ tok" by (auto simp: prefix_def)
  then have trim: "trimPrefix (hget (rq_header req) ''Authorization'') ''Bearer '' = tok" by (simp add: trimPrefix_def)
  obtain cl where "ParseJwt L (key_of (w_ext w)) tok = Inr cl" "req' = jwt_set_headers cl req" "w' = w"
    using assms pre unfolding jwt_decide_def if_not_P [OF False] trim by (auto split: sum.splits)
  then show ?thesis using tok by blast
qed (use assms in \<open>simp add: jwt_decide_def\<close>)

text \<open>Behind jwt and rbac, a request that no skip rule exempts makes a
  difference only if its token is signed with the key in use and the policy in
  force allows its method and path to the role the directory gives for the user
  of that token.  The user id is the token's: what the client wrote into the
  identity headers plays no part.\<close>

theorem authenticated_and_authorised:
  assumes "checks_signature L alg_of sig_ok"
    and "\<not> list_ex (\<lambda>m. pm_Match m req) ms1" and "\<not> list_ex (\<lambda>m. pm_Match m req) ms2"
    and "jwt_RoundTrip L key_of ms1 (rbac_RoundTrip B D ms2 behind1) req w
       \<noteq> jwt_RoundTrip L key_of ms1 (rbac_RoundTrip B D ms2 behind2) req w"
  shows "\<exists>tok k cl role s1 enf. hget (rq_header req) ''Authorization'' = ''Bearer '' @ tok \<and> alg_of tok = ''RS256''
      \<and> key_of (w_ext w) = Some k \<and> sig_ok k tok cl
      \<and> getUserRoles D (jc_user_id cl) (w_ext w) = (Some (Inr role), s1)
      \<and> rs_enforcer s1 = Some enf \<and> cb_Enforce B enf role (rq_path req) (rq_method req) = Inr True"
proof -
  obtain req1 w1 where d1: "jwt_decide L key_of ms1 req w = (Inr req1, w1)"
    and p1: "\<And>b. jwt_RoundTrip L key_of ms1 b req w = b req1 w1"
    using jwt_gate.depends_passed [OF assms(4)] by blast
  obtain tok cl where t: "w1 = w" "hget (rq_header req) ''Authorization'' = ''Bearer '' @ tok"
    "ParseJwt L (key_of (w_ext w)) tok = Inr cl" "req1 = jwt_set_headers cl req"
    using jwt_decide_cases [OF d1] assms(2) by blast
  have same: "rq_method req1 = rq_method req" "rq_path req1 = rq_path req"
    by (simp_all add: t(4) jwt_set_headers_def)
  have skip: "\<not> list_ex (\<lambda>m. pm_Match m req1) ms2" using assms(3) pm_Match_target [OF same] by simp
  have uid: "hget (rq_header req1) UserIdMetadataKey = jc_user_id cl"
    by (simp add: t(4) jwt_set_headers_def hget_hset)
  have "rbac_RoundTrip B D ms2 behind1 req1 w \<noteq> rbac_RoundTrip B D ms2 behind2 req1 w"
    using assms(4) p1 t(1) by simp
  then obtain req2 w2 where "rbac_decide B D ms2 req1 w = (Inr req2, w2)"
    using rbac_gate.depends_passed by blast
  then show ?thesis
    using rbac_decide_cases skip uid same t ParseJwt_signed [OF assms(1) t(3)] by metis
qed

definition demo_casdoor :: "unit casdoor" where
  "demo_casdoor = \<lparr>cd_get = (\<lambda>host path query x. (Inr query, x)), cd_decode = (\<lambda>b. Some (''u1'', [''admin'']))\<rparr>"

definition demo_state :: "(string, unit) rbac_state" where
  "demo_state = \<lparr>rs_enforcer = Some ''m'', rs_casdoorUrl = ''http://cd'', rs_userOwner = ''shop'',
     rs_cache = NewCache 0 0, rs_now = 0, rs_service = ()\<rparr>"

lemma demo_roles: "\<exists>s1. getUserRoles demo_casdoor ''u1'' demo_state = (Some (Inr ''admin''), s1) \<and> rs_enforcer s1 = Some ''m''
    \<and> rs_userOwner s1 = ''shop''"
proof -
  have "url_Parse ''http://cd/api/get-user?userId=u1'' \<noteq> None"
    by (simp add: url_Parse_def url_parse_main_def ctl_byte_def getScheme_def scheme_start_def scheme_more_def toLower_def
        parseAuthority_def parseHost_def last_index_def host_char_def is_alnum_def is_digit_def byte_def suffix_def)
  then obtain u where "url_Parse ''http://cd/api/get-user?userId=u1'' = Some u" by blast
  then show ?thesis
    by (simp add: getUserRoles_def fetchRolesFromCasdoor_def demo_state_def demo_casdoor_def)
qed

theorem authenticated_and_authorised_witness:
  "\<exists>tok k cl role s1 enf. hget (rq_header bearer_request) ''Authorization'' = ''Bearer '' @ tok \<and> ''RS256'' = ''RS256''
      \<and> Some (3 :: nat) = Some k \<and> (tok = ''good'' \<and> cl = \<lparr>jc_user_id = ''u1'', jc_user_name = ''ann''\<rparr>)
      \<and> getUserRoles demo_casdoor (jc_user_id cl) (w_ext (sample_world demo_state)) = (Some (Inr role), s1)
      \<and> rs_enforcer s1 = Some enf \<and> cb_Enforce demo_casbin enf role (rq_path bearer_request) (rq_method bearer_request) = Inr True"
proof (rule authenticated_and_authorised [OF demo_checks])
  obtain s1 where s1: "getUserRoles demo_casdoor ''u1'' demo_state = (Some (Inr ''admin''), s1)" "rs_enforcer s1 = Some ''m''"
    using demo_roles by blast
  have trim: "trimPrefix ''Bearer good'' ''Bearer '' = ''good''" by (simp add: trimPrefix_def)
  define req1 where "req1 = jwt_set_headers \<lparr>jc_user_id = ''u1'', jc_user_name = ''ann''\<rparr> bearer_request"
  have jwt: "jwt_RoundTrip demo_lib (\<lambda>x. Some 3) [] b bearer_request w = b req1 w" for b and w :: "(string, unit) rbac_state world"
    using trim by (simp add: jwt_RoundTrip_def bearer_request_def hget_def ParseJwt_def demo_lib_def key_func_def req1_def)
  have uid: "hget (rq_header req1) UserIdMetadataKey = ''u1''"
    by (simp add: req1_def jwt_set_headers_def hget_hset)
  have rbac: "\<exists>r' w'. \<forall>b. rbac_RoundTrip demo_casbin demo_casdoor [] b req1 (sample_world demo_state) = b r' w'"
    using s1 by (simp add: rbac_RoundTrip_def uid sample_world_def demo_casbin_def, blast)
  then show "jwt_RoundTrip demo_lib (\<lambda>x. Some 3) [] (rbac_RoundTrip demo_casbin demo_casdoor [] (\<lambda>r w. (Panicked, w)))
        bearer_request (sample_world demo_state)
      \<noteq> jwt_RoundTrip demo_lib (\<lambda>x. Some 3) [] (rbac_RoundTrip demo_casbin demo_casdoor [] (\<lambda>r w. (Ret None None, w)))
        bearer_request (sample_world demo_state)"
    unfolding jwt by force
qed simp_all

section \<open>Rejections and the retry loop\<close>

text \<open>The Is method of kratos errors, as documented: code and reason of the two
  kratos errors agree.\<close>

definition kratos_is_law :: "gw_libs \<Rightarrow> bool" where
  "kratos_is_law G \<longleftrightarrow> (\<forall>k t. lib_kratos_is G k t =
     (case t of KratosErr t' \<Rightarrow> ke_code k = ke_code t' \<and> ke_reason k = ke_reason t' | _ \<Rightarrow> False))"

lemma jwt_errors_not_fatal:
  assumes "kratos_is_law G"
  shows "\<not> auth_rejection G missing_token"
    and "ParseJwt L key tok = Inl e \<Longrightarrow> \<not> auth_rejection G e"
    and "\<not> auth_rejection G (KratosErr ErrForbiddenRoute)"
  using assms
  by (auto simp: auth_rejection_def kratos_is_law_def missing_token_def ParseJwt_def gateway_error_defs NotAuthN_def
      split: jwt_parse.splits if_splits)

lemma markFailed_breaker:
  "count_events is_breaker (markFailed E e req i er w) = count_events is_breaker w + (if i = 0 then 0 else 1)"
  by (simp add: markFailed_def markFailedStat_def retryStateIncr_def Let_def is_breaker_def)

lemma attempt_failing:
  assumes "permissive E" and "\<And>w. t (attempt_request req) w = (Ret None (Some e0), w)"
    and "\<not> auth_rejection (px_libs E) e0"
  shows "\<exists>w'. attempt E e conds t req final i r er w = Again None (Some e0) w'
    \<and> count_events is_breaker w' = count_events is_breaker w + (if i = 0 then 0 else 1)"
  using assms by (simp add: attempt_permissive after_round_trip_simps markFailed_breaker)

lemma always_failing:
  assumes "permissive E" and "\<And>w. t (attempt_request req) w = (Ret None (Some e0), w)"
    and "\<not> auth_rejection (px_libs E) e0"
  shows "\<exists>w'. retry_loop E e conds t req (Suc n) i r er w = LoopDone None (Some e0) w'
    \<and> count_events is_breaker w' = count_events is_breaker w + (if i = 0 then n else Suc n)"
proof (induction n arbitrary: i r er w)
  case 0
  obtain w1 where "attempt E e conds t req True i r er w = Again None (Some e0) w1"
    "count_events is_breaker w1 = count_events is_breaker w + (if i = 0 then 0 else 1)"
    using attempt_failing [of E t req e0, OF assms] by blast
  then show ?case by simp
next
  case (Suc n)
  obtain w1 where 1: "attempt E e conds t req False i r er w = Again None (Some e0) w1"
    "count_events is_breaker w1 = count_events is_breaker w + (if i = 0 then 0 else 1)"
    using attempt_failing [of E t req e0, OF assms] by blast
  have "retry_loop E e conds t req (Suc (Suc n)) i r er w = retry_loop E e conds t req (Suc n) (Suc i) None (Some e0) w1"
    by (subst retry_loop.simps) (simp only: nat.simps simp_thms 1 step_result.case)
  moreover obtain w' where "retry_loop E e conds t req (Suc n) (Suc i) None (Some e0) w1 = LoopDone None (Some e0) w'"
    "count_events is_breaker w' = count_events is_breaker w1 + Suc n"
    using Suc [of "Suc i" None "Some e0" w1] by (metis nat.distinct(1))
  ultimately show ?case using 1(2) by auto
qed

text \<open>A request without a bearer token on an endpoint with retries is rejected
  by the jwt middleware once per attempt: the loop does not recognise the
  rejection, asks again every time, and reports each repetition to the
  endpoint's retry breaker as a failure.\<close>

theorem missing_token_is_retried:
  assumes "permissive E" and "kratos_is_law (px_libs E)"
    and "\<not> list_ex (\<lambda>m. pm_Match m req) ms" and "\<not> hasPrefix (hget (rq_header req) ''Authorization'') ''Bearer ''"
  shows "\<exists>w'. retry_loop E e conds (jwt_RoundTrip L key_of ms behind) req (Suc n) 0 None None w
      = LoopDone None (Some missing_token) w'
    \<and> count_events is_breaker w' = count_events is_breaker w + n"
proof -
  have "jwt_RoundTrip L key_of ms behind (attempt_request req) w = (Ret None (Some missing_token), w)" for w
    using assms(3,4) pm_Match_target [of "attempt_request req" req]
    by (simp add: jwt_RoundTrip_def attempt_request_def)
  then show ?thesis
    using always_failing [where i = 0 and t = "jwt_RoundTrip L key_of ms behind" and req = req, OF assms(1) _ jwt_errors_not_fatal(1) [OF assms(2)]] by simp
qed

lemma sample_is_law: "kratos_is_law (px_libs sample_env)"
  by (auto simp: kratos_is_law_def sample_env_def sample_libs_def split: err.splits)

theorem missing_token_is_retried_witness:
  "\<exists>w'. retry_loop sample_env sample_endpoint [] (jwt_RoundTrip demo_lib (\<lambda>x. Some 3) [] (\<lambda>r w. (Panicked, w)))
        user_request (Suc 2) 0 None None (sample_world ()) = LoopDone None (Some missing_token) w'
    \<and> count_events is_breaker w' = count_events is_breaker (sample_world ()) + 2"
  by (rule missing_token_is_retried [OF sample_permissive sample_is_law]) (simp_all add: user_request_def hget_def)

end
