(* ===== verification/Cors.thy ===== *)
theory Cors
  imports Middleware_Core Go_Url "HOL-Library.Signed_Division"
begin

text \<open>
  Package middleware/cors: which origins are allowed, the headers of preflight
  and normal answers, and the middleware.  Merging the options of the
  configuration (an Any message) into the defaults is a parameter.
\<close>

section \<open>Options\<close>

record cors_options =
  co_allow_credentials :: bool
  co_allow_origins :: "string list"
  co_allow_methods :: "string list"
  co_allow_headers :: "string list"
  co_expose_headers :: "string list"
  co_max_age :: "int option"
  co_allow_private_network :: bool

definition default_cors :: cors_options where
  "default_cors =
    \<lparr>co_allow_credentials = True, co_allow_origins = [],
     co_allow_methods = [''GET'', ''POST'', ''PUT'', ''DELETE'', ''OPTIONS''],
     co_allow_headers = [''Origin'', ''Content-Length'', ''Content-Type'', ''Authorization'', ''Connect-Protocol-Version'',
                         ''Connect-Accept-Encoding'', ''Connect-Timeout-Ms'', ''Connect-Codec-Compress-Bin''],
     co_expose_headers = [], co_max_age = Some (600 * 1000000000), co_allow_private_network = True\<rparr>"

section \<open>Origins\<close>

text \<open>The host an allowed entry stands for: that of the URL, or its path when it
  has none.\<close>

definition allowed_host :: "url \<Rightarrow> string" where
  "allowed_host u = (if toLower (ul_host u) = [] then toLower (ul_path u) else toLower (ul_host u))"

fun origin_loop :: "string \<Rightarrow> string list \<Rightarrow> bool" where
  "origin_loop host [] = False"
| "origin_loop host (a # as) =
     (if a = ''*'' then True
      else
        (case url_Parse a of
           None \<Rightarrow> origin_loop host as
         | Some u \<Rightarrow>
             if allowed_host u = host then True
             else if hasPrefix (allowed_host u) ''*.'' \<and> hasSuffix host (''.'' @ trimPrefix (allowed_host u) ''*.'') then True
             else origin_loop host as))"

definition isOriginAllowed :: "string \<Rightarrow> string list \<Rightarrow> bool" where
  "isOriginAllowed origin hosts =
    (case url_Parse origin of None \<Rightarrow> False | Some u \<Rightarrow> origin_loop (toLower (ul_host u)) hosts)"

section \<open>Headers\<close>

fun normalize_loop :: "string list \<Rightarrow> string list \<Rightarrow> string list" where
  "normalize_loop seen [] = []"
| "normalize_loop seen (v # vs) =
     (let x = toLower (trimSpace v)
      in if x \<in> set seen then normalize_loop seen vs else x # normalize_loop (x # seen) vs)"

definition cors_normalize :: "string list \<Rightarrow> string list" where
  "cors_normalize = normalize_loop []"

definition cors_convert :: "(string \<Rightarrow> string) \<Rightarrow> string list \<Rightarrow> string list" where
  "cors_convert c s = map c s"

definition set_if :: "bool \<Rightarrow> string \<Rightarrow> string \<Rightarrow> header \<Rightarrow> header" where
  "set_if b k v h = (if b then hset h k v else h)"

definition generateNormalHeaders :: "cors_options \<Rightarrow> header" where
  "generateNormalHeaders c =
    (let h1 = set_if (co_allow_credentials c) ''Access-Control-Allow-Credentials'' ''true'' Map.empty;
         h2 = set_if (co_allow_methods c \<noteq> []) ''Access-Control-Allow-Methods''
                (join_str '','' (cors_convert toUpper (cors_normalize (co_allow_methods c)))) h1;
         h3 = set_if (co_expose_headers c \<noteq> []) ''Access-Control-Expose-Headers''
                (join_str '','' (cors_convert canonKey (cors_normalize (co_expose_headers c)))) h2
     in hadd h3 ''Vary'' ''Origin'')"

definition generatePreflightHeaders :: "cors_options \<Rightarrow> header" where
  "generatePreflightHeaders c =
    (let h1 = set_if (co_allow_credentials c) ''Access-Control-Allow-Credentials'' ''true'' Map.empty;
         h2 = set_if (co_allow_methods c \<noteq> []) ''Access-Control-Allow-Methods''
                (join_str '','' (cors_convert toUpper (cors_normalize (co_allow_methods c)))) h1;
         h3 = set_if (co_allow_headers c \<noteq> []) ''Access-Control-Allow-Headers''
                (join_str '','' (cors_convert canonKey (cors_normalize (co_allow_headers c)))) h2;
         h4 = (case co_max_age c of
                 None \<Rightarrow> h3
               | Some d \<Rightarrow> hset h3 ''Access-Control-Max-Age'' (formatInt (d sdiv 1000000000)))
     in hadd (hadd (hadd h4 ''Vary'' ''Origin'') ''Vary'' ''Access-Control-Request-Method'')
          ''Vary'' ''Access-Control-Request-Headers'')"

section \<open>The middleware\<close>

definition cors_newResponse :: "int \<Rightarrow> header \<Rightarrow> response" where
  "cors_newResponse status h =
    \<lparr>rs_status = status, rs_header = Some h, rs_trailer = Map.empty,
     rs_body = Some \<lparr>bd_data = [], bd_err = None\<rparr>, rs_content_length = 0\<rparr>"

definition preflight_response :: "cors_options \<Rightarrow> header \<Rightarrow> request \<Rightarrow> response" where
  "preflight_response opts preflight req =
    (let h = set_if (co_allow_private_network opts
                 \<and> hget (rq_header req) ''Access-Control-Request-Private-Network'' = ''true'')
               ''Access-Control-Allow-Private-Network'' ''true'' Map.empty
     in cors_newResponse 200
          (hset (h ++ preflight) ''Access-Control-Allow-Origin'' (hget (rq_header req) ''Origin'')))"

definition cors_decorate :: "header \<Rightarrow> string \<Rightarrow> response \<Rightarrow> response" where
  "cors_decorate normal origin resp =
    (let h = (case rs_header resp of None \<Rightarrow> Map.empty | Some h \<Rightarrow> h)
     in resp\<lparr>rs_header := Some (hset (h ++ normal) ''Access-Control-Allow-Origin'' origin)\<rparr>)"

definition cors_RoundTrip :: "cors_options \<Rightarrow> 'w middleware" where
  "cors_RoundTrip opts next req w =
    (let origin = hget (rq_header req) ''Origin'' in
     if origin = [] then next req w
     else if \<not> isOriginAllowed origin (co_allow_origins opts) then
       (Ret (Some (cors_newResponse 403 Map.empty)) None, w)
     else if rq_method req = ''OPTIONS'' then
       (Ret (Some (preflight_response opts (generatePreflightHeaders opts) req)) None, w)
     else
       (case next req w of
          (Panicked, w1) \<Rightarrow> (Panicked, w1)
        | (Ret r (Some e), w1) \<Rightarrow> (Ret None (Some e), w1)
        | (Ret None None, w1) \<Rightarrow> (Panicked, w1)
        | (Ret (Some resp) None, w1) \<Rightarrow>
            (Ret (Some (cors_decorate (generateNormalHeaders opts) origin resp)) None, w1)))"

definition cors_Middleware :: "(any_msg \<Rightarrow> cors_options \<Rightarrow> err + cors_options) \<Rightarrow> 'w factory" where
  "cors_Middleware unmarshal_merge c w =
    (case (case mc_options c of None \<Rightarrow> Inr default_cors | Some a \<Rightarrow> unmarshal_merge a default_cors) of
       Inl e \<Rightarrow> (Inl e, w)
     | Inr opts \<Rightarrow> (Inr (cors_RoundTrip opts), w))"

section \<open>Which origins are allowed\<close>

text \<open>What an origin must be for an entry: the same host with its port, or a
  name below the domain of a wildcard entry.\<close>

definition entry_allows :: "string \<Rightarrow> string \<Rightarrow> bool" where
  "entry_allows host a =
    (a = ''*'' \<or> (case url_Parse a of
       None \<Rightarrow> False
     | Some u \<Rightarrow> allowed_host u = host \<or> (\<exists>d. allowed_host u = ''*.'' @ d \<and> suffix (''.'' @ d) host)))"

lemma origin_loop_iff: "origin_loop host as \<longleftrightarrow> list_ex (entry_allows host) as"
proof (induction host as rule: origin_loop.induct)
  case (2 host a as)
  have w: "(hasPrefix h ''*.'' \<and> hasSuffix host (''.'' @ trimPrefix h ''*.'')) = (\<exists>d. h = ''*.'' @ d \<and> suffix (''.'' @ d) host)" for h
    by (auto simp: trimPrefix_def prefix_def)
  show ?case
  proof (cases "a = ''*''")
    case False
    show ?thesis
    proof (cases "url_Parse a")
      case None
      then show ?thesis using "2.IH"(1) False by (simp add: entry_allows_def)
    next
      case (Some u)
      let ?hit = "allowed_host u = host \<or> (\<exists>d. allowed_host u = ''*.'' @ d \<and> suffix (''.'' @ d) host)"
      have "origin_loop host (a # as) = (if ?hit then True else origin_loop host as)"
        unfolding origin_loop.simps(2) Some option.case using False w by auto
      moreover have "entry_allows host a = ?hit" using False Some by (simp add: entry_allows_def)
      ultimately show ?thesis using "2.IH"(2) False Some w by auto
    qed
  qed (simp add: entry_allows_def)
qed simp

lemma decorate_origin:
  "\<exists>h. rs_header (cors_decorate normal origin resp) = Some h \<and> h ''Access-Control-Allow-Origin'' = Some [origin]"
  by (simp add: cors_decorate_def Let_def hset_def)

lemma preflight_origin:
  "\<exists>h. rs_header (preflight_response opts preflight req) = Some h
    \<and> h ''Access-Control-Allow-Origin'' = Some [hget (rq_header req) ''Origin'']"
  by (simp add: preflight_response_def cors_newResponse_def Let_def hset_def)

text \<open>C20: An answer to a cross-origin request either grants exactly the origin of
  the request, and then an entry of the configuration allows it, or is the
  403 of the middleware, which no other layer has seen.\<close>

theorem granted_origin_is_allowed:
  assumes "cors_RoundTrip opts next req w = (Ret (Some resp) None, w')"
    and "hget (rq_header req) ''Origin'' \<noteq> []"
  shows "\<exists>h. rs_header resp = Some h \<and>
    (case h ''Access-Control-Allow-Origin'' of
       None \<Rightarrow> resp = cors_newResponse 403 Map.empty \<and> w' = w
     | Some vs \<Rightarrow> vs = [hget (rq_header req) ''Origin''] \<and>
         (\<exists>u. url_Parse (hget (rq_header req) ''Origin'') = Some u
           \<and> list_ex (entry_allows (toLower (ul_host u))) (co_allow_origins opts)))"
proof (cases "isOriginAllowed (hget (rq_header req) ''Origin'') (co_allow_origins opts)")
  case False
  then have "resp = cors_newResponse 403 Map.empty" "w' = w" using assms by (simp_all add: cors_RoundTrip_def)
  then show ?thesis by (simp add: cors_newResponse_def)
next
  case True
  then obtain u where u: "url_Parse (hget (rq_header req) ''Origin'') = Some u"
      "list_ex (entry_allows (toLower (ul_host u))) (co_allow_origins opts)"
    by (auto simp: isOriginAllowed_def origin_loop_iff split: option.splits)
  obtain h where "rs_header resp = Some h" "h ''Access-Control-Allow-Origin'' = Some [hget (rq_header req) ''Origin'']"
  proof (cases "rq_method req = ''OPTIONS''")
    case True
    then have "resp = preflight_response opts (generatePreflightHeaders opts) req"
      using assms \<open>isOriginAllowed _ _\<close> by (simp add: cors_RoundTrip_def)
    then show thesis using that preflight_origin by blast
  next
    case False
    then obtain r where "resp = cors_decorate (generateNormalHeaders opts) (hget (rq_header req) ''Origin'') r"
      using assms True by (auto simp: cors_RoundTrip_def Let_def split: prod.splits rt_result.splits option.splits)
    then show thesis using that decorate_origin by blast
  qed
  then show ?thesis using u by simp
qed

definition cross_request :: "string \<Rightarrow> request" where
  "cross_request origin = \<lparr>rq_method = ''GET'', rq_host = ''api.shop.com'', rq_scheme = ''http'', rq_url_host = [], rq_path = ''/v1'',
     rq_remote_addr = ''10.0.0.1:1'', rq_header = [''Origin'' \<mapsto> [origin]], rq_body = \<lparr>bd_data = [], bd_err = None\<rparr>,
     rq_content_length = 0, rq_request_uri = ''/v1'', rq_ctx_path = None\<rparr>"

lemma parse_shop: "url_Parse ''https://www.shop.com'' = Some \<lparr>ul_scheme = ''https'', ul_opaque = [], ul_host = ''www.shop.com'',
    ul_path = [], ul_raw_query = []\<rparr>"
  by code_simp

lemma parse_wildcard: "url_Parse ''*.shop.com'' = Some \<lparr>ul_scheme = [], ul_opaque = [], ul_host = [],
    ul_path = ''*.shop.com'', ul_raw_query = []\<rparr>"
  by code_simp

lemma lower_shop: "toLower ''www.shop.com'' = ''www.shop.com''" "toLower ''*.shop.com'' = ''*.shop.com''" "toLower [] = []"
  by code_simp+

lemma shop_allowed: "isOriginAllowed ''https://www.shop.com'' [''*.shop.com'']"
  by (simp add: isOriginAllowed_def parse_shop parse_wildcard lower_shop allowed_host_def trimPrefix_def suffix_def)

theorem granted_origin_is_allowed_witness:
  "\<exists>resp w' h. cors_RoundTrip (default_cors\<lparr>co_allow_origins := [''*.shop.com'']\<rparr>) (\<lambda>r w. (Ret (Some (cors_newResponse 200 Map.empty)) None, w))
      (cross_request ''https://www.shop.com'') (0 :: nat) = (Ret (Some resp) None, w')
    \<and> rs_header resp = Some h \<and> h ''Access-Control-Allow-Origin'' = Some [''https://www.shop.com'']"
proof -
  have o: "hget (rq_header (cross_request ''https://www.shop.com'')) ''Origin'' = ''https://www.shop.com''"
    by (simp add: cross_request_def hget_def)
  have m: "rq_method (cross_request ''https://www.shop.com'') = ''GET''" by (simp add: cross_request_def)
  let ?opts = "default_cors\<lparr>co_allow_origins := [''*.shop.com'']\<rparr>"
  let ?next = "\<lambda>r w. (Ret (Some (cors_newResponse 200 Map.empty)) None, w) :: rt_result \<times> nat"
  let ?resp = "cors_decorate (generateNormalHeaders ?opts) ''https://www.shop.com'' (cors_newResponse 200 Map.empty)"
  have run: "cors_RoundTrip ?opts ?next (cross_request ''https://www.shop.com'') (0 :: nat) = (Ret (Some ?resp) None, 0)"
    using shop_allowed m unfolding cors_RoundTrip_def o Let_def by simp
  obtain h where h: "rs_header ?resp = Some h" "h ''Access-Control-Allow-Origin'' \<noteq> None"
    using decorate_origin by fastforce
  then have "h ''Access-Control-Allow-Origin'' = Some [''https://www.shop.com'']"
    using granted_origin_is_allowed [OF run] o by (auto split: option.splits)
  then show ?thesis using run h by blast
qed

text \<open>A development entry without a scheme, localhost:3000, parses as the
  scheme localhost and stands for the empty host.  It does not allow the origin
  it names, and it allows every origin without a host, the origin null of
  sandboxed and local documents among them.\<close>

theorem bare_port_entry_allows_null:
  "isOriginAllowed ''null'' [''localhost:3000''] \<and> \<not> isOriginAllowed ''http://localhost:3000'' [''localhost:3000'']"
  by code_simp

end
