(* ===== verification/Rewrite.thy ===== *)
theory Rewrite
  imports Middleware_Core Go_Path
begin

text \<open>
  Package middleware/rewrite: prefixes stripped from and put before the path,
  the host, and the header policies for requests and responses.  Decoding the
  options is a parameter; the maps of a policy are lists in the order the loop
  over them happens to run.
\<close>

section \<open>Options\<close>

record headers_policy =
  hp_set :: "(string \<times> string) list"
  hp_add :: "(string \<times> string) list"
  hp_remove :: "string list"

record rewrite_options =
  rw_path_rewrite :: "string option"
  rw_request_headers :: "headers_policy option"
  rw_response_headers :: "headers_policy option"
  rw_strip_prefix :: "string option"
  rw_host_rewrite :: "string option"

section \<open>Paths and headers\<close>

definition stripPrefix :: "string \<Rightarrow> string \<Rightarrow> string" where
  "stripPrefix origin pre =
    (let out = trimPrefix origin pre
     in if out = [] then ''/''
        else if out ! 0 \<noteq> slash then path_Join [''/'', out]
        else out)"

definition rewrite_path :: "rewrite_options \<Rightarrow> string \<Rightarrow> string" where
  "rewrite_path o' p =
    (let p1 = (case rw_strip_prefix o' of None \<Rightarrow> p | Some pre \<Rightarrow> stripPrefix p pre)
     in case rw_path_rewrite o' of None \<Rightarrow> p1 | Some base \<Rightarrow> path_Join [base, p1])"

definition apply_policy :: "headers_policy \<Rightarrow> header \<Rightarrow> header" where
  "apply_policy hp h =
    foldl hdel (foldl (\<lambda>h (k, v). hadd h k v) (foldl (\<lambda>h (k, v). hset h k v) h (hp_set hp)) (hp_add hp)) (hp_remove hp)"

definition rewrite_request :: "rewrite_options \<Rightarrow> request \<Rightarrow> request" where
  "rewrite_request o' req =
    (let r1 = (case rw_host_rewrite o' of None \<Rightarrow> req | Some host \<Rightarrow> req\<lparr>rq_host := host\<rparr>);
         r2 = r1\<lparr>rq_path := rewrite_path o' (rq_path r1)\<rparr>
     in case rw_request_headers o' of None \<Rightarrow> r2 | Some hp \<Rightarrow> r2\<lparr>rq_header := apply_policy hp (rq_header r2)\<rparr>)"

text \<open>Writing into the nil header of a response panics, deleting from it does
  nothing.\<close>

definition rewrite_response :: "rewrite_options \<Rightarrow> response \<Rightarrow> response option" where
  "rewrite_response o' resp =
    (case rw_response_headers o' of
       None \<Rightarrow> Some resp
     | Some hp \<Rightarrow>
         (case rs_header resp of
            Some h \<Rightarrow> Some (resp\<lparr>rs_header := Some (apply_policy hp h)\<rparr>)
          | None \<Rightarrow> if hp_set hp = [] \<and> hp_add hp = [] then Some resp else None))"

section \<open>The middleware\<close>

definition rewrite_RoundTrip :: "rewrite_options \<Rightarrow> 'w middleware" where
  "rewrite_RoundTrip o' next req w =
    (case next (rewrite_request o' req) w of
       (Panicked, w1) \<Rightarrow> (Panicked, w1)
     | (Ret r (Some e), w1) \<Rightarrow> (Ret None (Some e), w1)
     | (Ret None None, w1) \<Rightarrow>
         (case rw_response_headers o' of
            None \<Rightarrow> (Ret None None, w1)
          | Some hp \<Rightarrow>
              (if hp_set hp = [] \<and> hp_add hp = [] \<and> hp_remove hp = [] then Ret None None else Panicked, w1))
     | (Ret (Some resp) None, w1) \<Rightarrow>
         (case rewrite_response o' resp of
            None \<Rightarrow> (Panicked, w1)
          | Some resp1 \<Rightarrow> (Ret (Some resp1) None, w1)))"

definition rewrite_Middleware :: "(any_msg \<Rightarrow> err + rewrite_options) \<Rightarrow> 'w factory" where
  "rewrite_Middleware decode c w =
    (case (case mc_options c of
             None \<Rightarrow> Inr \<lparr>rw_path_rewrite = None, rw_request_headers = None, rw_response_headers = None,
                        rw_strip_prefix = None, rw_host_rewrite = None\<rparr>
           | Some a \<Rightarrow> decode a) of
       Inl e \<Rightarrow> (Inl e, w)
     | Inr o' \<Rightarrow> (Inr (rewrite_RoundTrip o'), w))"

section \<open>Where a rewritten path can lead\<close>

definition no_parent :: "string \<Rightarrow> bool" where
  "no_parent q = (hasPrefix q ''/'' \<and> list_all (\<lambda>c. c \<noteq> ''..'') (split_char slash q))"

lemma clean_no_parent:
  "list_all (\<lambda>c. c \<noteq> ''..'') cs \<Longrightarrow> clean_comps r cs st = rev st @ filter (\<lambda>c. c \<noteq> [] \<and> c \<noteq> ''.'') cs"
  by (induction cs arbitrary: st) (auto simp del: clean_comps.simps(2) simp: clean_comps.simps(2))

lemma join_no_parent:
  assumes base: "hasPrefix base ''/''" and q: "no_parent q"
  shows "path_comps (path_Join [base, q]) = path_comps base @ path_comps q"
proof -
  have ne: "base \<noteq> []" "q \<noteq> []" using base q by (auto simp: no_parent_def)
  then have j: "path_Join [base, q] = path_Clean (base @ slash # q)" by (simp add: path_Join_def)
  have r: "hasPrefix (base @ slash # q) ''/''" using base by (auto simp: prefix_def)
  have b: "hasPrefix base ''/'' = True" "hasPrefix q ''/'' = True" using base q by (simp_all add: no_parent_def)
  have "path_comps (base @ slash # q) = path_comps base @ path_comps q"
    using r clean_no_parent q unfolding path_comps_def b split_char_join2 clean_comps_append no_parent_def
    by simp
  then show ?thesis using path_comps_of_rooted [OF rooted_comps_plain [OF r]] by (simp add: j path_Clean_rooted [OF r])
qed

lemma no_parent_rooted:
  assumes "list_all plain_comp cs"
  shows "no_parent (slash # join_str ''/'' cs)"
proof (cases "cs = []")
  case False
  then show ?thesis using split_join_plain [OF assms False] assms by (auto simp: no_parent_def list_all_iff plain_comp_def)
qed (simp add: no_parent_def)

lemma no_parent_clean: "hasPrefix p ''/'' \<Longrightarrow> no_parent (path_Clean p)"
  using no_parent_rooted [OF rooted_comps_plain] by (simp add: path_Clean_rooted)

lemma no_parent_suffix:
  assumes "no_parent (a @ slash # b)"
  shows "no_parent (slash # b)"
  using assms by (simp add: no_parent_def split_char_join2)

lemma stripPrefix_no_parent:
  assumes "no_parent p"
  shows "no_parent (stripPrefix p pre)"
proof -
  let ?out = "trimPrefix p pre"
  consider (nil) "?out = []" | (rel) "?out \<noteq> []" "?out ! 0 \<noteq> slash" | (abs) b where "?out = slash # b"
    by (cases ?out) auto
  then show ?thesis
  proof cases
    case nil
    then show ?thesis using no_parent_rooted [of "[]"] by (simp add: stripPrefix_def)
  next
    case rel
    then have "stripPrefix p pre = path_Clean (''/'' @ slash # ?out)" by (simp add: stripPrefix_def path_Join_def Let_def)
    then show ?thesis using no_parent_clean [of "''/'' @ slash # ?out"] by simp
  next
    case (abs b)
    then obtain a where "p = a @ slash # b"
      by (auto simp: trimPrefix_def prefix_def split: if_splits)
    then show ?thesis using abs no_parent_suffix assms by (simp add: stripPrefix_def)
  qed
qed

text \<open>C23: A path the router has cleaned stays below the configured base, whatever
  prefix is stripped from it: its components follow those of the base.\<close>

theorem rewritten_path_below_base:
  assumes "rw_path_rewrite o' = Some base" and "hasPrefix base ''/''"
    and "hasPrefix p ''/''" and "path_Clean p = p"
  shows "prefix (path_comps base) (path_comps (rewrite_path o' p))"
proof -
  have np: "no_parent p" using no_parent_clean [OF assms(3)] assms(4) by simp
  then show ?thesis
    using assms(1) join_no_parent [OF assms(2)] stripPrefix_no_parent [OF np]
    by (cases "rw_strip_prefix o'") (simp_all add: rewrite_path_def)
qed

definition strip_api :: rewrite_options where
  "strip_api = \<lparr>rw_path_rewrite = Some ''/v1'', rw_request_headers = None, rw_response_headers = None,
     rw_strip_prefix = Some ''/api'', rw_host_rewrite = None\<rparr>"

theorem rewritten_path_below_base_witness:
  "prefix (path_comps ''/v1'') (path_comps (rewrite_path strip_api ''/api/users''))"
proof (rule rewritten_path_below_base)
  show "path_Clean ''/api/users'' = ''/api/users''" by code_simp
qed (simp_all add: strip_api_def)

text \<open>Stripping is by bytes, not by components: the prefix /api is also
  taken from /apikeys.\<close>

lemma strip_is_bytewise: "stripPrefix ''/apikeys'' ''/api'' = ''/keys''"
  by code_simp

end
