(* ===== verification/Transcoder.thy ===== *)
theory Transcoder
  imports Errors_Response Middleware_Core "HOL-Library.Word"
begin

text \<open>
  Package middleware/transcoder: plain requests to a gRPC endpoint are put into
  one gRPC message frame, the answer is taken out of its frame, and a gRPC
  status becomes a JSON status.  Protobuf and protojson are parameters.
\<close>

section \<open>Base64\<close>

definition b64_val :: "char \<Rightarrow> nat option" where
  "b64_val c = index_of c b64_alphabet"

text \<open>DecodeString of the standard encodings: line ends are skipped, the
  padded encoding wants full groups; \<open>None\<close> is an error.\<close>

fun b64_groups :: "bool \<Rightarrow> string \<Rightarrow> nat list option" where
  "b64_groups padded [] = Some []"
| "b64_groups padded (a # b # c # d # rest) =
     (case (b64_val a, b64_val b) of
        (Some x, Some y) \<Rightarrow>
          (if padded \<and> c = CHR ''='' \<and> d = CHR ''='' then (if rest = [] then Some [x * 4 + y div 16] else None)
           else
             (case b64_val c of
                None \<Rightarrow> None
              | Some z \<Rightarrow>
                  if padded \<and> d = CHR ''='' then
                    (if rest = [] then Some [x * 4 + y div 16, (y mod 16) * 16 + z div 4] else None)
                  else
                    (case b64_val d of
                       None \<Rightarrow> None
                     | Some u \<Rightarrow>
                         map_option (\<lambda>bs. [x * 4 + y div 16, (y mod 16) * 16 + z div 4, (z mod 4) * 64 + u] @ bs)
                           (b64_groups padded rest))))
      | _ \<Rightarrow> None)"
| "b64_groups padded [a, b, c] =
     (if padded then None
      else
        (case (b64_val a, b64_val b, b64_val c) of
           (Some x, Some y, Some z) \<Rightarrow> Some [x * 4 + y div 16, (y mod 16) * 16 + z div 4]
         | _ \<Rightarrow> None))"
| "b64_groups padded [a, b] =
     (if padded then None
      else (case (b64_val a, b64_val b) of (Some x, Some y) \<Rightarrow> Some [x * 4 + y div 16] | _ \<Rightarrow> None))"
| "b64_groups padded [a] = None"

definition b64_decode :: "bool \<Rightarrow> string \<Rightarrow> string option" where
  "b64_decode padded s = map_option (map char_of) (b64_groups padded (filter (\<lambda>c. c \<noteq> CHR 0x0A \<and> c \<noteq> CHR 0x0D) s))"

definition decodeBinHeader :: "string \<Rightarrow> string option" where
  "decodeBinHeader v = (if length v mod 4 = 0 then b64_decode True v else b64_decode False v)"

section \<open>Frames\<close>

text \<open>The length of a message as four bytes, big end first, after the
  conversion to 32 bits.\<close>

definition put_be32 :: "32 word \<Rightarrow> string" where
  "put_be32 n = map (\<lambda>k. char_of (unat (drop_bit k n) mod 256)) [24, 16, 8, 0]"

definition get_be32 :: "string \<Rightarrow> nat" where
  "get_be32 s = foldl (\<lambda>n c. 256 * n + byte c) 0 (take 4 s)"

definition grpc_frame :: "string \<Rightarrow> string" where
  "grpc_frame b = char_of (0 :: nat) # put_be32 (word_of_nat (length b)) @ b"

section \<open>The middleware\<close>

record rpc_status =
  st_code :: int
  st_message :: string
  st_details :: string

record transcoder_lib =
  tl_Unmarshal :: "string \<Rightarrow> err + rpc_status"
  tl_Marshal :: "rpc_status \<Rightarrow> err + string"

definition tc_newResponse :: "int \<Rightarrow> header \<Rightarrow> string \<Rightarrow> response" where
  "tc_newResponse status h data =
    \<lparr>rs_status = status, rs_header = Some h, rs_trailer = Map.empty,
     rs_body = Some \<lparr>bd_data = data, bd_err = None\<rparr>, rs_content_length = int (length data)\<rparr>"

definition int32_of :: "int \<Rightarrow> int" where
  "int32_of i = sint (word_of_int i :: 32 word)"

definition grpc_request :: "request \<Rightarrow> request" where
  "grpc_request req =
    (let bb = grpc_frame (bd_data (rq_body req));
         ct = hget (rq_header req) ''Content-Type''
     in req\<lparr>rq_header := hdel (hset (rq_header req) ''Content-Type''
                              (''application/grpc+'' @ trimLeft ct ''application/'')) ''Content-Length'',
            rq_content_length := int (length bb), rq_body := \<lparr>bd_data = bb, bd_err = None\<rparr>\<rparr>)"

text \<open>A gRPC status that is not OK, as a JSON answer.\<close>

definition status_answer :: "transcoder_lib \<Rightarrow> header \<Rightarrow> rt_result" where
  "status_answer L h =
    (case parseInt 64 (hget h ''grpc-status'') of
       (code, ok) \<Rightarrow>
         if \<not> ok then Ret None (Some (PlainErr ''strconv.ParseInt''))
         else
           (let st = \<lparr>st_code = int32_of code, st_message = hget h ''grpc-message'', st_details = []\<rparr>;
                dbin = hget h ''grpc-status-details-bin''
            in case (if dbin = [] then Inr st
                     else (case decodeBinHeader dbin of
                             None \<Rightarrow> Inl (PlainErr ''illegal base64 data'')
                           | Some details \<Rightarrow> tl_Unmarshal L details)) of
                 Inl e \<Rightarrow> Ret None (Some e)
               | Inr st1 \<Rightarrow>
                   (case tl_Marshal L st1 of
                      Inl e \<Rightarrow> Ret None (Some e)
                    | Inr data \<Rightarrow> Ret (Some (tc_newResponse 200 h data)) None)))"

definition grpc_answer :: "transcoder_lib \<Rightarrow> string \<Rightarrow> response \<Rightarrow> rt_result" where
  "grpc_answer L contentType resp =
    (case rs_body resp of
       None \<Rightarrow> Panicked
     | Some b \<Rightarrow>
         (case bd_err b of
            Some e \<Rightarrow> Ret None (Some e)
          | None \<Rightarrow>
              (case rs_header resp of
                 None \<Rightarrow> Panicked
               | Some h0 \<Rightarrow>
                   (let h = hset (h0 ++ rs_trailer resp) ''Content-Type'' contentType;
                        status = hget h ''grpc-status'';
                        data = bd_data b
                    in if status \<noteq> [] \<and> status \<noteq> ''0'' then status_answer L h
                       else if length data < 5 then
                         Ret (Some (tc_newResponse 200 (hset h ''Content-Type'' ''application/json'') ''{}'')) None
                       else
                         Ret (Some (resp\<lparr>rs_header := Some (hdel h ''Content-Length''), rs_trailer := Map.empty,
                                         rs_body := Some \<lparr>bd_data = drop 5 data, bd_err = None\<rparr>,
                                         rs_content_length := int (length data) - 5\<rparr>)) None))))"

definition transcoder_RoundTrip :: "transcoder_lib \<Rightarrow> 'x world middleware" where
  "transcoder_RoundTrip L next req w =
    (let ct = hget (rq_header req) ''Content-Type'' in
     if ep_protocol (ro_endpoint (w_opts w)) \<noteq> GRPC \<or> hasPrefix ct ''application/grpc'' then next req w
     else
       (case bd_err (rq_body req) of
          Some e \<Rightarrow> (Ret None (Some e), w)
        | None \<Rightarrow>
            (case next (grpc_request req) w of
               (Panicked, w1) \<Rightarrow> (Panicked, w1)
             | (Ret r (Some e), w1) \<Rightarrow> (Ret None (Some e), w1)
             | (Ret None None, w1) \<Rightarrow> (Panicked, w1)
             | (Ret (Some resp) None, w1) \<Rightarrow> (grpc_answer L ct resp, w1))))"

definition transcoder_Middleware :: "transcoder_lib \<Rightarrow> 'x world factory" where
  "transcoder_Middleware L c w = (Inr (transcoder_RoundTrip L), w)"

section \<open>Frames and their lengths\<close>

lemma be32_digits:
  assumes "n < 4294967296"
  shows "256 * (256 * (256 * (n div 16777216 mod 256) + n div 65536 mod 256) + n div 256 mod 256) + n mod 256 = (n :: nat)"
proof -
  have 1: "n div 65536 = n div 256 div 256" "n div 16777216 = n div 65536 div 256"
    using div_mult2_eq [of n 256 256] div_mult2_eq [of n 65536 256] by simp_all
  have "n div 16777216 mod 256 = n div 16777216" using less_mult_imp_div_less [of n 256 16777216] assms by simp
  moreover have "256 * (n div 16777216) + n div 65536 mod 256 = n div 65536" unfolding 1(2) by (rule mult_div_mod_eq)
  moreover have "256 * (n div 65536) + n div 256 mod 256 = n div 256" unfolding 1(1) by (rule mult_div_mod_eq)
  moreover have "256 * (n div 256) + n mod 256 = n" by (rule mult_div_mod_eq)
  ultimately show ?thesis by presburger
qed

lemma get_put_be32: "get_be32 (put_be32 n @ s) = unat n"
proof -
  have lt: "unat n < 4294967296" using unsigned_less [of n] by simp
  have d: "unat (drop_bit k n) = unat n div 2 ^ k" for k
    by (simp only: unat_drop_bit_eq) (simp add: drop_bit_eq_div)
  have "get_be32 (put_be32 n @ s) = 256 * (256 * (256 * (unat n div 16777216 mod 256) + unat n div 65536 mod 256)
      + unat n div 256 mod 256) + unat n mod 256"
    by (simp add: get_be32_def put_be32_def d byte_def)
  from trans [OF this be32_digits [OF lt]] show ?thesis .
qed

lemma length_frame: "length (grpc_frame b) = length b + 5"
  by (simp add: grpc_frame_def put_be32_def)

lemma drop_frame: "drop 5 (grpc_frame b) = b"
  by (simp add: grpc_frame_def put_be32_def)

text \<open>The announced length of a frame is the length of its message, up to the
  wrap-around of the conversion to 32 bits.\<close>

lemma frame_length: "get_be32 (tl (grpc_frame b)) = length b mod 2 ^ 32"
  using get_put_be32 [of "word_of_nat (length b)" b] by (simp add: grpc_frame_def unat_of_nat)

section \<open>Properties\<close>

text \<open>The length-prefixed message of the gRPC protocol, as its specification has
  it, independent of the code: a compression flag, here 0, the length of the
  message as four bytes, big end first, and the message, with nothing after it.\<close>

definition grpc_message :: "string \<Rightarrow> string option" where
  "grpc_message s =
    (if 5 \<le> length s \<and> byte (hd s) = 0 \<and> get_be32 (tl s) = length (drop 5 s) then Some (drop 5 s) else None)"

lemma grpc_message_frame: "length b < 2 ^ 32 \<Longrightarrow> grpc_message (grpc_frame b) = Some b"
  using frame_length [of b] by (simp add: grpc_message_def length_frame drop_frame) (simp add: grpc_frame_def byte_def)

text \<open>A gRPC request: the content type of the protocol, the length of the whole
  body if any is announced, and one message in the body.\<close>

definition grpc_call :: "request \<Rightarrow> string \<Rightarrow> bool" where
  "grpc_call req m \<longleftrightarrow> hasPrefix (hget (rq_header req) ''Content-Type'') ''application/grpc''
    \<and> rq_header req ''Content-Length'' = None \<and> rq_content_length req = int (length (bd_data (rq_body req)))
    \<and> bd_err (rq_body req) = None \<and> grpc_message (bd_data (rq_body req)) = Some m"

text \<open>A gRPC answer without an error status: one message in the body.\<close>

definition grpc_reply :: "response \<Rightarrow> string \<Rightarrow> bool" where
  "grpc_reply resp m \<longleftrightarrow>
    (\<exists>h b. rs_header resp = Some h \<and> hget (h ++ rs_trailer resp) ''grpc-status'' \<in> {[], ''0''}
      \<and> rs_body resp = Some b \<and> bd_err b = None \<and> grpc_message (bd_data b) = Some m)"

text \<open>An upstream that answers gRPC calls with \<open>f\<close> of their message.  Of
  requests it cannot read as gRPC nothing is known.\<close>

definition grpc_service :: "(string \<Rightarrow> string) \<Rightarrow> 'w round_tripper \<Rightarrow> bool" where
  "grpc_service f next \<longleftrightarrow>
    (\<forall>req m w. grpc_call req m \<longrightarrow> (\<exists>resp. fst (next req w) = Ret (Some resp) None \<and> grpc_reply resp (f m)))"

lemma grpc_request_call:
  assumes "bd_data (rq_body req) = b" "length b < 2 ^ 32"
  shows "grpc_call (grpc_request req) b"
proof -
  show ?thesis
    using grpc_message_frame [OF assms(2)] assms(1)
    by (simp add: grpc_call_def grpc_request_def Let_def hget_def hset_def hdel_def canonKey_def)
qed

lemma grpc_reply_answer:
  assumes "grpc_reply resp m"
  shows "\<exists>hdr. grpc_answer L ct resp = Ret (Some (resp\<lparr>rs_header := Some hdr, rs_trailer := Map.empty,
      rs_body := Some \<lparr>bd_data = m, bd_err = None\<rparr>, rs_content_length := int (length m)\<rparr>)) None
    \<and> hget hdr ''Content-Type'' = ct \<and> hdr ''Content-Length'' = None"
proof -
  have key: "canonKey ''grpc-status'' = ''Grpc-Status''" by (simp add: canonKey_def)
  have len: "\<not> length s < 5" "drop 5 s = m" "int (length s) - 5 = int (length m)" if "grpc_message s = Some m" for s
    using that by (auto simp: grpc_message_def split: if_splits)
  obtain h b where hb: "rs_header resp = Some h" "hget (h ++ rs_trailer resp) ''grpc-status'' \<in> {[], ''0''}"
      "rs_body resp = Some b" "bd_err b = None" "grpc_message (bd_data b) = Some m"
    using assms unfolding grpc_reply_def by blast
  define h' where "h' = hset (h ++ rs_trailer resp) ''Content-Type'' ct"
  have st: "\<not> (hget h' ''grpc-status'' \<noteq> [] \<and> hget h' ''grpc-status'' \<noteq> ''0'')"
    using hb(2) by (auto simp: h'_def hget_def hset_def key)
  have "grpc_answer L ct resp = Ret (Some (resp\<lparr>rs_header := Some (hdel h' ''Content-Length''), rs_trailer := Map.empty,
      rs_body := Some \<lparr>bd_data = m, bd_err = None\<rparr>, rs_content_length := int (length m)\<rparr>)) None"
    unfolding grpc_answer_def hb(1,3,4) option.case Let_def h'_def [symmetric] if_not_P [OF st]
      if_not_P [OF len(1) [OF hb(5)]] len(2,3) [OF hb(5)] ..
  moreover have "hget (hdel h' ''Content-Length'') ''Content-Type'' = ct" "hdel h' ''Content-Length'' ''Content-Length'' = None"
    by (simp_all add: h'_def hget_def hset_def hdel_def canonKey_def)
  ultimately show ?thesis by blast
qed

text \<open>C22: A plain client of a gRPC endpoint talks to any gRPC service and never
  sees a frame: what the service reads from the frame of the request, by the
  rules of the gRPC protocol, is exactly the body the client sent, and the
  client gets exactly the message the service answers, with the content type it
  asked with, no trailers and no stale content length.  The body has less than
  4 GiB, the bound of the length field, and the service answers without an error
  status.\<close>

theorem transcoding_roundtrip:
  assumes "ep_protocol (ro_endpoint (w_opts w)) = GRPC"
    and "\<not> hasPrefix (hget (rq_header req) ''Content-Type'') ''application/grpc''"
    and "rq_body req = \<lparr>bd_data = b, bd_err = None\<rparr>" and "length b < 2 ^ 32"
    and "grpc_service f next"
  shows "\<exists>resp hdr. fst (transcoder_RoundTrip L next req w) = Ret (Some resp) None
    \<and> rs_body resp = Some \<lparr>bd_data = f b, bd_err = None\<rparr> \<and> rs_content_length resp = int (length (f b))
    \<and> rs_trailer resp = Map.empty \<and> rs_header resp = Some hdr
    \<and> hget hdr ''Content-Type'' = hget (rq_header req) ''Content-Type'' \<and> hdr ''Content-Length'' = None"
proof -
  have "grpc_call (grpc_request req) b" using assms(3,4) by (intro grpc_request_call) simp_all
  then obtain resp where resp: "fst (next (grpc_request req) w) = Ret (Some resp) None" "grpc_reply resp (f b)"
    using assms(5) unfolding grpc_service_def by blast
  obtain w1 where "next (grpc_request req) w = (Ret (Some resp) None, w1)" using resp(1) by (metis prod.collapse)
  then show ?thesis
    using grpc_reply_answer [OF resp(2), of L "hget (rq_header req) ''Content-Type''"] assms(1-3)
    by (auto simp: transcoder_RoundTrip_def Let_def)
qed

definition grpc_endpoint :: endpoint where
  "grpc_endpoint = \<lparr>ep_path = ''/shop.Cart/Get'', ep_method = ''POST'', ep_description = [], ep_protocol = GRPC, ep_timeout = None,
     ep_middlewares = [], ep_backends = [], ep_retry = None, ep_metadata = [], ep_host = []\<rparr>"

definition grpc_world :: "unit world" where
  "grpc_world = \<lparr>w_opts = NewRequestOptions grpc_endpoint, w_events = [], w_ext = ()\<rparr>"

definition json_request :: "string \<Rightarrow> string \<Rightarrow> request" where
  "json_request ct b = \<lparr>rq_method = ''POST'', rq_host = ''api.shop.com'', rq_scheme = ''http'', rq_url_host = [],
     rq_path = ''/shop.Cart/Get'', rq_remote_addr = ''10.0.0.1:1'', rq_header = [''Content-Type'' \<mapsto> [ct]],
     rq_body = \<lparr>bd_data = b, bd_err = None\<rparr>, rq_content_length = int (length b), rq_request_uri = ''/shop.Cart/Get'',
     rq_ctx_path = None\<rparr>"

definition empty_tc_lib :: transcoder_lib where
  "empty_tc_lib = \<lparr>tl_Unmarshal = (\<lambda>s. Inl (PlainErr ''proto'')), tl_Marshal = (\<lambda>st. Inr (st_message st))\<rparr>"

text \<open>A service that reads the frame and answers in a frame, with its status in
  the trailers.\<close>

definition unary_service :: "(string \<Rightarrow> string) \<Rightarrow> 'w round_tripper" where
  "unary_service f req w =
    (case grpc_message (bd_data (rq_body req)) of
       None \<Rightarrow> Ret None (Some (PlainErr ''malformed frame''))
     | Some m \<Rightarrow> Ret (Some \<lparr>rs_status = 200, rs_header = Some [''Content-Length'' \<mapsto> [''8'']],
         rs_trailer = [''Grpc-Status'' \<mapsto> [''0'']], rs_body = Some \<lparr>bd_data = grpc_frame (f m), bd_err = None\<rparr>,
         rs_content_length = - 1\<rparr>) None, w)"

lemma unary_service_grpc: "(\<And>m. length (f m) < 2 ^ 32) \<Longrightarrow> grpc_service f (unary_service f)"
  by (simp add: grpc_service_def grpc_call_def grpc_reply_def unary_service_def grpc_message_frame hget_def canonKey_def)

theorem transcoding_roundtrip_witness:
  "\<exists>resp. fst (transcoder_RoundTrip empty_tc_lib (unary_service (\<lambda>m. rev (take 8 m))) (json_request ''application/json'' ''abc'') grpc_world)
      = Ret (Some resp) None \<and> rs_body resp = Some \<lparr>bd_data = ''cba'', bd_err = None\<rparr>"
proof -
  have "ep_protocol (ro_endpoint (w_opts grpc_world)) = GRPC" by (simp add: grpc_world_def NewRequestOptions_def grpc_endpoint_def)
  moreover have "\<not> hasPrefix (hget (rq_header (json_request ''application/json'' ''abc'')) ''Content-Type'') ''application/grpc''"
    by (simp add: json_request_def hget_def)
  moreover have "rq_body (json_request ''application/json'' ''abc'') = \<lparr>bd_data = ''abc'', bd_err = None\<rparr>" by (simp add: json_request_def)
  moreover have "grpc_service (\<lambda>m. rev (take 8 m)) (unary_service (\<lambda>m. rev (take 8 m)))" by (rule unary_service_grpc) (simp add: min_def)
  ultimately show ?thesis
    using transcoding_roundtrip [of grpc_world "json_request ''application/json'' ''abc''" "''abc''" "\<lambda>m. rev (take 8 m)"
        "unary_service (\<lambda>m. rev (take 8 m))" empty_tc_lib]
    by auto
qed

text \<open>The prefix of the content type is cut with TrimLeft, which takes a set
  of characters: a request with application/proto is sent as
  application/grpc+roto.\<close>

theorem proto_content_type_mangled:
  "hget (rq_header (grpc_request (json_request ''application/proto'' b))) ''Content-Type'' = ''application/grpc+roto''
    \<and> hget (rq_header (grpc_request (json_request ''application/json'' b))) ''Content-Type'' = ''application/grpc+json''"
  by (simp add: grpc_request_def json_request_def hget_def hset_def hdel_def trimLeft_def Let_def)

end
