(* ===== verification/Traffic_Guards.thy ===== *)
theory Traffic_Guards
  imports Complex_Main Condition Proxy_Spec Rewrite Transcoder
begin

text \<open>
  The middlewares that guard or watch the traffic of an endpoint: package
  circuitbreaker, package bbr and package logging.  The breaker and limiter
  algorithms of the aegis library and the random source are parameters that
  act on the rest of the process state.
\<close>

section \<open>Circuit breaker: options\<close>

record success_ratio =
  sr_success :: rat
  sr_request :: int
  sr_bucket :: int
  sr_window :: "int option"

datatype cb_trigger = TriggerSuccessRatio success_ratio | TriggerRatio int | TriggerNone

record response_data =
  rd_status_code :: int
  rd_header :: "(string \<times> string list) list"
  rd_body :: string

datatype cb_action = ActionBackupService endpoint | ActionResponseData response_data | ActionNone

record cb_options =
  cb_trigger :: cb_trigger
  cb_action :: cb_action
  cb_assert :: "condition_cfg list"

section \<open>Triggers\<close>

text \<open>The options passed to the breaker of the library, those that are set.\<close>

datatype sre_option = WithBucket int | WithRequest int | WithSuccess rat | WithWindow int

definition sre_options :: "success_ratio \<Rightarrow> sre_option list" where
  "sre_options r =
    (if sr_bucket r \<noteq> 0 then [WithBucket (sr_bucket r)] else [])
    @ (if sr_request r \<noteq> 0 then [WithRequest (sr_request r)] else [])
    @ (if sr_success r \<noteq> 0 then [WithSuccess (sr_success r)] else [])
    @ (case sr_window r of None \<Rightarrow> [] | Some d \<Rightarrow> [WithWindow d])"

record 'x breaker =
  br_allow :: "'x \<Rightarrow> bool \<times> 'x"
  br_mark :: "bool \<Rightarrow> 'x \<Rightarrow> 'x"

record 'x breaker_lib =
  bl_sre :: "sre_option list \<Rightarrow> 'x breaker"
  bl_Int63n :: "int \<Rightarrow> 'x \<Rightarrow> int \<times> 'x"

definition ratio_allow :: "'x breaker_lib \<Rightarrow> int \<Rightarrow> 'x \<Rightarrow> bool \<times> 'x" where
  "ratio_allow B ratio x = (case bl_Int63n B 10000 x of (n, x1) \<Rightarrow> (n < ratio, x1))"

definition newRatioTrigger :: "'x breaker_lib \<Rightarrow> int \<Rightarrow> 'x breaker" where
  "newRatioTrigger B ratio = \<lparr>br_allow = ratio_allow B ratio, br_mark = (\<lambda>b x. x)\<rparr>"

definition nopTrigger :: "'x breaker" where
  "nopTrigger = \<lparr>br_allow = (\<lambda>x. (True, x)), br_mark = (\<lambda>b x. x)\<rparr>"

fun makeBreakerTrigger :: "'x breaker_lib \<Rightarrow> cb_trigger \<Rightarrow> 'x breaker" where
  "makeBreakerTrigger B (TriggerSuccessRatio r) = bl_sre B (sre_options r)"
| "makeBreakerTrigger B (TriggerRatio n) = newRatioTrigger B n"
| "makeBreakerTrigger B TriggerNone = nopTrigger"

section \<open>Actions\<close>

definition static_response :: "response_data \<Rightarrow> response" where
  "static_response d =
    \<lparr>rs_status = rd_status_code d, rs_header = Some (foldl (\<lambda>h (k, v). h(k \<mapsto> v)) Map.empty (rd_header d)),
     rs_trailer = Map.empty, rs_body = Some \<lparr>bd_data = rd_body d, bd_err = None\<rparr>, rs_content_length = 0\<rparr>"

definition unavailable_response :: response where
  "unavailable_response =
    \<lparr>rs_status = 503, rs_header = Some Map.empty, rs_trailer = Map.empty,
     rs_body = Some \<lparr>bd_data = [], bd_err = None\<rparr>, rs_content_length = 0\<rparr>"

fun makeOnBreakHandler :: "cb_action \<Rightarrow> 'w client_factory \<Rightarrow> 'w \<Rightarrow> (err + 'w round_tripper \<times> ('w \<Rightarrow> err option \<times> 'w)) \<times> 'w" where
  "makeOnBreakHandler (ActionBackupService e) factory w =
     (case factory e w of
        (Inl er, w1) \<Rightarrow> (Inl er, w1)
      | (Inr c, w1) \<Rightarrow> (Inr (cl_round_trip c, cl_close c), w1))"
| "makeOnBreakHandler (ActionResponseData d) factory w =
     (Inr (\<lambda>req w. (Ret (Some (static_response d)) None, w), no_close), w)"
| "makeOnBreakHandler ActionNone factory w =
     (Inr (\<lambda>req w. (Ret (Some unavailable_response) None, w), no_close), w)"

section \<open>The circuit breaker middleware\<close>

definition isSuccessResponse :: "condition list \<Rightarrow> response \<Rightarrow> bool" where
  "isSuccessResponse conds resp = JudgeConditons conds resp True"

definition deniedRequestIncr :: "'x world \<Rightarrow> 'x world" where
  "deniedRequestIncr w =
    (let l = NewMetricsLabels (ro_endpoint (w_opts w))
     in emit (EvCounter ''requests_circuit_breaker_denied_total''
                [lb_Protocol l, lb_Method l, lb_Path l, lb_Service l, lb_BasePath l] 1) w)"

definition mark_breaker :: "'x breaker \<Rightarrow> bool \<Rightarrow> 'x world \<Rightarrow> 'x world" where
  "mark_breaker br b w = emit (EvBreaker b) (upd_ext (br_mark br b) w)"

definition breaker_RoundTrip :: "'x breaker \<Rightarrow> 'x world round_tripper \<Rightarrow> condition list \<Rightarrow> 'x world middleware" where
  "breaker_RoundTrip br onBreak conds next req w =
    (case br_allow br (w_ext w) of
       (False, x1) \<Rightarrow> onBreak req (deniedRequestIncr (mark_breaker br False (upd_ext (\<lambda>_. x1) w)))
     | (True, x1) \<Rightarrow>
         (case next req (upd_ext (\<lambda>_. x1) w) of
            (Panicked, w1) \<Rightarrow> (Panicked, w1)
          | (Ret r (Some e), w1) \<Rightarrow> (Ret None (Some e), mark_breaker br False w1)
          | (Ret None None, w1) \<Rightarrow>
              (if conds = [] then (Ret None None, mark_breaker br True w1) else (Panicked, w1))
          | (Ret (Some resp) None, w1) \<Rightarrow>
              if isSuccessResponse conds resp then (Ret (Some resp) None, mark_breaker br True w1)
              else (Ret (Some resp) None, mark_breaker br False w1)))"

definition breaker_New :: "(any_msg \<Rightarrow> err + cb_options) \<Rightarrow> 'x breaker_lib \<Rightarrow> 'x world client_factory \<Rightarrow> 'x world factory_v2" where
  "breaker_New decode B factory c w =
    (case (case mc_options c of
             None \<Rightarrow> Inr \<lparr>cb_trigger = TriggerNone, cb_action = ActionNone, cb_assert = []\<rparr>
           | Some a \<Rightarrow> decode a) of
       Inl e \<Rightarrow> (Inl e, w)
     | Inr o' \<Rightarrow>
         (case makeOnBreakHandler (cb_action o') factory w of
            (Inl e, w1) \<Rightarrow> (Inl e, w1)
          | (Inr (onBreak, closer), w1) \<Rightarrow>
              (case ParseConditon (cb_assert o') of
                 None \<Rightarrow> (Inl (PlainErr ''invalid condition''), w1)
               | Some conds \<Rightarrow>
                   (Inr (NewWithCloser (breaker_RoundTrip (makeBreakerTrigger B (cb_trigger o')) onBreak conds) closer), w1))))"

section \<open>Rate limiter\<close>

text \<open>The answer to a rejected request has no header map.\<close>

definition limited_response :: response where
  "limited_response =
    \<lparr>rs_status = 429, rs_header = None, rs_trailer = Map.empty,
     rs_body = Some \<lparr>bd_data = [], bd_err = None\<rparr>, rs_content_length = 0\<rparr>"

record 'x limiter =
  lm_Allow :: "'x \<Rightarrow> bool \<times> 'x"
  lm_done :: "err option \<Rightarrow> 'x \<Rightarrow> 'x"

definition bbr_RoundTrip :: "'x limiter \<Rightarrow> 'x world middleware" where
  "bbr_RoundTrip M next req w =
    (case lm_Allow M (w_ext w) of
       (False, x1) \<Rightarrow> (Ret (Some limited_response) None, upd_ext (\<lambda>_. x1) w)
     | (True, x1) \<Rightarrow>
         (case next req (upd_ext (\<lambda>_. x1) w) of
            (Panicked, w1) \<Rightarrow> (Panicked, w1)
          | (Ret r e, w1) \<Rightarrow> (Ret r e, upd_ext (lm_done M e) w1)))"

definition bbr_Middleware :: "('x \<Rightarrow> 'x limiter \<times> 'x) \<Rightarrow> 'x world factory" where
  "bbr_Middleware new c w = (case new (w_ext w) of (M, x1) \<Rightarrow> (Inr (bbr_RoundTrip M), upd_ext (\<lambda>_. x1) w))"

section \<open>Access log\<close>

text \<open>The log line itself is not modelled; without an error the status of the
  reply is read.\<close>

definition logging_RoundTrip :: "'w middleware" where
  "logging_RoundTrip next req w =
    (case next req w of
       (Ret None None, w1) \<Rightarrow> (Panicked, w1)
     | res \<Rightarrow> res)"

definition logging_Middleware :: "'w factory" where
  "logging_Middleware c w = (Inr logging_RoundTrip, w)"

section \<open>Properties\<close>

definition breaker_marks :: "event list \<Rightarrow> bool list" where
  "breaker_marks evs = List.map_filter (\<lambda>e. case e of EvBreaker b \<Rightarrow> Some b | _ \<Rightarrow> None) evs"

lemma breaker_marks_simps [simp]:
  "breaker_marks [] = []" "breaker_marks (xs @ ys) = breaker_marks xs @ breaker_marks ys"
  "breaker_marks [EvBreaker b] = [b]" "breaker_marks [EvCounter a l n] = []"
  by (simp_all add: breaker_marks_def List.map_filter_def)

lemma mark_breaker_events [simp]: "w_events (mark_breaker br b w) = w_events w @ [EvBreaker b]"
  by (simp add: mark_breaker_def)

lemma denied_events: "breaker_marks (w_events (deniedRequestIncr w)) = breaker_marks (w_events w)"
  by (simp add: deniedRequestIncr_def Let_def)

definition marks_nothing :: "'x world round_tripper \<Rightarrow> bool" where
  "marks_nothing rt = (\<forall>req w. breaker_marks (w_events (snd (rt req w))) = breaker_marks (w_events w))"

text \<open>C21: Every request that ends is accounted exactly once: as a success exactly
  when the breaker admitted it and the next layer answered it with a response that meets the conditions, as a
  failure when it was denied, failed or answered otherwise.  A denied request
  never reaches the next layer.\<close>

theorem breaker_accounts_once:
  assumes "marks_nothing next" and "marks_nothing onBreak"
    and "breaker_RoundTrip br onBreak conds next req w = (Ret r e, w')"
  shows "\<exists>b. breaker_marks (w_events w') = breaker_marks (w_events w) @ [b]
    \<and> (b \<longleftrightarrow> fst (br_allow br (w_ext w)) \<and> e = None
          \<and> (case r of None \<Rightarrow> conds = [] | Some resp \<Rightarrow> isSuccessResponse conds resp))
    \<and> (\<not> fst (br_allow br (w_ext w)) \<longrightarrow>
         (Ret r e, w') = onBreak req (deniedRequestIncr (mark_breaker br False (upd_ext (\<lambda>_. snd (br_allow br (w_ext w))) w))))"
proof -
  obtain ok x1 where al: "br_allow br (w_ext w) = (ok, x1)" by (cases "br_allow br (w_ext w)")
  let ?w0 = "upd_ext (\<lambda>_. x1) w"
  show ?thesis
  proof (cases ok)
    case False
    let ?wd = "deniedRequestIncr (mark_breaker br False ?w0)"
    have res: "onBreak req ?wd = (Ret r e, w')" using assms(3) al False by (simp add: breaker_RoundTrip_def)
    then have "breaker_marks (w_events w') = breaker_marks (w_events w) @ [False]"
      using assms(2) denied_events [of "mark_breaker br False ?w0"] unfolding marks_nothing_def by (metis mark_breaker_events
          breaker_marks_simps(2,3) snd_conv world_sel(8))
    then show ?thesis using al False res by (intro exI [of _ False]) simp
  next
    case True
    obtain rr w1 where n: "next req ?w0 = (rr, w1)" by (cases "next req ?w0")
    have m: "breaker_marks (w_events w1) = breaker_marks (w_events w)"
      using assms(1) n unfolding marks_nothing_def by (metis snd_conv world_sel(8))
    show ?thesis
      using assms(3) al True n m
      by (auto simp: breaker_RoundTrip_def split: rt_result.splits option.splits if_splits)
  qed
qed

definition open_breaker :: "unit breaker" where
  "open_breaker = \<lparr>br_allow = (\<lambda>x. (False, x)), br_mark = (\<lambda>b x. x)\<rparr>"

theorem breaker_accounts_once_witness:
  "\<exists>r e w'. breaker_RoundTrip open_breaker (\<lambda>req w. (Ret (Some unavailable_response) None, w)) [] (\<lambda>req w. (Panicked, w))
      sample_request (sample_world ()) = (Ret r e, w') \<and> breaker_marks (w_events w') = [False]"
proof -
  let ?on = "\<lambda>req w. (Ret (Some unavailable_response) None, w) :: rt_result \<times> unit world"
  let ?next = "\<lambda>req w. (Panicked, w) :: rt_result \<times> unit world"
  obtain r e w' where run: "breaker_RoundTrip open_breaker ?on [] ?next sample_request (sample_world ()) = (Ret r e, w')"
    by (simp add: breaker_RoundTrip_def open_breaker_def)
  have "marks_nothing ?next" "marks_nothing ?on" by (simp_all add: marks_nothing_def)
  from breaker_accounts_once [OF this run] show ?thesis
    using run by (auto simp: open_breaker_def sample_world_def)
qed

text \<open>The log sees the result and hands it on.\<close>

lemma logging_transparent:
  "fst (next req w) \<noteq> Ret None None \<Longrightarrow> logging_RoundTrip next req w = next req w"
  by (auto simp: logging_RoundTrip_def split: prod.splits rt_result.splits option.splits)

definition full_limiter :: "unit limiter" where
  "full_limiter = \<lparr>lm_Allow = (\<lambda>x. (False, x)), lm_done = (\<lambda>e x. x)\<rparr>"

definition tag_responses :: rewrite_options where
  "tag_responses = \<lparr>rw_path_rewrite = None, rw_request_headers = None,
     rw_response_headers = Some \<lparr>hp_set = [(''X-Gateway'', ''1'')], hp_add = [], hp_remove = []\<rparr>,
     rw_strip_prefix = None, rw_host_rewrite = None\<rparr>"

text \<open>The rate limiter answers a rejected request with a response that has
  no header map.  Behind a rewrite of response headers, writing into it panics,
  so the client gets a 502 of the panic handler instead of the 429.\<close>

theorem limited_answer_breaks_rewrite:
  "rewrite_RoundTrip tag_responses (bbr_RoundTrip full_limiter next) req w = (Panicked, w)"
  by (simp add: rewrite_RoundTrip_def bbr_RoundTrip_def full_limiter_def rewrite_response_def tag_responses_def
      limited_response_def)

end
