(* ===== verification/Client_Ip.thy ===== *)
theory Client_Ip
  imports Gate Go_Url
begin

text \<open>
  Package middleware/ip: the client address of a request, the middleware that
  puts it into a header, and the test for private addresses, with the part of
  package net it uses.
\<close>

section \<open>net.ParseIP\<close>

text \<open>Addresses as their 16 bytes; a dotted one is mapped into IPv6.\<close>

definition octets :: "string \<Rightarrow> nat list option" where
  "octets s = (if valid_ipv4 s then Some (map dec_value (split_char (CHR ''.'') s)) else None)"

definition hex_number :: "string \<Rightarrow> nat" where
  "hex_number g = foldl (\<lambda>n c. 16 * n + (case hex_value c of Some d \<Rightarrow> d | None \<Rightarrow> 0)) 0 g"

definition group_bytes :: "string \<Rightarrow> nat list" where
  "group_bytes g =
    (case octets g of Some os \<Rightarrow> os | None \<Rightarrow> [hex_number g div 256, hex_number g mod 256])"

definition mapped :: "nat list \<Rightarrow> nat list" where
  "mapped os = replicate 10 0 @ [255, 255] @ os"

definition parse_ipv6 :: "string \<Rightarrow> nat list option" where
  "parse_ipv6 s =
    (if \<not> valid_ipv6 s then None
     else
       (case cut_double_colon s of
          None \<Rightarrow> Some (concat (map group_bytes (split_char (CHR '':'') s)))
        | Some (l, r) \<Rightarrow>
            (let a = concat (map group_bytes (ipv6_groups l)); b = concat (map group_bytes (ipv6_groups r))
             in Some (a @ replicate (16 - length a - length b) 0 @ b))))"

text \<open>The first dot or colon decides the kind; a zone is refused.\<close>

definition net_ParseIP :: "string \<Rightarrow> nat list option" where
  "net_ParseIP s =
    (case dropWhile (\<lambda>c. c \<noteq> CHR ''.'' \<and> c \<noteq> CHR '':'' \<and> c \<noteq> CHR ''%'') s of
       [] \<Rightarrow> None
     | c # cs \<Rightarrow>
         if c = CHR ''.'' then map_option mapped (octets s)
         else if c = CHR '':'' \<and> CHR ''%'' \<notin> set s then parse_ipv6 s
         else None)"

definition ip_To4 :: "nat list \<Rightarrow> nat list option" where
  "ip_To4 b = (if length b = 16 \<and> take 12 b = replicate 10 0 @ [255, 255] then Some (drop 12 b) else None)"

section \<open>The middleware\<close>

definition getClientIP :: "request \<Rightarrow> string" where
  "getClientIP req =
    (let real = hget (rq_header req) ''X-Real-IP''; xff = hget (rq_header req) ''X-Forwarded-For'' in
     if real \<noteq> [] then real
     else if xff \<noteq> [] then trimSpace (hd (split_char (CHR '','') xff))
     else if rq_remote_addr req \<noteq> [] then
       (case splitHostPort (rq_remote_addr req) of Some (ip, port) \<Rightarrow> ip | None \<Rightarrow> rq_remote_addr req)
     else [])"

definition ip_RoundTrip :: "'w middleware" where
  "ip_RoundTrip next req w =
    next (req\<lparr>rq_header := hset (rq_header req) ''X-Client-IP'' (getClientIP req)\<rparr>) w"

definition ip_Middleware :: "'w factory" where
  "ip_Middleware c w = (Inr ip_RoundTrip, w)"

definition FormatClientIP :: "request \<Rightarrow> string" where
  "FormatClientIP req = (if getClientIP req = [] then ''unknown'' else getClientIP req)"

definition private_octets :: "nat list \<Rightarrow> bool" where
  "private_octets v =
    (if v ! 0 = 10 then True
     else if v ! 0 = 172 \<and> v ! 1 \<ge> 16 \<and> v ! 1 \<le> 31 then True
     else if v ! 0 = 192 \<and> v ! 1 = 168 then True
     else v ! 0 = 127)"

definition IsPrivateIP :: "string \<Rightarrow> bool" where
  "IsPrivateIP s =
    (case net_ParseIP s of
       None \<Rightarrow> False
     | Some b \<Rightarrow> (case ip_To4 b of None \<Rightarrow> False | Some v \<Rightarrow> private_octets v))"

section \<open>The gate\<close>

definition ip_decide :: "request \<Rightarrow> 'w \<Rightarrow> (rt_result + request) \<times> 'w" where
  "ip_decide req w = (Inr (req\<lparr>rq_header := hset (rq_header req) ''X-Client-IP'' (getClientIP req)\<rparr>), w)"

lemma canonKey_client_ip: "canonKey ''X-Client-IP'' = ''X-Client-Ip''"
  by (simp add: canonKey_def)

interpretation ip_gate: identity_gate ip_RoundTrip ip_decide "{''X-Client-Ip''}"
  by unfold_locales (auto simp: ip_RoundTrip_def ip_decide_def hset_def canonKey_client_ip)

section \<open>Properties\<close>

definition dotted :: "nat list \<Rightarrow> string" where
  "dotted os = join_str ''.'' (map (\<lambda>n. formatInt (int n)) os)"

lemma digit_char_zero: "n < 10 \<Longrightarrow> digit_char n = CHR ''0'' \<Longrightarrow> n = 0"
  using digit_val_digit_char [of n] by (simp add: digit_val_def byte_def)

lemma octet_dec_digits:
  assumes "n \<le> 255"
  shows "ipv4_octet (dec_digits n)"
proof -
  have "length (dec_digits n) \<le> 3 \<and> (length (dec_digits n) = 1 \<or> hd (dec_digits n) \<noteq> CHR ''0'')"
  proof (cases "n < 10")
    case True
    then show ?thesis by (simp add: dec_digits.simps [of n])
  next
    case ge: False
    show ?thesis
    proof (cases "n < 100")
      case True
      then have "dec_digits n = [digit_char (n div 10), digit_char (n mod 10)]"
        using ge by (simp add: dec_digits.simps [of n] dec_digits.simps [of "n div 10"])
      then show ?thesis using digit_char_zero [of "n div 10"] less_mult_imp_div_less [of n 10 10] True ge by (auto simp: div_eq_0_iff)
    next
      case False
      have "n div 10 div 10 = n div 100" by (simp add: div_mult2_eq [symmetric])
      moreover have "n div 100 < 10" "\<not> n div 10 < 10" using False assms by linarith+
      ultimately have "dec_digits n = [digit_char (n div 100), digit_char (n div 10 mod 10), digit_char (n mod 10)]"
        using ge False assms by (simp add: dec_digits.simps [of n] dec_digits.simps [of "n div 10"] dec_digits.simps [of "n div 100"])
      then show ?thesis using digit_char_zero [of "n div 100"] less_mult_imp_div_less [of n 10 100] False assms by (auto simp: div_eq_0_iff)
    qed
  qed
  then show ?thesis using assms dec_digits_all dec_value_digits by (simp add: ipv4_octet_def)
qed

lemma digits_no_sep: "CHR ''.'' \<notin> set (dec_digits n)" "CHR '':'' \<notin> set (dec_digits n)" "CHR ''%'' \<notin> set (dec_digits n)"
  using dec_digits_all [of n] by (auto simp: list_all_iff is_digit_def byte_def)

lemma octets_dotted:
  assumes "length os = 4" "list_all (\<lambda>n. n \<le> 255) os"
  shows "octets (dotted os) = Some os"
proof -
  have sp: "split_char (CHR ''.'') (dotted os) = map dec_digits os"
    unfolding dotted_def formatInt_def using assms(1) split_join [of "map dec_digits os" "CHR ''.''"]
    by (cases os) (auto simp: digits_no_sep)
  have "list_all ipv4_octet (map dec_digits os)"
    using assms(2) by (auto simp: list_all_iff octet_dec_digits)
  then show ?thesis
    using assms(1) by (simp add: octets_def valid_ipv4_def sp Let_def dec_value_digits map_idI)
qed

lemma ParseIP_dotted:
  assumes "length os = 4" "list_all (\<lambda>n. n \<le> 255) os"
  shows "net_ParseIP (dotted os) = Some (mapped os)"
proof -
  obtain a b c d where os: "os = [a, b, c, d]" using assms(1) by (auto simp: eval_nat_numeral length_Suc_conv)
  let ?t = "join_str ''.'' (map dec_digits [b, c, d])"
  have s: "dotted os = dec_digits a @ CHR ''.'' # ?t"
    by (simp add: dotted_def os formatInt_def)
  have "dropWhile (\<lambda>c. c \<noteq> CHR ''.'' \<and> c \<noteq> CHR '':'' \<and> c \<noteq> CHR ''%'') (dec_digits a @ CHR ''.'' # ?t) = CHR ''.'' # ?t"
    using digits_no_sep [of a] by (subst dropWhile_append2) auto
  then show ?thesis
    using octets_dotted [OF assms] unfolding net_ParseIP_def s by simp
qed

text \<open>IsPrivateIP decides, for every dotted address, membership in the four
  blocks its comments name, as the network prefixes of the 32-bit address
  define them: 10.0.0.0/8, 172.16.0.0/12, 192.168.0.0/16 and 127.0.0.0/8.\<close>

theorem private_blocks_exact:
  assumes "a \<le> 255" "b \<le> 255" "c \<le> 255" "d \<le> 255"
  shows "IsPrivateIP (dotted [a, b, c, d]) \<longleftrightarrow>
    (let n = ((a * 256 + b) * 256 + c) * 256 + d
     in n div 2 ^ 24 = 10 \<or> n div 2 ^ 20 = 172 * 16 + 1 \<or> n div 2 ^ 16 = 192 * 256 + 168 \<or> n div 2 ^ 24 = 127)"
proof -
  let ?n = "((a * 256 + b) * 256 + c) * 256 + d"
  have 24: "?n div 2 ^ 24 = a" and 16: "?n div 2 ^ 16 = a * 256 + b" and 20: "?n div 2 ^ 20 = a * 16 + b div 16"
    using assms by auto
  have q: "b div 16 \<le> 15" "b div 16 = 1 \<longleftrightarrow> 16 \<le> b \<and> b \<le> 31" using assms(2) by auto
  have prefix: "x * m + y = k * m + z \<longleftrightarrow> x = k \<and> y = z" if "y < m" "z < m" for x y k z m :: nat
    using that by (metis add.commute add_right_imp_eq div_mult_self3 div_less gr_implies_not0 mult.commute add_cancel_right_left)
  have "a * 16 + b div 16 = 172 * 16 + 1 \<longleftrightarrow> a = 172 \<and> b div 16 = 1" using prefix [of "b div 16" 16 1 a 172] q(1) by simp
  moreover have "a * 256 + b = 192 * 256 + 168 \<longleftrightarrow> a = 192 \<and> b = 168" using prefix [of b 256 168 a 192] assms(2) by simp
  moreover note q(2)
  ultimately show ?thesis
    using ParseIP_dotted [of "[a, b, c, d]"] assms unfolding Let_def 24 16 20
    by (auto simp: IsPrivateIP_def ip_To4_def mapped_def private_octets_def)
qed

theorem private_blocks_exact_witness:
  "IsPrivateIP (dotted [172, 31, 0, 9])"
  using private_blocks_exact [of 172 31 0 9] by simp

end
