(* ===== verification/Guarded_Gateway.thy ===== *)
theory Guarded_Gateway
  imports Auth_Chain Cors Traffic_Guards Transcoder Client_Ip
begin

text \<open>
  The gateway with jwt and, behind it, rbac in its global middlewares: from the
  configuration over Update, the router, the layers in front and the retry loop
  to the requests upstream.  The layers in front may do what they like as long
  as they hand on the method, the path and the Authorization header.
\<close>

section \<open>Layers that hand on what they get\<close>

text \<open>A round tripper that sends nothing upstream for requests with this method,
  path and Authorization header, and keeps the property \<open>I\<close> of the process.\<close>

definition harmless :: "('x \<Rightarrow> bool) \<Rightarrow> string \<Rightarrow> string \<Rightarrow> string \<Rightarrow> 'x world round_tripper \<Rightarrow> bool" where
  "harmless I meth path auth t \<longleftrightarrow>
    (\<forall>r w. rq_method r = meth \<and> rq_path r = path \<and> hget (rq_header r) ''Authorization'' = auth \<and> I (w_ext w) \<longrightarrow>
      upstream_calls (snd (t r w)) = upstream_calls w \<and> I (w_ext (snd (t r w))))"

definition passes :: "('x \<Rightarrow> bool) \<Rightarrow> 'x world middleware \<Rightarrow> bool" where
  "passes I m \<longleftrightarrow> (\<forall>meth path auth t. harmless I meth path auth t \<longrightarrow> harmless I meth path auth (m t))"

lemma harmlessD:
  assumes "harmless I (rq_method r) (rq_path r) (hget (rq_header r) ''Authorization'') t" and "I (w_ext w)" and "t r w = (res, w1)"
  shows "upstream_calls w1 = upstream_calls w" "I (w_ext w1)"
  using assms unfolding harmless_def by (metis snd_conv)+

lemma harmlessI:
  assumes "\<And>r w res w1. \<lbrakk> rq_method r = meth; rq_path r = path; hget (rq_header r) ''Authorization'' = auth; I (w_ext w); t r w = (res, w1) \<rbrakk>
    \<Longrightarrow> upstream_calls w1 = upstream_calls w \<and> I (w_ext w1)"
  shows "harmless I meth path auth t"
  unfolding harmless_def using assms by (metis prod.collapse)

lemma logging_passes: "passes I logging_RoundTrip"
  unfolding passes_def harmless_def by (auto simp: logging_RoundTrip_def split: prod.split rt_result.split option.split) (metis snd_conv)+

lemma cors_passes: "passes I (cors_RoundTrip opts)"
  unfolding passes_def harmless_def
  by (auto simp: cors_RoundTrip_def Let_def split: prod.split rt_result.split option.split) (metis snd_conv)+

lemma other_key: "canonKey k \<noteq> ''Authorization'' \<Longrightarrow> hget (hset h k v) ''Authorization'' = hget h ''Authorization''"
  "canonKey k \<noteq> ''Authorization'' \<Longrightarrow> hget (hdel h k) ''Authorization'' = hget h ''Authorization''"
proof -
  have "canonKey ''Authorization'' = ''Authorization''" by code_simp
  then show "canonKey k \<noteq> ''Authorization'' \<Longrightarrow> hget (hset h k v) ''Authorization'' = hget h ''Authorization''"
    "canonKey k \<noteq> ''Authorization'' \<Longrightarrow> hget (hdel h k) ''Authorization'' = hget h ''Authorization''"
    by (simp_all add: hget_hset hget_hdel)
qed

lemma ip_passes: "passes I ip_RoundTrip"
  unfolding passes_def harmless_def by (simp add: ip_RoundTrip_def other_key canonKey_client_ip)

lemma transcoder_passes: "passes I (transcoder_RoundTrip L)"
  unfolding passes_def
proof (intro allI impI harmlessI)
  fix meth path auth t r and w w1 :: "'a world" and res
  assume t: "harmless I meth path auth t" and r: "rq_method r = meth" "rq_path r = path" "hget (rq_header r) ''Authorization'' = auth"
    and w: "I (w_ext w)" and run: "transcoder_RoundTrip L t r w = (res, w1)"
  have key: "canonKey ''Content-Type'' \<noteq> ''Authorization''" "canonKey ''Content-Length'' \<noteq> ''Authorization''" by code_simp+
  have g: "rq_method (grpc_request r) = meth" "rq_path (grpc_request r) = path" "hget (rq_header (grpc_request r)) ''Authorization'' = auth"
    using r by (simp_all add: grpc_request_def Let_def other_key key)
  obtain a wa where a: "t r w = (a, wa)" by fastforce
  obtain b wb where b: "t (grpc_request r) w = (b, wb)" by fastforce
  have "upstream_calls wa = upstream_calls w \<and> I (w_ext wa)" "upstream_calls wb = upstream_calls w \<and> I (w_ext wb)"
    using harmlessD [of I r t w, OF _ w a] harmlessD [of I "grpc_request r" t w, OF _ w b] t r g by simp_all
  then show "upstream_calls w1 = upstream_calls w \<and> I (w_ext w1)"
    using run w a b by (auto simp: transcoder_RoundTrip_def Let_def split: if_splits option.splits rt_result.splits)
qed

section \<open>The chain\<close>

text \<open>What the chain sees of the request: the handler adds its own header and
  gives every attempt a fresh body.\<close>

lemma sent_request:
  "rq_method (attempt_request (setXFFHeader (WithRequestPath req p))) = rq_method req"
  "rq_path (attempt_request (setXFFHeader (WithRequestPath req p))) = rq_path req"
  "hget (rq_header (attempt_request (setXFFHeader (WithRequestPath req p)))) ''Authorization'' = hget (rq_header req) ''Authorization''"
  "rq_body (setXFFHeader (WithRequestPath req p)) = rq_body req"
proof -
  have "canonKey ''X-Forwarded-For'' \<noteq> canonKey ''Authorization''" by code_simp
  then show "hget (rq_header (attempt_request (setXFFHeader (WithRequestPath req p)))) ''Authorization'' = hget (rq_header req) ''Authorization''"
    by (simp add: attempt_request_def setXFFHeader_def WithRequestPath_def hget_hset split: option.split list.split)
qed (simp_all add: attempt_request_def setXFFHeader_def WithRequestPath_def split: option.split list.split)

lemma jwt_rbac_silent: "w_events (snd (jwt_RoundTrip L key_of ms1 (rbac_RoundTrip B D ms2 (\<lambda>r w. (Panicked, w))) req w)) = w_events w"
  by (auto simp: jwt_RoundTrip_def rbac_RoundTrip_def Let_def split: sum.split prod.split option.split)

lemma jwt_rbac_keeps:
  assumes "\<And>u x. I x \<Longrightarrow> I (snd (getUserRoles D u x))" and "I (w_ext w)"
  shows "I (w_ext (snd (jwt_RoundTrip L key_of ms1 (rbac_RoundTrip B D ms2 (\<lambda>r w. (Panicked, w))) req w)))"
proof -
  have "I (w_ext (snd (rbac_RoundTrip B D ms2 (\<lambda>r w. (Panicked, w)) r w)))" for r
  proof -
    obtain g s1 where g: "getUserRoles D (hget (rq_header r) UserIdMetadataKey) (w_ext w) = (g, s1)" by fastforce
    then have "I s1" using assms(1) [OF assms(2)] by (metis snd_conv)
    then show ?thesis using assms(2) g by (auto simp: rbac_RoundTrip_def Let_def split: option.split sum.split)
  qed
  then show ?thesis using assms(2) by (auto simp: jwt_RoundTrip_def Let_def split: sum.split)
qed

text \<open>What the key \<open>k\<close> and the enforcer \<open>enf\<close> say of a method, a path and the
  value of the Authorization header: the token is signed by the key, the
  directory gives its user a role, and the policy allows the role the request.
  \<open>x\<close> is the state of the process in which the user was looked up.\<close>

definition admits :: "(string \<Rightarrow> string) \<Rightarrow> ('k \<Rightarrow> string \<Rightarrow> jwt_claims \<Rightarrow> bool) \<Rightarrow> ('m, 'e) casbin \<Rightarrow> 'x casdoor
    \<Rightarrow> (('e, 'x) rbac_state \<Rightarrow> bool) \<Rightarrow> 'k \<Rightarrow> 'e \<Rightarrow> string \<Rightarrow> string \<Rightarrow> string \<Rightarrow> bool" where
  "admits alg_of sig_ok B D I k enf meth path authorization \<longleftrightarrow>
    (\<exists>tok cl role x s1. authorization = ''Bearer '' @ tok \<and> alg_of tok = ''RS256'' \<and> sig_ok k tok cl
      \<and> I x \<and> getUserRoles D (jc_user_id cl) x = (Some (Inr role), s1) \<and> cb_Enforce B enf role path meth = Inr True)"

lemma getUserRoles_enforcer: "getUserRoles D u s = (r, s1) \<Longrightarrow> rs_enforcer s1 = rs_enforcer s"
  by (auto simp: getUserRoles_def split: prod.splits option.splits sum.splits)

text \<open>A chain whose guards do not admit a request is harmless for it.\<close>

lemma chain_harmless:
  fixes I :: "('e, 'x) rbac_state \<Rightarrow> bool"
  assumes "checks_signature L alg_of sig_ok" and key: "\<And>x. I x \<Longrightarrow> key_of x = Some k \<and> rs_enforcer x = Some enf"
    and roles: "\<And>u x. I x \<Longrightarrow> I (snd (getUserRoles D u x))"
    and skip: "\<And>r. \<lbrakk> rq_method r = meth; rq_path r = path \<rbrakk> \<Longrightarrow> \<not> list_ex (\<lambda>m. pm_Match m r) ms1 \<and> \<not> list_ex (\<lambda>m. pm_Match m r) ms2"
    and no: "\<not> admits alg_of sig_ok B D I k enf meth path auth"
  shows "harmless I meth path auth (jwt_RoundTrip L key_of ms1 (rbac_RoundTrip B D ms2 inner))"
proof (rule harmlessI)
  fix r :: request and w w1 :: "('e, 'x) rbac_state world" and res
  assume r: "rq_method r = meth" "rq_path r = path" "hget (rq_header r) ''Authorization'' = auth" and w: "I (w_ext w)"
    and run: "jwt_RoundTrip L key_of ms1 (rbac_RoundTrip B D ms2 inner) r w = (res, w1)"
  let ?none = "jwt_RoundTrip L key_of ms1 (rbac_RoundTrip B D ms2 (\<lambda>r w. (Panicked, w))) r w"
  have "(res, w1) = ?none"
  proof (rule ccontr)
    assume "(res, w1) \<noteq> ?none"
    then have "jwt_RoundTrip L key_of ms1 (rbac_RoundTrip B D ms2 inner) r w \<noteq> ?none" using run by simp
    from authenticated_and_authorised [OF assms(1) _ _ this] skip [OF r(1,2)]
    have "admits alg_of sig_ok B D I k enf meth path auth"
      unfolding admits_def using key [OF w] w r getUserRoles_enforcer by (metis option.inject)
    then show False using no by blast
  qed
  then have "w1 = snd ?none" by (metis snd_conv)
  moreover have "I (w_ext (snd ?none))" by (rule jwt_rbac_keeps [OF roles w])
  ultimately show "upstream_calls w1 = upstream_calls w \<and> I (w_ext w1)"
    by (simp add: count_events_def jwt_rbac_silent)
qed

section \<open>The retry loop\<close>

lemma mark_keeps:
  assumes "\<And>b x. I x \<Longrightarrow> I (px_breaker_mark E e b x)" "I (w_ext w)"
  shows "I (w_ext (markFailed E e req i er w))" "I (w_ext (markSuccess E e req i w))" "I (w_ext (set_last_attempt w))"
  using assms by (simp_all add: markFailed_def markSuccess_def markFailedStat_def markSuccessStat_def retryStateIncr_def
      set_last_attempt_def Let_def)

lemma after_round_trip_keeps:
  assumes "\<And>b x. I x \<Longrightarrow> I (px_breaker_mark E e b x)" "I (w_ext w)"
  shows "I (w_ext (step_world (after_round_trip E e conds req i (res, w))))"
  using mark_keeps [of I E e w, OF assms] mark_keeps(2) [of I E e "set_last_attempt w", OF assms(1) mark_keeps(3) [of I E e w, OF assms]]
  by (auto simp: after_round_trip_def assms(2) split: rt_result.split option.split)

lemma attempt_silent:
  assumes mark: "\<And>b x. I x \<Longrightarrow> I (px_breaker_mark E e b x)" and allow: "\<And>x. I x \<Longrightarrow> I (snd (px_breaker_allow E e x))"
    and "I (w_ext w)" and t: "harmless I (rq_method (attempt_request req)) (rq_path (attempt_request req))
      (hget (rq_header (attempt_request req)) ''Authorization'') tripper"
  shows "upstream_calls (step_world (attempt E e conds tripper req final i resp er w)) = upstream_calls w
    \<and> I (w_ext (step_world (attempt E e conds tripper req final i resp er w)))"
proof (cases "0 < i \<and> \<not> px_retry_enabled E (w_ext w)")
  case True
  then show ?thesis using assms(3) by (simp add: attempt_def)
next
  case False
  obtain den x1 where ba: "(if 0 < i then px_breaker_allow E e (w_ext w) else (None, w_ext w)) = (den, x1)"
    by (cases "if 0 < i then px_breaker_allow E e (w_ext w) else (None, w_ext w)")
  have x1: "I x1" using ba allow [OF assms(3)] assms(3) by (cases "0 < i") auto
  define w1 where "w1 = upd_ext (\<lambda>_. x1) w"
  define w2 where "w2 = (if final then set_last_attempt w1 else w1)"
  have w2: "upstream_calls w2 = upstream_calls w" "I (w_ext w2)" and w1: "upstream_calls w1 = upstream_calls w" "I (w_ext w1)"
    using x1 by (simp_all add: w2_def w1_def set_last_attempt_def)
  note eq = attempt_def [of E e conds tripper req final i resp er w, unfolded if_not_P [OF False] ba prod.case, folded w1_def]
  show ?thesis
  proof (cases den)
    case (Some be)
    then show ?thesis using eq w1 mark_keeps(1) [of I E e w1, OF mark] by simp
  next
    case None
    note eq' = eq [unfolded None option.case Let_def, folded w2_def]
    show ?thesis
    proof (cases "px_ctx_err E (w_ext w2)")
      case (Some ce)
      then show ?thesis using eq' w2 mark_keeps(1) [of I E e w2, OF mark] by simp
    next
      case none: None
      obtain res w3 where rt: "tripper (attempt_request req) w2 = (res, w3)" by (cases "tripper (attempt_request req) w2")
      have "upstream_calls w3 = upstream_calls w" "I (w_ext w3)"
        using harmlessD [OF t w2(2) rt] w2(1) by simp_all
      then show ?thesis
        using eq' none rt after_round_trip_keeps [of I E e w3, OF mark] by (simp add: after_round_trip_upstream)
    qed
  qed
qed

lemma retry_loop_silent:
  assumes "\<And>b x. I x \<Longrightarrow> I (px_breaker_mark E e b x)" and "\<And>x. I x \<Longrightarrow> I (snd (px_breaker_allow E e x))"
    and "harmless I (rq_method (attempt_request req)) (rq_path (attempt_request req))
      (hget (rq_header (attempt_request req)) ''Authorization'') tripper"
  shows "I (w_ext w) \<Longrightarrow> upstream_calls (loop_world (retry_loop E e conds tripper req n i resp er w)) = upstream_calls w"
proof (induction n arbitrary: i resp er w)
  case (Suc n)
  have a: "upstream_calls (step_world (attempt E e conds tripper req (n = 0) i resp er w)) = upstream_calls w
    \<and> I (w_ext (step_world (attempt E e conds tripper req (n = 0) i resp er w)))"
    by (rule attempt_silent) (use assms Suc.prems in simp_all)
  show ?case
  proof (cases "attempt E e conds tripper req (n = 0) i resp er w")
    case (Again r1 e1 w1)
    then show ?thesis using a Suc.IH [of w1 "Suc i" r1 e1] by simp
  qed (use a in simp)
qed simp

lemma handler_silent:
  assumes "\<And>b x. I x \<Longrightarrow> I (px_breaker_mark E e b x)" and "\<And>x. I x \<Longrightarrow> I (snd (px_breaker_allow E e x))"
    and "harmless I (rq_method req) (rq_path req) (hget (rq_header req) ''Authorization'') tripper" and "I (w_ext w)"
  shows "upstream_calls (outcome_world (endpoint_handler E e rs tripper wr req w)) = upstream_calls w"
proof -
  define l where "l = NewMetricsLabels e"
  define rq where "rq = setXFFHeader (WithRequestPath req (rq_path req))"
  define w1 where "w1 = upd_opts (\<lambda>_. NewRequestOptions e) w"
  define w2 where "w2 = receivedBytesAdd rq l (int (length (bd_data (rq_body rq)))) w1"
  have t: "harmless I (rq_method (attempt_request rq)) (rq_path (attempt_request rq))
      (hget (rq_header (attempt_request rq)) ''Authorization'') tripper"
    using assms(3) by (simp add: rq_def sent_request)
  have w1: "upstream_calls w1 = upstream_calls w" and w2: "upstream_calls w2 = upstream_calls w" "I (w_ext w2)"
    using assms(4) by (simp_all add: w1_def w2_def, simp add: receivedBytesAdd_def)
  have "upstream_calls (loop_world (retry_loop E e (rt_conditions rs) tripper rq (nat (rt_attempts rs)) 0 None None w2)) = upstream_calls w"
    using retry_loop_silent [of I E e rq tripper w2, OF assms(1,2) t w2(2)] w2(1) by simp
  then show ?thesis
    by (auto simp: endpoint_handler_def Let_def l_def [symmetric] rq_def [symmetric] w1_def [symmetric]
        w2_def [symmetric] writeError_quiet send_response_quiet w1 split: option.split loop_result.split)
qed

section \<open>From the configuration to the handlers\<close>

lemma Create_wrapped:
  assumes "getMiddleware R (createFullName (mc_name c)) = Some (wrapFactory f)" and "f c w = (Inr m, w)"
  shows "Create R c w = (Inr (of_middleware m), w)"
  using assms by (simp add: Create_def wrapFactory_def)

text \<open>The configurations of the two middlewares: the names that the registry
  knows them by, and the rules of the requests they skip.\<close>

definition guard_config :: "'x world registry \<Rightarrow> 'x world factory \<Rightarrow> string \<Rightarrow> mw_config \<Rightarrow> PathMatcher list \<Rightarrow> bool" where
  "guard_config R f name c ms \<longleftrightarrow>
    equalFold name (mc_name c) \<and> R (createFullName name) = Some (wrapFactory f)
    \<and> rule_matchers (case mc_router_filter c of None \<Rightarrow> [] | Some rules \<Rightarrow> rules) = Some ms"

lemma guard_config_Create:
  assumes "guard_config R f name c ms" and "\<And>w. f c w = (Inr m, w)"
  shows "Create R c w = (Inr (of_middleware m), w)"
proof (rule Create_wrapped)
  have "createFullName (mc_name c) = createFullName name"
    using assms(1) createFullName_eq_iff [of "mc_name c" name] by (simp add: guard_config_def equalFold_def)
  then show "getMiddleware R (createFullName (mc_name c)) = Some (wrapFactory f)"
    using assms(1) by (simp add: getMiddleware_def guard_config_def)
qed (rule assms(2))

lemma guards_build:
  assumes "guard_config R (jwt_Middleware L key_of) ''jwt'' cj ms1" and "guard_config R (rbac_Middleware B D) ''rbac'' cr ms2"
  shows "build_rev G (Create R) [cr, cj] t w = (Inr (jwt_RoundTrip L key_of ms1 (rbac_RoundTrip B D ms2 t)), w)"
proof -
  have "Create R cj w = (Inr (of_middleware (jwt_RoundTrip L key_of ms1)), w)" for w
    by (rule guard_config_Create [OF assms(1)]) (use assms(1) in \<open>simp add: jwt_Middleware_def guard_config_def\<close>)
  moreover have "Create R cr w = (Inr (of_middleware (rbac_RoundTrip B D ms2)), w)" for w
    by (rule guard_config_Create [OF assms(2)]) (use assms(2) in \<open>simp add: rbac_Middleware_def guard_config_def\<close>)
  ultimately show ?thesis by (simp add: of_middleware_def)
qed

text \<open>The global list with the two guards somewhere in it: what is behind them
  is arbitrary.\<close>

lemma guarded_list:
  assumes "guard_config R (jwt_Middleware L key_of) ''jwt'' cj ms1" and "guard_config R (rbac_Middleware B D) ''rbac'' cr ms2"
    and "\<And>c w m w'. c \<in> set front \<Longrightarrow> Create R c w = (Inr m, w') \<Longrightarrow> passes I (mi_process m)"
    and "\<And>inner. harmless I meth path auth (jwt_RoundTrip L key_of ms1 (rbac_RoundTrip B D ms2 inner))"
    and "buildMiddleware G (Create R) (front @ cj # cr # back) t w = (Inr t', w')"
  shows "harmless I meth path auth t'"
proof -
  have rev: "rev (front @ cj # cr # back) = rev back @ [cr, cj] @ rev front" by simp
  obtain inner w1 where "build_rev G (Create R) ([cr, cj] @ rev front) inner w1 = (Inr t', w')"
    using assms(5) unfolding buildMiddleware_def rev build_rev_append [of G "Create R" "rev back"]
    by (auto split: prod.splits sum.splits)
  then have "build_rev G (Create R) (rev front) (jwt_RoundTrip L key_of ms1 (rbac_RoundTrip B D ms2 inner)) w1 = (Inr t', w')"
    unfolding build_rev_append guards_build [OF assms(1,2)] by simp
  from build_rev_keeps [where P = "harmless I meth path auth", OF _ this assms(4)] assms(3) show ?thesis
    by (auto simp: passes_def)
qed

lemma guarded_endpoint:
  assumes "\<And>G t w t' w'. buildMiddleware G mf ms t w = (Inr t', w') \<Longrightarrow> harmless I meth path auth t'"
    and "buildEndpoint E cf mf e ms w = (Inr (h, c), w')"
  shows "\<exists>rs tripper. h = endpoint_handler E e rs tripper \<and> harmless I meth path auth tripper"
  using assms(2)
  by (auto simp: buildEndpoint_def Let_def split: prod.splits sum.splits option.splits intro: assms(1))

section \<open>From the router to the requests upstream\<close>

lemma answers_silent:
  "upstream_calls (outcome_world (notFoundHandler L wr req w)) = upstream_calls w"
  "upstream_calls (outcome_world (methodNotAllowedHandler L wr req w)) = upstream_calls w"
  "upstream_calls (outcome_world (ProtectedHandler L h wr req w)) =
    (if hget (rq_header req) ''X-Forwarded-For'' \<noteq> [] then upstream_calls w else upstream_calls (outcome_world (h wr req w)))"
  "upstream_calls (outcome_world (write_outcome L wr req e opts (\<lambda>_ w. w) w)) = upstream_calls w"
  by (simp_all add: notFoundHandler_def methodNotAllowedHandler_def ProtectedHandler_def write_outcome_def split: option.split)

text \<open>The parts of the process that act while a request is served: the breaker of
  the retries, the lookup of roles, and the layers in front of the guards.\<close>

definition serves_steadily :: "(('e, 'x) rbac_state \<Rightarrow> bool) \<Rightarrow> ('e, 'x) rbac_state proxy_env \<Rightarrow> 'x casdoor
    \<Rightarrow> ('e, 'x) rbac_state world factory_v2 \<Rightarrow> mw_config list \<Rightarrow> bool" where
  "serves_steadily I E D mf front \<longleftrightarrow>
    (\<forall>e x. I x \<longrightarrow> I (snd (px_breaker_allow E e x))) \<and> (\<forall>e b x. I x \<longrightarrow> I (px_breaker_mark E e b x))
    \<and> (\<forall>u x. I x \<longrightarrow> I (snd (getUserRoles D u x)))
    \<and> (\<forall>c \<in> set front. \<forall>w m w'. mf c w = (Inr m, w') \<longrightarrow> passes I (mi_process m))"

text \<open>C2: With jwt and right behind it rbac in the global middlewares, whatever
  the endpoints, their own middlewares and their clients are, the gateway sends
  nothing upstream for a request that no skip rule exempts, in any number of
  attempts, unless its token is signed by the loaded key and the policy in
  force allows its method and cleaned path to the role the directory gives the
  user of the token.  The client's own identity headers play no part.  The
  middlewares in front hand on method, path and token, as cors, logging,
  transcoder and ip do; key and enforcer do not change meanwhile.\<close>

theorem gateway_guards_upstream:
  fixes w :: "('e, 'x) rbac_state world"
  assumes "checks_signature L alg_of sig_ok" and "gorilla_dispatch (px_gorilla E)"
    and "\<And>wr r w. upstream_calls (outcome_world (px_metrics E wr r w)) = upstream_calls w"
    and "serves_steadily I E D (Create R) front" and "\<And>x. I x \<Longrightarrow> key_of x = Some k \<and> rs_enforcer x = Some enf"
    and "guard_config R (jwt_Middleware L key_of) ''jwt'' cj ms1" and "guard_config R (rbac_Middleware B D) ''rbac'' cr ms2"
    and "gc_middlewares cfg = front @ cj # cr # back" and "Update E cf (Create R) cfg p w0 = (None, p', w0')"
    and "\<And>r. \<lbrakk> rq_method r = rq_method req; rq_path r = cleanPath (rq_path req) \<rbrakk>
          \<Longrightarrow> \<not> list_ex (\<lambda>m. pm_Match m r) ms1 \<and> \<not> list_ex (\<lambda>m. pm_Match m r) ms2"
    and "I (w_ext w)"
    and "upstream_calls (outcome_world (proxy_ServeHTTP E p' wr req w)) \<noteq> upstream_calls w"
  shows "admits alg_of sig_ok B D I k enf (rq_method req) (cleanPath (rq_path req)) (hget (rq_header req) ''Authorization'')"
proof (rule ccontr)
  define clean where "clean = req\<lparr>rq_path := cleanPath (rq_path req)\<rparr>"
  note st = assms(4) [unfolded serves_steadily_def]
  assume no: "\<not> ?thesis"
  define Q where "Q h \<longleftrightarrow> (\<forall>wr. upstream_calls (outcome_world (h wr clean w)) = upstream_calls w)"
    for h :: "('e, 'x) rbac_state world handler"
  have roles: "\<And>u x. I x \<Longrightarrow> I (snd (getUserRoles D u x))" using st by blast
  have chain: "harmless I (rq_method clean) (rq_path clean) (hget (rq_header clean) ''Authorization'')
      (jwt_RoundTrip L key_of ms1 (rbac_RoundTrip B D ms2 inner))" for inner
    by (rule chain_harmless [where I = I and key_of = key_of and D = D, OF assms(1,5) roles]) (use assms(10) no in \<open>simp_all add: clean_def\<close>)
  have list: "harmless I (rq_method clean) (rq_path clean) (hget (rq_header clean) ''Authorization'') t'"
    if "buildMiddleware G (Create R) (front @ cj # cr # back) t v = (Inr t', v')" for G t v t' v'
    by (rule guarded_list [OF assms(6,7) _ chain that]) (use st in blast)
  have endpoint: "Q h" if b: "buildEndpoint E cf (Create R) e (front @ cj # cr # back) v = (Inr (h, c), v')" for e v h c v'
  proof -
    have "\<exists>rs tripper. h = endpoint_handler E e rs tripper
        \<and> harmless I (rq_method clean) (rq_path clean) (hget (rq_header clean) ''Authorization'') tripper"
      by (rule guarded_endpoint [OF _ b]) (rule list)
    then obtain rs tripper where h: "h = endpoint_handler E e rs tripper"
      and t: "harmless I (rq_method clean) (rq_path clean) (hget (rq_header clean) ''Authorization'') tripper"
      by blast
    have "upstream_calls (outcome_world (endpoint_handler E e rs tripper wr clean w)) = upstream_calls w" for wr
      by (rule handler_silent [OF _ _ t assms(11)]) (use st in blast)+
    then show ?thesis by (simp add: Q_def h)
  qed
  have silent: "Q (ProtectedHandler (px_libs E) (px_metrics E))" "Q (notFoundHandler (px_libs E))" "Q (methodNotAllowedHandler (px_libs E))"
    using assms(3) by (simp_all add: Q_def answers_silent)
  have "upstream_calls (outcome_world (proxy_ServeHTTP E p' wr req w)) = upstream_calls w"
  proof (rule Update_serves [OF assms(2,9) _ silent, of wr req w])
    fix h assume "Q h"
      and "outcome_world (proxy_ServeHTTP E p' wr req w) = outcome_world (h wr (req\<lparr>rq_path := cleanPath (rq_path req)\<rparr>) w)"
    then show ?thesis by (simp add: Q_def clean_def)
  qed (use endpoint assms(8) in auto)
  then show False using assms(12) by simp
qed

section \<open>A run\<close>

definition one_upstream :: "'x world gw_client" where
  "one_upstream = \<lparr>cl_round_trip = (\<lambda>r w. (Ret (Some (sample_response 200)) None,
       emit (EvUpstream (newNode ''10.0.0.2:80'' HTTP None [] [] ''shop'') r) w)), cl_close = no_close\<rparr>"

definition guard_registry :: "(string, unit) rbac_state world registry" where
  "guard_registry = [createFullName ''logging'' \<mapsto> wrapFactory logging_Middleware,
     createFullName ''jwt'' \<mapsto> wrapFactory (jwt_Middleware demo_lib (\<lambda>x. Some 3)),
     createFullName ''rbac'' \<mapsto> wrapFactory (rbac_Middleware demo_casbin demo_casdoor)]"

definition guard_endpoint :: endpoint where
  "guard_endpoint = sample_endpoint\<lparr>ep_path := ''/user.v1/*''\<rparr>"

definition guard_gateway :: gateway_config where
  "guard_gateway = \<lparr>gc_name = ''gw'', gc_version = ''1'', gc_hosts = [], gc_endpoints = [guard_endpoint],
     gc_middlewares = [mw_named ''logging'', mw_named ''jwt'', mw_named ''rbac''], gc_envs = []\<rparr>"

abbreviation same_enforcer :: "(string, unit) rbac_state \<Rightarrow> bool" where
  "same_enforcer x \<equiv> rs_enforcer x = Some ''m''"

abbreviation one_upstream_factory :: "(string, unit) rbac_state world client_factory" where
  "one_upstream_factory \<equiv> (\<lambda>e w. (Inr one_upstream, w))"

lemma guard_names: "createFullName ''rbac'' \<noteq> createFullName ''jwt''" "createFullName ''logging'' \<noteq> createFullName ''jwt''"
  "createFullName ''logging'' \<noteq> createFullName ''rbac''"
  by (simp_all add: createFullName_eq_iff equalFold_def toLower_def)

lemma guard_configs:
  "guard_config guard_registry (jwt_Middleware demo_lib (\<lambda>x. Some 3)) ''jwt'' (mw_named ''jwt'') []"
  "guard_config guard_registry (rbac_Middleware demo_casbin demo_casdoor) ''rbac'' (mw_named ''rbac'') []"
  "guard_config guard_registry logging_Middleware ''logging'' (mw_named ''logging'') []"
  using guard_names by (simp_all add: guard_config_def guard_registry_def mw_named_def equalFold_def)

lemma guard_front: "Create guard_registry (mw_named ''logging'') w = (Inr (of_middleware logging_RoundTrip), w)"
  by (rule guard_config_Create [OF guard_configs(3)]) (simp add: logging_Middleware_def)

lemma guard_steady: "serves_steadily same_enforcer sample_env demo_casdoor (Create guard_registry) [mw_named ''logging'']"
proof -
  have "same_enforcer x \<Longrightarrow> same_enforcer (snd (getUserRoles demo_casdoor u x))" for u and x :: "(string, unit) rbac_state"
    using getUserRoles_enforcer [of demo_casdoor u x] by (metis prod.collapse)
  then show ?thesis
    by (auto simp: serves_steadily_def sample_env_def guard_front of_middleware_def logging_passes)
qed

definition guard_strategy :: retry_strategy where
  "guard_strategy = \<lparr>rt_attempts = 3, rt_timeout = time_Second, rt_per_try_timeout = time_Second,
     rt_conditions = [ByStatusCode [500, 599]]\<rparr>"

abbreviation guard_chain :: "(string, unit) rbac_state world round_tripper" where
  "guard_chain \<equiv> logging_RoundTrip (jwt_RoundTrip demo_lib (\<lambda>x. Some 3) []
     (rbac_RoundTrip demo_casbin demo_casdoor [] (cl_round_trip one_upstream)))"

lemma guard_list:
  "buildMiddleware G (Create guard_registry) [mw_named ''logging'', mw_named ''jwt'', mw_named ''rbac''] t w =
    (Inr (logging_RoundTrip (jwt_RoundTrip demo_lib (\<lambda>x. Some 3) [] (rbac_RoundTrip demo_casbin demo_casdoor [] t))), w)"
proof -
  have rev: "rev [mw_named ''logging'', mw_named ''jwt'', mw_named ''rbac''] =
      [mw_named ''rbac'', mw_named ''jwt''] @ [mw_named ''logging'']" by simp
  show ?thesis
    unfolding buildMiddleware_def rev build_rev_append guards_build [OF guard_configs(1,2)]
    by (simp add: guard_front of_middleware_def)
qed

lemma guard_update:
  "\<exists>p' w'. Update sample_env one_upstream_factory (Create guard_registry) guard_gateway (proxy_New sample_env) w = (None, p', w')
    \<and> py_router p' = (new_router sample_env)\<lparr>mr_routes := mr_routes (new_router sample_env) @
        [\<lparr>rou_matchers = route_matchers ''/user.v1/*'' ''GET'' [] ''HTTP'',
          rou_handler = endpoint_handler sample_env guard_endpoint guard_strategy guard_chain\<rparr>],
        mr_closers := [no_close]\<rparr>"
proof -
  have strategy: "prepareRetryStrategy guard_endpoint = Some guard_strategy" by code_simp
  have own: "ep_middlewares guard_endpoint = []" by (simp add: guard_endpoint_def sample_endpoint_def)
  have gor: "px_gorilla (sample_env :: (string, unit) rbac_state proxy_env) = sample_gorilla" by (simp add: sample_env_def)
  have build: "buildEndpoint sample_env one_upstream_factory (Create guard_registry) guard_endpoint
      [mw_named ''logging'', mw_named ''jwt'', mw_named ''rbac''] w
      = (Inr (endpoint_handler sample_env guard_endpoint guard_strategy guard_chain, no_close), w)"
    by (simp add: buildEndpoint_def own strategy guard_list buildMiddleware_def [of _ _ "[]"] Let_def) (simp add: one_upstream_def)
  show ?thesis
    by (simp add: Update_def guard_gateway_def build Handle_def gor sample_gorilla_def Let_def new_router_def NewRouter_def
        tryCloseRouter_def foldl_close_none) (simp add: guard_endpoint_def sample_endpoint_def)
qed

lemma guard_chain_sends:
  assumes "w_ext w = demo_state" and "hget (rq_header req) ''Authorization'' = ''Bearer good''"
  shows "\<exists>w1. guard_chain req w = (Ret (Some (sample_response 200)) None, w1) \<and> upstream_calls w1 = Suc (upstream_calls w)"
proof -
  obtain s1 where s1: "getUserRoles demo_casdoor ''u1'' demo_state = (Some (Inr ''admin''), s1)" "rs_enforcer s1 = Some ''m''"
    using demo_roles by blast
  have trim: "trimPrefix ''Bearer good'' ''Bearer '' = ''good''" by (simp add: trimPrefix_def)
  have uid: "hget (rq_header (jwt_set_headers cl r)) UserIdMetadataKey = jc_user_id cl" for cl r
    by (simp add: jwt_set_headers_def hget_hset)
  have parse: "ParseJwt demo_lib (Some 3) ''good'' = Inr \<lparr>jc_user_id = ''u1'', jc_user_name = ''ann''\<rparr>"
    by (simp add: ParseJwt_def demo_lib_def key_func_def)
  have "guard_chain req w = logging_RoundTrip (\<lambda>r. rbac_RoundTrip demo_casbin demo_casdoor [] (cl_round_trip one_upstream)
      (jwt_set_headers \<lparr>jc_user_id = ''u1'', jc_user_name = ''ann''\<rparr> r)) req w"
    using assms(2) by (simp add: logging_RoundTrip_def jwt_RoundTrip_def trim parse)
  then show ?thesis
    using assms(1) s1 by (simp add: logging_RoundTrip_def rbac_RoundTrip_def uid demo_casbin_def one_upstream_def Let_def)
qed

lemma guard_handler_sends:
  assumes "hget (rq_header req) ''Authorization'' = ''Bearer good''" and "bd_err (rq_body req) = None"
  shows "upstream_calls (outcome_world (endpoint_handler sample_env guard_endpoint guard_strategy guard_chain wr req (sample_world demo_state))) = 1"
proof -
  define rq where "rq = setXFFHeader (WithRequestPath req (rq_path req))"
  define w1 :: "(string, unit) rbac_state world" where "w1 = receivedBytesAdd rq (NewMetricsLabels guard_endpoint) (int (length (bd_data (rq_body rq))))
      (upd_opts (\<lambda>_. NewRequestOptions guard_endpoint) (sample_world demo_state))"
  have rq: "bd_err (rq_body rq) = None" "hget (rq_header (attempt_request rq)) ''Authorization'' = ''Bearer good''"
    using assms by (simp_all add: rq_def sent_request)
  have w1: "w_ext w1 = demo_state" "upstream_calls w1 = 0"
    by (simp_all add: w1_def receivedBytesAdd_def sample_world_def, simp add: count_events_def)
  obtain w2 where w2: "guard_chain (attempt_request rq) w1 = (Ret (Some (sample_response 200)) None, w2)" "upstream_calls w2 = 1"
    using guard_chain_sends [OF w1(1) rq(2)] w1(2) by auto
  have ok: "\<not> judgeRetryRequired (rt_conditions guard_strategy) (sample_response 200)"
    by (simp add: guard_strategy_def sample_judge)
  have ctx: "px_ctx_err sample_env x = None" for x :: "(string, unit) rbac_state" by (simp add: sample_env_def)
  have "attempt sample_env guard_endpoint (rt_conditions guard_strategy) guard_chain rq False 0 None None w1
      = Stop (LoopDone (Some (sample_response 200)) None (set_last_attempt w2))"
    by (rule attempt_first_ok [OF ctx _ ok]) (simp add: w2(1))
  then have "retry_loop sample_env guard_endpoint (rt_conditions guard_strategy) guard_chain rq (nat (rt_attempts guard_strategy)) 0 None None w1
      = LoopDone (Some (sample_response 200)) None (set_last_attempt w2)"
    by (simp add: guard_strategy_def numeral_3_eq_3)
  then show ?thesis
    using w2(2) by (simp add: endpoint_handler_def Let_def rq_def [symmetric] w1_def [symmetric] rq(1) send_response_quiet)
qed

theorem gateway_guards_upstream_witness:
  "admits (\<lambda>t. ''RS256'') (\<lambda>k t c. t = ''good'' \<and> c = \<lparr>jc_user_id = ''u1'', jc_user_name = ''ann''\<rparr>) demo_casbin demo_casdoor
     same_enforcer (3 :: nat) ''m'' ''GET'' ''/user.v1/list'' ''Bearer good''"
proof -
  have req: "rq_method bearer_request = ''GET''" "rq_path bearer_request = ''/user.v1/list''"
    "hget (rq_header bearer_request) ''Authorization'' = ''Bearer good''" "bd_err (rq_body bearer_request) = None"
    by (simp_all add: bearer_request_def user_request_def hget_def)
  have clean: "cleanPath ''/user.v1/list'' = ''/user.v1/list''" by code_simp
  then have same: "bearer_request = bearer_request\<lparr>rq_path := cleanPath (rq_path bearer_request)\<rparr>" using req(2) by simp
  obtain p' w' where upd: "Update sample_env one_upstream_factory (Create guard_registry) guard_gateway (proxy_New sample_env) (sample_world demo_state)
      = (None, p', w')"
    and router: "py_router p' = (new_router sample_env)\<lparr>mr_routes := mr_routes (new_router sample_env) @
        [\<lparr>rou_matchers = route_matchers ''/user.v1/*'' ''GET'' [] ''HTTP'',
          rou_handler = endpoint_handler sample_env guard_endpoint guard_strategy guard_chain\<rparr>], mr_closers := [no_close]\<rparr>"
    using guard_update by blast
  have up: "toUpper ''GET'' = ''GET''" by code_simp
  have select: "go_select sample_gorilla st [[MPath ''/metrics''], route_matchers ''/user.v1/*'' ''GET'' [] ''HTTP''] bearer_request = Selected 1" for st
    using req(1,2) by (simp add: sample_gorilla_def route_matchers_def path_matcher_def equalFold_def toLower_def trimRight_def suffix_def up)
  have gor: "px_gorilla (sample_env :: (string, unit) rbac_state proxy_env) = sample_gorilla" by (simp add: sample_env_def)
  have run: "mux_ServeHTTP sample_gorilla (py_router p') new_writer bearer_request w
      = endpoint_handler sample_env guard_endpoint guard_strategy guard_chain new_writer bearer_request w" for w
    using select same [symmetric] by (simp add: mux_ServeHTTP_def Let_def router new_router_def NewRouter_def)
  have one: "upstream_calls (outcome_world (mux_ServeHTTP sample_gorilla (py_router p') new_writer bearer_request (sample_world demo_state))) = 1"
    unfolding run by (rule guard_handler_sends [OF req(3,4)])
  have "upstream_calls (outcome_world (proxy_ServeHTTP sample_env p' new_writer bearer_request (sample_world demo_state))) = 1"
    using one by (cases "mux_ServeHTTP sample_gorilla (py_router p') new_writer bearer_request (sample_world demo_state)")
      (simp_all add: proxy_ServeHTTP_def gor answers_silent)
  then have sent: "upstream_calls (outcome_world (proxy_ServeHTTP sample_env p' new_writer bearer_request (sample_world demo_state)))
      \<noteq> upstream_calls (sample_world demo_state)"
    by (simp add: sample_world_def count_events_def)
  have metrics: "upstream_calls (outcome_world (px_metrics sample_env wr r w)) = upstream_calls w" for wr r and w :: "(string, unit) rbac_state world"
    by (simp add: sample_env_def)
  have dispatch: "gorilla_dispatch (px_gorilla (sample_env :: (string, unit) rbac_state proxy_env))"
    by (simp add: gor sample_gorilla_dispatch)
  have key: "same_enforcer x \<Longrightarrow> Some (3 :: nat) = Some 3 \<and> rs_enforcer x = Some ''m''" for x :: "(string, unit) rbac_state" by simp
  have mws: "gc_middlewares guard_gateway = [mw_named ''logging''] @ mw_named ''jwt'' # mw_named ''rbac'' # []" by (simp add: guard_gateway_def)
  have start: "same_enforcer (w_ext (sample_world demo_state))" by (simp add: sample_world_def demo_state_def)
  show ?thesis
    using gateway_guards_upstream [OF demo_checks dispatch metrics guard_steady key guard_configs(1,2) mws upd _ start sent] req clean
    by simp
qed

section \<open>Where the chain is open\<close>

text \<open>C31: On a path that a skip rule of jwt exempts and none of rbac does, the
  requester chooses the user that the policy is asked about: the identity header
  of the request is taken as it is, whatever token comes with it, and the
  upstream receives it as the authenticated user.\<close>

theorem exempt_request_chooses_user:
  assumes "list_ex (\<lambda>m. pm_Match m req) ms1" and "\<not> list_ex (\<lambda>m. pm_Match m req) ms2" and "user \<noteq> []"
    and "getUserRoles D user (w_ext w) = (Some (Inr role), s1)" and "rs_enforcer s1 = Some enf"
    and "cb_Enforce B enf role (rq_path req) (rq_method req) = Inr True"
  shows "\<exists>sent. hget (rq_header sent) UserIdMetadataKey = user
    \<and> (\<forall>behind. jwt_RoundTrip L key_of ms1 (rbac_RoundTrip B D ms2 behind)
          (req\<lparr>rq_header := hset (rq_header req) UserIdMetadataKey user\<rparr>) w = behind sent (upd_ext (\<lambda>_. s1) w))"
proof -
  define rq where "rq = req\<lparr>rq_header := hset (rq_header req) UserIdMetadataKey user\<rparr>"
  have same: "rq_method rq = rq_method req" "rq_path rq = rq_path req"
    and uid: "hget (rq_header rq) UserIdMetadataKey = user"
    by (simp_all add: rq_def hget_hset)
  have skip: "list_ex (\<lambda>m. pm_Match m rq) ms1" "\<not> list_ex (\<lambda>m. pm_Match m rq) ms2"
    using assms(1,2) pm_Match_target [OF same] by simp_all
  have "jwt_RoundTrip L key_of ms1 (rbac_RoundTrip B D ms2 behind) rq w
      = behind (rbac_set_headers role (rs_userOwner s1) user rq) (upd_ext (\<lambda>_. s1) w)" for behind
    using skip same assms(3-6) by (simp add: jwt_RoundTrip_def rbac_RoundTrip_def uid Let_def)
  moreover have "hget (rq_header (rbac_set_headers role (rs_userOwner s1) user rq)) UserIdMetadataKey = user"
    by (simp add: rbac_set_headers_def hget_hset)
  ultimately show ?thesis unfolding rq_def [symmetric] by blast
qed

text \<open>As in the delivered configuration, jwt exempts the search by GET and rbac
  does not.\<close>

definition search_rule :: "string list \<Rightarrow> rule list" where
  "search_rule methods = [\<lparr>rl_path = ''/search.v1'' @ ''*'', rl_methods = methods\<rparr>]"

definition search_request :: request where
  "search_request = user_request\<lparr>rq_path := ''/search.v1.SearchService/Search''\<rparr>"

lemma search_base: "prefix_base ''/search.v1''"
proof -
  have "trimSpace (''/search.v1*'') = ''/search.v1*''" by (rule trimSpace_graphic) (simp add: byte_def)
  then show ?thesis by (simp add: prefix_base_def byte_def suffix_def ascii_def)
qed

lemma search_skips:
  "map_option (list_ex (\<lambda>m. pm_Match m search_request)) (rule_matchers (search_rule methods))
    = Some (methods = [] \<or> ''GET'' \<in> toUpper ` set methods)"
proof -
  obtain m where m: "NewPathMatcher (''/search.v1'' @ ''*'') methods = Some m" "pm_methods m = map toUpper methods"
    "pm_regex m = RSeq RBegin (lit_seq (map byte ''/search.v1'') (RSeq (RStar (RSet (True, [(10, 10)]))) (RSeq REnd REps)))"
    using prefix_NewPathMatcher [OF search_base] by blast
  have asc: "ascii ''/search.v1.SearchService/Search''" by (simp add: byte_def)
  have runes: "runes ''/search.v1.SearchService/Search'' = map byte ''/search.v1.SearchService/Search''"
    using runes_ascii_append [OF asc, of "[]"] by simp
  have "pm_Match m search_request \<longleftrightarrow> methods = [] \<or> ''GET'' \<in> toUpper ` set methods"
    unfolding pm_Match_def m(2,3) anchored_matches
    by (auto simp: search_request_def user_request_def request_match_path_def runes byte_def)
  then show ?thesis using m(1) by (simp add: search_rule_def)
qed

theorem exempt_request_chooses_user_witness:
  "\<exists>ms1 ms2 s1 sent. rule_matchers (search_rule [''GET'', ''POST'', ''OPTIONS'']) = Some ms1
    \<and> rule_matchers (search_rule [''POST'', ''OPTIONS'']) = Some ms2
    \<and> hget (rq_header sent) UserIdMetadataKey = ''u1''
    \<and> (\<forall>behind. jwt_RoundTrip demo_lib (\<lambda>x. Some 3) ms1 (rbac_RoundTrip demo_casbin demo_casdoor ms2 behind)
          (search_request\<lparr>rq_header := hset (rq_header search_request) UserIdMetadataKey ''u1''\<rparr>) (sample_world demo_state)
        = behind sent (upd_ext (\<lambda>_. s1) (sample_world demo_state)))"
proof -
  obtain ms1 ms2 where ms: "rule_matchers (search_rule [''GET'', ''POST'', ''OPTIONS'']) = Some ms1"
    "rule_matchers (search_rule [''POST'', ''OPTIONS'']) = Some ms2"
    and skip: "list_ex (\<lambda>m. pm_Match m search_request) ms1" "\<not> list_ex (\<lambda>m. pm_Match m search_request) ms2"
    using search_skips [of "[''GET'', ''POST'', ''OPTIONS'']"] search_skips [of "[''POST'', ''OPTIONS'']"] by (auto simp: toUpper_def)
  obtain s1 where s1: "getUserRoles demo_casdoor ''u1'' (w_ext (sample_world demo_state)) = (Some (Inr ''admin''), s1)"
      "rs_enforcer s1 = Some ''m''"
    using demo_roles by (auto simp: sample_world_def)
  have allowed: "cb_Enforce demo_casbin ''m'' ''admin'' (rq_path search_request) (rq_method search_request) = Inr True"
    by (simp add: demo_casbin_def search_request_def)
  show ?thesis
    using exempt_request_chooses_user [OF skip _ s1 allowed, of demo_lib "\<lambda>x. Some 3"] ms by simp metis
qed

text \<open>An entry of a guard that is not required and has a rule that does not
  compile is no guard: the middlewares before and behind it are built as if it
  was not there, and only a counter of failed creations tells.\<close>

theorem bad_rule_removes_guard:
  assumes "equalFold name (mc_name c)" and "R (createFullName name) = Some (wrapFactory f)" and "\<not> mc_required c"
    and "f = jwt_Middleware L key_of \<or> f = rbac_Middleware B D"
    and "rule_matchers (case mc_router_filter c of None \<Rightarrow> [] | Some rules \<Rightarrow> rules) = None"
  shows "buildMiddleware G (Create R) (front @ c # back) t w =
    (case buildMiddleware G (Create R) back t w of
       (Inl e, w1) \<Rightarrow> (Inl e, w1)
     | (Inr t1, w1) \<Rightarrow> buildMiddleware G (Create R) front t1
         (emit (EvCounter ''failed_middleware_create'' [mc_name c, ''false''] 1) w1))"
proof -
  have "createFullName (mc_name c) = createFullName name"
    using assms(1) createFullName_eq_iff [of "mc_name c" name] by (simp add: equalFold_def)
  then have "getMiddleware R (createFullName (mc_name c)) = Some (wrapFactory f)"
    using assms(1,2) by (simp add: getMiddleware_def)
  moreover have "\<exists>e. \<forall>w. f c w = (Inl e, w)"
    using assms(4,5) by (auto simp: jwt_Middleware_def rbac_Middleware_def)
  then obtain e where "\<And>w. wrapFactory f c w = (Inl e, w)" by (auto simp: wrapFactory_def)
  ultimately have "Create R c w = (Inr EmptyMiddleware, emit (EvCounter ''failed_middleware_create'' [mc_name c, ''false''] 1) w)" for w
    using assms(3) by (simp add: Create_def)
  then show ?thesis
    by (simp add: buildMiddleware_def build_rev_append EmptyMiddleware_def split: prod.split sum.split)
qed

lemma open_bracket_rule: "rule_matchers [\<lparr>rl_path = ''/a('', rl_methods = []\<rparr>] = None"
proof -
  have trim: "trimSpace ''/a('' = ''/a(''" by (rule trimSpace_graphic) (simp add: byte_def)
  have path: "pattern_path ''/a('' = ''/a(''" by (simp add: pattern_path_def trimSuffix_def suffix_def)
  have regex: "pattern_regex ''/a('' = ''^/a($''" by (simp add: pattern_regex_def suffix_def)
  have asc: "ascii ''^/a($''" by (simp add: byte_def)
  have runes: "runes ''^/a($'' = [94, 47, 97, 40, 36]"
    using runes_ascii_append [OF asc, of "[]"] by (simp add: byte_def)
  have "re_Compile ''^/a($'' = None"
    unfolding re_Compile_def if_not_P [OF valid_utf8_ascii [OF asc, THEN not_not [THEN iffD2]]] runes
    by (simp add: next_tok_def group_open_def push_item_def)
  then show ?thesis by (simp add: NewPathMatcher_def trim path regex)
qed

theorem bad_rule_removes_guard_witness:
  "\<exists>w'. buildMiddleware G (Create guard_registry)
      [mw_named ''logging'', (mw_named ''jwt'')\<lparr>mc_router_filter := Some [\<lparr>rl_path = ''/a('', rl_methods = []\<rparr>]\<rparr>] t w
    = (Inr (logging_RoundTrip t), w')"
  using bad_rule_removes_guard [of "''jwt''" "(mw_named ''jwt'')\<lparr>mc_router_filter := Some [\<lparr>rl_path = ''/a('', rl_methods = []\<rparr>]\<rparr>"
      guard_registry "jwt_Middleware demo_lib (\<lambda>x. Some 3)" demo_lib "\<lambda>x. Some 3" demo_casbin demo_casdoor G "[mw_named ''logging'']" "[]" t w]
    guard_configs(1) open_bracket_rule
  by (simp add: guard_config_def mw_named_def buildMiddleware_def [of _ _ "[]"])
    (simp add: buildMiddleware_def guard_front [unfolded mw_named_def] of_middleware_def)

end
