(* ===== verification/Go_Time.thy ===== *)
theory Go_Time
  imports Go_Strings
begin

text \<open>
  ParseDuration of package time: a sign and a sequence of decimal numbers,
  each with a unit, as an int64 number of nanoseconds.  \<open>None\<close> is an
  error.  A fraction is multiplied exactly here, in float64 by the library.
\<close>

abbreviation time_second :: int where "time_second \<equiv> 1000000000"

fun leadingInt :: "nat \<Rightarrow> string \<Rightarrow> (nat \<times> string) option" where
  "leadingInt x [] = Some (x, [])"
| "leadingInt x (c # cs) =
     (if \<not> is_digit c then Some (x, c # cs)
      else if 2 ^ 63 div 10 < x then None
      else if 2 ^ 63 < 10 * x + digit_val c then None
      else leadingInt (10 * x + digit_val c) cs)"

text \<open>Digits beyond the precision of the fraction are skipped.\<close>

fun leadingFraction :: "nat \<Rightarrow> nat \<Rightarrow> bool \<Rightarrow> string \<Rightarrow> nat \<times> nat \<times> string" where
  "leadingFraction x scale over [] = (x, scale, [])"
| "leadingFraction x scale over (c # cs) =
     (if \<not> is_digit c then (x, scale, c # cs)
      else if over \<or> (2 ^ 63 - 1) div 10 < x \<or> 2 ^ 63 < 10 * x + digit_val c then leadingFraction x scale True cs
      else leadingFraction (10 * x + digit_val c) (scale * 10) False cs)"

definition unitMap :: "string \<Rightarrow> nat option" where
  "unitMap u = map_of
    [(''ns'', 1), (''us'', 1000), ([CHR 0xC2, CHR 0xB5, CHR ''s''], 1000), ([CHR 0xCE, CHR 0xBC, CHR ''s''], 1000),
     (''ms'', 1000000), (''s'', 1000000000), (''m'', 60000000000), (''h'', 3600000000000)] u"

definition unit_char :: "char \<Rightarrow> bool" where
  "unit_char c \<longleftrightarrow> c \<noteq> CHR ''.'' \<and> \<not> is_digit c"

text \<open>One number with its unit: the amount and what follows.\<close>

definition duration_term :: "string \<Rightarrow> (nat \<times> string) option" where
  "duration_term s =
    (case leadingInt 0 s of
       None \<Rightarrow> None
     | Some (v, s1) \<Rightarrow>
         (let (f, scale, s2, post) =
                (if hasPrefix s1 ''.'' then
                   (case leadingFraction 0 1 False (tl s1) of (f, scale, r) \<Rightarrow> (f, scale, r, length r \<noteq> length (tl s1)))
                 else (0, 1, s1, False))
          in if length s1 = length s \<and> \<not> post then None
             else
               (case unitMap (takeWhile unit_char s2) of
                  None \<Rightarrow> None
                | Some u \<Rightarrow>
                    if 2 ^ 63 div u < v then None
                    else if 0 < f \<and> 2 ^ 63 < v * u + f * u div scale then None
                    else Some (v * u + (if 0 < f then f * u div scale else 0), dropWhile unit_char s2))))"

lemma leadingInt_length: "leadingInt x s = Some (v, r) \<Longrightarrow> length r \<le> length s"
  by (induction x s rule: leadingInt.induct) (auto split: if_splits)

lemma leadingFraction_length: "leadingFraction x scale over s = (f, sc, r) \<Longrightarrow> length r \<le> length s"
  by (induction x scale over s rule: leadingFraction.induct) (auto split: if_splits)

lemma unitMap_Nil: "unitMap [] = None"
  by (simp add: unitMap_def)

lemma duration_term_length:
  assumes "duration_term s = Some (d, r)"
  shows "length r < length s"
proof -
  obtain v s1 where li: "leadingInt 0 s = Some (v, s1)" using assms by (auto simp: duration_term_def split: option.splits)
  note l1 = leadingInt_length [OF li]
  obtain f scale s2 post where fr: "(if hasPrefix s1 ''.'' then
       (case leadingFraction 0 1 False (tl s1) of (f, scale, r) \<Rightarrow> (f, scale, r, length r \<noteq> length (tl s1)))
     else (0, 1, s1, False)) = (f, scale, s2, post)" by (rule prod_cases4)
  then have l2: "length s2 \<le> length s1"
    using leadingFraction_length [of 0 1 False "tl s1"] by (fastforce split: if_splits prod.splits)
  have u: "takeWhile unit_char s2 \<noteq> []" "r = dropWhile unit_char s2"
    using assms unitMap_Nil by (auto simp: duration_term_def li fr split: option.splits if_splits)
  have "length s2 = length (takeWhile unit_char s2) + length (dropWhile unit_char s2)"
    by (metis length_append takeWhile_dropWhile_id)
  moreover have "0 < length (takeWhile unit_char s2)" using u(1) by simp
  ultimately show ?thesis unfolding u(2) using l1 l2 by linarith
qed

text \<open>The sum is a uint64 that wraps.\<close>

function duration_loop :: "nat \<Rightarrow> string \<Rightarrow> nat option" where
  "duration_loop d s =
    (if s = [] then Some d
     else if hd s \<noteq> CHR ''.'' \<and> \<not> is_digit (hd s) then None
     else
       (case duration_term s of
          None \<Rightarrow> None
        | Some (v, r) \<Rightarrow>
            (let d1 = (d + v) mod 2 ^ 64
             in if 2 ^ 63 < d1 then None else duration_loop d1 r)))"
  by pat_completeness auto
termination by (relation "measure (\<lambda>(d, s). length s)") (auto dest: duration_term_length)

declare duration_loop.simps [simp del]

definition time_ParseDuration :: "string \<Rightarrow> int option" where
  "time_ParseDuration s0 =
    (let neg = hasPrefix s0 ''-'';
         s = (if neg \<or> hasPrefix s0 ''+'' then tl s0 else s0)
     in if s = ''0'' then Some 0
        else if s = [] then None
        else
          (case duration_loop 0 s of
             None \<Rightarrow> None
           | Some d \<Rightarrow>
               if neg then Some (- int d)
               else if 2 ^ 63 - 1 < d then None
               else Some (int d)))"

section \<open>Whole seconds\<close>

lemma leadingInt_digits:
  "list_all is_digit ds \<Longrightarrow> \<not> is_digit c \<Longrightarrow> foldl (\<lambda>acc c. 10 * acc + digit_val c) x ds \<le> 2 ^ 63 \<Longrightarrow>
    leadingInt x (ds @ c # cs) = Some (foldl (\<lambda>acc c. 10 * acc + digit_val c) x ds, c # cs)"
proof (induction ds arbitrary: x)
  case (Cons d ds)
  have mono: "y \<le> foldl (\<lambda>acc c. 10 * acc + digit_val c) y es" for y es
  proof (induction es arbitrary: y)
    case (Cons e es)
    have "y \<le> 10 * y + digit_val e" by simp
    also have "\<dots> \<le> foldl (\<lambda>acc c. 10 * acc + digit_val c) (10 * y + digit_val e) es" by (rule Cons.IH)
    finally show ?case by simp
  qed simp
  from Cons.prems mono [of "10 * x + digit_val d" ds] have "10 * x + digit_val d \<le> 2 ^ 63" by simp
  then show ?case using Cons by simp
qed simp

lemma parse_seconds:
  assumes "n * 1000000000 < 2 ^ 63"
  shows "time_ParseDuration (dec_digits n @ ''s'') = Some (int n * time_second)"
proof -
  obtain d ds where ds: "dec_digits n = d # ds" using dec_digits_ne [of n] by (cases "dec_digits n") auto
  then have dig: "is_digit d" "list_all is_digit (d # ds)" using dec_digits_all [of n] by simp_all
  have nosign: "d \<noteq> CHR ''-''" "d \<noteq> CHR ''+''" using dig(1) by (auto simp: is_digit_def byte_def)
  have s: "\<not> is_digit (CHR ''s'')" by (simp add: is_digit_def byte_def)
  have val: "foldl (\<lambda>acc c. 10 * acc + digit_val c) 0 (d # ds) = n"
    using dec_value_digits [of n] ds by (simp add: dec_value_def)
  have li: "leadingInt 0 (dec_digits n @ ''s'') = Some (n, ''s'')"
    using leadingInt_digits [OF dig(2) s, of 0 "[]"] val assms ds by simp
  have "n \<le> 2 ^ 63 div 1000000000" using assms by (simp add: less_eq_div_iff_mult_less_eq)
  then have "duration_term (dec_digits n @ ''s'') = Some (n * 1000000000, [])"
    by (simp add: duration_term_def li unit_char_def s unitMap_def)
  moreover have "n * 1000000000 mod 2 ^ 64 = n * 1000000000" using assms by simp
  ultimately have "duration_loop 0 (dec_digits n @ ''s'') = Some (n * 1000000000)"
    using assms dig(1) by (subst duration_loop.simps) (simp add: ds duration_loop.simps [of _ "[]"])
  moreover have "\<not> hasPrefix (dec_digits n @ ''s'') ''-''" "\<not> hasPrefix (dec_digits n @ ''s'') ''+''"
    "dec_digits n @ ''s'' \<noteq> ''0''" "dec_digits n @ ''s'' \<noteq> []"
    using nosign by (auto simp: ds)
  ultimately show ?thesis using assms by (simp add: time_ParseDuration_def)
qed

end
