(* ===== verification/Health.thy ===== *)
theory Health
  imports Middleware_Core
begin

text \<open>
  Package client, file health\_checker.go: the health checker of a client.
  Its fields are protected by a lock, so every operation is one atomic step;
  the check loop is a step relation in which the probes of a round end in any
  order, interleaved with marks by requests and with pushes of the service
  registry.
\<close>

section \<open>State and operations\<close>

record health =
  hc_nodes :: "string \<rightharpoonup> node"
  hc_healthy :: "string \<rightharpoonup> bool"
  hc_failures :: "string \<rightharpoonup> int"
  hc_interval :: int
  hc_timeout :: int
  hc_max_failures :: int
  hc_ticker :: bool
  hc_canceled :: bool

abbreviation defaultMaxFailures :: int where
  "defaultMaxFailures \<equiv> 3"

abbreviation HealthCheckInterval :: int where
  "HealthCheckInterval \<equiv> 10000000000"

abbreviation HealthCheckTimeout :: int where
  "HealthCheckTimeout \<equiv> 2000000000"

definition WithCheckInterval :: "int \<Rightarrow> health \<Rightarrow> health" where
  "WithCheckInterval d hc = hc\<lparr>hc_interval := d\<rparr>"

definition WithCheckTimeout :: "int \<Rightarrow> health \<Rightarrow> health" where
  "WithCheckTimeout d hc = hc\<lparr>hc_timeout := d\<rparr>"

definition WithMaxFailures :: "int \<Rightarrow> health \<Rightarrow> health" where
  "WithMaxFailures n hc = hc\<lparr>hc_max_failures := n\<rparr>"

definition registerNode :: "node \<Rightarrow> health \<Rightarrow> health" where
  "registerNode n hc =
    hc\<lparr>hc_nodes := (hc_nodes hc)(nd_address n \<mapsto> n),
       hc_healthy := (hc_healthy hc)(nd_address n \<mapsto> True),
       hc_failures := (hc_failures hc)(nd_address n \<mapsto> 0)\<rparr>"

definition unregisterNode :: "node \<Rightarrow> health \<Rightarrow> health" where
  "unregisterNode n hc =
    hc\<lparr>hc_nodes := (hc_nodes hc)(nd_address n := None),
       hc_healthy := (hc_healthy hc)(nd_address n := None),
       hc_failures := (hc_failures hc)(nd_address n := None)\<rparr>"

definition NewHealthChecker :: "node list \<Rightarrow> (health \<Rightarrow> health) list \<Rightarrow> health" where
  "NewHealthChecker nodes opts =
    fold registerNode nodes
      (fold (\<lambda>f a. f a) opts
        \<lparr>hc_nodes = Map.empty, hc_healthy = Map.empty, hc_failures = Map.empty,
         hc_interval = HealthCheckInterval, hc_timeout = HealthCheckTimeout,
         hc_max_failures = defaultMaxFailures, hc_ticker = False, hc_canceled = False\<rparr>)"

text \<open>updateNodes: the latest node of each address; entries of addresses that
  disappeared are deleted, new addresses start healthy, the others keep their
  counts.\<close>

definition latest_nodes :: "node list \<Rightarrow> string \<rightharpoonup> node" where
  "latest_nodes nodes = foldl (\<lambda>m n. m(nd_address n \<mapsto> n)) Map.empty nodes"

definition updateNodes :: "node list \<Rightarrow> health \<Rightarrow> health" where
  "updateNodes nodes hc =
    (let latest = latest_nodes nodes;
         gone = (\<lambda>a. hc_nodes hc a \<noteq> None \<and> latest a = None);
         fresh = (\<lambda>a. latest a \<noteq> None \<and> hc_nodes hc a = None)
     in hc\<lparr>hc_nodes := (\<lambda>a. case latest a of Some n \<Rightarrow> Some n | None \<Rightarrow> if gone a then None else hc_nodes hc a),
           hc_healthy := (\<lambda>a. if fresh a then Some True else if gone a then None else hc_healthy hc a),
           hc_failures := (\<lambda>a. if fresh a then Some 0 else if gone a then None else hc_failures hc a)\<rparr>)"

definition IsHealthy :: "health \<Rightarrow> node \<Rightarrow> bool" where
  "IsHealthy hc n = (case hc_healthy hc (nd_address n) of Some b \<Rightarrow> b | None \<Rightarrow> False)"

definition HealthyNodeFilter :: "health \<Rightarrow> node \<Rightarrow> bool" where
  "HealthyNodeFilter hc n = IsHealthy hc n"

text \<open>MarkUnhealthy and markNodeFailure have the same body.\<close>

definition markNodeFailure :: "string \<Rightarrow> health \<Rightarrow> health" where
  "markNodeFailure addr hc =
    (case hc_failures hc addr of
       None \<Rightarrow> hc
     | Some f \<Rightarrow>
         (let hc1 = hc\<lparr>hc_failures := (hc_failures hc)(addr \<mapsto> f + 1)\<rparr>
          in if hc_max_failures hc \<le> f + 1
             then hc1\<lparr>hc_healthy := (hc_healthy hc)(addr \<mapsto> False)\<rparr> else hc1))"

definition MarkUnhealthy :: "node \<Rightarrow> health \<Rightarrow> health" where
  "MarkUnhealthy n hc = markNodeFailure (nd_address n) hc"

text \<open>checkNode: what a probe saw is its outcome (no response, or a status);
  the request is for /healthz over HTTP whatever the node's protocol.\<close>

datatype probe = NoResponse | ProbeStatus int

definition probe_url :: "node \<Rightarrow> string" where
  "probe_url n = ''http://'' @ nd_address n @ ''/healthz''"

definition checkNode :: "node \<Rightarrow> probe \<Rightarrow> health \<Rightarrow> health" where
  "checkNode n p hc =
    (case p of
       NoResponse \<Rightarrow> markNodeFailure (nd_address n) hc
     | ProbeStatus s \<Rightarrow>
         if 500 \<le> s then markNodeFailure (nd_address n) hc
         else hc\<lparr>hc_failures := (hc_failures hc)(nd_address n \<mapsto> 0),
                 hc_healthy := (hc_healthy hc)(nd_address n \<mapsto> True)\<rparr>)"

definition hc_Stop :: "health \<Rightarrow> health" where
  "hc_Stop hc = hc\<lparr>hc_ticker := False, hc_canceled := True\<rparr>"

section \<open>The check loop\<close>

text \<open>Where the goroutine of runCheckLoop is: not started, about to evaluate
  the select (which reads the channel of the ticker field), waiting in it, in a
  round with probes outstanding, returned, or dead of a nil dereference.\<close>

datatype loop_pc = NotStarted | AtSelect | Waiting | InRound "node list" | Returned | Crashed

type_synonym hc_state = "health \<times> loop_pc"

text \<open>Start, with the goroutine it launches.\<close>

definition hc_Start :: "hc_state \<Rightarrow> hc_state" where
  "hc_Start s =
    (if hc_ticker (fst s) then s else ((fst s)\<lparr>hc_ticker := True\<rparr>, AtSelect))"

inductive hc_step :: "hc_state \<Rightarrow> hc_state \<Rightarrow> bool" where
  start: "pc = NotStarted \<Longrightarrow> hc_step (hc, pc) (hc_Start (hc, pc))"
| push: "hc_step (hc, pc) (updateNodes nodes hc, pc)"
| mark: "hc_step (hc, pc) (MarkUnhealthy n hc, pc)"
| stop: "hc_step (hc, pc) (hc_Stop hc, pc)"
| enter: "hc_ticker hc \<Longrightarrow> hc_step (hc, AtSelect) (hc, Waiting)"
| crash: "\<not> hc_ticker hc \<Longrightarrow> hc_step (hc, AtSelect) (hc, Crashed)"
| leave: "hc_canceled hc \<Longrightarrow> hc_step (hc, Waiting) (hc, Returned)"
| tick: "distinct ns \<Longrightarrow> set ns = ran (hc_nodes hc) \<Longrightarrow> hc_step (hc, Waiting) (hc, InRound ns)"
| probe_ended: "n \<in> set ns \<Longrightarrow> hc_step (hc, InRound ns) (checkNode n p hc, InRound (remove1 n ns))"
| round_over: "hc_step (hc, InRound []) (hc, AtSelect)"

abbreviation hc_steps :: "hc_state \<Rightarrow> hc_state \<Rightarrow> bool" where
  "hc_steps \<equiv> hc_step\<^sup>*\<^sup>*"

section \<open>The invariant\<close>

text \<open>Every address with a health entry has a failure count and the other way
  round, every known node has both, nodes are filed under their own address,
  counts are not negative, and a node is healthy exactly while its count is
  below the limit.\<close>

fun entry_ok :: "int \<Rightarrow> int option \<Rightarrow> bool option \<Rightarrow> bool" where
  "entry_ok m None h = (h = None)"
| "entry_ok m (Some k) h = (0 \<le> k \<and> h = Some (k < m))"

definition hc_inv :: "health \<Rightarrow> bool" where
  "hc_inv hc \<longleftrightarrow>
    0 < hc_max_failures hc
    \<and> dom (hc_nodes hc) \<subseteq> dom (hc_healthy hc)
    \<and> (\<forall>a n. hc_nodes hc a = Some n \<longrightarrow> nd_address n = a)
    \<and> (\<forall>a. entry_ok (hc_max_failures hc) (hc_failures hc a) (hc_healthy hc a))"

lemma hc_invI:
  assumes "0 < hc_max_failures hc" "dom (hc_nodes hc) \<subseteq> dom (hc_healthy hc)"
    and "\<And>a n. hc_nodes hc a = Some n \<Longrightarrow> nd_address n = a"
    and "\<And>a. entry_ok (hc_max_failures hc) (hc_failures hc a) (hc_healthy hc a)"
  shows "hc_inv hc"
  using assms by (simp add: hc_inv_def)

lemma hc_inv_entry:
  "hc_inv hc \<Longrightarrow> entry_ok (hc_max_failures hc) (hc_failures hc a) (hc_healthy hc a)"
  by (simp add: hc_inv_def)

lemma latest_nodes_foldl:
  "foldl (\<lambda>m n. m(nd_address n \<mapsto> n)) m nodes a =
    (case List.find (\<lambda>n. nd_address n = a) (rev nodes) of Some n \<Rightarrow> Some n | None \<Rightarrow> m a)"
  by (induction nodes rule: rev_induct) auto

lemma latest_nodes_find: "latest_nodes nodes a = List.find (\<lambda>n. nd_address n = a) (rev nodes)"
  by (simp add: latest_nodes_def latest_nodes_foldl split: option.split)

lemma latest_nodes_Some: "latest_nodes nodes a = Some n \<Longrightarrow> nd_address n = a \<and> n \<in> set nodes"
  using find_SomeD [of "\<lambda>n. nd_address n = a" "rev nodes" n] by (simp add: latest_nodes_find)

lemma latest_nodes_None: "latest_nodes nodes a = None \<longleftrightarrow> a \<notin> nd_address ` set nodes"
  by (auto simp: latest_nodes_find find_None_iff)

lemma registerNode_inv [gw_inv]: "hc_inv hc \<Longrightarrow> hc_inv (registerNode n hc)"
  by (auto simp: hc_inv_def registerNode_def)

lemma unregisterNode_inv [gw_inv]: "hc_inv hc \<Longrightarrow> hc_inv (unregisterNode n hc)"
  by (auto simp: hc_inv_def unregisterNode_def)

lemma markNodeFailure_inv [gw_inv]:
  assumes "hc_inv hc"
  shows "hc_inv (markNodeFailure a hc)"
proof (cases "hc_failures hc a")
  case (Some f)
  then have "0 \<le> f" "hc_healthy hc a = Some (f < hc_max_failures hc)"
    using hc_inv_entry [OF assms, of a] by simp_all
  then show ?thesis
    using assms Some by (auto simp: hc_inv_def markNodeFailure_def Let_def)
qed (simp add: assms markNodeFailure_def)

lemma checkNode_inv [gw_inv]: "hc_inv hc \<Longrightarrow> hc_inv (checkNode n p hc)"
  by (cases p) (auto simp: checkNode_def markNodeFailure_inv, auto simp: hc_inv_def)

text \<open>What updateNodes does to one address.\<close>

lemma updateNodes_survivor:
  assumes "hc_nodes hc a \<noteq> None" "latest_nodes nodes a \<noteq> None"
  shows "hc_healthy (updateNodes nodes hc) a = hc_healthy hc a"
    and "hc_failures (updateNodes nodes hc) a = hc_failures hc a"
    and "hc_nodes (updateNodes nodes hc) a = latest_nodes nodes a"
  using assms by (auto simp: updateNodes_def Let_def split: option.splits)

lemma updateNodes_dom: "hc_nodes (updateNodes nodes hc) a = latest_nodes nodes a"
  by (auto simp: updateNodes_def Let_def split: option.split)

lemma updateNodes_fresh:
  assumes "hc_nodes hc a = None" "latest_nodes nodes a \<noteq> None"
  shows "hc_healthy (updateNodes nodes hc) a = Some True" "hc_failures (updateNodes nodes hc) a = Some 0"
  using assms by (auto simp: updateNodes_def Let_def)

lemma updateNodes_gone:
  assumes "hc_nodes hc a \<noteq> None" "latest_nodes nodes a = None"
  shows "hc_healthy (updateNodes nodes hc) a = None" "hc_failures (updateNodes nodes hc) a = None"
  using assms by (auto simp: updateNodes_def Let_def)

lemma updateNodes_inv [gw_inv]:
  assumes "hc_inv hc"
  shows "hc_inv (updateNodes nodes hc)"
proof (rule hc_invI)
  show "0 < hc_max_failures (updateNodes nodes hc)" using assms by (simp add: hc_inv_def updateNodes_def Let_def)
  show "dom (hc_nodes (updateNodes nodes hc)) \<subseteq> dom (hc_healthy (updateNodes nodes hc))"
  proof
    fix a assume "a \<in> dom (hc_nodes (updateNodes nodes hc))"
    then have l: "latest_nodes nodes a \<noteq> None" by (auto simp: updateNodes_dom)
    show "a \<in> dom (hc_healthy (updateNodes nodes hc))"
    proof (cases "hc_nodes hc a")
      case None
      then show ?thesis using updateNodes_fresh(1) [OF None l] by auto
    next
      case (Some n)
      then have "hc_healthy hc a \<noteq> None" using assms by (auto simp: hc_inv_def dom_def subset_iff)
      then show ?thesis using updateNodes_survivor(1) [OF _ l, of hc] Some by auto
    qed
  qed
  show "nd_address n = a" if "hc_nodes (updateNodes nodes hc) a = Some n" for a n
    using that assms latest_nodes_Some
    by (auto simp: hc_inv_def updateNodes_def Let_def split: option.splits if_splits)
  show "entry_ok (hc_max_failures (updateNodes nodes hc)) (hc_failures (updateNodes nodes hc) a)
      (hc_healthy (updateNodes nodes hc) a)" for a
    using assms hc_inv_entry [OF assms, of a] by (auto simp: hc_inv_def updateNodes_def Let_def)
qed

lemma NewHealthChecker_inv:
  assumes "0 < hc_max_failures (fold (\<lambda>f a. f a) opts
        \<lparr>hc_nodes = Map.empty, hc_healthy = Map.empty, hc_failures = Map.empty,
         hc_interval = HealthCheckInterval, hc_timeout = HealthCheckTimeout,
         hc_max_failures = defaultMaxFailures, hc_ticker = False, hc_canceled = False\<rparr>)"
    and "opts = [] \<or> (\<exists>d t m. opts = [WithCheckInterval d, WithCheckTimeout t, WithMaxFailures m])"
  shows "hc_inv (NewHealthChecker nodes opts)"
proof -
  have fld: "hc_inv hc \<Longrightarrow> hc_inv (fold registerNode ns hc)" for ns hc
    by (induction ns arbitrary: hc) (simp_all add: registerNode_inv)
  show ?thesis
    using assms unfolding NewHealthChecker_def
    by (intro fld) (auto simp: hc_inv_def WithCheckInterval_def WithCheckTimeout_def WithMaxFailures_def)
qed

lemma hc_Stop_inv [gw_inv]: "hc_inv hc \<Longrightarrow> hc_inv (hc_Stop hc)"
  by (simp add: hc_inv_def hc_Stop_def)

lemma hc_step_inv: "hc_step s s' \<Longrightarrow> hc_inv (fst s) \<Longrightarrow> hc_inv (fst s')"
proof (induction rule: hc_step.induct)
  case (start pc hc)
  then show ?case by (auto simp: hc_Start_def hc_inv_def)
qed (simp_all add: gw_inv MarkUnhealthy_def)

lemma hc_steps_inv: "hc_steps s s' \<Longrightarrow> hc_inv (fst s) \<Longrightarrow> hc_inv (fst s')"
  by (induction rule: rtranclp_induct) (auto dest: hc_step_inv)


section \<open>Failures are not forgiven\<close>

text \<open>What happens to a health checker between two recoveries: pushes of the
  registry and failures of nodes.\<close>

datatype health_event = Pushed "node list" | Failed string

fun run_health :: "health_event list \<Rightarrow> health \<Rightarrow> health" where
  "run_health [] hc = hc"
| "run_health (Pushed ns # es) hc = run_health es (updateNodes ns hc)"
| "run_health (Failed a # es) hc = run_health es (markNodeFailure a hc)"

definition failures_of :: "string \<Rightarrow> health_event list \<Rightarrow> nat" where
  "failures_of a es = length (filter (\<lambda>e. e = Failed a) es)"

definition pushes_keep :: "string \<Rightarrow> health_event list \<Rightarrow> bool" where
  "pushes_keep a es \<longleftrightarrow> list_all (\<lambda>e. case e of Pushed ns \<Rightarrow> list_ex (\<lambda>n. nd_address n = a) ns | Failed b \<Rightarrow> True) es"

lemma markNodeFailure_count:
  "hc_failures hc a = Some f \<Longrightarrow>
    hc_failures (markNodeFailure b hc) a = Some (if a = b then f + 1 else f)"
  by (auto simp: markNodeFailure_def Let_def split: option.split)

lemma markNodeFailure_frame [simp]:
  "hc_nodes (markNodeFailure b hc) = hc_nodes hc"
  "hc_max_failures (markNodeFailure b hc) = hc_max_failures hc"
  by (auto simp: markNodeFailure_def Let_def split: option.split)

lemma updateNodes_max [simp]: "hc_max_failures (updateNodes ns hc) = hc_max_failures hc"
  by (simp add: updateNodes_def Let_def)

lemma run_health_count:
  assumes "hc_nodes hc a \<noteq> None" "hc_failures hc a = Some f" "pushes_keep a es"
  shows "hc_failures (run_health es hc) a = Some (f + int (failures_of a es))"
  using assms
proof (induction es arbitrary: hc f)
  case (Cons e es)
  show ?case
  proof (cases e)
    case (Pushed ns)
    then have l: "latest_nodes ns a \<noteq> None" using Cons.prems(3)
      by (auto simp: pushes_keep_def latest_nodes_None list_ex_iff)
    have "hc_failures (updateNodes ns hc) a = Some f"
      using updateNodes_survivor(2) [OF Cons.prems(1) l] Cons.prems(2) by simp
    moreover have "hc_nodes (updateNodes ns hc) a \<noteq> None" using l by (simp add: updateNodes_dom)
    ultimately show ?thesis using Cons.IH [of "updateNodes ns hc" f] Cons.prems(3) Pushed
      by (simp add: pushes_keep_def failures_of_def)
  next
    case (Failed b)
    then show ?thesis
      using Cons.IH [of "markNodeFailure b hc" "if a = b then f + 1 else f"] Cons.prems
        markNodeFailure_count [OF Cons.prems(2), of b]
      by (auto simp: pushes_keep_def failures_of_def)
  qed
qed (simp add: failures_of_def)

lemma run_health_inv: "hc_inv hc \<Longrightarrow> hc_inv (run_health es hc)"
  by (induction es hc rule: run_health.induct) (simp_all add: gw_inv)

lemma run_health_max [simp]: "hc_max_failures (run_health es hc) = hc_max_failures hc"
  by (induction es hc rule: run_health.induct) simp_all

section \<open>The interface the client relies on\<close>

text \<open>Marking a node never makes any node healthy, and leaves the nodes of
  other addresses as they are.\<close>

locale node_health =
  fixes healthy :: "'s \<Rightarrow> node \<Rightarrow> bool" and mark :: "node \<Rightarrow> 's \<Rightarrow> 's"
  assumes mark_healthy: "healthy (mark n s) m \<Longrightarrow> healthy s m"
    and mark_other: "nd_address m \<noteq> nd_address n \<Longrightarrow> healthy (mark n s) m = healthy s m"
begin

lemma filter_mark_subset: "set (filter (healthy (mark n s)) ns) \<subseteq> set (filter (healthy s) ns)"
  using mark_healthy by auto

lemma marks_healthy: "healthy (fold mark ns s) m \<Longrightarrow> healthy s m"
  by (induction ns arbitrary: s) (auto dest: mark_healthy)

lemma marks_other:
  "nd_address m \<notin> nd_address ` set ns \<Longrightarrow> healthy (fold mark ns s) m = healthy s m"
  by (induction ns arbitrary: s) (auto simp: mark_other)

end

interpretation checker: node_health IsHealthy MarkUnhealthy
proof
  show "IsHealthy s m" if "IsHealthy (MarkUnhealthy n s) m" for n s m
    using that by (auto simp: IsHealthy_def MarkUnhealthy_def markNodeFailure_def Let_def
        split: option.splits if_splits)
  show "IsHealthy (MarkUnhealthy n s) m = IsHealthy s m" if "nd_address m \<noteq> nd_address n" for n s m
    using that by (auto simp: IsHealthy_def MarkUnhealthy_def markNodeFailure_def Let_def
        split: option.splits)
qed

section \<open>Properties\<close>

definition factory_opts :: "int \<Rightarrow> int \<Rightarrow> int \<Rightarrow> (health \<Rightarrow> health) list" where
  "factory_opts d t m = [WithCheckInterval d, WithCheckTimeout t, WithMaxFailures m]"

lemma factory_checker_inv: "0 < m \<Longrightarrow> hc_inv (NewHealthChecker nodes (factory_opts d t m))"
  by (rule NewHealthChecker_inv)
     (auto simp: factory_opts_def WithCheckInterval_def WithCheckTimeout_def WithMaxFailures_def)

text \<open>C14: In every interleaving of registry pushes, marks by requests,
  probes and stops, a node is offered to the selector exactly while its failure
  count exists and is below the limit.\<close>

theorem healthy_iff_below_limit:
  assumes "hc_steps (NewHealthChecker nodes (factory_opts d t m), NotStarted) (hc, pc)" "0 < m"
  shows "IsHealthy hc n \<longleftrightarrow>
    (case hc_failures hc (nd_address n) of None \<Rightarrow> False | Some f \<Rightarrow> f < hc_max_failures hc)"
proof -
  have "hc_inv hc" using hc_steps_inv [OF assms(1)] factory_checker_inv [OF assms(2)] by simp
  from hc_inv_entry [OF this, of "nd_address n"] show ?thesis
    by (cases "hc_failures hc (nd_address n)") (simp_all add: IsHealthy_def)
qed

definition sample_node :: node where
  "sample_node = newNode ''10.0.0.2:80'' HTTP None [] [] ''shop''"

theorem healthy_iff_below_limit_witness:
  "IsHealthy (MarkUnhealthy sample_node (NewHealthChecker [sample_node] (factory_opts 1 1 3))) sample_node"
proof -
  let ?h = "MarkUnhealthy sample_node (NewHealthChecker [sample_node] (factory_opts 1 1 3))"
  have reach: "hc_steps (NewHealthChecker [sample_node] (factory_opts 1 1 3), NotStarted) (?h, NotStarted)"
    by (intro r_into_rtranclp hc_step.mark)
  have "hc_failures ?h (nd_address sample_node) = Some 1" "hc_max_failures ?h = 3"
    by (simp_all add: NewHealthChecker_def factory_opts_def WithCheckInterval_def WithCheckTimeout_def
        WithMaxFailures_def registerNode_def MarkUnhealthy_def markNodeFailure_def)
  then show ?thesis using healthy_iff_below_limit [OF reach, of sample_node] by simp
qed

text \<open>A registered node that fails as often as the limit without a
  recovery in between is taken out of rotation however many registry pushes
  that still contain it come between the failures, and a push never forgives
  one failure.\<close>

theorem failures_survive_pushes:
  assumes "hc_inv hc" "hc_nodes hc a = Some n" "pushes_keep a es"
    and "hc_max_failures hc \<le> int (failures_of a es)"
  shows "\<not> IsHealthy (run_health es hc) n"
proof -
  have a: "nd_address n = a" using assms(1,2) by (auto simp: hc_inv_def)
  have "hc_healthy hc a \<noteq> None" using assms(1,2) by (auto simp: hc_inv_def dom_def subset_iff)
  then obtain f where f: "hc_failures hc a = Some f" "0 \<le> f"
    using hc_inv_entry [OF assms(1), of a] by (cases "hc_failures hc a") auto
  have "hc_failures (run_health es hc) a = Some (f + int (failures_of a es))"
    using run_health_count [OF _ f(1) assms(3)] assms(2) by simp
  then show ?thesis
    using hc_inv_entry [OF run_health_inv [OF assms(1)], of es a] f(2) assms(4)
    by (simp add: IsHealthy_def a)
qed

theorem failures_survive_pushes_witness:
  "\<not> IsHealthy (run_health [Failed ''10.0.0.2:80'', Pushed [sample_node], Failed ''10.0.0.2:80'']
      (NewHealthChecker [sample_node] (factory_opts 1 1 2))) sample_node"
  using failures_survive_pushes [OF factory_checker_inv, of 2 "[sample_node]" 1 1 "''10.0.0.2:80''" sample_node
      "[Failed ''10.0.0.2:80'', Pushed [sample_node], Failed ''10.0.0.2:80'']"]
  by (simp add: NewHealthChecker_def factory_opts_def WithCheckInterval_def WithCheckTimeout_def
      WithMaxFailures_def registerNode_def sample_node_def newNode_def pushes_keep_def failures_of_def)

text \<open>Stopping the checker while a round of probes is under way crashes
  the process: Stop clears the ticker field, and the loop reads its channel
  when it reaches the select again, before it can see that the context is
  done.\<close>

theorem stop_during_round_crashes:
  "\<exists>hc. hc_steps (NewHealthChecker nodes (factory_opts d t m), NotStarted) (hc, Crashed) \<and> hc_canceled hc"
proof -
  define h1 where "h1 = updateNodes [] (NewHealthChecker nodes (factory_opts d t m))"
  define h2 where "h2 = h1\<lparr>hc_ticker := True\<rparr>"
  have fld: "hc_ticker (fold registerNode ns h) = hc_ticker h" for ns h
    by (induction ns arbitrary: h) (simp_all add: registerNode_def)
  have tk: "\<not> hc_ticker h1"
    by (simp add: h1_def updateNodes_def Let_def NewHealthChecker_def fld factory_opts_def
        WithCheckInterval_def WithCheckTimeout_def WithMaxFailures_def)
  have nodes: "hc_nodes h2 = Map.empty"
    by (rule ext) (simp add: h2_def h1_def updateNodes_dom latest_nodes_def)
  have s1: "hc_step (NewHealthChecker nodes (factory_opts d t m), NotStarted) (h1, NotStarted)"
    unfolding h1_def by (rule hc_step.push)
  have s2: "hc_step (h1, NotStarted) (h2, AtSelect)"
    using hc_step.start [of NotStarted h1] tk by (simp add: hc_Start_def h2_def)
  have s3: "hc_step (h2, AtSelect) (h2, Waiting)" by (rule hc_step.enter) (simp add: h2_def)
  have s4: "hc_step (h2, Waiting) (h2, InRound [])" by (rule hc_step.tick) (simp_all add: nodes)
  have s5: "hc_step (h2, InRound []) (hc_Stop h2, InRound [])" by (rule hc_step.stop)
  have s6: "hc_step (hc_Stop h2, InRound []) (hc_Stop h2, AtSelect)" by (rule hc_step.round_over)
  have s7: "hc_step (hc_Stop h2, AtSelect) (hc_Stop h2, Crashed)"
    by (rule hc_step.crash) (simp add: hc_Stop_def)
  have "hc_steps (NewHealthChecker nodes (factory_opts d t m), NotStarted) (hc_Stop h2, Crashed)"
    using s1 s2 s3 s4 s5 s6 s7 by (meson rtranclp.rtrancl_into_rtrancl rtranclp.rtrancl_refl)
  then show ?thesis by (auto simp: hc_Stop_def)
qed

end
