(* ===== verification/Client.thy ===== *)
theory Client
  imports Health
begin

text \<open>
  Package client, file client.go: the RoundTripper at the end of the chain.
  The selector (kratos), the HTTP client and where the health checker of the
  client lives in the process state are parameters.
\<close>

section \<open>Parameters\<close>

record 'x client_env =
  cx_select :: "(node list \<Rightarrow> node list) list \<Rightarrow> 'x \<Rightarrow> (err + node \<times> nat) \<times> 'x"
  cx_apply :: "node list \<Rightarrow> 'x \<Rightarrow> 'x"
  cx_nodes :: "'x \<Rightarrow> node list"
  cx_do :: "node \<Rightarrow> request \<Rightarrow> 'x \<Rightarrow> (err + response) \<times> 'x"
  cx_health :: "'x \<Rightarrow> health option"
  cx_set_health :: "health \<Rightarrow> 'x \<Rightarrow> 'x"

text \<open>Documented behaviour of the selector: the filters are applied in order
  to the nodes of the last Apply and one of the rest is chosen; without any
  the selection fails.  Selecting changes neither nodes nor health.\<close>

definition selector_ok :: "'x client_env \<Rightarrow> bool" where
  "selector_ok C \<longleftrightarrow>
    (\<forall>fs x. cx_health C (snd (cx_select C fs x)) = cx_health C x) \<and>
    (\<forall>fs x n d. fst (cx_select C fs x) = Inr (n, d) \<longrightarrow> n \<in> set (foldl (\<lambda>ns f. f ns) (cx_nodes C x) fs)) \<and>
    (\<forall>ns x. cx_nodes C (cx_apply C ns x) = ns) \<and>
    (\<forall>ns x. cx_health C (cx_apply C ns x) = cx_health C x)"

section \<open>The client\<close>

record client =
  cc_has_health :: bool
  cc_max_retries :: int

abbreviation defaultMaxRetries :: int where
  "defaultMaxRetries \<equiv> 1"

definition WithMaxRetries :: "int \<Rightarrow> client \<Rightarrow> client" where
  "WithMaxRetries n c = c\<lparr>cc_max_retries := n\<rparr>"

definition WithHealthChecker :: "client \<Rightarrow> client" where
  "WithHealthChecker c = c\<lparr>cc_has_health := True\<rparr>"

definition newClient :: "(client \<Rightarrow> client) list \<Rightarrow> client" where
  "newClient opts = fold (\<lambda>f a. f a) opts \<lparr>cc_has_health = False, cc_max_retries = defaultMaxRetries\<rparr>"

text \<open>The filters of one selection: the health filter first, then those of
  the request, which read the request's options at that moment.\<close>

definition select_filters :: "'x client_env \<Rightarrow> client \<Rightarrow> 'x world \<Rightarrow> (node list \<Rightarrow> node list) list" where
  "select_filters C c w =
    (if cc_has_health c
     then [filter (case cx_health C (w_ext w) of Some hc \<Rightarrow> HealthyNodeFilter hc | None \<Rightarrow> \<lambda>_. True)]
     else [])
    @ map (apply_filter (w_opts w)) (ro_filters (w_opts w))"

definition append_status :: "int \<Rightarrow> 'x world \<Rightarrow> 'x world" where
  "append_status s = upd_opts (\<lambda>o'. o'\<lparr>ro_upstream_status := ro_upstream_status o' @ [s]\<rparr>)"

definition note_node :: "node \<Rightarrow> 'x world \<Rightarrow> 'x world" where
  "note_node n = upd_opts (\<lambda>o'. o'\<lparr>ro_current_node := Some n, ro_backends := ro_backends o' @ [nd_address n]\<rparr>)"

text \<open>The copy of the request that is sent to a node.\<close>

definition upstream_request :: "node \<Rightarrow> request \<Rightarrow> request" where
  "upstream_request n req = req\<lparr>rq_url_host := nd_address n, rq_scheme := ''http'', rq_request_uri := []\<rparr>"

definition mark_after_failure :: "'x client_env \<Rightarrow> client \<Rightarrow> node \<Rightarrow> 'x world \<Rightarrow> 'x world" where
  "mark_after_failure C c n w =
    (if cc_has_health c then
       (case cx_health C (w_ext w) of
          Some hc \<Rightarrow> emit (EvUnhealthy n) (upd_ext (cx_set_health C (MarkUnhealthy n hc)) w)
        | None \<Rightarrow> w)
     else w)"

text \<open>The loop: \<open>n\<close> attempts left, the last error and the last done
  function.\<close>

fun client_loop :: "'x client_env \<Rightarrow> client \<Rightarrow> request \<Rightarrow> nat \<Rightarrow> err option \<Rightarrow> nat option \<Rightarrow> 'x world
    \<Rightarrow> rt_result \<times> 'x world" where
  "client_loop C c req 0 lastErr lastDone w =
     (Ret None lastErr,
      append_status 0 (case lastDone of Some d \<Rightarrow> emit (EvDone d lastErr) w | None \<Rightarrow> w))"
| "client_loop C c req (Suc k) lastErr lastDone w =
     (case cx_select C (select_filters C c w) (w_ext w) of
        (Inl e, x1) \<Rightarrow> client_loop C c req k (Some e) lastDone (upd_ext (\<lambda>_. x1) w)
      | (Inr (n, d), x1) \<Rightarrow>
          (let w1 = emit (EvUpstream n (upstream_request n req)) (note_node n (upd_ext (\<lambda>_. x1) w))
           in case cx_do C n (upstream_request n req) (w_ext w1) of
                (Inl e, x2) \<Rightarrow>
                  client_loop C c req k (Some e) (Some d)
                    (mark_after_failure C c n
                      (append_status 0 (emit (EvDone d (Some e)) (upd_ext (\<lambda>_. x2) w1))))
              | (Inr resp, x2) \<Rightarrow>
                  (Ret (Some resp) None,
                   upd_opts (\<lambda>o'. o'\<lparr>ro_done := Some d\<rparr>)
                     (append_status (rs_status resp) (upd_ext (\<lambda>_. x2) w1)))))"

definition client_RoundTrip :: "'x client_env \<Rightarrow> client \<Rightarrow> 'x world round_tripper" where
  "client_RoundTrip C c req w = client_loop C c req (nat (cc_max_retries c)) None None w"

text \<open>Close: cancel the applier (the parameter sets its flag and ends its
  context), stop the checker.\<close>

definition client_Close :: "'x client_env \<Rightarrow> ('x \<Rightarrow> 'x) \<Rightarrow> client \<Rightarrow> 'x world \<Rightarrow> err option \<times> 'x world" where
  "client_Close C cancel c w =
    (None, upd_ext (\<lambda>x. if cc_has_health c
        then (case cx_health C (cancel x) of
                Some hc \<Rightarrow> cx_set_health C (hc_Stop hc) (cancel x) | None \<Rightarrow> cancel x)
        else cancel x) w)"

section \<open>Lemmas\<close>

lemma client_events [simp]:
  "w_events (append_status s w) = w_events w" "w_events (note_node n w) = w_events w"
  "w_ext (append_status s w) = w_ext w" "w_ext (note_node n w) = w_ext w"
  by (simp_all add: append_status_def note_node_def)

definition upstream_nodes :: "'x world \<Rightarrow> node list" where
  "upstream_nodes w = concat (map (\<lambda>ev. case ev of EvUpstream n r \<Rightarrow> [n] | _ \<Rightarrow> []) (w_events w))"

lemma upstream_nodes_emit [simp]:
  "upstream_nodes (emit ev w) = upstream_nodes w @ (case ev of EvUpstream n r \<Rightarrow> [n] | _ \<Rightarrow> [])"
  by (simp add: upstream_nodes_def)

lemma upstream_nodes_upd [simp]:
  "upstream_nodes (upd_opts f w) = upstream_nodes w" "upstream_nodes (upd_ext g w) = upstream_nodes w"
  "upstream_nodes (append_status s w) = upstream_nodes w" "upstream_nodes (note_node n w) = upstream_nodes w"
  by (simp_all add: upstream_nodes_def)

lemma upstream_nodes_mark [simp]: "upstream_nodes (mark_after_failure C c n w) = upstream_nodes w"
  by (simp add: mark_after_failure_def split: option.split)

lemma client_loop_count:
  "length (upstream_nodes (snd (client_loop C c req k le ld w))) \<le> length (upstream_nodes w) + k"
proof (induction k arbitrary: le ld w)
  case (Suc k)
  obtain sel x1 where s: "cx_select C (select_filters C c w) (w_ext w) = (sel, x1)" by force
  show ?case
  proof (cases sel)
    case (Inl e)
    then show ?thesis using Suc [of "Some e" ld "upd_ext (\<lambda>_. x1) w"] by (simp add: s)
  next
    case (Inr nd')
    obtain n d where nd: "nd' = (n, d)" by (cases nd')
    define w1 where "w1 = emit (EvUpstream n (upstream_request n req)) (note_node n (upd_ext (\<lambda>_. x1) w))"
    have w1: "length (upstream_nodes w1) = Suc (length (upstream_nodes w))" by (simp add: w1_def)
    obtain r x2 where r: "cx_do C n (upstream_request n req) (w_ext w1) = (r, x2)" by force
    have "w_ext w1 = x1" by (simp add: w1_def)
    then show ?thesis
      using Suc [of _ "Some d" "mark_after_failure C c n (append_status 0 (emit (EvDone d (Some _)) (upd_ext (\<lambda>_. x2) w1)))"]
        w1 r
      by (cases r) (auto simp: s Inr nd Let_def w1_def [symmetric])
  qed
qed (simp split: option.split)

lemma foldl_filters_subset:
  assumes "\<And>f ns. f \<in> set fs \<Longrightarrow> set (f ns) \<subseteq> set ns"
  shows "set (foldl (\<lambda>ns f. f ns) ns fs) \<subseteq> set ns"
  using assms by (induction fs arbitrary: ns) fastforce+

lemma apply_filter_subset:
  "f = SkipTried \<or> (\<exists>g. f = FilterFn g \<and> (\<forall>ns. set (g ns) \<subseteq> set ns)) \<Longrightarrow> set (apply_filter o' f ns) \<subseteq> set ns"
  using skip_tried_subset by (cases f) auto

text \<open>The filters of a request options record that only narrow.\<close>

definition narrowing :: "request_options \<Rightarrow> bool" where
  "narrowing o' \<longleftrightarrow> (\<forall>f\<in>set (ro_filters o'). \<forall>o2 ns. set (apply_filter o2 f ns) \<subseteq> set ns)"

lemma NewRequestOptions_narrowing: "narrowing (NewRequestOptions e)"
  using skip_tried_subset by (auto simp: narrowing_def NewRequestOptions_def)

lemma selected_healthy:
  assumes "selector_ok C" "narrowing (w_opts w)" "cc_has_health c" "cx_health C (w_ext w) = Some hc"
    and "fst (cx_select C (select_filters C c w) (w_ext w)) = Inr (n, d)"
  shows "IsHealthy hc n \<and> n \<in> set (cx_nodes C (w_ext w))"
proof -
  let ?fs = "map (apply_filter (w_opts w)) (ro_filters (w_opts w))"
  have fs: "select_filters C c w = filter (IsHealthy hc) # ?fs"
    using assms(3,4) by (simp add: select_filters_def HealthyNodeFilter_def [abs_def])
  have "n \<in> set (foldl (\<lambda>ns f. f ns) (cx_nodes C (w_ext w)) (select_filters C c w))"
    using assms(1,5) unfolding selector_ok_def by blast
  then have "n \<in> set (foldl (\<lambda>ns f. f ns) (filter (IsHealthy hc) (cx_nodes C (w_ext w))) ?fs)"
    by (simp add: fs)
  moreover have "set (foldl (\<lambda>ns f. f ns) (filter (IsHealthy hc) (cx_nodes C (w_ext w))) ?fs)
      \<subseteq> set (filter (IsHealthy hc) (cx_nodes C (w_ext w)))"
    using assms(2) by (intro foldl_filters_subset) (auto simp: narrowing_def)
  ultimately show ?thesis by auto
qed


section \<open>Properties\<close>

definition gateway_client :: client where
  "gateway_client = newClient [WithHealthChecker]"

lemma gateway_client_fields [simp]: "cc_has_health gateway_client" "cc_max_retries gateway_client = 1"
  by (simp_all add: gateway_client_def newClient_def WithHealthChecker_def)

text \<open>One call of the client the factory builds, step by step.\<close>

lemma RoundTrip_select_fails:
  "cx_select C (select_filters C gateway_client w) (w_ext w) = (Inl e, x1) \<Longrightarrow>
    client_RoundTrip C gateway_client req w = (Ret None (Some e), append_status 0 (upd_ext (\<lambda>_. x1) w))"
  by (simp add: client_RoundTrip_def)

lemma RoundTrip_selected:
  assumes "cx_select C (select_filters C gateway_client w) (w_ext w) = (Inr (n, d), x1)"
    and "w1 = emit (EvUpstream n (upstream_request n req)) (note_node n (upd_ext (\<lambda>_. x1) w))"
    and "cx_do C n (upstream_request n req) x1 = (r, x2)"
  shows "client_RoundTrip C gateway_client req w =
    (case r of
       Inl e \<Rightarrow> (Ret None (Some e),
          append_status 0 (emit (EvDone d (Some e)) (mark_after_failure C gateway_client n
            (append_status 0 (emit (EvDone d (Some e)) (upd_ext (\<lambda>_. x2) w1))))))
     | Inr resp \<Rightarrow> (Ret (Some resp) None,
          upd_opts (\<lambda>o'. o'\<lparr>ro_done := Some d\<rparr>) (append_status (rs_status resp) (upd_ext (\<lambda>_. x2) w1))))"
proof -
  have "w_ext w1 = x1" by (simp add: assms(2))
  then show ?thesis
    using assms(1,3) by (cases r) (simp_all add: client_RoundTrip_def Let_def assms(2) [symmetric])
qed

text \<open>C13: The client the gateway builds contacts at most one node per call,
  and only a node of the last registry push that the health checker held
  healthy when the call was made: an unhealthy node receives no traffic.\<close>

theorem only_healthy_node_contacted:
  assumes "selector_ok C" "narrowing (w_opts w)" "cx_health C (w_ext w) = Some hc"
  shows "upstream_nodes (snd (client_RoundTrip C gateway_client req w)) = upstream_nodes w
    \<or> (\<exists>n. upstream_nodes (snd (client_RoundTrip C gateway_client req w)) = upstream_nodes w @ [n]
        \<and> IsHealthy hc n \<and> n \<in> set (cx_nodes C (w_ext w)))"
proof -
  obtain sel x1 where s: "cx_select C (select_filters C gateway_client w) (w_ext w) = (sel, x1)" by force
  show ?thesis
  proof (cases sel)
    case (Inl e)
    then show ?thesis using RoundTrip_select_fails s by fastforce
  next
    case (Inr nd')
    obtain n d where nd: "nd' = (n, d)" by (cases nd')
    have ok: "IsHealthy hc n \<and> n \<in> set (cx_nodes C (w_ext w))"
      using selected_healthy [OF assms(1,2) gateway_client_fields(1) assms(3)] s Inr nd by simp
    obtain r x2 where r: "cx_do C n (upstream_request n req) x1 = (r, x2)" by force
    have "upstream_nodes (snd (client_RoundTrip C gateway_client req w)) = upstream_nodes w @ [n]"
      using RoundTrip_selected [OF s [unfolded Inr nd] refl r] by (cases r) simp_all
    then show ?thesis using ok by blast
  qed
qed

text \<open>A selector over a list of nodes with a health checker, for the
  witnesses: the first node left by the filters is chosen.\<close>

type_synonym sample_ext = "node list \<times> health"

abbreviation ErrNoAvailable :: err where
  "ErrNoAvailable \<equiv> KratosErr \<lparr>ke_code = 503, ke_reason = ''no_available_node'', ke_message = [], ke_metadata = []\<rparr>"

definition sample_client_env :: "(err + response) \<Rightarrow> sample_ext client_env" where
  "sample_client_env answer =
    \<lparr>cx_select = (\<lambda>fs x. (case foldl (\<lambda>ns f. f ns) (fst x) fs of
          [] \<Rightarrow> Inl ErrNoAvailable | n # _ \<Rightarrow> Inr (n, 42), x)),
     cx_apply = (\<lambda>ns x. (ns, snd x)), cx_nodes = fst, cx_do = (\<lambda>n r x. (answer, x)),
     cx_health = (\<lambda>x. Some (snd x)), cx_set_health = (\<lambda>h x. (fst x, h))\<rparr>"

lemma sample_selector_ok: "selector_ok (sample_client_env a)"
  by (auto simp: selector_ok_def sample_client_env_def split: list.splits)

definition sample_ext_state :: sample_ext where
  "sample_ext_state = ([sample_node], NewHealthChecker [sample_node] (factory_opts 1 1 3))"

definition client_world :: "'x \<Rightarrow> 'x world" where
  "client_world x = \<lparr>w_opts = NewRequestOptions
      \<lparr>ep_path = ''/a'', ep_method = [], ep_description = [], ep_protocol = HTTP, ep_timeout = None,
       ep_middlewares = [], ep_backends = [], ep_retry = None, ep_metadata = [], ep_host = []\<rparr>,
     w_events = [], w_ext = x\<rparr>"

lemma sample_select:
  "cx_select (sample_client_env a) (select_filters (sample_client_env a) gateway_client (client_world sample_ext_state))
      (w_ext (client_world sample_ext_state)) = (Inr (sample_node, 42), sample_ext_state)"
proof -
  have "IsHealthy (NewHealthChecker [sample_node] (factory_opts 1 1 3)) sample_node"
    by (simp add: IsHealthy_def NewHealthChecker_def registerNode_def factory_opts_def
        WithCheckInterval_def WithCheckTimeout_def WithMaxFailures_def)
  then show ?thesis
    by (simp add: sample_client_env_def sample_ext_state_def client_world_def select_filters_def
        HealthyNodeFilter_def NewRequestOptions_def skip_tried_def)
qed

theorem only_healthy_node_contacted_witness:
  "\<exists>n. upstream_nodes (snd (client_RoundTrip (sample_client_env (Inl CtxCanceled)) gateway_client sample_request
        (client_world sample_ext_state))) = [n]
    \<and> IsHealthy (snd sample_ext_state) n"
proof -
  let ?C = "sample_client_env (Inl CtxCanceled)" and ?w = "client_world sample_ext_state"
  have h: "cx_health ?C (w_ext ?w) = Some (snd sample_ext_state)"
    by (simp add: sample_client_env_def client_world_def)
  have nar: "narrowing (w_opts ?w)" by (simp add: client_world_def NewRequestOptions_narrowing)
  have "upstream_nodes (snd (client_RoundTrip ?C gateway_client sample_request ?w)) \<noteq> upstream_nodes ?w"
  proof -
    obtain r x2 where r: "cx_do ?C sample_node (upstream_request sample_node sample_request) sample_ext_state = (r, x2)"
      by (metis surj_pair)
    show ?thesis using RoundTrip_selected [OF sample_select refl r] by (cases r) simp_all
  qed
  moreover have "upstream_nodes ?w = []" by (simp add: upstream_nodes_def client_world_def)
  ultimately show ?thesis using only_healthy_node_contacted [OF sample_selector_ok nar h, of sample_request] by auto
qed

text \<open>When the request to the chosen node fails, the selection's done
  function is called twice with the error and the status 0 is recorded twice
  for the one attempt: the load balancer counts every failed request as
  two.\<close>

theorem failed_request_reported_twice:
  assumes "cx_select C (select_filters C gateway_client w) (w_ext w) = (Inr (n, d), x1)"
    and "cx_do C n (upstream_request n req) x1 = (Inl e, x2)"
  shows "\<exists>w'. client_RoundTrip C gateway_client req w = (Ret None (Some e), w')
    \<and> filter (\<lambda>ev. ev = EvDone d (Some e)) (w_events w')
        = filter (\<lambda>ev. ev = EvDone d (Some e)) (w_events w) @ [EvDone d (Some e), EvDone d (Some e)]
    \<and> ro_upstream_status (w_opts w') = ro_upstream_status (w_opts w) @ [0, 0]
    \<and> ro_backends (w_opts w') = ro_backends (w_opts w) @ [nd_address n]"
proof -
  have mk: "filter (\<lambda>ev. ev = EvDone d (Some e)) (w_events (mark_after_failure C c n v))
      = filter (\<lambda>ev. ev = EvDone d (Some e)) (w_events v)"
    "w_opts (mark_after_failure C c n v) = w_opts v" for c v
    by (auto simp: mark_after_failure_def split: option.split)
  show ?thesis
    using RoundTrip_selected [OF assms(1) refl assms(2)]
    by (simp add: mk append_status_def note_node_def)
qed

theorem failed_request_reported_twice_witness:
  "\<exists>w'. client_RoundTrip (sample_client_env (Inl CtxCanceled)) gateway_client sample_request
        (client_world sample_ext_state) = (Ret None (Some CtxCanceled), w')
    \<and> ro_upstream_status (w_opts w') = [0, 0]"
proof -
  have "cx_do (sample_client_env (Inl CtxCanceled)) sample_node (upstream_request sample_node sample_request)
      sample_ext_state = (Inl CtxCanceled, sample_ext_state)"
    by (simp add: sample_client_env_def)
  from failed_request_reported_twice [OF sample_select this] show ?thesis
    by (auto simp: client_world_def NewRequestOptions_def)
qed

end
