(* ===== verification/Client_Settings.thy ===== *)
theory Client_Settings
  imports Go_Time Client Go_Os
begin

text \<open>
  The settings of the HTTP clients of client/node.go: package variables that
  are initialised before the init function reads the environment, the dial
  timeout of each client and the redirect policy.
\<close>

text \<open>The package variables.  The dialer of the HTTP/1 client is built, with
  the timeout of that moment, when the variables are initialised; those of the
  two HTTP/2 clients read the variable on every dial.\<close>

record client_vars =
  cv_dialTimeout :: int
  cv_followRedirect :: bool
  cv_http1_dial :: int

definition ClientDialTimeout :: int where
  "ClientDialTimeout = 200000000"

definition client_var_init :: client_vars where
  "client_var_init = \<lparr>cv_dialTimeout = ClientDialTimeout, cv_followRedirect = False, cv_http1_dial = ClientDialTimeout\<rparr>"

text \<open>\<open>None\<close> is the panic of an init function.\<close>

definition client_init :: "'a os_scheme \<Rightarrow> client_vars \<Rightarrow> client_vars option" where
  "client_init w cv =
    (let v = os_Getenv ''PROXY_DIAL_TIMEOUT'' w;
         redirect = os_Getenv ''PROXY_FOLLOW_REDIRECT'' w;
         set_redirect = (\<lambda>cv. if redirect \<noteq> [] then cv\<lparr>cv_followRedirect := True\<rparr> else cv)
     in if v = [] then Some (set_redirect cv)
        else (case time_ParseDuration v of
                None \<Rightarrow> None
              | Some d \<Rightarrow> Some (set_redirect (cv\<lparr>cv_dialTimeout := d\<rparr>))))"

definition dial_timeout :: "client_vars \<Rightarrow> http_client \<Rightarrow> int" where
  "dial_timeout cv c =
    (case c of GlobalClient \<Rightarrow> cv_http1_dial cv | _ \<Rightarrow> cv_dialTimeout cv)"

text \<open>defaultCheckRedirect: \<open>None\<close> follows the redirect.\<close>

abbreviation ErrUseLastResponse :: err where
  "ErrUseLastResponse \<equiv> Sentinel ''net/http: use last response''"

definition defaultCheckRedirect :: "client_vars \<Rightarrow> nat \<Rightarrow> 'x world \<Rightarrow> err option \<times> 'x world" where
  "defaultCheckRedirect cv via w =
    (let l = NewMetricsLabels (ro_endpoint (w_opts w));
         w1 = emit (EvCounter ''client_redirect_total'' [lb_Protocol l, lb_Method l, lb_Path l, lb_Service l, lb_BasePath l] 1) w
     in if cv_followRedirect cv then
          (if 10 \<le> via then (Some (PlainErr ''stopped after 10 redirects''), w1) else (None, w1))
        else (Some ErrUseLastResponse, w1))"

section \<open>Properties\<close>

text \<open>The setting of the dial timeout reaches the HTTP/2 clients only:
  whatever it says, a node of a plain HTTP backend is dialled with the 200
  milliseconds its client was built with.\<close>

theorem dial_timeout_ignored_by_http1:
  assumes "client_init w client_var_init = Some cv" and "os_Getenv ''PROXY_DIAL_TIMEOUT'' w \<noteq> []"
  shows "dial_timeout cv (nd_client (newNode addr HTTP weight md version name)) = 200000000
    \<and> Some (dial_timeout cv (nd_client (newNode addr GRPC weight md version name)))
        = time_ParseDuration (os_Getenv ''PROXY_DIAL_TIMEOUT'' w)"
  using assms
  by (auto simp: client_init_def client_var_init_def Let_def dial_timeout_def newNode_def ClientDialTimeout_def
      split: option.splits if_splits)

definition five_seconds :: os where
  "five_seconds = \<lparr>os_files = [], os_dirs = [], os_env = [''PROXY_DIAL_TIMEOUT'' \<mapsto> ''5s''], os_calls = 0,
     os_fault = (\<lambda>_. None), os_rand = (\<lambda>_. [])\<rparr>"

theorem dial_timeout_ignored_by_http1_witness:
  "\<exists>cv. client_init five_seconds client_var_init = Some cv
    \<and> dial_timeout cv (nd_client (newNode ''10.0.0.1:80'' HTTP None [] [] [])) = 200000000
    \<and> dial_timeout cv (nd_client (newNode ''10.0.0.1:80'' GRPC None [] [] [])) = 5000000000"
proof -
  have env: "os_Getenv ''PROXY_DIAL_TIMEOUT'' five_seconds = ''5s''" "os_Getenv ''PROXY_FOLLOW_REDIRECT'' five_seconds = []"
    by (simp_all add: five_seconds_def os_Getenv_def)
  have d: "time_ParseDuration ''5s'' = Some 5000000000"
    using parse_seconds [of 5] by (simp add: dec_digits.simps digit_char_def char_of_def bit_iff_odd)
  obtain cv where cv: "client_init five_seconds client_var_init = Some cv" by (simp add: client_init_def env d)
  show ?thesis using dial_timeout_ignored_by_http1 [OF cv, of "''10.0.0.1:80''" None "[]" "[]" "[]"] cv d by (simp add: env)
qed

text \<open>Redirects are followed at most nine times, and only when switched on.\<close>

lemma redirects_bounded:
  "fst (defaultCheckRedirect cv via w) = None \<longleftrightarrow> cv_followRedirect cv \<and> via < 10"
  by (simp add: defaultCheckRedirect_def Let_def)

end
