(* ===== verification/Metrics.thy ===== *)
theory Metrics
  imports Guarded_Gateway Client_Settings
begin

text \<open>
  The Prometheus metrics the packages register, and what the code that updates
  them has to respect.  As the library documents, WithLabelValues panics unless
  it gets one value per label, Add panics on a negative amount, and MustRegister
  on a second metric of the same name.
\<close>

section \<open>The registered metrics\<close>

record metric_vec =
  mv_name :: string
  mv_labels :: "string list"

definition metricRequestsTotal :: metric_vec where
  "metricRequestsTotal = \<lparr>mv_name = ''requests_code_total'',
     mv_labels = [''protocol'', ''method'', ''path'', ''code'', ''service'', ''basePath'']\<rparr>"

definition metricRequestsDuration :: metric_vec where
  "metricRequestsDuration = \<lparr>mv_name = ''requests_duration_seconds'',
     mv_labels = [''protocol'', ''method'', ''path'', ''service'', ''basePath'']\<rparr>"

definition metricSentBytes :: metric_vec where
  "metricSentBytes = \<lparr>mv_name = ''requests_tx_bytes'',
     mv_labels = [''protocol'', ''method'', ''path'', ''service'', ''basePath'']\<rparr>"

definition metricReceivedBytes :: metric_vec where
  "metricReceivedBytes = \<lparr>mv_name = ''requests_rx_bytes'',
     mv_labels = [''protocol'', ''method'', ''path'', ''service'', ''basePath'']\<rparr>"

definition metricRetryState :: metric_vec where
  "metricRetryState = \<lparr>mv_name = ''requests_retry_state'',
     mv_labels = [''protocol'', ''method'', ''path'', ''service'', ''basePath'', ''success'']\<rparr>"

definition failedMiddlewareCreate :: metric_vec where
  "failedMiddlewareCreate = \<lparr>mv_name = ''failed_middleware_create'', mv_labels = [''name'', ''required'']\<rparr>"

definition metricDeniedTotal :: metric_vec where
  "metricDeniedTotal = \<lparr>mv_name = ''requests_circuit_breaker_denied_total'',
     mv_labels = [''protocol'', ''method'', ''path'', ''service'', ''basePath'']\<rparr>"

definition metricClientRedirect :: metric_vec where
  "metricClientRedirect = \<lparr>mv_name = ''client_redirect_total'',
     mv_labels = [''protocol'', ''method'', ''path'', ''service'', ''basePath'']\<rparr>"

text \<open>The two of the router filter carry its subsystem in their name.\<close>

definition requestsTotal :: metric_vec where
  "requestsTotal = \<lparr>mv_name = ''routerfilter_requests_total'', mv_labels = [''matched'', ''method'', ''path'']\<rparr>"

definition requestDuration :: metric_vec where
  "requestDuration = \<lparr>mv_name = ''routerfilter_request_duration_seconds'', mv_labels = [''status'']\<rparr>"

text \<open>The calls of MustRegister: those of package proxy, in their order.\<close>

definition proxy_metrics :: "metric_vec list" where
  "proxy_metrics = [metricRequestsTotal, metricRequestsDuration, metricRetryState, metricSentBytes, metricReceivedBytes]"

definition registered :: "metric_vec list" where
  "registered = failedMiddlewareCreate # metricClientRedirect # requestsTotal # requestDuration # metricDeniedTotal # proxy_metrics"

lemmas metric_defs = metricRequestsTotal_def metricRequestsDuration_def metricSentBytes_def metricReceivedBytes_def
  metricRetryState_def failedMiddlewareCreate_def metricDeniedTotal_def metricClientRedirect_def requestsTotal_def
  requestDuration_def proxy_metrics_def registered_def

lemma registered_once: "distinct (map mv_name registered)"
  by (simp add: metric_defs)

section \<open>Updates that do not panic\<close>

definition labels_fit :: "string \<Rightarrow> string list \<Rightarrow> bool" where
  "labels_fit n ls \<longleftrightarrow> list_ex (\<lambda>m. mv_name m = n \<and> length (mv_labels m) = length ls) registered"

fun event_fits :: "event \<Rightarrow> bool" where
  "event_fits (EvCounter n ls k) \<longleftrightarrow> labels_fit n ls \<and> 0 \<le> k"
| "event_fits (EvObserve n ls) \<longleftrightarrow> labels_fit n ls"
| "event_fits ev \<longleftrightarrow> True"

abbreviation metrics_fit :: "'x world \<Rightarrow> bool" where
  "metrics_fit w \<equiv> list_all event_fits (w_events w)"

lemma labels_fit_simps [simp]:
  "labels_fit ''requests_code_total'' [a, b, c, d, e, f]" "labels_fit ''requests_duration_seconds'' [a, b, c, d, e]"
  "labels_fit ''requests_tx_bytes'' [a, b, c, d, e]" "labels_fit ''requests_rx_bytes'' [a, b, c, d, e]"
  "labels_fit ''requests_retry_state'' [a, b, c, d, e, f]" "labels_fit ''failed_middleware_create'' [a, b]"
  "labels_fit ''requests_circuit_breaker_denied_total'' [a, b, c, d, e]" "labels_fit ''client_redirect_total'' [a, b, c, d, e]"
  "labels_fit ''routerfilter_requests_total'' [a, b, c]" "labels_fit ''routerfilter_request_duration_seconds'' [a]"
  by (simp_all add: labels_fit_def metric_defs)

lemma fit_emit: "metrics_fit (emit ev w) \<longleftrightarrow> metrics_fit w \<and> event_fits ev"
  by (auto simp: emit_def)

lemma fit_frame [simp]: "metrics_fit (upd_opts f w) \<longleftrightarrow> metrics_fit w" "metrics_fit (upd_ext g w) \<longleftrightarrow> metrics_fit w"
  by (simp_all add: upd_opts_def upd_ext_def)

lemma proxy_updates_fit [simp]:
  "metrics_fit (requestsTotalIncr req lo code w) \<longleftrightarrow> metrics_fit w"
  "metrics_fit (requestsDurationObserve req l w) \<longleftrightarrow> metrics_fit w"
  "metrics_fit (receivedBytesAdd req l n w) \<longleftrightarrow> metrics_fit w \<and> 0 \<le> n"
  "metrics_fit (sentBytesAdd req l n w) \<longleftrightarrow> metrics_fit w \<and> 0 \<le> n"
  "metrics_fit (retryStateIncr req l b w) \<longleftrightarrow> metrics_fit w"
  "metrics_fit (markFailed E e req i er w) \<longleftrightarrow> metrics_fit w"
  "metrics_fit (markSuccess E e req i w) \<longleftrightarrow> metrics_fit w"
  "metrics_fit (set_last_attempt w) \<longleftrightarrow> metrics_fit w"
  "metrics_fit (call_done de w) \<longleftrightarrow> metrics_fit w"
  by (simp_all add: requestsTotalIncr_def requestsDurationObserve_def receivedBytesAdd_def sentBytesAdd_def retryStateIncr_def
      label_values_def fit_emit markFailed_def markSuccess_def markFailedStat_def markSuccessStat_def set_last_attempt_def
      call_done_def Let_def split: option.split)

definition fits :: "'x world round_tripper \<Rightarrow> bool" where
  "fits t \<longleftrightarrow> (\<forall>r w. metrics_fit w \<longrightarrow> metrics_fit (snd (t r w)))"

lemma fitsD: "fits t \<Longrightarrow> t r w = (res, w1) \<Longrightarrow> metrics_fit w \<Longrightarrow> metrics_fit w1"
  unfolding fits_def by (metis snd_conv)

section \<open>The middlewares\<close>

lemma router_filter_fits: "fits t \<Longrightarrow> fits (router_filter ms t)"
  by (simp add: fits_def router_filter_def fit_emit)

lemma breaker_fits:
  assumes "fits onBreak" "fits t"
  shows "fits (breaker_RoundTrip br onBreak conds t)"
  unfolding fits_def
proof (intro allI impI)
  fix r and w :: "'a world"
  assume w: "metrics_fit w"
  obtain ok x1 where a: "br_allow br (w_ext w) = (ok, x1)" by fastforce
  obtain res w1 where t: "t r (upd_ext (\<lambda>_. x1) w) = (res, w1)" by fastforce
  have w1: "metrics_fit w1" by (rule fitsD [OF assms(2) t]) (simp add: w)
  have "metrics_fit (snd (onBreak r (deniedRequestIncr (mark_breaker br False (upd_ext (\<lambda>_. x1) w)))))"
    using assms(1) w by (simp add: fits_def deniedRequestIncr_def mark_breaker_def Let_def fit_emit)
  then show "metrics_fit (snd (breaker_RoundTrip br onBreak conds t r w))"
    using a t w1 by (auto simp: breaker_RoundTrip_def mark_breaker_def fit_emit split: bool.split rt_result.split option.split)
qed

lemma Create_fits:
  assumes "\<And>mk w. getMiddleware R (createFullName (mc_name c)) = Some mk \<Longrightarrow> metrics_fit w \<Longrightarrow> metrics_fit (snd (mk c w))"
    and "metrics_fit w"
  shows "metrics_fit (snd (Create R c w))"
proof (cases "getMiddleware R (createFullName (mc_name c))")
  case (Some mk)
  obtain r w1 where "mk c w = (r, w1)" by fastforce
  then show ?thesis using Some assms(1) [OF Some assms(2)] by (cases r) (simp_all add: Create_def fit_emit)
qed (use assms(2) in \<open>simp add: Create_def\<close>)

lemma redirect_fits: "metrics_fit w \<Longrightarrow> metrics_fit (snd (defaultCheckRedirect cv via w))"
  by (simp add: defaultCheckRedirect_def Let_def fit_emit)

section \<open>The handler of an endpoint\<close>

lemma retry_loop_fits:
  assumes "fits t"
  shows "metrics_fit w \<Longrightarrow> metrics_fit (loop_world (retry_loop E e conds t req n i resp er w))"
  using assms by (intro retry_loop_keeps [where P = metrics_fit]) (simp_all add: fits_def)

lemma answers_fit [simp]:
  "metrics_fit (outcome_world (write_outcome L wr req er opts fin w)) \<longleftrightarrow>
    metrics_fit (case Write L wr req (Some er) opts of Some (c, wr') \<Rightarrow> fin c w | None \<Rightarrow> w)"
  by (simp add: write_outcome_def split: option.split)

lemma doCopyBody_fits: "metrics_fit w \<Longrightarrow> metrics_fit (snd (doCopyBody E l req resp wr w))"
  by (auto simp: doCopyBody_def Let_def fit_emit split: option.split prod.split)

lemma send_response_fits: "metrics_fit w \<Longrightarrow> metrics_fit (outcome_world (send_response E l req resp wr w))"
  using doCopyBody_fits [of w E l req resp]
  by (auto simp: send_response_def Let_def split: option.split prod.split) (metis snd_conv)

lemma handler_fits:
  assumes "fits t" and "metrics_fit w"
  shows "metrics_fit (outcome_world (endpoint_handler E e rs t wr req w))"
proof -
  define l where "l = NewMetricsLabels e"
  define rq where "rq = setXFFHeader (WithRequestPath req (rq_path req))"
  define w1 where "w1 = upd_opts (\<lambda>_. NewRequestOptions e) w"
  define lp where "lp = retry_loop E e (rt_conditions rs) t rq (nat (rt_attempts rs)) 0 None None
      (receivedBytesAdd rq l (int (length (bd_data (rq_body rq)))) w1)"
  have w1: "metrics_fit w1" using assms(2) by (simp add: w1_def)
  have lp: "metrics_fit (loop_world lp)"
    unfolding lp_def by (rule retry_loop_fits [OF assms(1)]) (simp add: w1)
  have err: "metrics_fit v \<Longrightarrow> metrics_fit (outcome_world (writeError L wr rq er lo v))" for L er lo and v :: "'a world"
    by (auto simp: writeError_def split: option.split)
  show ?thesis
    using w1 lp by (auto simp: endpoint_handler_def Let_def l_def [symmetric] rq_def [symmetric] w1_def [symmetric]
        lp_def [symmetric] err send_response_fits split: option.split loop_result.split)
qed

section \<open>The gateway\<close>

text \<open>No update of a metric panics while a request is served: every counter and
  histogram the gateway touches is registered and gets one value for each of its
  labels, and no counter is decreased, provided the middlewares and clients in
  use keep to that.\<close>

theorem metric_updates_never_panic:
  assumes "gorilla_dispatch (px_gorilla E)" and "Update E cf mf cfg p w0 = (None, p', w0')"
    and "\<And>e w cl w'. cf e w = (Inr cl, w') \<Longrightarrow> fits (cl_round_trip cl)"
    and "\<And>c w m w' t. mf c w = (Inr m, w') \<Longrightarrow> fits t \<Longrightarrow> fits (mi_process m t)"
    and "\<And>wr r w. metrics_fit w \<Longrightarrow> metrics_fit (outcome_world (px_metrics E wr r w))"
    and "metrics_fit w"
  shows "metrics_fit (outcome_world (proxy_ServeHTTP E p' wr req w))"
proof -
  define Q where "Q h \<longleftrightarrow> (\<forall>wr r v. metrics_fit v \<longrightarrow> metrics_fit (outcome_world (h wr r v)))" for h :: "'a world handler"
  have own: "Q (ProtectedHandler (px_libs E) (px_metrics E))" "Q (notFoundHandler (px_libs E))" "Q (methodNotAllowedHandler (px_libs E))"
    using assms(5) by (auto simp: Q_def ProtectedHandler_def notFoundHandler_def methodNotAllowedHandler_def fit_emit split: option.split)
  have endpoint: "Q h" if b: "buildEndpoint E cf mf e (gc_middlewares cfg) v = (Inr (h, c), v')" for e v h c v'
  proof -
    obtain cl w1 t1 w2 t2 w3 rs where "cf e v = (Inr cl, w1)"
      and b1: "build_rev (px_libs E) mf (rev (ep_middlewares e)) (cl_round_trip cl) w1 = (Inr t1, w2)"
      and b2: "build_rev (px_libs E) mf (rev (gc_middlewares cfg)) t1 w2 = (Inr t2, w3)"
      and h: "h = endpoint_handler E e rs t2"
      using b by (auto simp: buildEndpoint_def buildMiddleware_def Let_def split: prod.splits sum.splits option.splits)
    then have "fits t2"
      using build_rev_keeps [where P = fits, OF _ b1] build_rev_keeps [where P = fits, OF _ b2] assms(3,4) by blast
    then show ?thesis by (simp add: Q_def h handler_fits)
  qed
  show ?thesis
  proof (rule Update_serves [OF assms(1,2) _ own, of wr req w])
    fix h assume "Q h"
      and "outcome_world (proxy_ServeHTTP E p' wr req w) = outcome_world (h wr (req\<lparr>rq_path := cleanPath (rq_path req)\<rparr>) w)"
    then show ?thesis using assms(6) by (simp add: Q_def)
  qed (use endpoint assms(6) in auto)
qed

text \<open>The guards and the access log keep to it, so the run of the guarded
  gateway does.\<close>

lemma guard_layers_fit:
  fixes t :: "('e, 'x) rbac_state world round_tripper"
  assumes "fits t"
  shows "fits (logging_RoundTrip t)" "fits (jwt_RoundTrip L key_of ms t)" "fits (rbac_RoundTrip B D ms t)"
  using assms unfolding fits_def
  by (auto simp: logging_RoundTrip_def jwt_RoundTrip_def rbac_RoundTrip_def Let_def
      split: prod.split rt_result.split option.split sum.split) (metis snd_conv)+

lemma guard_registry_fits:
  assumes "Create guard_registry c w = (Inr m, w')" and "fits t"
  shows "fits (mi_process m t)"
  using assms guard_layers_fit [OF assms(2)]
  by (auto simp: Create_def getMiddleware_def guard_registry_def wrapFactory_def jwt_Middleware_def rbac_Middleware_def
      logging_Middleware_def of_middleware_def EmptyMiddleware_def split: if_splits option.splits)

theorem metric_updates_never_panic_witness:
  "\<exists>p'. metrics_fit (outcome_world (proxy_ServeHTTP sample_env p' new_writer bearer_request (sample_world demo_state)))
    \<and> length (mr_routes (py_router p')) = 2"
proof -
  obtain p' w' where upd: "Update sample_env one_upstream_factory (Create guard_registry) guard_gateway (proxy_New sample_env)
      (sample_world demo_state) = (None, p', w')"
    and router: "length (mr_routes (py_router p')) = 2"
    using guard_update [of "sample_world demo_state"] by (auto simp: new_router_def NewRouter_def)
  have dispatch: "gorilla_dispatch (px_gorilla (sample_env :: (string, unit) rbac_state proxy_env))"
    using sample_gorilla_dispatch by (simp add: sample_env_def)
  have "metrics_fit (outcome_world (proxy_ServeHTTP sample_env p' new_writer bearer_request (sample_world demo_state)))"
  proof (rule metric_updates_never_panic [OF dispatch upd])
    show "\<And>e w cl w'. one_upstream_factory e w = (Inr cl, w') \<Longrightarrow> fits (cl_round_trip cl)"
      by (auto simp: fits_def one_upstream_def fit_emit)
  qed (simp_all add: guard_registry_fits sample_env_def sample_world_def)
  then show ?thesis using router by blast
qed

section \<open>The request counter\<close>

fun counts_request :: "event \<Rightarrow> bool" where
  "counts_request (EvCounter n ls k) \<longleftrightarrow> n = mv_name metricRequestsTotal"
| "counts_request ev \<longleftrightarrow> False"

definition request_counts :: "'x world \<Rightarrow> event list" where
  "request_counts w = filter counts_request (w_events w)"

lemma request_counts_emit [simp]:
  "request_counts (emit ev w) = request_counts w @ (if counts_request ev then [ev] else [])"
  "request_counts (upd_opts f w) = request_counts w" "request_counts (upd_ext g w) = request_counts w"
  by (simp_all add: request_counts_def emit_def upd_opts_def upd_ext_def)

lemma request_counts_simps [simp]:
  "request_counts (markFailed E e req i er w) = request_counts w" "request_counts (markSuccess E e req i w) = request_counts w"
  "request_counts (set_last_attempt w) = request_counts w" "request_counts (requestsDurationObserve req ml w) = request_counts w"
  "request_counts (receivedBytesAdd req ml n w) = request_counts w" "request_counts (sentBytesAdd req ml n w) = request_counts w"
  "request_counts (call_done de w) = request_counts w"
  by (simp_all add: metricRequestsTotal_def markFailed_def markSuccess_def markFailedStat_def markSuccessStat_def retryStateIncr_def
      set_last_attempt_def requestsDurationObserve_def receivedBytesAdd_def sentBytesAdd_def call_done_def Let_def split: option.split)

lemma doCopyBody_counts [simp]: "request_counts (snd (doCopyBody E l req resp wr w)) = request_counts w"
  by (auto simp: doCopyBody_def Let_def split: option.split prod.split)

text \<open>C8: A request whose handler finishes is counted once, under the labels of its
  endpoint and with the status the client got; one whose handler panics, and
  that the proxy then answers with a bad gateway, is not counted at all.\<close>

theorem finished_requests_counted_once:
  fixes w :: "'a world"
  assumes "\<And>r w. request_counts (snd (tripper r w)) = request_counts w"
  shows "case endpoint_handler E e rs tripper wr req w of
      Finished wr1 w1 \<Rightarrow> \<exists>code. request_counts w1 = request_counts w @
          [EvCounter ''requests_code_total'' [lb_Protocol (NewMetricsLabels e), rq_method req, lb_Path (NewMetricsLabels e),
             formatInt code, lb_Service (NewMetricsLabels e), lb_BasePath (NewMetricsLabels e)] 1]
        \<and> (rw_sent wr = None \<and> 200 \<le> code \<longrightarrow> (\<exists>h. rw_sent wr1 = Some (code, h)))
    | HPanic wr1 w1 \<Rightarrow> request_counts w1 = request_counts w"
proof -
  define l where "l = NewMetricsLabels e"
  define rq where "rq = setXFFHeader (WithRequestPath req (rq_path req))"
  define w1 where "w1 = upd_opts (\<lambda>_. NewRequestOptions e) w"
  define lp where "lp = retry_loop E e (rt_conditions rs) tripper rq (nat (rt_attempts rs)) 0 None None
      (receivedBytesAdd rq l (int (length (bd_data (rq_body rq)))) w1)"
  define counted where "counted oc v \<longleftrightarrow> (case oc of
      Finished wr2 w2 \<Rightarrow> \<exists>code. request_counts w2 = request_counts v @ [EvCounter ''requests_code_total''
          [lb_Protocol l, rq_method rq, lb_Path l, formatInt code, lb_Service l, lb_BasePath l] 1]
        \<and> (rw_sent wr = None \<and> 200 \<le> code \<longrightarrow> (\<exists>h. rw_sent wr2 = Some (code, h)))
    | HPanic wr2 w2 \<Rightarrow> request_counts w2 = request_counts v)" for oc :: "'a world outcome" and v :: "'a world"
  have lp: "request_counts (loop_world lp) = request_counts w"
    unfolding lp_def
    by (rule retry_loop_keeps [where P = "\<lambda>v. request_counts v = request_counts w"])
      (simp_all add: assms w1_def, simp add: request_counts_def)
  have total: "request_counts (requestsTotalIncr rq (Some l) c v) = request_counts v @ [EvCounter ''requests_code_total''
      [lb_Protocol l, rq_method rq, lb_Path l, formatInt c, lb_Service l, lb_BasePath l] 1]" for c and v :: "'a world"
    by (simp add: requestsTotalIncr_def metricRequestsTotal_def)
  have err: "counted (writeError (px_libs E) wr rq er (Some l) v) v" for er and v :: "'a world"
  proof (cases "Write (px_libs E) wr rq (Some er) (error_opts (Some l))")
    case (Some x)
    obtain c wr' where x: "x = (c, wr')" by (cases x)
    have "\<exists>h. rw_sent wr' = Some (c, h)" if "rw_sent wr = None" "200 \<le> c"
      using Write_Some(2) [OF Some [unfolded x] that] by blast
    then show ?thesis
      unfolding counted_def writeError_def write_outcome_def Some x by (auto simp: total intro!: exI [of _ c])
  qed (simp add: counted_def writeError_def write_outcome_def)
  have send: "counted (send_response E l rq resp wr v) v" for resp and v :: "'a world"
  proof (cases "writeHeader (rs_status resp) (copy_header (rs_header resp) wr)")
    case (Some wr2)
    have fresh: "rw_sent (copy_header (rs_header resp) wr) = rw_sent wr" by (simp add: copy_header_def split: option.split)
    obtain wr3 w3 where c: "doCopyBody E l rq resp wr2 v = (wr3, w3)" by fastforce
    have "request_counts w3 = request_counts v" using doCopyBody_counts [of E l rq resp wr2 v] c by simp
    moreover have "\<exists>h. rw_sent wr3 = Some (rs_status resp, h)" if "rw_sent wr = None" "200 \<le> rs_status resp"
      using writeHeader_sent [OF Some] that fresh doCopyBody_sent [of wr2 _ E l rq resp v] c by fastforce
    ultimately show ?thesis
      using Some c by (auto simp: counted_def send_response_def total intro!: exI [of _ "rs_status resp"])
  qed (simp add: counted_def send_response_def)
  have fin: "counted (and_finally (requestsDurationObserve rq l) oc) w" if "counted oc v" "request_counts v = request_counts w" for oc v
    using that by (cases oc) (simp_all add: counted_def)
  have w1: "request_counts w1 = request_counts w" by (simp add: w1_def)
  note eq = endpoint_handler_def [of E e rs tripper wr req w, unfolded Let_def, folded l_def rq_def w1_def, folded lp_def]
  have panic: "counted (HPanic wr v) v" for v by (simp add: counted_def)
  have "counted (endpoint_handler E e rs tripper wr req w) w"
  proof (cases "bd_err (rq_body rq)")
    case (Some be)
    then show ?thesis unfolding eq using fin [OF err w1] by simp
  next
    case None
    show ?thesis
    proof (cases lp)
      case (LoopDone resp er v)
      then show ?thesis
        unfolding eq using fin [OF err] fin [OF send] fin [OF panic] lp None by (cases er; cases resp) simp_all
    next
      case (LoopPanic v)
      then show ?thesis unfolding eq using fin [OF panic] lp None by simp
    qed
  qed
  moreover have same: "rq_method rq = rq_method req" by (simp add: rq_def setXFFHeader_def WithRequestPath_def split: option.split list.split)
  ultimately show ?thesis unfolding counted_def same l_def by blast
qed

theorem finished_requests_counted_once_witness:
  "case endpoint_handler sample_env sample_endpoint
        \<lparr>rt_attempts = 3, rt_timeout = 1, rt_per_try_timeout = 1, rt_conditions = [ByStatusCode [500, 599]]\<rparr>
        recorded new_writer sample_request (sample_world sample_script) of
      Finished wr1 w1 \<Rightarrow> length (request_counts w1) = 1
    | HPanic wr1 w1 \<Rightarrow> request_counts w1 = []"
proof -
  have "request_counts (snd (recorded r w)) = request_counts w" for r and w :: "(response option \<times> err option) list world"
    by (simp add: recorded_def scripted_def)
  note finished_requests_counted_once [where tripper = recorded and E = sample_env and e = sample_endpoint
      and rs = "\<lparr>rt_attempts = 3, rt_timeout = 1, rt_per_try_timeout = 1, rt_conditions = [ByStatusCode [500, 599]]\<rparr>"
      and wr = new_writer and req = sample_request and w = "sample_world sample_script", OF this]
  moreover have "request_counts (sample_world sample_script) = []" by (simp add: sample_world_def request_counts_def)
  ultimately show ?thesis by (auto split: outcome.splits)
qed

end
