(* ===== verification/Factory.thy ===== *)
theory Factory
  imports Client Proxy_Spec Go_Url
begin

text \<open>
  Package client, files target.go and factory.go: backend targets, instances
  of the service registry turned into nodes, and the construction of the
  client of an endpoint.  The registration with the service watcher is a
  parameter (it may call the applier back at once with cached instances).
\<close>

section \<open>target.go\<close>

record target =
  tg_scheme :: string
  tg_authority :: string
  tg_endpoint :: string

definition parseTarget :: "string \<Rightarrow> target option" where
  "parseTarget ep =
    (let ep' = (if contains_str ep ''://'' then ep else ''direct:///'' @ ep)
     in case url_Parse ep' of
          None \<Rightarrow> None
        | Some u \<Rightarrow>
            Some \<lparr>tg_scheme = ul_scheme u, tg_authority = ul_host u,
                  tg_endpoint = (if 1 < length (ul_path u) then drop 1 (ul_path u) else [])\<rparr>)"

definition IsSecure :: "url \<Rightarrow> bool" where
  "IsSecure u = (case parseBool (url_query_get u ''isSecure'') of None \<Rightarrow> False | Some ok \<Rightarrow> ok)"

text \<open>\<open>None\<close> is the error of the first endpoint that is no URL.\<close>

fun parseEndpoint :: "string list \<Rightarrow> string \<Rightarrow> bool \<Rightarrow> string option" where
  "parseEndpoint [] scheme secure = Some []"
| "parseEndpoint (e # es) scheme secure =
     (case url_Parse e of
        None \<Rightarrow> None
      | Some u \<Rightarrow>
          if ul_scheme u = scheme \<and> IsSecure u = secure then Some (ul_host u)
          else parseEndpoint es scheme secure)"

section \<open>Service instances to nodes\<close>

record service_instance =
  si_id :: string
  si_name :: string
  si_version :: string
  si_metadata :: "(string \<times> string) list"
  si_endpoints :: "string list"

abbreviation default_weight :: int where
  "default_weight \<equiv> 10"

definition nodeWeight :: "service_instance \<Rightarrow> int" where
  "nodeWeight n =
    (case map_of (si_metadata n) ''weight'' of
       None \<Rightarrow> default_weight
     | Some w \<Rightarrow> (let val = fst (parseInt 64 w) in if val \<le> 0 then default_weight else val))"

fun extractPortFromEndpoints :: "string list \<Rightarrow> int" where
  "extractPortFromEndpoints [] = 0"
| "extractPortFromEndpoints (e # es) =
     (case url_Parse e of
        None \<Rightarrow> extractPortFromEndpoints es
      | Some u \<Rightarrow>
          (case splitHostPort (ul_host u) of
             None \<Rightarrow> extractPortFromEndpoints es
           | Some (h, p) \<Rightarrow>
               (case parseInt 64 p of
                  (port, ok) \<Rightarrow> if ok then port else extractPortFromEndpoints es)))"

fun extractAddressFromEndpoints :: "string list \<Rightarrow> int \<Rightarrow> string" where
  "extractAddressFromEndpoints [] port = ''localhost:'' @ formatInt port"
| "extractAddressFromEndpoints (e # es) port =
     (case url_Parse e of
        None \<Rightarrow> extractAddressFromEndpoints es port
      | Some u \<Rightarrow>
          if ul_scheme u = ''http'' then
            (case splitHostPort (ul_host u) of Some (h, p) \<Rightarrow> h | None \<Rightarrow> ul_host u) @ '':'' @ formatInt port
          else extractAddressFromEndpoints es port)"

text \<open>The address of one instance, if it has one: the body of the loop of
  Callback.\<close>

definition instance_address :: "string \<Rightarrow> service_instance \<Rightarrow> string option" where
  "instance_address scheme ser =
    (case parseEndpoint (si_endpoints ser) scheme False of
       Some (c # cs) \<Rightarrow> Some (c # cs)
     | _ \<Rightarrow>
         if scheme = ''grpc'' then
           (let port = extractPortFromEndpoints (si_endpoints ser)
            in if 0 < port then Some (extractAddressFromEndpoints (si_endpoints ser) port) else None)
         else None)"

definition instance_nodes :: "endpoint \<Rightarrow> service_instance list \<Rightarrow> node list" where
  "instance_nodes e services =
    concat (map (\<lambda>ser.
      case instance_address (toLower (protocol_String (ep_protocol e))) ser of
        None \<Rightarrow> []
      | Some addr \<Rightarrow> [newNode addr (ep_protocol e) (Some (nodeWeight ser)) (si_metadata ser)
                        (si_version ser) (si_name ser)]) services)"

section \<open>The applier\<close>

abbreviation ErrCancelWatch :: err where
  "ErrCancelWatch \<equiv> Sentinel ''cancel watch''"

text \<open>The applier of an endpoint: its canceled flag; picker and health
  checker are reached through the client's environment.\<close>

definition Callback :: "'x client_env \<Rightarrow> endpoint \<Rightarrow> bool \<Rightarrow> bool \<Rightarrow> service_instance list \<Rightarrow> 'x
    \<Rightarrow> err option \<times> 'x" where
  "Callback C e has_health canceled services x =
    (if canceled then (Some ErrCancelWatch, x)
     else if services = [] then (None, x)
     else
       (let nodes = instance_nodes e services;
            x1 = cx_apply C nodes x
        in (None,
            if has_health then
              (case cx_health C x1 of
                 Some hc \<Rightarrow> cx_set_health C (updateNodes nodes hc) x1 | None \<Rightarrow> x1)
            else x1)))"

text \<open>The text of a URL error is not modelled.\<close>

abbreviation url_error :: err where
  "url_error \<equiv> PlainErr ''parse''"

definition unknown_scheme :: "string \<Rightarrow> err" where
  "unknown_scheme s = PlainErr (''unknown scheme: '' @ s)"

definition direct_node :: "endpoint \<Rightarrow> backend \<Rightarrow> target \<Rightarrow> node" where
  "direct_node e b t =
    newNode (if tg_authority t = [] then tg_endpoint t else tg_authority t) (ep_protocol e) (bk_weight b) [] [] []"

fun apply_backends :: "'x client_env \<Rightarrow> (string \<Rightarrow> 'x \<Rightarrow> bool \<times> 'x) \<Rightarrow> endpoint \<Rightarrow> backend list \<Rightarrow> node list
    \<Rightarrow> 'x \<Rightarrow> err option \<times> 'x" where
  "apply_backends C watch e [] nodes x = (None, x)"
| "apply_backends C watch e (b # bs) nodes x =
     (case parseTarget (bk_target b) of
        None \<Rightarrow> (Some url_error, x)
      | Some t \<Rightarrow>
          if tg_scheme t = ''direct'' then
            (let nodes' = nodes @ [direct_node e b t]
             in apply_backends C watch e bs nodes' (cx_apply C nodes' x))
          else if tg_scheme t = ''discovery'' then
            apply_backends C watch e bs nodes (snd (watch (tg_endpoint t) x))
          else (Some (unknown_scheme (tg_scheme t)), x))"

definition applier_apply :: "'x client_env \<Rightarrow> (string \<Rightarrow> 'x \<Rightarrow> bool \<times> 'x) \<Rightarrow> endpoint \<Rightarrow> 'x \<Rightarrow> err option \<times> 'x" where
  "applier_apply C watch e x = apply_backends C watch e (ep_backends e) [] x"

section \<open>The factory\<close>

record factory_options =
  fo_enable_health :: bool
  fo_interval :: int
  fo_timeout :: int
  fo_max_retries :: int

definition default_options :: factory_options where
  "default_options = \<lparr>fo_enable_health = True, fo_interval = HealthCheckInterval,
     fo_timeout = HealthCheckTimeout, fo_max_retries = 3\<rparr>"

definition WithHealthCheck :: "bool \<Rightarrow> factory_options \<Rightarrow> factory_options" where
  "WithHealthCheck enable o' = o'\<lparr>fo_enable_health := enable\<rparr>"

definition WithHealthCheckInterval :: "int \<Rightarrow> factory_options \<Rightarrow> factory_options" where
  "WithHealthCheckInterval d o' = o'\<lparr>fo_interval := d\<rparr>"

definition WithHealthCheckTimeout :: "int \<Rightarrow> factory_options \<Rightarrow> factory_options" where
  "WithHealthCheckTimeout d o' = o'\<lparr>fo_timeout := d\<rparr>"

record 'x factory_env =
  fe_client :: "endpoint \<Rightarrow> 'x client_env"
  fe_watch :: "endpoint \<Rightarrow> string \<Rightarrow> 'x \<Rightarrow> bool \<times> 'x"
  fe_cancel :: "endpoint \<Rightarrow> 'x \<Rightarrow> 'x"

text \<open>The wrapper for gRPC wildcard routes only delegates.\<close>

definition grpcClient_RoundTrip :: "'w round_tripper \<Rightarrow> 'w round_tripper" where
  "grpcClient_RoundTrip inner = inner"

definition grpcClient_Close :: "'w closer \<Rightarrow> 'w closer" where
  "grpcClient_Close inner = inner"

definition started_checker :: "factory_options \<Rightarrow> health" where
  "started_checker o' =
    fst (hc_Start (NewHealthChecker []
      [WithCheckInterval (fo_interval o'), WithCheckTimeout (fo_timeout o'), WithMaxFailures (fo_max_retries o')],
      NotStarted))"

definition NewFactory :: "'x factory_env \<Rightarrow> (factory_options \<Rightarrow> factory_options) list \<Rightarrow> 'x world client_factory" where
  "NewFactory F opts e w =
    (let o' = fold (\<lambda>f a. f a) opts default_options;
         C = fe_client F e;
         x0 = (if fo_enable_health o' then cx_set_health C (started_checker o') (w_ext w) else w_ext w)
     in case applier_apply C (fe_watch F e) e x0 of
          (Some er, x1) \<Rightarrow>
            (Inl er, upd_ext (\<lambda>_. if fo_enable_health o'
                then (case cx_health C x1 of Some hc \<Rightarrow> cx_set_health C (hc_Stop hc) x1 | None \<Rightarrow> x1)
                else x1) w)
        | (None, x1) \<Rightarrow>
            (let c = newClient (if fo_enable_health o' then [WithHealthChecker] else []);
                 rt = client_RoundTrip C c;
                 cl = client_Close C (fe_cancel F e) c
             in (Inr (if ep_protocol e = GRPC \<and> hasSuffix (ep_path e) ''*''
                      then \<lparr>cl_round_trip = grpcClient_RoundTrip rt, cl_close = grpcClient_Close cl\<rparr>
                      else \<lparr>cl_round_trip = rt, cl_close = cl\<rparr>),
                 upd_ext (\<lambda>_. x1) w)))"

section \<open>Lemmas\<close>

lemma nodeWeight_bounds: "1 \<le> nodeWeight n \<and> nodeWeight n < 2 ^ 63"
proof (cases "map_of (si_metadata n) ''weight''")
  case (Some w)
  have "fst (parseInt 64 w) < 2 ^ 63" using parseInt_bounds [of 64 w] by simp
  then show ?thesis using Some by (simp add: nodeWeight_def Let_def)
qed (simp add: nodeWeight_def)

lemma apply_direct:
  assumes "\<And>ns x. cx_health C (cx_apply C ns x) = cx_health C x"
    and "list_all (\<lambda>b. \<exists>t. parseTarget (bk_target b) = Some t \<and> tg_scheme t = ''direct'') bs"
  shows "\<exists>x'. apply_backends C watch e bs nodes x = (None, x') \<and> cx_health C x' = cx_health C x"
  using assms(2)
proof (induction bs arbitrary: nodes x)
  case (Cons b bs)
  then obtain t where t: "parseTarget (bk_target b) = Some t" "tg_scheme t = ''direct''" by auto
  show ?case
    using Cons.IH [of "nodes @ [direct_node e b t]" "cx_apply C (nodes @ [direct_node e b t]) x"] Cons.prems t assms(1)
    by (simp add: Let_def)
qed simp

lemma instance_nodes_from:
  "n \<in> set (instance_nodes e services) \<Longrightarrow> \<exists>ser\<in>set services.
    instance_address (toLower (protocol_String (ep_protocol e))) ser = Some (nd_address n)
    \<and> nd_protocol n = ep_protocol e \<and> nd_weight n = Some (nodeWeight ser)"
  by (auto simp: instance_nodes_def newNode_def split: option.splits)


section \<open>Properties\<close>

text \<open>Reading back what was written to the place of the health checker.\<close>

definition health_lens :: "'x client_env \<Rightarrow> bool" where
  "health_lens C \<longleftrightarrow> (\<forall>h x. cx_health C (cx_set_health C h x) = Some h)
     \<and> (\<forall>h x. cx_nodes C (cx_set_health C h x) = cx_nodes C x)"

text \<open>C15: A push of the registry leaves selector and health checker in step:
  both hold exactly the instances with a usable address, a known instance
  keeps its failure count, a new one starts healthy, and every weight given to
  the selector is a positive 64-bit number.\<close>

theorem callback_synchronises:
  assumes "selector_ok C" "health_lens C" "services \<noteq> []" "cx_health C x = Some hc"
  shows "\<exists>x' hc'. Callback C e True False services x = (None, x')
    \<and> cx_nodes C x' = instance_nodes e services \<and> cx_health C x' = Some hc'
    \<and> dom (hc_nodes hc') = nd_address ` set (instance_nodes e services)
    \<and> list_all (\<lambda>n. (hc_failures hc' (nd_address n) = (if hc_nodes hc (nd_address n) = None then Some 0
                      else hc_failures hc (nd_address n)))
                  \<and> (\<exists>k. nd_weight n = Some k \<and> 1 \<le> k \<and> k < 2 ^ 63)) (instance_nodes e services)"
proof -
  define ns where "ns = instance_nodes e services"
  define x' where "x' = cx_set_health C (updateNodes ns hc) (cx_apply C ns x)"
  have h: "cx_health C (cx_apply C ns x) = Some hc" using assms(1,4) by (simp add: selector_ok_def)
  have cb: "Callback C e True False services x = (None, x')"
    using assms(3) h by (simp add: Callback_def Let_def ns_def [symmetric] x'_def)
  have nodes: "cx_nodes C x' = ns" using assms(1,2) by (simp add: x'_def health_lens_def selector_ok_def)
  have h': "cx_health C x' = Some (updateNodes ns hc)" using assms(2) by (simp add: x'_def health_lens_def)
  have dm: "dom (hc_nodes (updateNodes ns hc)) = nd_address ` set ns"
  proof (rule set_eqI)
    fix a
    show "a \<in> dom (hc_nodes (updateNodes ns hc)) \<longleftrightarrow> a \<in> nd_address ` set ns"
      using latest_nodes_None [of ns a] by (auto simp only: updateNodes_dom domIff)
  qed
  have each: "hc_failures (updateNodes ns hc) (nd_address n) =
      (if hc_nodes hc (nd_address n) = None then Some 0 else hc_failures hc (nd_address n))" if "n \<in> set ns" for n
  proof -
    have l: "latest_nodes ns (nd_address n) \<noteq> None" using that by (auto simp: latest_nodes_None)
    show ?thesis
      using updateNodes_fresh(2) [OF _ l, of hc] updateNodes_survivor(2) [OF _ l, of hc] by auto
  qed
  have w: "\<exists>k. nd_weight n = Some k \<and> 1 \<le> k \<and> k < 2 ^ 63" if "n \<in> set ns" for n
    using instance_nodes_from [of n e services] that nodeWeight_bounds by (auto simp: ns_def)
  show ?thesis
    unfolding ns_def [symmetric] using cb nodes h' dm each w by (auto simp: list_all_iff)
qed

definition sample_instance :: service_instance where
  "sample_instance = \<lparr>si_id = ''i1'', si_name = ''shop'', si_version = ''v1'',
     si_metadata = [(''weight'', ''-3'')], si_endpoints = [''grpc://10.0.0.9:9000'', ''http://10.0.0.9:80'']\<rparr>"

lemma sample_health_lens: "health_lens (sample_client_env a)"
  by (simp add: health_lens_def sample_client_env_def)

lemma sample_instance_nodes:
  "instance_nodes sample_endpoint [sample_instance] =
    [newNode ''10.0.0.9:80'' HTTP (Some 10) [(''weight'', ''-3'')] ''v1'' ''shop'']"
  by code_simp

theorem callback_synchronises_witness:
  "\<exists>x'. Callback (sample_client_env (Inl CtxCanceled)) sample_endpoint True False [sample_instance] sample_ext_state = (None, x')
    \<and> cx_nodes (sample_client_env (Inl CtxCanceled)) x' = [newNode ''10.0.0.9:80'' HTTP (Some 10) [(''weight'', ''-3'')] ''v1'' ''shop'']"
proof -
  have h: "cx_health (sample_client_env (Inl CtxCanceled)) sample_ext_state = Some (snd sample_ext_state)"
    by (simp add: sample_client_env_def)
  show ?thesis
    using callback_synchronises [OF sample_selector_ok sample_health_lens _ h, where services = "[sample_instance]"
        and e = sample_endpoint]
    unfolding sample_instance_nodes by auto
qed

text \<open>C16: An endpoint all of whose backends are direct targets gets no
  traffic with the default options: the applier gives its nodes to the selector
  but not to the health checker, which starts empty and holds an unknown
  address unhealthy, so the health filter drops every node.\<close>

theorem direct_backends_get_no_traffic:
  assumes "fe_client F e = C" "selector_ok C" "health_lens C"
    and "list_all (\<lambda>b. \<exists>t. parseTarget (bk_target b) = Some t \<and> tg_scheme t = ''direct'') (ep_backends e)"
    and "NewFactory F [] e w = (Inr cl, w1)" "w2 = upd_opts (\<lambda>_. NewRequestOptions e) w1"
  shows "upstream_nodes (snd (cl_round_trip cl req w2)) = upstream_nodes w2
    \<and> (\<exists>er. fst (cl_round_trip cl req w2) = Ret None er)"
proof -
  define x0 where "x0 = cx_set_health C (started_checker default_options) (w_ext w)"
  have h0: "cx_health C x0 = Some (started_checker default_options)"
    using assms(3) by (simp add: x0_def health_lens_def)
  have ap: "cx_health C (cx_apply C ns x) = cx_health C x" for ns x using assms(2) by (simp add: selector_ok_def)
  obtain x1 where x1: "applier_apply C (fe_watch F e) e x0 = (None, x1)" "cx_health C x1 = cx_health C x0"
    using apply_direct [of C, OF ap assms(4)] unfolding applier_apply_def by blast
  have opts: "fold (\<lambda>f a. f a) [] default_options = default_options" "fo_enable_health default_options"
    by (simp_all add: default_options_def)
  have rt: "cl_round_trip cl = client_RoundTrip C gateway_client" and w1: "w_ext w1 = x1"
    using assms(1,5) x1(1) opts
    by (auto simp: NewFactory_def Let_def x0_def gateway_client_def grpcClient_RoundTrip_def split: if_splits)
  have h2: "cx_health C (w_ext w2) = Some (started_checker default_options)"
    by (simp add: assms(6) w1 x1(2) h0)
  have unhealthy: "\<not> IsHealthy (started_checker default_options) n" for n
    by (simp add: IsHealthy_def started_checker_def hc_Start_def NewHealthChecker_def WithCheckInterval_def
        WithCheckTimeout_def WithMaxFailures_def)
  have nar: "narrowing (w_opts w2)" by (simp add: assms(6) NewRequestOptions_narrowing)
  obtain sel x2 where s: "cx_select C (select_filters C gateway_client w2) (w_ext w2) = (sel, x2)" by force
  have "\<exists>er. sel = Inl er"
  proof (cases sel)
    case (Inr nd')
    obtain n d where "nd' = (n, d)" by (cases nd')
    then show ?thesis
      using selected_healthy [OF assms(2) nar gateway_client_fields(1) h2, of n d] s Inr unhealthy by simp
  qed blast
  then obtain er where "sel = Inl er" by blast
  then have "client_RoundTrip C gateway_client req w2 = (Ret None (Some er), append_status 0 (upd_ext (\<lambda>_. x2) w2))"
    using RoundTrip_select_fails s by simp
  then show ?thesis by (simp add: rt)
qed

definition direct_endpoint :: endpoint where
  "direct_endpoint = sample_endpoint\<lparr>ep_backends :=
     [\<lparr>bk_target = ''127.0.0.1:8000'', bk_weight = None, bk_health_check = False\<rparr>]\<rparr>"

lemma direct_target: "map_option tg_scheme (parseTarget ''127.0.0.1:8000'') = Some ''direct''"
  by code_simp

definition sample_factory :: "sample_ext factory_env" where
  "sample_factory = \<lparr>fe_client = (\<lambda>e. sample_client_env (Inr (sample_response 200))),
     fe_watch = (\<lambda>e s x. (False, x)), fe_cancel = (\<lambda>e x. x)\<rparr>"

theorem direct_backends_get_no_traffic_witness:
  "\<exists>cl w1 er. NewFactory sample_factory [] direct_endpoint (client_world sample_ext_state) = (Inr cl, w1)
    \<and> fst (cl_round_trip cl sample_request (upd_opts (\<lambda>_. NewRequestOptions direct_endpoint) w1)) = Ret None er"
proof -
  have backs: "ep_backends direct_endpoint = [\<lparr>bk_target = ''127.0.0.1:8000'', bk_weight = None, bk_health_check = False\<rparr>]"
    by (simp add: direct_endpoint_def)
  have dir: "list_all (\<lambda>b. \<exists>t. parseTarget (bk_target b) = Some t \<and> tg_scheme t = ''direct'') (ep_backends direct_endpoint)"
    using direct_target by (auto simp: backs)
  have env: "fe_client sample_factory direct_endpoint = sample_client_env (Inr (sample_response 200))"
    by (simp add: sample_factory_def)
  obtain cl w1 where f: "NewFactory sample_factory [] direct_endpoint (client_world sample_ext_state) = (Inr cl, w1)"
    using direct_target
    by (auto simp: NewFactory_def Let_def default_options_def applier_apply_def backs env split: if_splits)
  show ?thesis
    using direct_backends_get_no_traffic [OF env sample_selector_ok sample_health_lens dir f refl] f by blast
qed

end
