(* ===== verification/Service_Watch.thy ===== *)
theory Service_Watch
  imports Factory
begin

text \<open>
  Package client, file servicewatch.go: one goroutine per watched endpoint,
  shared by all appliers of the endpoint, and a goroutine that removes canceled
  appliers.  A status object is named by its index; every critical section
  under the lock and every call of the registry is one step of the relation at
  the end, so all interleavings are covered.  The registry answers anything at
  any time.
\<close>

section \<open>Retry delays\<close>

abbreviation second :: int where
  "second \<equiv> 1000000000"

definition DiscoveryRetrySteps :: "int list" where
  "DiscoveryRetrySteps = [1 * second, 10 * second, 30 * second, 60 * second]"

abbreviation DiscoveryMaxRetryDelay :: int where
  "DiscoveryMaxRetryDelay \<equiv> 60 * second"

text \<open>\<open>None\<close> is the panic of a negative index.\<close>

definition calculateRetryDelay :: "int \<Rightarrow> int \<Rightarrow> int option" where
  "calculateRetryDelay failureCount maxDelay =
    (let index = failureCount - 1 in
     if index \<ge> int (length DiscoveryRetrySteps) then Some maxDelay
     else if index < 0 then None
     else (let delay = DiscoveryRetrySteps ! nat index in Some (if delay > maxDelay then maxDelay else delay)))"

section \<open>State\<close>

record watcher_status =
  st_watcher :: "nat option"
  st_canceled :: bool
  st_selected :: "service_instance list"

text \<open>Where the goroutine of a status object is in watchLoop, with its failure
  count: at the top, in discovery.Watch, in watcher.Next, between the update of
  the cache and the callbacks, behind a failure, waiting, returned.\<close>

datatype loop_pc =
    AtTop int
  | InWatch int
  | InNext int nat
  | InCallback int nat "service_instance list"
  | AfterFailure int "nat option" err
  | InWait int
  | Returned

record watch_obj =
  wo_status :: watcher_status
  wo_endpoint :: string
  wo_pc :: loop_pc

text \<open>Where the cleanup goroutine is: the endpoints still to visit, after the
  collection of the canceled appliers of one, before the test whether the
  watcher of one is still needed, before the cancel and Stop of its status.\<close>

datatype cleanup_pc =
    CleanIdle
  | CleanVisit "string list"
  | CleanDelete string "string list" "string list"
  | CleanStop string "string list"
  | CleanCancel nat "nat option" "string list"

text \<open>Appliers carry an identifier of type 'a and act on the rest of the process
  state.  \<open>sw_adds\<close> holds the callbacks with cached instances that calls of Add
  have still to make, \<open>sw_log\<close> the callbacks made, \<open>sw_stopped\<close> the watchers
  stopped.\<close>

record ('a, 'x) service_watcher =
  sw_objs :: "watch_obj list"
  sw_status :: "string \<rightharpoonup> nat"
  sw_appliers :: "(string \<times> (string \<times> 'a) list) list"
  sw_adds :: "('a \<times> service_instance list) list"
  sw_clean :: cleanup_pc
  sw_log :: "('a \<times> service_instance list) list"
  sw_stopped :: "nat list"
  sw_ext :: 'x

record ('a, 'x) applier_ops =
  ap_Callback :: "'a \<Rightarrow> service_instance list \<Rightarrow> 'x \<Rightarrow> err option \<times> 'x"
  ap_Canceled :: "'a \<Rightarrow> 'x \<Rightarrow> bool"

definition newServiceWatcher :: "'x \<Rightarrow> ('a, 'x) service_watcher" where
  "newServiceWatcher x =
    \<lparr>sw_objs = [], sw_status = Map.empty, sw_appliers = [], sw_adds = [], sw_clean = CleanIdle,
     sw_log = [], sw_stopped = [], sw_ext = x\<rparr>"

definition upd_obj :: "nat \<Rightarrow> (watch_obj \<Rightarrow> watch_obj) \<Rightarrow> ('a, 'x) service_watcher \<Rightarrow> ('a, 'x) service_watcher" where
  "upd_obj i f s = s\<lparr>sw_objs := (sw_objs s)[i := f (sw_objs s ! i)]\<rparr>"

definition set_pc :: "nat \<Rightarrow> loop_pc \<Rightarrow> ('a, 'x) service_watcher \<Rightarrow> ('a, 'x) service_watcher" where
  "set_pc i pc = upd_obj i (\<lambda>o'. o'\<lparr>wo_pc := pc\<rparr>)"

definition canceled :: "('a, 'x) service_watcher \<Rightarrow> nat \<Rightarrow> bool" where
  "canceled s i = st_canceled (wo_status (sw_objs s ! i))"

definition endpoint_appliers :: "('a, 'x) service_watcher \<Rightarrow> string \<Rightarrow> (string \<times> 'a) list" where
  "endpoint_appliers s ep = (case map_of (sw_appliers s) ep of None \<Rightarrow> [] | Some as \<Rightarrow> as)"

section \<open>Operations\<close>

text \<open>instancesSetHash sorts its argument in place; the hash itself only goes
  to the log.\<close>

definition sort_instances :: "service_instance list \<Rightarrow> service_instance list" where
  "sort_instances is = sort_key si_id is"

definition setSelectedCache :: "string \<Rightarrow> nat \<Rightarrow> service_instance list \<Rightarrow> ('a, 'x) service_watcher \<Rightarrow> bool \<times> ('a, 'x) service_watcher" where
  "setSelectedCache ep i is s =
    (if sw_status s ep \<noteq> Some i then (False, s)
     else (True, upd_obj i (\<lambda>o'. o'\<lparr>wo_status := (wo_status o')\<lparr>st_selected := is\<rparr>\<rparr>) s))"

definition getSelectedCache :: "string \<Rightarrow> ('a, 'x) service_watcher \<Rightarrow> service_instance list option" where
  "getSelectedCache ep s = map_option (\<lambda>i. st_selected (wo_status (sw_objs s ! i))) (sw_status s ep)"

definition getAppliers :: "string \<Rightarrow> ('a, 'x) service_watcher \<Rightarrow> (string \<times> 'a) list option" where
  "getAppliers ep s = map_of (sw_appliers s) ep"

definition add_applier :: "string \<Rightarrow> string \<Rightarrow> 'a \<Rightarrow> ('a, 'x) service_watcher \<Rightarrow> ('a, 'x) service_watcher" where
  "add_applier ep uuid a s =
    s\<lparr>sw_appliers := AList.update ep (AList.update uuid a (endpoint_appliers s ep)) (sw_appliers s)\<rparr>"

text \<open>Add up to the release of the lock; the callback with the cached instances
  comes later.  A new status starts its goroutine.\<close>

definition Add_locked :: "string \<Rightarrow> 'a option \<Rightarrow> string \<Rightarrow> ('a, 'x) service_watcher \<Rightarrow> bool \<times> ('a, 'x) service_watcher" where
  "Add_locked ep applier uuid s =
    (let existed = sw_status s ep \<noteq> None;
         s1 = (if existed then s
               else s\<lparr>sw_objs := sw_objs s @ [\<lparr>wo_status = \<lparr>st_watcher = None, st_canceled = False, st_selected = []\<rparr>,
                                              wo_endpoint = ep, wo_pc = AtTop 0\<rparr>],
                      sw_status := (sw_status s)(ep \<mapsto> length (sw_objs s))\<rparr>);
         s2 = (case applier of None \<Rightarrow> s1 | Some a \<Rightarrow> add_applier ep uuid a s1);
         cached = (case getSelectedCache ep s2 of None \<Rightarrow> [] | Some is \<Rightarrow> is)
     in (existed,
         if existed \<and> cached \<noteq> [] then
           (case applier of None \<Rightarrow> s2 | Some a \<Rightarrow> s2\<lparr>sw_adds := sw_adds s2 @ [(a, cached)]\<rparr>)
         else s2))"

definition call_applier :: "('a, 'x) applier_ops \<Rightarrow> 'a \<Rightarrow> service_instance list \<Rightarrow> ('a, 'x) service_watcher
    \<Rightarrow> err option \<times> ('a, 'x) service_watcher" where
  "call_applier P a is s =
    (case ap_Callback P a is (sw_ext s) of
       (r, x1) \<Rightarrow> (r, s\<lparr>sw_ext := x1, sw_log := sw_log s @ [(a, is)]\<rparr>))"

definition setWatcher :: "string \<Rightarrow> nat \<Rightarrow> nat \<Rightarrow> ('a, 'x) service_watcher \<Rightarrow> bool \<times> ('a, 'x) service_watcher" where
  "setWatcher ep i k s =
    (if sw_status s ep \<noteq> Some i then (False, s)
     else (True, upd_obj i (\<lambda>o'. o'\<lparr>wo_status := (wo_status o')\<lparr>st_watcher := Some k\<rparr>\<rparr>) s))"

definition removeWatcher :: "string \<Rightarrow> nat \<Rightarrow> ('a, 'x) service_watcher \<Rightarrow> ('a, 'x) service_watcher" where
  "removeWatcher ep i s =
    (if sw_status s ep = Some i then s\<lparr>sw_status := (sw_status s)(ep := None)\<rparr> else s)"

definition stop_watcher :: "nat option \<Rightarrow> ('a, 'x) service_watcher \<Rightarrow> ('a, 'x) service_watcher" where
  "stop_watcher k s = (case k of None \<Rightarrow> s | Some n \<Rightarrow> s\<lparr>sw_stopped := sw_stopped s @ [n]\<rparr>)"

text \<open>The first part of applyServices; the flag says whether callbacks follow.\<close>

definition applyServices_cache :: "string \<Rightarrow> nat \<Rightarrow> service_instance list \<Rightarrow> ('a, 'x) service_watcher
    \<Rightarrow> bool \<times> ('a, 'x) service_watcher" where
  "applyServices_cache ep i services s =
    (if services = [] then (False, s) else setSelectedCache ep i (sort_instances services) s)"

text \<open>doCallback over the appliers, in the order the loop visits the map.\<close>

fun doCallback_loop :: "('a, 'x) applier_ops \<Rightarrow> (string \<times> 'a) list \<Rightarrow> service_instance list
    \<Rightarrow> ('a, 'x) service_watcher \<Rightarrow> ('a, 'x) service_watcher" where
  "doCallback_loop P [] is s = s"
| "doCallback_loop P ((uuid, a) # as) is s = doCallback_loop P as is (snd (call_applier P a is s))"

definition doCallback :: "('a, 'x) applier_ops \<Rightarrow> string \<Rightarrow> service_instance list \<Rightarrow> ('a, 'x) service_watcher
    \<Rightarrow> ('a, 'x) service_watcher" where
  "doCallback P ep is s = doCallback_loop P (endpoint_appliers s ep) is s"

text \<open>The three critical sections of the cleanup.\<close>

definition collect_canceled :: "('a, 'x) applier_ops \<Rightarrow> string \<Rightarrow> ('a, 'x) service_watcher \<Rightarrow> string list" where
  "collect_canceled P ep s = map fst (filter (\<lambda>(uuid, a). ap_Canceled P a (sw_ext s)) (endpoint_appliers s ep))"

definition delete_appliers :: "string \<Rightarrow> string list \<Rightarrow> ('a, 'x) service_watcher \<Rightarrow> ('a, 'x) service_watcher" where
  "delete_appliers ep ids s =
    (case map_of (sw_appliers s) ep of
       None \<Rightarrow> s
     | Some as \<Rightarrow> s\<lparr>sw_appliers := AList.update ep (filter (\<lambda>(u, a). u \<notin> set ids) as) (sw_appliers s)\<rparr>)"

definition stopWatcherIfUnused :: "string \<Rightarrow> string list \<Rightarrow> ('a, 'x) service_watcher \<Rightarrow> ('a, 'x) service_watcher" where
  "stopWatcherIfUnused ep eps s =
    (if endpoint_appliers s ep \<noteq> [] then s\<lparr>sw_clean := CleanVisit eps\<rparr>
     else
       (let s1 = s\<lparr>sw_appliers := AList.delete ep (sw_appliers s), sw_status := (sw_status s)(ep := None)\<rparr>
        in case sw_status s ep of
             None \<Rightarrow> s1\<lparr>sw_clean := CleanVisit eps\<rparr>
           | Some i \<Rightarrow> s1\<lparr>sw_clean := CleanCancel i (st_watcher (wo_status (sw_objs s ! i))) eps\<rparr>))"

definition cancel_status :: "nat \<Rightarrow> ('a, 'x) service_watcher \<Rightarrow> ('a, 'x) service_watcher" where
  "cancel_status i = upd_obj i (\<lambda>o'. o'\<lparr>wo_status := (wo_status o')\<lparr>st_canceled := True\<rparr>\<rparr>)"

text \<open>errors.Is(err, context.Canceled); kratos errors match only kratos errors.\<close>

definition is_canceled :: "err \<Rightarrow> bool" where
  "is_canceled e = err_is (\<lambda>_ _. False) e CtxCanceled"

section \<open>Steps\<close>

text \<open>A step of the goroutine of status object \<open>i\<close> of endpoint \<open>ep\<close>.  What the
  registry returns is free; reading whether the context is done is a step of
  its own where the code does it.\<close>

inductive loop_step :: "('a, 'x) applier_ops \<Rightarrow> nat \<Rightarrow> ('a, 'x) service_watcher \<Rightarrow> ('a, 'x) service_watcher \<Rightarrow> bool"
  for P :: "('a, 'x) applier_ops" and i :: nat where
  top_canceled: "\<lbrakk> wo_pc (sw_objs s ! i) = AtTop n; canceled s i \<rbrakk>
    \<Longrightarrow> loop_step P i s (set_pc i Returned (removeWatcher (wo_endpoint (sw_objs s ! i)) i s))"
| top: "\<lbrakk> wo_pc (sw_objs s ! i) = AtTop n; \<not> canceled s i \<rbrakk> \<Longrightarrow> loop_step P i s (set_pc i (InWatch n) s)"
| watch_failed: "wo_pc (sw_objs s ! i) = InWatch n \<Longrightarrow> loop_step P i s (set_pc i (AfterFailure n k e) s)"
| watch_ok: "\<lbrakk> wo_pc (sw_objs s ! i) = InWatch n; setWatcher (wo_endpoint (sw_objs s ! i)) i k s = (True, s1) \<rbrakk>
    \<Longrightarrow> loop_step P i s (set_pc i (InNext n k) s1)"
| watch_replaced: "\<lbrakk> wo_pc (sw_objs s ! i) = InWatch n; setWatcher (wo_endpoint (sw_objs s ! i)) i k s = (False, s1) \<rbrakk>
    \<Longrightarrow> loop_step P i s (set_pc i Returned (stop_watcher (Some k) s1))"
| next_failed: "wo_pc (sw_objs s ! i) = InNext n k \<Longrightarrow> loop_step P i s (set_pc i (AfterFailure n (Some k) e) s)"
| next_ignored: "\<lbrakk> wo_pc (sw_objs s ! i) = InNext n k;
      applyServices_cache (wo_endpoint (sw_objs s ! i)) i services s = (False, s1) \<rbrakk>
    \<Longrightarrow> loop_step P i s (set_pc i (InNext 0 k) s1)"
| next_applied: "\<lbrakk> wo_pc (sw_objs s ! i) = InNext n k;
      applyServices_cache (wo_endpoint (sw_objs s ! i)) i services s = (True, s1) \<rbrakk>
    \<Longrightarrow> loop_step P i s (set_pc i (InCallback 0 k (sort_instances services)) s1)"
| callbacks: "wo_pc (sw_objs s ! i) = InCallback n k services
    \<Longrightarrow> loop_step P i s (set_pc i (InNext n k) (doCallback P (wo_endpoint (sw_objs s ! i)) services s))"
| failure_canceled: "\<lbrakk> wo_pc (sw_objs s ! i) = AfterFailure n k e; is_canceled e \<or> canceled s i \<rbrakk>
    \<Longrightarrow> loop_step P i s (set_pc i Returned (removeWatcher (wo_endpoint (sw_objs s ! i)) i (stop_watcher k s)))"
| failure: "\<lbrakk> wo_pc (sw_objs s ! i) = AfterFailure n k e; \<not> is_canceled e; \<not> canceled s i \<rbrakk>
    \<Longrightarrow> loop_step P i s (set_pc i (InWait (n + 1)) (stop_watcher k s))"
| wait_over: "wo_pc (sw_objs s ! i) = InWait n \<Longrightarrow> loop_step P i s (set_pc i (AtTop n) s)"
| wait_canceled: "\<lbrakk> wo_pc (sw_objs s ! i) = InWait n; canceled s i \<rbrakk>
    \<Longrightarrow> loop_step P i s (set_pc i Returned (removeWatcher (wo_endpoint (sw_objs s ! i)) i s))"

text \<open>A step of the cleanup goroutine.\<close>

inductive clean_step :: "('a, 'x) applier_ops \<Rightarrow> ('a, 'x) service_watcher \<Rightarrow> ('a, 'x) service_watcher \<Rightarrow> bool"
  for P :: "('a, 'x) applier_ops" where
  clean_start: "sw_clean s = CleanIdle \<Longrightarrow> clean_step P s (s\<lparr>sw_clean := CleanVisit (map fst (sw_appliers s))\<rparr>)"
| clean_done: "sw_clean s = CleanVisit [] \<Longrightarrow> clean_step P s (s\<lparr>sw_clean := CleanIdle\<rparr>)"
| clean_none: "\<lbrakk> sw_clean s = CleanVisit (ep # eps); collect_canceled P ep s = [] \<rbrakk>
    \<Longrightarrow> clean_step P s (s\<lparr>sw_clean := CleanVisit eps\<rparr>)"
| clean_some: "\<lbrakk> sw_clean s = CleanVisit (ep # eps); collect_canceled P ep s \<noteq> [] \<rbrakk>
    \<Longrightarrow> clean_step P s (s\<lparr>sw_clean := CleanDelete ep (collect_canceled P ep s) eps\<rparr>)"
| clean_delete: "sw_clean s = CleanDelete ep ids eps
    \<Longrightarrow> clean_step P s ((delete_appliers ep ids s)\<lparr>sw_clean := CleanStop ep eps\<rparr>)"
| clean_stop: "sw_clean s = CleanStop ep eps \<Longrightarrow> clean_step P s (stopWatcherIfUnused ep eps s)"
| clean_cancel: "sw_clean s = CleanCancel i k eps
    \<Longrightarrow> clean_step P s ((stop_watcher k (cancel_status i s))\<lparr>sw_clean := CleanVisit eps\<rparr>)"

text \<open>A step of the process: a call of Add, the callback such a call still has to
  make, a step of a goroutine, or a change of the state the appliers act on.\<close>

inductive sw_step :: "('a, 'x) applier_ops \<Rightarrow> ('a, 'x) service_watcher \<Rightarrow> ('a, 'x) service_watcher \<Rightarrow> bool"
  for P :: "('a, 'x) applier_ops" where
  add: "sw_step P s (snd (Add_locked ep applier uuid s))"
| add_callback: "\<lbrakk> sw_adds s = before @ (a, is) # after \<rbrakk>
    \<Longrightarrow> sw_step P s (snd (call_applier P a is (s\<lparr>sw_adds := before @ after\<rparr>)))"
| loop: "\<lbrakk> i < length (sw_objs s); loop_step P i s s' \<rbrakk> \<Longrightarrow> sw_step P s s'"
| clean: "clean_step P s s' \<Longrightarrow> sw_step P s s'"
| other: "sw_step P s (s\<lparr>sw_ext := x\<rparr>)"

inductive sw_reachable :: "('a, 'x) applier_ops \<Rightarrow> ('a, 'x) service_watcher \<Rightarrow> bool" for P :: "('a, 'x) applier_ops" where
  sw_init: "sw_reachable P (newServiceWatcher x)"
| sw_next: "\<lbrakk> sw_reachable P s; sw_step P s s' \<rbrakk> \<Longrightarrow> sw_reachable P s'"

inductive_cases loop_stepE: "loop_step P i s s'"
inductive_cases clean_stepE: "clean_step P s s'"

section \<open>What the operations keep\<close>

lemma upd_obj_fields [simp]:
  "sw_status (upd_obj i f s) = sw_status s" "sw_clean (upd_obj i f s) = sw_clean s"
  "sw_objs (upd_obj i f s) = (sw_objs s)[i := f (sw_objs s ! i)]" "sw_adds (upd_obj i f s) = sw_adds s"
  "sw_appliers (upd_obj i f s) = sw_appliers s" "sw_log (upd_obj i f s) = sw_log s"
  by (simp_all add: upd_obj_def)

lemma set_pc_fields [simp]:
  "sw_status (set_pc i pc s) = sw_status s" "sw_clean (set_pc i pc s) = sw_clean s"
  "sw_objs (set_pc i pc s) = (sw_objs s)[i := (sw_objs s ! i)\<lparr>wo_pc := pc\<rparr>]"
  "sw_adds (set_pc i pc s) = sw_adds s" "sw_appliers (set_pc i pc s) = sw_appliers s" "sw_log (set_pc i pc s) = sw_log s"
  by (simp_all add: set_pc_def)

lemma removeWatcher_fields [simp]:
  "sw_objs (removeWatcher ep i s) = sw_objs s" "sw_clean (removeWatcher ep i s) = sw_clean s"
  "sw_status (removeWatcher ep i s) e = (if e = ep \<and> sw_status s ep = Some i then None else sw_status s e)"
  by (simp_all add: removeWatcher_def)

lemma stop_watcher_fields [simp]:
  "sw_objs (stop_watcher k s) = sw_objs s" "sw_clean (stop_watcher k s) = sw_clean s"
  "sw_status (stop_watcher k s) = sw_status s"
  by (simp_all add: stop_watcher_def split: option.splits)

lemma call_applier_fields [simp]:
  "sw_objs (snd (call_applier P a is s)) = sw_objs s" "sw_clean (snd (call_applier P a is s)) = sw_clean s"
  "sw_status (snd (call_applier P a is s)) = sw_status s" "sw_appliers (snd (call_applier P a is s)) = sw_appliers s"
  "sw_adds (snd (call_applier P a is s)) = sw_adds s" "sw_log (snd (call_applier P a is s)) = sw_log s @ [(a, is)]"
  by (simp_all add: call_applier_def split: prod.splits)

lemma doCallback_loop_fields [simp]:
  "sw_objs (doCallback_loop P as is s) = sw_objs s" "sw_clean (doCallback_loop P as is s) = sw_clean s"
  "sw_status (doCallback_loop P as is s) = sw_status s"
  by (induction P as "is" s rule: doCallback_loop.induct) simp_all

lemma doCallback_fields [simp]:
  "sw_objs (doCallback P ep is s) = sw_objs s" "sw_clean (doCallback P ep is s) = sw_clean s"
  "sw_status (doCallback P ep is s) = sw_status s"
  by (simp_all add: doCallback_def)

lemma delete_appliers_fields [simp]:
  "sw_objs (delete_appliers ep ids s) = sw_objs s" "sw_status (delete_appliers ep ids s) = sw_status s"
  by (simp_all add: delete_appliers_def split: option.splits)

lemma add_applier_fields [simp]:
  "sw_objs (add_applier ep uuid a s) = sw_objs s" "sw_status (add_applier ep uuid a s) = sw_status s"
  "sw_clean (add_applier ep uuid a s) = sw_clean s"
  by (simp_all add: add_applier_def)

lemma Add_locked_objs:
  "sw_objs (snd (Add_locked ep applier uuid s)) =
    (if sw_status s ep = None
     then sw_objs s @ [\<lparr>wo_status = \<lparr>st_watcher = None, st_canceled = False, st_selected = []\<rparr>, wo_endpoint = ep, wo_pc = AtTop 0\<rparr>]
     else sw_objs s)"
  by (cases "sw_status s ep"; cases applier) (simp_all add: Add_locked_def Let_def)

lemma Add_locked_status:
  "sw_status (snd (Add_locked ep applier uuid s)) =
    (if sw_status s ep = None then (sw_status s)(ep \<mapsto> length (sw_objs s)) else sw_status s)"
  by (cases "sw_status s ep"; cases applier) (simp_all add: Add_locked_def Let_def)

lemma Add_locked_clean: "sw_clean (snd (Add_locked ep applier uuid s)) = sw_clean s"
  by (cases "sw_status s ep"; cases applier) (simp_all add: Add_locked_def Let_def)

lemma stopWatcherIfUnused_fields [simp]:
  "sw_objs (stopWatcherIfUnused ep eps s) = sw_objs s"
  "sw_status (stopWatcherIfUnused ep eps s) = (if endpoint_appliers s ep \<noteq> [] then sw_status s else (sw_status s)(ep := None))"
  "sw_clean (stopWatcherIfUnused ep eps s) = CleanCancel i k eps' \<longleftrightarrow>
     endpoint_appliers s ep = [] \<and> sw_status s ep = Some i \<and> k = st_watcher (wo_status (sw_objs s ! i)) \<and> eps' = eps"
  by (auto simp: stopWatcherIfUnused_def Let_def split: option.splits)

lemma sort_instances_Nil [simp]: "sort_instances is = [] \<longleftrightarrow> is = []"
  using length_sort [of si_id "is"] by (metis length_0_conv sort_instances_def)

lemma sorted_sort_instances [simp]: "sorted (map si_id (sort_instances is))"
  by (simp add: sort_instances_def)

section \<open>The invariant\<close>

text \<open>Failure counts are never negative and positive behind a failure; the cache
  of a status is sorted.\<close>

fun pc_ok :: "loop_pc \<Rightarrow> bool" where
  "pc_ok (AtTop n) = (0 \<le> n)"
| "pc_ok (InWatch n) = (0 \<le> n)"
| "pc_ok (InNext n k) = (0 \<le> n)"
| "pc_ok (InCallback n k is) = (n = 0 \<and> is \<noteq> [] \<and> sorted (map si_id is))"
| "pc_ok (AfterFailure n k e) = (0 \<le> n)"
| "pc_ok (InWait n) = (1 \<le> n)"
| "pc_ok Returned = True"

definition obj_ok :: "watch_obj \<Rightarrow> bool" where
  "obj_ok o' = (pc_ok (wo_pc o') \<and> sorted (map si_id (st_selected (wo_status o'))))"

text \<open>The status object the map holds for an endpoint is one of the endpoint,
  its goroutine has not returned and its context is not canceled; the one the
  cleanup is about to cancel is in the map no more.\<close>

definition live :: "('a, 'x) service_watcher \<Rightarrow> string \<Rightarrow> nat \<Rightarrow> bool" where
  "live s ep i = (i < length (sw_objs s) \<and> wo_endpoint (sw_objs s ! i) = ep
    \<and> wo_pc (sw_objs s ! i) \<noteq> Returned \<and> \<not> canceled s i)"

definition sw_inv :: "('a, 'x) service_watcher \<Rightarrow> bool" where
  "sw_inv s = ((\<forall>ep i. sw_status s ep = Some i \<longrightarrow> live s ep i)
    \<and> (\<forall>i k eps. sw_clean s = CleanCancel i k eps \<longrightarrow> i < length (sw_objs s) \<and> (\<forall>ep. sw_status s ep \<noteq> Some i))
    \<and> list_all obj_ok (sw_objs s))"

lemma sw_invI [intro?]:
  assumes "\<And>ep i. sw_status s ep = Some i \<Longrightarrow> live s ep i"
    and "\<And>i k eps ep. sw_clean s = CleanCancel i k eps \<Longrightarrow> i < length (sw_objs s) \<and> sw_status s ep \<noteq> Some i"
    and "\<And>j. j < length (sw_objs s) \<Longrightarrow> obj_ok (sw_objs s ! j)"
  shows "sw_inv s"
  using assms by (simp add: sw_inv_def list_all_length)

lemma sw_inv_live: "sw_inv s \<Longrightarrow> sw_status s ep = Some i \<Longrightarrow> live s ep i"
  by (simp add: sw_inv_def)

lemma sw_inv_clean: "sw_inv s \<Longrightarrow> sw_clean s = CleanCancel i k eps \<Longrightarrow> i < length (sw_objs s) \<and> sw_status s ep \<noteq> Some i"
  by (simp add: sw_inv_def)

lemma sw_inv_obj: "sw_inv s \<Longrightarrow> j < length (sw_objs s) \<Longrightarrow> obj_ok (sw_objs s ! j)"
  by (simp add: sw_inv_def list_all_length)

text \<open>A step of goroutine \<open>i\<close> changes its own status object only, keeps its
  endpoint and cancellation, and takes its status out of the map, if at all,
  when it returns.\<close>

definition own_step :: "nat \<Rightarrow> ('a, 'x) service_watcher \<Rightarrow> ('a, 'x) service_watcher \<Rightarrow> bool" where
  "own_step i s s' = (\<exists>o'. sw_objs s' = (sw_objs s)[i := o']
    \<and> wo_endpoint o' = wo_endpoint (sw_objs s ! i) \<and> st_canceled (wo_status o') = canceled s i
    \<and> sw_clean s' = sw_clean s
    \<and> (obj_ok (sw_objs s ! i) \<longrightarrow> obj_ok o')
    \<and> (\<forall>ep j. sw_status s' ep = Some j \<longrightarrow> sw_status s ep = Some j)
    \<and> (\<forall>ep. ep \<noteq> wo_endpoint (sw_objs s ! i) \<longrightarrow> sw_status s' ep = sw_status s ep)
    \<and> (wo_pc o' = Returned \<longrightarrow> sw_status s' (wo_endpoint o') \<noteq> Some i)
    \<and> (wo_pc o' \<noteq> Returned \<longrightarrow> sw_status s' = sw_status s)
    \<and> ((\<forall>ep. sw_status s ep \<noteq> Some i) \<longrightarrow> wo_status o' = wo_status (sw_objs s ! i))
    \<and> (st_selected (wo_status (sw_objs s ! i)) \<noteq> [] \<longrightarrow> st_selected (wo_status o') \<noteq> []))"

lemma loop_step_own:
  assumes "loop_step P i s s'" and "i < length (sw_objs s)"
  shows "own_step i s s'"
  using assms
  by (cases rule: loop_step.cases)
     (auto simp: own_step_def obj_ok_def canceled_def setWatcher_def applyServices_cache_def setSelectedCache_def
        intro!: exI split: if_splits)

lemma own_step_inv:
  assumes inv: "sw_inv s" and i: "i < length (sw_objs s)" and own: "own_step i s s'"
  shows "sw_inv s'"
proof -
  obtain o' where o: "sw_objs s' = (sw_objs s)[i := o']" "wo_endpoint o' = wo_endpoint (sw_objs s ! i)"
      "st_canceled (wo_status o') = canceled s i" "sw_clean s' = sw_clean s"
      "obj_ok (sw_objs s ! i) \<Longrightarrow> obj_ok o'" "\<And>ep j. sw_status s' ep = Some j \<Longrightarrow> sw_status s ep = Some j"
      "wo_pc o' = Returned \<Longrightarrow> sw_status s' (wo_endpoint o') \<noteq> Some i"
    using own unfolding own_step_def by blast
  show ?thesis
  proof
    fix ep j assume st: "sw_status s' ep = Some j"
    note l = sw_inv_live [OF inv o(6) [OF st]]
    show "live s' ep j"
    proof (cases "j = i")
      case True
      then have "wo_endpoint o' = ep" using l o(2) by (simp add: live_def)
      then have "wo_pc o' \<noteq> Returned" using o(7) st True by blast
      then show ?thesis using l o True i by (simp add: live_def canceled_def)
    qed (use l o(1) in \<open>simp add: live_def canceled_def\<close>)
  next
    fix j k eps ep assume "sw_clean s' = CleanCancel j k eps"
    then show "j < length (sw_objs s') \<and> sw_status s' ep \<noteq> Some j"
      using sw_inv_clean [OF inv] o(1,4,6) by (metis length_list_update)
  next
    fix j assume "j < length (sw_objs s')"
    then show "obj_ok (sw_objs s' ! j)"
      using sw_inv_obj [OF inv] o(1,5) i by (cases "j = i") simp_all
  qed
qed

lemma add_inv:
  assumes inv: "sw_inv s"
  shows "sw_inv (snd (Add_locked ep applier uuid s))"
proof (cases "sw_status s ep")
  case None
  show ?thesis
  proof
    fix e j assume "sw_status (snd (Add_locked ep applier uuid s)) e = Some j"
    then show "live (snd (Add_locked ep applier uuid s)) e j"
      using sw_inv_live [OF inv, of e j] None
      by (auto simp: live_def canceled_def Add_locked_objs Add_locked_status nth_append split: if_splits)
  next
    fix j k eps e assume "sw_clean (snd (Add_locked ep applier uuid s)) = CleanCancel j k eps"
    then show "j < length (sw_objs (snd (Add_locked ep applier uuid s))) \<and> sw_status (snd (Add_locked ep applier uuid s)) e \<noteq> Some j"
      using sw_inv_clean [OF inv, of j k eps e] None by (auto simp: Add_locked_objs Add_locked_status Add_locked_clean)
  next
    fix j assume "j < length (sw_objs (snd (Add_locked ep applier uuid s)))"
    then show "obj_ok (sw_objs (snd (Add_locked ep applier uuid s)) ! j)"
      using sw_inv_obj [OF inv, of j] None by (auto simp: Add_locked_objs nth_append obj_ok_def less_Suc_eq)
  qed
qed (use inv in \<open>simp add: sw_inv_def live_def canceled_def Add_locked_objs Add_locked_status Add_locked_clean\<close>)

lemma sw_inv_cong:
  assumes "sw_inv s" and "sw_objs s' = sw_objs s" and "\<And>ep j. sw_status s' ep = Some j \<Longrightarrow> sw_status s ep = Some j"
    and "\<And>i k eps. sw_clean s' = CleanCancel i k eps \<Longrightarrow> i < length (sw_objs s) \<and> (\<forall>ep. sw_status s' ep \<noteq> Some i)"
  shows "sw_inv s'"
  using assms(1,4) assms(3) unfolding sw_inv_def live_def canceled_def assms(2) by metis

lemma stopWatcherIfUnused_inv:
  assumes inv: "sw_inv s"
  shows "sw_inv (stopWatcherIfUnused ep eps s)"
proof (rule sw_inv_cong [OF inv])
  fix i k eps' assume "sw_clean (stopWatcherIfUnused ep eps s) = CleanCancel i k eps'"
  then have "endpoint_appliers s ep = []" "sw_status s ep = Some i" by simp_all
  with sw_inv_live [OF inv] show "i < length (sw_objs s) \<and> (\<forall>e. sw_status (stopWatcherIfUnused ep eps s) e \<noteq> Some i)"
    by (auto simp: live_def)
qed (simp_all split: if_splits)

lemma cancel_inv:
  assumes inv: "sw_inv s" and cl: "sw_clean s = CleanCancel i k eps"
  shows "sw_inv ((stop_watcher k' (cancel_status i s))\<lparr>sw_clean := CleanVisit eps\<rparr>)"
proof -
  note c = sw_inv_clean [OF inv cl]
  have "live (cancel_status i s) ep j" if "sw_status s ep = Some j" for ep j
    using sw_inv_live [OF inv that] c [of ep] that by (auto simp: live_def canceled_def cancel_status_def)
  moreover have "obj_ok (sw_objs (cancel_status i s) ! j)" if "j < length (sw_objs s)" for j
    using sw_inv_obj [OF inv that] c by (cases "j = i") (simp_all add: cancel_status_def obj_ok_def)
  moreover have "length (sw_objs (cancel_status i s)) = length (sw_objs s)" "sw_status (cancel_status i s) = sw_status s"
    by (simp_all add: cancel_status_def)
  ultimately show ?thesis by (simp add: sw_inv_def live_def canceled_def list_all_length)
qed

lemma clean_step_inv:
  assumes "clean_step P s s'" and inv: "sw_inv s"
  shows "sw_inv s'"
  using assms(1)
proof (cases rule: clean_step.cases)
  case (clean_stop ep eps)
  then show ?thesis using stopWatcherIfUnused_inv [OF inv] by simp
next
  case (clean_cancel i k eps)
  then show ?thesis using cancel_inv [OF inv clean_cancel(2)] by simp
qed (use inv in \<open>simp_all add: sw_inv_def live_def canceled_def\<close>)

lemma sw_step_inv:
  assumes "sw_step P s s'" and inv: "sw_inv s"
  shows "sw_inv s'"
  using assms(1)
proof (cases rule: sw_step.cases)
  case (loop i)
  then show ?thesis using own_step_inv [OF inv] loop_step_own by blast
next
  case clean
  then show ?thesis using clean_step_inv inv by blast
qed (use inv add_inv in \<open>auto simp: sw_inv_def live_def canceled_def\<close>)

lemma sw_reachable_inv [gw_inv]: "sw_reachable P s \<Longrightarrow> sw_inv s"
proof (induction rule: sw_reachable.induct)
  case (sw_init x)
  show ?case by (simp add: newServiceWatcher_def sw_inv_def)
next
  case (sw_next s s')
  then show ?case using sw_step_inv by blast
qed

section \<open>Properties\<close>

text \<open>C36: In every interleaving of Add, the watch goroutines and the cleanup, the
  status the map holds for an endpoint belongs to a goroutine of that endpoint
  that has not returned and is not canceled: no endpoint is left registered
  with nobody watching it.\<close>

theorem watched_endpoint_is_live:
  assumes "sw_reachable P s" and "sw_status s ep = Some i"
  shows "i < length (sw_objs s) \<and> wo_endpoint (sw_objs s ! i) = ep \<and> wo_pc (sw_objs s ! i) \<noteq> Returned \<and> \<not> canceled s i"
  using sw_inv_live [OF sw_reachable_inv [OF assms(1)] assms(2)] by (simp add: live_def)

definition idle_ops :: "(nat, unit) applier_ops" where
  "idle_ops = \<lparr>ap_Callback = (\<lambda>a is x. (None, x)), ap_Canceled = (\<lambda>a x. False)\<rparr>"

definition one_watched :: "(nat, unit) service_watcher" where
  "one_watched = snd (Add_locked ''shop'' (Some 7) ''u1'' (newServiceWatcher ()))"

lemma one_watched_eq:
  "one_watched = \<lparr>sw_objs = [\<lparr>wo_status = \<lparr>st_watcher = None, st_canceled = False, st_selected = []\<rparr>,
        wo_endpoint = ''shop'', wo_pc = AtTop 0\<rparr>], sw_status = [''shop'' \<mapsto> 0],
     sw_appliers = [(''shop'', [(''u1'', 7)])], sw_adds = [], sw_clean = CleanIdle, sw_log = [], sw_stopped = [], sw_ext = ()\<rparr>"
  by (simp add: one_watched_def Add_locked_def newServiceWatcher_def Let_def add_applier_def endpoint_appliers_def)

lemma one_watched_reachable: "sw_reachable idle_ops one_watched"
  unfolding one_watched_def by (rule sw_next [OF sw_init add])

theorem watched_endpoint_is_live_witness:
  "0 < length (sw_objs one_watched) \<and> wo_endpoint (sw_objs one_watched ! 0) = ''shop''
    \<and> wo_pc (sw_objs one_watched ! 0) \<noteq> Returned \<and> \<not> canceled one_watched 0"
  by (rule watched_endpoint_is_live [OF one_watched_reachable]) (simp add: one_watched_eq)

text \<open>The steps of one goroutine to the next update of the cache.\<close>

definition updates_within :: "('a, 'x) applier_ops \<Rightarrow> nat \<Rightarrow> string \<Rightarrow> service_instance list \<Rightarrow> nat
    \<Rightarrow> ('a, 'x) service_watcher \<Rightarrow> bool" where
  "updates_within P i ep services k s =
    (\<exists>n\<le>k. \<exists>s'. (loop_step P i ^^ n) s s' \<and> getSelectedCache ep s' = Some (sort_instances services))"

lemma updates_step: "loop_step P i s s1 \<Longrightarrow> updates_within P i ep services k s1 \<Longrightarrow> updates_within P i ep services (Suc k) s"
  unfolding updates_within_def by (metis Suc_le_mono relpowp_Suc_I2)

lemma updates_mono: "updates_within P i ep services k s \<Longrightarrow> k \<le> l \<Longrightarrow> updates_within P i ep services l s"
  unfolding updates_within_def by (meson le_trans)

lemma from_next:
  assumes ne: "services \<noteq> []" and st: "sw_status s ep = Some i" and l: "live s ep i" and pc: "wo_pc (sw_objs s ! i) = InNext n k"
  shows "updates_within P i ep services 1 s"
proof -
  let ?s1 = "upd_obj i (\<lambda>o'. o'\<lparr>wo_status := (wo_status o')\<lparr>st_selected := sort_instances services\<rparr>\<rparr>) s"
  have "applyServices_cache (wo_endpoint (sw_objs s ! i)) i services s = (True, ?s1)"
    using ne st l by (simp add: applyServices_cache_def setSelectedCache_def live_def)
  from next_applied [OF pc this] have "(loop_step P i ^^ 1) s (set_pc i (InCallback 0 k (sort_instances services)) ?s1)"
    unfolding relpowp_1 .
  moreover have "getSelectedCache ep (set_pc i (InCallback 0 k (sort_instances services)) ?s1) = Some (sort_instances services)"
    using st l by (simp add: getSelectedCache_def live_def)
  ultimately show ?thesis unfolding updates_within_def by blast
qed

lemma from_watch:
  assumes ne: "services \<noteq> []" and st: "sw_status s ep = Some i" and l: "live s ep i" and pc: "wo_pc (sw_objs s ! i) = InWatch n"
  shows "updates_within P i ep services 2 s"
proof -
  let ?s1 = "upd_obj i (\<lambda>o'. o'\<lparr>wo_status := (wo_status o')\<lparr>st_watcher := Some 0\<rparr>\<rparr>) s"
  have "setWatcher (wo_endpoint (sw_objs s ! i)) i 0 s = (True, ?s1)"
    using st l by (simp add: setWatcher_def live_def)
  note stp = watch_ok [OF pc this]
  have "updates_within P i ep services 1 (set_pc i (InNext n 0) ?s1)"
    using ne st l by (intro from_next [where n = n and k = 0]) (simp_all add: live_def canceled_def)
  from updates_step [OF stp this] show ?thesis by (simp add: numeral_2_eq_2)
qed

lemma from_top:
  assumes ne: "services \<noteq> []" and st: "sw_status s ep = Some i" and l: "live s ep i" and pc: "wo_pc (sw_objs s ! i) = AtTop n"
  shows "updates_within P i ep services 3 s"
proof -
  have "\<not> canceled s i" using l by (simp add: live_def)
  note stp = top [OF pc this]
  have "updates_within P i ep services 2 (set_pc i (InWatch n) s)"
    using ne st l by (intro from_watch [where n = n]) (simp_all add: live_def canceled_def)
  from updates_step [OF stp this] show ?thesis by (simp add: eval_nat_numeral)
qed

lemma from_wait:
  assumes ne: "services \<noteq> []" and st: "sw_status s ep = Some i" and l: "live s ep i" and pc: "wo_pc (sw_objs s ! i) = InWait n"
  shows "updates_within P i ep services 4 s"
proof -
  have "updates_within P i ep services 3 (set_pc i (AtTop n) s)"
    using ne st l by (intro from_top [where n = n]) (simp_all add: live_def canceled_def)
  from updates_step [OF wait_over [OF pc] this] show ?thesis by (simp add: eval_nat_numeral)
qed

lemma from_failure:
  assumes ne: "services \<noteq> []" and st: "sw_status s ep = Some i" and l: "live s ep i" and pc: "wo_pc (sw_objs s ! i) = AfterFailure n k e"
    and e: "\<not> is_canceled e"
  shows "updates_within P i ep services 5 s"
proof -
  have "\<not> canceled s i" using l by (simp add: live_def)
  note stp = failure [OF pc e this]
  have "updates_within P i ep services 4 (set_pc i (InWait (n + 1)) (stop_watcher k s))"
    using ne st l by (intro from_wait [where n = "n + 1"]) (simp_all add: live_def canceled_def)
  from updates_step [OF stp this] show ?thesis by (simp add: eval_nat_numeral)
qed

lemma from_callback:
  assumes ne: "services \<noteq> []" and st: "sw_status s ep = Some i" and l: "live s ep i" and pc: "wo_pc (sw_objs s ! i) = InCallback n k is"
  shows "updates_within P i ep services 2 s"
proof -
  have "updates_within P i ep services 1 (set_pc i (InNext n k) (doCallback P (wo_endpoint (sw_objs s ! i)) is s))"
    using ne st l by (intro from_next [where n = n and k = k]) (simp_all add: live_def canceled_def)
  from updates_step [OF callbacks [OF pc] this] show ?thesis by (simp add: numeral_2_eq_2)
qed

lemma from_any:
  assumes ne: "services \<noteq> []" and st: "sw_status s ep = Some i" and l: "live s ep i"
    and nf: "\<And>n k e. wo_pc (sw_objs s ! i) = AfterFailure n k e \<Longrightarrow> \<not> is_canceled e"
  shows "updates_within P i ep services 5 s"
proof (cases "wo_pc (sw_objs s ! i)")
  case Returned
  then show ?thesis using l by (simp add: live_def)
next
  case (AtTop n)
  from updates_mono [OF from_top [OF ne st l this]] show ?thesis by simp
next
  case (InWatch n)
  from updates_mono [OF from_watch [OF ne st l this]] show ?thesis by simp
next
  case (InNext n k)
  from updates_mono [OF from_next [OF ne st l this]] show ?thesis by simp
next
  case (InCallback n k services')
  from updates_mono [OF from_callback [OF ne st l this]] show ?thesis by simp
next
  case (AfterFailure n k e)
  from updates_mono [OF from_failure [OF ne st l this nf [OF this]]] show ?thesis by simp
next
  case (InWait n)
  from updates_mono [OF from_wait [OF ne st l this]] show ?thesis by simp
qed


text \<open>C37: A watched endpoint recovers from failures of the registry, except from a
  failure that is a cancellation, after which the goroutine returns: in every
  reachable state where the last failure is none, at most five
  steps of its own goroutine, with a registry that answers with instances, bring
  the instances the registry reports into the cache.\<close>

theorem watch_recovers:
  assumes "sw_reachable P s" and "sw_status s ep = Some i" and "services \<noteq> []"
    and "case wo_pc (sw_objs s ! i) of AfterFailure n k e \<Rightarrow> \<not> is_canceled e | _ \<Rightarrow> True"
  shows "\<exists>n\<le>5. \<exists>s'. (loop_step P i ^^ n) s s' \<and> getSelectedCache ep s' = Some (sort_instances services)"
proof -
  have "\<not> is_canceled e" if "wo_pc (sw_objs s ! i) = AfterFailure n k e" for n k e
    using assms(4) by (simp add: that)
  from from_any [OF assms(3,2) sw_inv_live [OF sw_reachable_inv [OF assms(1)] assms(2)] this]
  show ?thesis unfolding updates_within_def .
qed

definition shop_instance :: "string \<Rightarrow> service_instance" where
  "shop_instance ident = sample_instance\<lparr>si_id := ident\<rparr>"

text \<open>The first Watch of the goroutine failed with a timeout.\<close>

lemma one_failed: "sw_reachable idle_ops (set_pc 0 (AfterFailure 0 None CtxDeadlineExceeded) (set_pc 0 (InWatch 0) one_watched))"
proof -
  have i: "0 < length (sw_objs one_watched)" by (simp add: one_watched_eq)
  have 1: "loop_step idle_ops 0 one_watched (set_pc 0 (InWatch 0) one_watched)"
    by (rule loop_step.top) (simp_all add: one_watched_eq canceled_def)
  have 2: "loop_step idle_ops 0 (set_pc 0 (InWatch 0) one_watched)
      (set_pc 0 (AfterFailure 0 None CtxDeadlineExceeded) (set_pc 0 (InWatch 0) one_watched))"
    by (rule loop_step.watch_failed) (use i in simp)
  show ?thesis
    by (rule sw_next [OF sw_next [OF one_watched_reachable sw_step.loop [OF _ 1]] sw_step.loop [OF _ 2]])
       (use i in \<open>simp_all add: one_watched_eq\<close>)
qed

theorem watch_recovers_witness:
  "\<exists>n\<le>5. \<exists>s'. (loop_step idle_ops 0 ^^ n) (set_pc 0 (AfterFailure 0 None CtxDeadlineExceeded) (set_pc 0 (InWatch 0) one_watched)) s'
    \<and> getSelectedCache ''shop'' s' = Some (sort_instances [shop_instance ''b'', shop_instance ''a''])"
  by (rule watch_recovers [OF one_failed]) (simp_all add: one_watched_eq is_canceled_def set_pc_def upd_obj_def)

text \<open>A goroutine whose status was replaced can no longer change what the
  cache holds for any endpoint.\<close>

theorem replaced_loop_keeps_caches:
  assumes "sw_reachable P s" and "loop_step P i s s'" and "sw_status s (wo_endpoint (sw_objs s ! i)) \<noteq> Some i"
  shows "getSelectedCache ep s' = getSelectedCache ep s"
proof -
  have no: "sw_status s e \<noteq> Some i" for e
    using sw_inv_live [OF sw_reachable_inv [OF assms(1)], of e i] assms(3) by (auto simp: live_def)
  have other: "sw_status s ep = Some j \<Longrightarrow> j \<noteq> i" for j using no by auto
  have objs: "\<forall>j. j \<noteq> i \<longrightarrow> sw_objs s' ! j = sw_objs s ! j" and st: "sw_status s' ep = sw_status s ep"
    using assms(2) by (cases rule: loop_step.cases;
      use no in \<open>simp add: setWatcher_def applyServices_cache_def setSelectedCache_def split: if_splits\<close>)+
  show ?thesis
    unfolding getSelectedCache_def st using objs other by (cases "sw_status s ep") simp_all
qed

definition gone_ops :: "(nat, unit) applier_ops" where
  "gone_ops = \<lparr>ap_Callback = (\<lambda>a is x. (None, x)), ap_Canceled = (\<lambda>a x. True)\<rparr>"

definition unwatched :: "(nat, unit) service_watcher" where
  "unwatched = one_watched\<lparr>sw_status := Map.empty, sw_appliers := [], sw_clean := CleanCancel 0 None []\<rparr>"

lemma unwatched_reachable: "sw_reachable gone_ops unwatched"
proof -
  have 0: "sw_reachable gone_ops one_watched"
    unfolding one_watched_def by (rule sw_next [OF sw_init add])
  have 1: "sw_reachable gone_ops (one_watched\<lparr>sw_clean := CleanVisit [''shop'']\<rparr>)"
    using sw_next [OF 0 sw_step.clean [OF clean_start]] by (simp add: one_watched_eq)
  have c: "collect_canceled gone_ops ''shop'' (one_watched\<lparr>sw_clean := CleanVisit [''shop'']\<rparr>) = [''u1'']"
    by (simp add: one_watched_eq collect_canceled_def endpoint_appliers_def gone_ops_def)
  have 2: "sw_reachable gone_ops (one_watched\<lparr>sw_clean := CleanDelete ''shop'' [''u1''] []\<rparr>)"
    using sw_next [OF 1 sw_step.clean [OF clean_some [where ep = "''shop''" and eps = "[]"]]] c by simp
  have 3: "sw_reachable gone_ops (one_watched\<lparr>sw_appliers := [(''shop'', [])], sw_clean := CleanStop ''shop'' []\<rparr>)"
    using sw_next [OF 2 sw_step.clean [OF clean_delete [where ep = "''shop''" and eps = "[]"]]]
    by (simp add: one_watched_eq delete_appliers_def)
  show ?thesis
    using sw_next [OF 3 sw_step.clean [OF clean_stop [where ep = "''shop''" and eps = "[]"]]]
    by (simp add: one_watched_eq unwatched_def stopWatcherIfUnused_def endpoint_appliers_def Let_def)
qed

theorem replaced_loop_keeps_caches_witness:
  "\<exists>s'. loop_step gone_ops 0 unwatched s' \<and> getSelectedCache ''shop'' s' = getSelectedCache ''shop'' unwatched"
proof -
  have st: "loop_step gone_ops 0 unwatched (set_pc 0 (InWatch 0) unwatched)"
    by (rule loop_step.top) (simp_all add: unwatched_def one_watched_eq canceled_def)
  have "sw_status unwatched (wo_endpoint (sw_objs unwatched ! 0)) \<noteq> Some 0" by (simp add: unwatched_def)
  from replaced_loop_keeps_caches [OF unwatched_reachable st this] st show ?thesis by blast
qed

text \<open>Behind any sequence of failures, a goroutine waits between one second and
  the maximum of a minute before it watches again, and computing the delay
  never panics.\<close>

theorem retry_wait_bounded:
  assumes "sw_reachable P s" and "i < length (sw_objs s)" and "wo_pc (sw_objs s ! i) = InWait n"
  shows "\<exists>d. calculateRetryDelay n DiscoveryMaxRetryDelay = Some d \<and> second \<le> d \<and> d \<le> DiscoveryMaxRetryDelay"
proof -
  have "1 \<le> n" using sw_inv_obj [OF sw_reachable_inv [OF assms(1)] assms(2)] assms(3) by (simp add: obj_ok_def)
  moreover have "nat (n - 1) \<in> {0, 1, 2, 3}" if "n - 1 < 4" using that by auto
  ultimately show ?thesis
    by (auto simp: calculateRetryDelay_def DiscoveryRetrySteps_def Let_def)
qed

lemma one_waiting: "sw_reachable idle_ops (set_pc 0 (InWait 1) one_watched)"
proof -
  have i: "0 < length (sw_objs one_watched)" by (simp add: one_watched_eq)
  have 3: "loop_step idle_ops 0 (set_pc 0 (AfterFailure 0 None CtxDeadlineExceeded) (set_pc 0 (InWatch 0) one_watched))
      (set_pc 0 (InWait 1) one_watched)"
    using loop_step.failure [of "set_pc 0 (AfterFailure 0 None CtxDeadlineExceeded) (set_pc 0 (InWatch 0) one_watched)" 0 0 None CtxDeadlineExceeded idle_ops]
    by (simp add: one_watched_eq canceled_def is_canceled_def set_pc_def upd_obj_def stop_watcher_def)
  show ?thesis
    by (rule sw_next [OF one_failed sw_step.loop [OF _ 3]]) (use i in \<open>simp_all add: one_watched_eq\<close>)
qed

theorem retry_wait_bounded_witness:
  "\<exists>d. calculateRetryDelay 1 DiscoveryMaxRetryDelay = Some d \<and> second \<le> d \<and> d \<le> DiscoveryMaxRetryDelay"
  by (rule retry_wait_bounded [OF one_waiting, of 0]) (simp_all add: one_watched_eq)

text \<open>An execution: an applier of shop is added and gets two instances, a second
  one is added and its cached callback waits while an update arrives.\<close>

lemma single_steps:
  assumes "wo_pc (sw_objs s ! 0) = pc" and "sw_objs s = [o']" and "sw_status s = [''shop'' \<mapsto> 0]" and "wo_endpoint o' = ''shop''"
  shows "pc = AtTop n \<Longrightarrow> \<not> st_canceled (wo_status o') \<Longrightarrow> sw_step P s (set_pc 0 (InWatch n) s)"
    and "pc = InWatch n \<Longrightarrow> sw_step P s (set_pc 0 (InNext n k)
      (s\<lparr>sw_objs := [o'\<lparr>wo_status := (wo_status o')\<lparr>st_watcher := Some k\<rparr>\<rparr>]\<rparr>))"
    and "pc = InNext n k \<Longrightarrow> services \<noteq> [] \<Longrightarrow> sw_step P s (set_pc 0 (InCallback 0 k (sort_instances services))
      (s\<lparr>sw_objs := [o'\<lparr>wo_status := (wo_status o')\<lparr>st_selected := sort_instances services\<rparr>\<rparr>]\<rparr>))"
    and "pc = InCallback n k is \<Longrightarrow> sw_step P s (set_pc 0 (InNext n k) (doCallback P ''shop'' is s))"
proof -
  have i: "0 < length (sw_objs s)" using assms(2) by simp
  note st = sw_step.loop [OF i]
  show "pc = AtTop n \<Longrightarrow> \<not> st_canceled (wo_status o') \<Longrightarrow> sw_step P s (set_pc 0 (InWatch n) s)"
    by (intro st loop_step.top) (use assms in \<open>simp_all add: canceled_def\<close>)
  show "pc = InWatch n \<Longrightarrow> sw_step P s (set_pc 0 (InNext n k)
      (s\<lparr>sw_objs := [o'\<lparr>wo_status := (wo_status o')\<lparr>st_watcher := Some k\<rparr>\<rparr>]\<rparr>))"
    by (intro st loop_step.watch_ok) (use assms in \<open>simp_all add: setWatcher_def upd_obj_def\<close>)
  show "pc = InNext n k \<Longrightarrow> services \<noteq> [] \<Longrightarrow> sw_step P s (set_pc 0 (InCallback 0 k (sort_instances services))
      (s\<lparr>sw_objs := [o'\<lparr>wo_status := (wo_status o')\<lparr>st_selected := sort_instances services\<rparr>\<rparr>]\<rparr>))"
    by (intro st loop_step.next_applied)
       (use assms in \<open>simp_all add: applyServices_cache_def setSelectedCache_def upd_obj_def\<close>)
  show "pc = InCallback n k is \<Longrightarrow> sw_step P s (set_pc 0 (InNext n k) (doCallback P ''shop'' is s))"
    using loop_step.callbacks [of s 0 n k "is" P] st assms by simp
qed

abbreviation shop_state :: "loop_pc \<Rightarrow> service_instance list \<Rightarrow> (string \<times> nat) list \<Rightarrow> (nat \<times> service_instance list) list
    \<Rightarrow> (nat \<times> service_instance list) list \<Rightarrow> (nat, unit) service_watcher" where
  "shop_state pc sel as adds lg \<equiv>
    \<lparr>sw_objs = [\<lparr>wo_status = \<lparr>st_watcher = Some 0, st_canceled = False, st_selected = sel\<rparr>, wo_endpoint = ''shop'', wo_pc = pc\<rparr>],
     sw_status = [''shop'' \<mapsto> 0], sw_appliers = [(''shop'', as)], sw_adds = adds, sw_clean = CleanIdle,
     sw_log = lg, sw_stopped = [], sw_ext = ()\<rparr>"

lemma shop_watched: "sw_reachable idle_ops (shop_state (InNext 0 0) [] [(''u1'', 7)] [] [])"
proof -
  have 1: "sw_step idle_ops one_watched (set_pc 0 (InWatch 0) one_watched)"
    by (rule single_steps(1) [where o' = "sw_objs one_watched ! 0"]) (simp_all add: one_watched_eq)
  have 2: "sw_step idle_ops (set_pc 0 (InWatch 0) one_watched) (shop_state (InNext 0 0) [] [(''u1'', 7)] [] [])"
    using single_steps(2) [of "set_pc 0 (InWatch 0) one_watched" "InWatch 0" _ 0 idle_ops 0]
    by (simp add: one_watched_eq set_pc_def upd_obj_def)
  show ?thesis by (rule sw_next [OF sw_next [OF one_watched_reachable 1] 2])
qed

lemma shop_push:
  assumes "sw_reachable idle_ops (shop_state (InNext n 0) sel as adds lg)" and "is \<noteq> []"
  shows "sw_reachable idle_ops (shop_state (InNext 0 0) (sort_instances is) as adds (lg @ map (\<lambda>(u, a). (a, sort_instances is)) as))"
proof -
  let ?s0 = "shop_state (InNext n 0) sel as adds lg" and ?s1 = "shop_state (InCallback 0 0 (sort_instances is)) (sort_instances is) as adds lg"
  have 1: "sw_step idle_ops ?s0 ?s1"
    using single_steps(3) [of ?s0 "InNext n 0" _ n 0 "is" idle_ops] assms(2) by (simp add: set_pc_def upd_obj_def)
  have cb: "doCallback_loop idle_ops bs js s = s\<lparr>sw_log := sw_log s @ map (\<lambda>(u, a). (a, js)) bs\<rparr>"
    for bs js and s :: "(nat, unit) service_watcher"
    by (induction bs arbitrary: s) (auto simp: call_applier_def idle_ops_def)
  have 2: "sw_step idle_ops ?s1 (shop_state (InNext 0 0) (sort_instances is) as adds (lg @ map (\<lambda>(u, a). (a, sort_instances is)) as))"
    using single_steps(4) [of ?s1 "InCallback 0 0 (sort_instances is)" _ 0 0 "sort_instances is" idle_ops]
    by (simp add: set_pc_def upd_obj_def doCallback_def endpoint_appliers_def cb)
  show ?thesis by (rule sw_next [OF sw_next [OF assms(1) 1] 2])
qed

lemma shop_add:
  assumes "sw_reachable idle_ops (shop_state pc sel [(''u1'', 7)] [] lg)" and "sel \<noteq> []"
  shows "sw_reachable idle_ops (shop_state pc sel [(''u1'', 7), (''u2'', 8)] [(8, sel)] lg)"
  using sw_next [OF assms(1) add [of _ _ "''shop''" "Some 8" "''u2''"]] assms(2)
  by (simp add: Add_locked_def Let_def add_applier_def endpoint_appliers_def getSelectedCache_def)

text \<open>The callback a call of Add makes with the cached instances runs after the
  lock is released, so an update can overtake it: an applier can be left with
  instances older than those it was last told, while the cache and every
  other applier have the newer ones and no further callback is on its way.\<close>

theorem stale_cache_overtakes_update:
  "\<exists>s. sw_reachable idle_ops s \<and> getSelectedCache ''shop'' s = Some [shop_instance ''new'']
    \<and> sw_adds s = [] \<and> wo_pc (sw_objs s ! 0) = InNext 0 0
    \<and> map snd (filter (\<lambda>(a, is). a = 8) (sw_log s)) = [[shop_instance ''new''], [shop_instance ''old'']]
    \<and> map snd (filter (\<lambda>(a, is). a = 7) (sw_log s)) = [[shop_instance ''old''], [shop_instance ''new'']]"
proof -
  have srt: "sort_instances [x] = [x]" for x by (simp add: sort_instances_def)
  note s1 = shop_push [OF shop_watched, of "[shop_instance ''old'']", simplified srt]
  note s2 = shop_add [OF s1, simplified]
  note s3 = shop_push [OF s2, of "[shop_instance ''new'']", simplified srt]
  have s4: "sw_reachable idle_ops (shop_state (InNext 0 0) [shop_instance ''new''] [(''u1'', 7), (''u2'', 8)] []
      [(7, [shop_instance ''old'']), (7, [shop_instance ''new'']), (8, [shop_instance ''new'']), (8, [shop_instance ''old''])])"
    using sw_next [OF s3 add_callback [of _ "[]" 8 "[shop_instance ''old'']" "[]"]]
    by (simp add: call_applier_def idle_ops_def)
  then show ?thesis by (intro exI conjI, assumption) (simp_all add: getSelectedCache_def)
qed

end
