(* ===== verification/Config_Loader.thy ===== *)
theory Config_Loader
  imports Loader_Source Gw_Config
begin

text \<open>
  Package config, file config.go: the loader that keeps the last known-good
  configuration, merges the priority files into it, sets the environment it
  asks for, runs the change handlers and follows its source.  Converting YAML
  to JSON and decoding it into the messages, and the digest, are parameters;
  so is what the handlers do.  The loader's fields are the state
  \<open>os.more\<close> of the process.
\<close>

section \<open>State\<close>

record config_lib =
  cl_decode :: "string \<Rightarrow> err + gateway_config"
  cl_decode_priority :: "string \<Rightarrow> err + priority_config"
  cl_sha256 :: "string \<Rightarrow> string"

text \<open>The fields of FileLoader that never change, and those that do.  Handlers are
  named by identifiers, a watch context by its index; \<open>fl_canceled\<close> says for
  each context made whether it is canceled.  \<open>fl_ext\<close> is the rest of the
  process the handlers act on.\<close>

record 'w loader_const =
  lc_source :: "'w source"
  lc_confKey :: string
  lc_priorityDirectory :: string

record ('h, 'x) file_loader =
  fl_configData :: string
  fl_confSHA256 :: string
  fl_priorityConfigHash :: "(string \<times> string) list"
  fl_watchCancel :: "nat option"
  fl_closed :: bool
  fl_onChangeHandlers :: "'h list"
  fl_canceled :: "bool list"
  fl_ext :: 'x

type_synonym ('h, 'x) loader_world = "('h, 'x) file_loader os_scheme"

type_synonym ('h, 'x) run_handler = "'h \<Rightarrow> gateway_config \<Rightarrow> ('h, 'x) loader_world \<Rightarrow> err option \<times> ('h, 'x) loader_world"

definition upd_loader :: "('v \<Rightarrow> 'v) \<Rightarrow> 'v os_scheme \<Rightarrow> 'v os_scheme" where
  "upd_loader f w = w\<lparr>os.more := f (os.more w)\<rparr>"

text \<open>errors.Join: nil errors are dropped.\<close>

definition errors_Join :: "err option \<Rightarrow> err option \<Rightarrow> err option" where
  "errors_Join a b =
    (case (a, b) of
       (None, None) \<Rightarrow> None
     | (Some e, None) \<Rightarrow> Some (JoinErr [e])
     | (None, Some e) \<Rightarrow> Some (JoinErr [e])
     | (Some e, Some f) \<Rightarrow> Some (JoinErr [e, f]))"

lemma errors_Join_None [simp]: "errors_Join a b = None \<longleftrightarrow> a = None \<and> b = None"
  by (auto simp: errors_Join_def split: option.splits)

lemma errors_Join_Some [simp]: "(\<exists>y. errors_Join a b = Some y) \<longleftrightarrow> a \<noteq> None \<or> b \<noteq> None"
  by (auto simp: errors_Join_def split: option.splits)

section \<open>Priority files\<close>

text \<open>filepath.Ext.\<close>

definition path_Ext :: "string \<Rightarrow> string" where
  "path_Ext p =
    (let f = rev (takeWhile (\<lambda>c. c \<noteq> slash) (rev p))
     in if CHR ''.'' \<in> set f then CHR ''.'' # rev (takeWhile (\<lambda>c. c \<noteq> CHR ''.'') (rev f)) else [])"

definition yaml_names :: "(string \<times> bool) list \<Rightarrow> string list" where
  "yaml_names entries = map fst (filter (\<lambda>(n, isdir). \<not> isdir \<and> path_Ext n = ''.yaml'') entries)"

fun hash_files :: "config_lib \<Rightarrow> string \<Rightarrow> string list \<Rightarrow> 'v os_scheme \<Rightarrow> (err + (string \<times> string) list) \<times> 'v os_scheme" where
  "hash_files L dir [] w = (Inr [], w)"
| "hash_files L dir (n # ns) w =
     (case os_ReadFile (path_Join [dir, n]) w of
        (Inl e, w1) \<Rightarrow> (Inl e, w1)
      | (Inr data, w1) \<Rightarrow>
          (case hash_files L dir ns w1 of
             (Inl e, w2) \<Rightarrow> (Inl e, w2)
           | (Inr hs, w2) \<Rightarrow> (Inr ((n, cl_sha256 L data) # hs), w2)))"

text \<open>The map from names to digests, as the list in the order of the directory;
  two such maps are equal exactly when the lists are.\<close>

definition priorityConfigSHA256 :: "config_lib \<Rightarrow> string \<Rightarrow> 'v os_scheme \<Rightarrow> (err + (string \<times> string) list) \<times> 'v os_scheme" where
  "priorityConfigSHA256 L dir w =
    (if dir = [] then (Inr [], w)
     else
       (case os_ReadDir dir w of
          (Inl e, w1) \<Rightarrow> (Inl e, w1)
        | (Inr entries, w1) \<Rightarrow> hash_files L dir (yaml_names entries) w1))"

definition parsePriorityConfig :: "config_lib \<Rightarrow> string \<Rightarrow> 'v os_scheme \<Rightarrow> (err + priority_config) \<times> 'v os_scheme" where
  "parsePriorityConfig L cfgPath w =
    (case os_ReadFile cfgPath w of
       (Inl e, w1) \<Rightarrow> (Inl e, w1)
     | (Inr data, w1) \<Rightarrow> (cl_decode_priority L data, w1))"

section \<open>Merging\<close>

definition endpoint_key :: "endpoint \<Rightarrow> string" where
  "endpoint_key e = ep_method e @ ''-'' @ ep_path e"

text \<open>The index map is filled once, from the endpoints before the merge; a later
  index overwrites an earlier one.\<close>

definition endpoint_index :: "endpoint list \<Rightarrow> string \<Rightarrow> nat option" where
  "endpoint_index origin k = last_index_of (\<lambda>e. endpoint_key e = k) origin"

definition replaceOrPrepend :: "(string \<Rightarrow> nat option) \<Rightarrow> endpoint list \<Rightarrow> endpoint \<Rightarrow> endpoint list" where
  "replaceOrPrepend index dst item =
    (case index (endpoint_key item) of None \<Rightarrow> item # dst | Some i \<Rightarrow> dst[i := item])"

definition MakeReplaceOrPrependEndpointFn :: "endpoint list \<Rightarrow> endpoint list \<Rightarrow> endpoint \<Rightarrow> endpoint list" where
  "MakeReplaceOrPrependEndpointFn origin = replaceOrPrepend (endpoint_index origin)"

fun merge_files :: "config_lib \<Rightarrow> string \<Rightarrow> (endpoint list \<Rightarrow> endpoint \<Rightarrow> endpoint list) \<Rightarrow> string list
    \<Rightarrow> endpoint list \<Rightarrow> 'v os_scheme \<Rightarrow> endpoint list \<times> 'v os_scheme" where
  "merge_files L dir f [] dst w = (dst, w)"
| "merge_files L dir f (n # ns) dst w =
     (case parsePriorityConfig L (path_Join [dir, n]) w of
        (Inl e, w1) \<Rightarrow> merge_files L dir f ns dst w1
      | (Inr p, w1) \<Rightarrow> merge_files L dir f ns (foldl f dst (pc_endpoints p)) w1)"

definition mergePriorityConfig :: "config_lib \<Rightarrow> string \<Rightarrow> gateway_config \<Rightarrow> 'v os_scheme
    \<Rightarrow> err option \<times> gateway_config \<times> 'v os_scheme" where
  "mergePriorityConfig L dir cfg w =
    (if dir = [] then (None, cfg, w)
     else
       (case os_ReadDir dir w of
          (Inl e, w1) \<Rightarrow> (Some e, cfg, w1)
        | (Inr entries, w1) \<Rightarrow>
            (case merge_files L dir (MakeReplaceOrPrependEndpointFn (gc_endpoints cfg)) (yaml_names entries)
                    (gc_endpoints cfg) w1 of
               (es, w2) \<Rightarrow> (None, cfg\<lparr>gc_endpoints := es\<rparr>, w2))))"

text \<open>A failed merge is only logged.\<close>

definition decodeConfig :: "config_lib \<Rightarrow> string \<Rightarrow> string \<Rightarrow> 'v os_scheme \<Rightarrow> (err + gateway_config) \<times> 'v os_scheme" where
  "decodeConfig L dir data w =
    (case cl_decode L data of
       Inl e \<Rightarrow> (Inl e, w)
     | Inr cfg \<Rightarrow> (case mergePriorityConfig L dir cfg w of (r, cfg1, w1) \<Rightarrow> (Inr cfg1, w1)))"

section \<open>Environment\<close>

fun rollback_envs :: "(string \<times> string option) list \<Rightarrow> err option \<Rightarrow> 'v os_scheme \<Rightarrow> err option \<times> 'v os_scheme" where
  "rollback_envs [] acc w = (acc, w)"
| "rollback_envs ((k, old) # ps) acc w =
     (case (case old of Some v \<Rightarrow> os_Setenv k v w | None \<Rightarrow> os_Unsetenv k w) of
        (None, w1) \<Rightarrow> rollback_envs ps acc w1
      | (Some e, w1) \<Rightarrow> rollback_envs ps (errors_Join acc (Some (WrapErr ''restore env'' e))) w1)"

fun set_envs :: "(string \<times> string) list \<Rightarrow> string list \<Rightarrow> (string \<times> string option) list \<Rightarrow> 'v os_scheme
    \<Rightarrow> (err + (string \<times> string option) list) \<times> 'v os_scheme" where
  "set_envs envs [] previous w = (Inr previous, w)"
| "set_envs envs (k # ks) previous w =
     (case os_Setenv k (md_get envs k) w of
        (Some e, w1) \<Rightarrow>
          (case rollback_envs previous None w1 of
             (re, w2) \<Rightarrow> (Inl (JoinErr (WrapErr ''set env'' e # (case re of None \<Rightarrow> [] | Some r \<Rightarrow> [r]))), w2))
      | (None, w1) \<Rightarrow> set_envs envs ks (previous @ [(k, os_env w k)]) w1)"

text \<open>The result is the closure rollback, as the entries it restores.\<close>

definition applyEnvs :: "gateway_config \<Rightarrow> 'v os_scheme \<Rightarrow> (err + (string \<times> string option) list) \<times> 'v os_scheme" where
  "applyEnvs cfg = set_envs (gc_envs cfg) (sort (remdups (map fst (gc_envs cfg)))) []"

section \<open>Loading\<close>

fun run_handlers :: "('h, 'x) run_handler \<Rightarrow> 'h list \<Rightarrow> gateway_config \<Rightarrow> err option \<Rightarrow> ('h, 'x) loader_world
    \<Rightarrow> err option \<times> ('h, 'x) loader_world" where
  "run_handlers H [] cfg acc w = (acc, w)"
| "run_handlers H (h # hs) cfg acc w =
     (case H h cfg w of
        (None, w1) \<Rightarrow> run_handlers H hs cfg acc w1
      | (Some e, w1) \<Rightarrow> run_handlers H hs cfg (errors_Join acc (Some e)) w1)"

definition set_snapshot :: "config_lib \<Rightarrow> string \<Rightarrow> (string \<times> string) list \<Rightarrow> ('h, 'x) loader_world \<Rightarrow> ('h, 'x) loader_world" where
  "set_snapshot L data hash = upd_loader (\<lambda>f. f\<lparr>fl_configData := data, fl_confSHA256 := cl_sha256 L data, fl_priorityConfigHash := hash\<rparr>)"

definition executeLoader :: "config_lib \<Rightarrow> ('h, 'x) loader_world loader_const \<Rightarrow> ('h, 'x) run_handler \<Rightarrow> string \<Rightarrow> (string \<times> string) list
    \<Rightarrow> ('h, 'x) loader_world \<Rightarrow> err option \<times> ('h, 'x) loader_world" where
  "executeLoader L C H data hash w =
    (case decodeConfig L (lc_priorityDirectory C) data w of
       (Inl e, w1) \<Rightarrow> (Some e, w1)
     | (Inr cfg, w1) \<Rightarrow>
         (let handlers = fl_onChangeHandlers (os.more w1)
          in case applyEnvs cfg w1 of
               (Inl e, w2) \<Rightarrow> (Some e, w2)
             | (Inr previous, w2) \<Rightarrow>
                 (case run_handlers H handlers cfg None w2 of
                    (Some e, w3) \<Rightarrow>
                      (case rollback_envs previous None w3 of
                         (re, w4) \<Rightarrow> (errors_Join (Some e) re, w4))
                  | (None, w3) \<Rightarrow> (None, set_snapshot L data hash w3))))"

definition fl_initialize :: "config_lib \<Rightarrow> ('h, 'x) loader_world loader_const \<Rightarrow> ('h, 'x) loader_world
    \<Rightarrow> err option \<times> ('h, 'x) loader_world" where
  "fl_initialize L C w =
    (let dir = lc_priorityDirectory C
     in try_call (\<lambda>w. if dir = [] then (Inr (), w) else os_MkdirAll dir w) id (\<lambda>_.
        try_call (so_Load (lc_source C) (lc_confKey C)) id (\<lambda>data.
        try_call (decodeConfig L dir data) (WrapErr ''decode initial config'') (\<lambda>_ w1.
          (let w2 = upd_loader (\<lambda>f. f\<lparr>fl_configData := data, fl_confSHA256 := cl_sha256 L data\<rparr>) w1
           in case priorityConfigSHA256 L dir w2 of
                (Inl e, w3) \<Rightarrow> (Some e, w3)
              | (Inr hash, w3) \<Rightarrow> (None, upd_loader (\<lambda>f. f\<lparr>fl_priorityConfigHash := hash\<rparr>) w3))))) w)"

definition NewSourceLoader :: "config_lib \<Rightarrow> ('h, 'x) loader_world source option \<Rightarrow> string \<Rightarrow> ('h, 'x) loader_world
    \<Rightarrow> (err + ('h, 'x) loader_world loader_const) \<times> ('h, 'x) loader_world" where
  "NewSourceLoader L src dir w =
    (case src of
       None \<Rightarrow> (Inl (PlainErr ''configuration source is nil''), w)
     | Some S \<Rightarrow>
         (let C = \<lparr>lc_source = S, lc_confKey = so_MainKey S, lc_priorityDirectory = dir\<rparr>;
              w0 = upd_loader (\<lambda>f. f\<lparr>fl_configData := [], fl_confSHA256 := [], fl_priorityConfigHash := [],
                     fl_watchCancel := None, fl_closed := False, fl_onChangeHandlers := [], fl_canceled := []\<rparr>) w
          in case fl_initialize L C w0 of
               (Some e, w1) \<Rightarrow> (Inl e, w1)
             | (None, w1) \<Rightarrow> (Inr C, w1)))"

definition NewFileLoader :: "config_lib \<Rightarrow> string \<Rightarrow> string \<Rightarrow> ('h, 'x) loader_world
    \<Rightarrow> (err + ('h, 'x) loader_world loader_const) \<times> ('h, 'x) loader_world" where
  "NewFileLoader L confPath dir = NewSourceLoader L (Some (fileSource (NewLocalSource confPath))) dir"

definition fl_Load :: "config_lib \<Rightarrow> ('h, 'x) loader_world loader_const \<Rightarrow> ('h, 'x) loader_world \<Rightarrow> (err + gateway_config) \<times> ('h, 'x) loader_world" where
  "fl_Load L C w = decodeConfig L (lc_priorityDirectory C) (fl_configData (os.more w)) w"

definition fl_changed :: "config_lib \<Rightarrow> string \<Rightarrow> (string \<times> string) list \<Rightarrow> ('h, 'x) loader_world \<Rightarrow> bool" where
  "fl_changed L data hash w = (cl_sha256 L data \<noteq> fl_confSHA256 (os.more w) \<or> hash \<noteq> fl_priorityConfigHash (os.more w))"

section \<open>Watching\<close>

text \<open>The goroutines a loader starts.  Each is between two events, behind the
  digest of the priority files with the lock still to take, about to execute
  the loader, or ended.\<close>

datatype watch_kind = WatchLocal | WatchSource | WatchPriority

datatype watch_pc =
    AtWait
  | HashRead "(string \<times> string) list"
  | Execute string "(string \<times> string) list"
  | WatchEnded

record watch_go =
  wg_kind :: watch_kind
  wg_ctx :: nat
  wg_pc :: watch_pc

record ('h, 'x) loader_state =
  ls_gos :: "watch_go list"
  ls_world :: "('h, 'x) loader_world"

definition started_watchers :: "'w loader_const \<Rightarrow> nat \<Rightarrow> watch_go list" where
  "started_watchers C ctx =
    map (\<lambda>k. \<lparr>wg_kind = k, wg_ctx = ctx, wg_pc = AtWait\<rparr>)
      (if so_Name (lc_source C) = ConfigSourceFile then [WatchLocal]
       else WatchSource # (if lc_priorityDirectory C \<noteq> [] then [WatchPriority] else []))"

definition fl_Watch :: "'w loader_const \<Rightarrow> 'h \<Rightarrow> ('h, 'x) loader_state \<Rightarrow> ('h, 'x) loader_state" where
  "fl_Watch C h s =
    (let f = os.more (ls_world s); ctx = length (fl_canceled f)
     in if fl_closed f then s
        else if fl_watchCancel f \<noteq> None then
          s\<lparr>ls_world := upd_loader (\<lambda>f. f\<lparr>fl_onChangeHandlers := fl_onChangeHandlers f @ [h]\<rparr>) (ls_world s)\<rparr>
        else s\<lparr>ls_gos := ls_gos s @ started_watchers C ctx,
               ls_world := upd_loader (\<lambda>f. f\<lparr>fl_onChangeHandlers := fl_onChangeHandlers f @ [h],
                   fl_watchCancel := Some ctx, fl_canceled := fl_canceled f @ [False]\<rparr>) (ls_world s)\<rparr>)"

definition fl_Close :: "('h, 'x) file_loader \<Rightarrow> ('h, 'x) file_loader" where
  "fl_Close f =
    (case fl_watchCancel f of
       None \<Rightarrow> f\<lparr>fl_closed := True, fl_watchCancel := None\<rparr>
     | Some c \<Rightarrow> f\<lparr>fl_closed := True, fl_watchCancel := None, fl_canceled := (fl_canceled f)[c := True]\<rparr>)"

text \<open>The digest of the priority files, and the comparison, of watchLocal and
  watchSource.\<close>

definition compare_data :: "config_lib \<Rightarrow> 'w loader_const \<Rightarrow> string \<Rightarrow> ('h, 'x) loader_world \<Rightarrow> watch_pc \<times> ('h, 'x) loader_world" where
  "compare_data L C data w =
    (case priorityConfigSHA256 L (lc_priorityDirectory C) w of
       (Inl e, w1) \<Rightarrow> (AtWait, w1)
     | (Inr hash, w1) \<Rightarrow> (if fl_changed L data hash w1 then Execute data hash else AtWait, w1))"

definition watchLocal_tick :: "config_lib \<Rightarrow> ('h, 'x) loader_world loader_const \<Rightarrow> ('h, 'x) loader_world
    \<Rightarrow> watch_pc \<times> ('h, 'x) loader_world" where
  "watchLocal_tick L C w =
    (case so_Load (lc_source C) (lc_confKey C) w of
       (Inl e, w1) \<Rightarrow> (AtWait, w1)
     | (Inr data, w1) \<Rightarrow> compare_data L C data w1)"

definition watchSource_event :: "config_lib \<Rightarrow> 'w loader_const \<Rightarrow> loader_event \<Rightarrow> ('h, 'x) loader_world
    \<Rightarrow> watch_pc \<times> ('h, 'x) loader_world" where
  "watchSource_event L C ev w =
    (if le_err ev \<noteq> None then (AtWait, w)
     else if le_deleted ev then (AtWait, w)
     else compare_data L C (le_value ev) w)"

definition watchPriority_tick :: "config_lib \<Rightarrow> 'w loader_const \<Rightarrow> ('h, 'x) loader_world \<Rightarrow> watch_pc \<times> ('h, 'x) loader_world" where
  "watchPriority_tick L C w =
    (case priorityConfigSHA256 L (lc_priorityDirectory C) w of
       (Inl e, w1) \<Rightarrow> (AtWait, w1)
     | (Inr hash, w1) \<Rightarrow> (HashRead hash, w1))"

definition watchPriority_read :: "(string \<times> string) list \<Rightarrow> ('h, 'x) loader_world \<Rightarrow> watch_pc" where
  "watchPriority_read hash w =
    (if hash \<noteq> fl_priorityConfigHash (os.more w) then Execute (fl_configData (os.more w)) hash else AtWait)"

definition wait_step :: "config_lib \<Rightarrow> ('h, 'x) loader_world loader_const \<Rightarrow> watch_kind \<Rightarrow> loader_event
    \<Rightarrow> ('h, 'x) loader_world \<Rightarrow> watch_pc \<times> ('h, 'x) loader_world" where
  "wait_step L C k ev w =
    (case k of WatchLocal \<Rightarrow> watchLocal_tick L C w | WatchSource \<Rightarrow> watchSource_event L C ev w
     | WatchPriority \<Rightarrow> watchPriority_tick L C w)"

definition set_go :: "nat \<Rightarrow> watch_pc \<Rightarrow> ('h, 'x) loader_world \<Rightarrow> ('h, 'x) loader_state \<Rightarrow> ('h, 'x) loader_state" where
  "set_go i pc w s = s\<lparr>ls_gos := (ls_gos s)[i := (ls_gos s ! i)\<lparr>wg_pc := pc\<rparr>], ls_world := w\<rparr>"

text \<open>One step of the process: a call of Watch or Close, a step of a goroutine,
  or anything else happening to the files, the environment and the rest of the
  process.  executeLoader runs under a lock no other goroutine of the loader
  passes, so it is one step; taking the lock before it is not.\<close>

inductive fl_step :: "config_lib \<Rightarrow> ('h, 'x) loader_world loader_const \<Rightarrow> ('h, 'x) run_handler
    \<Rightarrow> ('h, 'x) loader_state \<Rightarrow> ('h, 'x) loader_state \<Rightarrow> bool"
  for L :: config_lib and C :: "('h, 'x) loader_world loader_const" and H :: "('h, 'x) run_handler" where
  call_watch: "fl_step L C H s (fl_Watch C h s)"
| call_close: "fl_step L C H s (s\<lparr>ls_world := upd_loader fl_Close (ls_world s)\<rparr>)"
| at_wait: "\<lbrakk> i < length (ls_gos s); wg_pc (ls_gos s ! i) = AtWait;
      wait_step L C (wg_kind (ls_gos s ! i)) ev (ls_world s) = (pc, w) \<rbrakk> \<Longrightarrow> fl_step L C H s (set_go i pc w s)"
| hash_read: "\<lbrakk> i < length (ls_gos s); wg_pc (ls_gos s ! i) = HashRead hash \<rbrakk>
    \<Longrightarrow> fl_step L C H s (set_go i (watchPriority_read hash (ls_world s)) (ls_world s) s)"
| run_execute: "\<lbrakk> i < length (ls_gos s); wg_pc (ls_gos s ! i) = Execute data hash;
      executeLoader L C H data hash (ls_world s) = (r, w) \<rbrakk> \<Longrightarrow> fl_step L C H s (set_go i AtWait w s)"
| watch_end: "\<lbrakk> i < length (ls_gos s); wg_pc (ls_gos s ! i) = AtWait;
      fl_canceled (os.more (ls_world s)) ! wg_ctx (ls_gos s ! i) \<or> wg_kind (ls_gos s ! i) = WatchSource \<rbrakk>
    \<Longrightarrow> fl_step L C H s (set_go i WatchEnded (ls_world s) s)"
| outside: "\<lbrakk> os.more w = (os.more (ls_world s))\<lparr>fl_ext := x\<rparr> \<rbrakk> \<Longrightarrow> fl_step L C H s (s\<lparr>ls_world := w\<rparr>)"

text \<open>Reachable from a loader NewSourceLoader returned.\<close>

inductive fl_reachable :: "config_lib \<Rightarrow> ('h, 'x) loader_world loader_const \<Rightarrow> ('h, 'x) run_handler
    \<Rightarrow> ('h, 'x) loader_state \<Rightarrow> bool"
  for L :: config_lib and C :: "('h, 'x) loader_world loader_const" and H :: "('h, 'x) run_handler" where
  fl_new: "NewSourceLoader L src dir w0 = (Inr C, w) \<Longrightarrow> fl_reachable L C H \<lparr>ls_gos = [], ls_world = w\<rparr>"
| fl_next: "\<lbrakk> fl_reachable L C H s; fl_step L C H s s' \<rbrakk> \<Longrightarrow> fl_reachable L C H s'"

section \<open>What the parts leave alone\<close>

lemma upd_loader_sel [simp]:
  "os.more (upd_loader f w) = f (os.more w)" "os_env (upd_loader f w) = os_env w" "os_files (upd_loader f w) = os_files w"
  by (simp_all add: upd_loader_def)

lemma hash_files_rest: "hash_files L dir ns w = (r, w') \<Longrightarrow> same_rest w w'"
proof (induction L dir ns w arbitrary: r w' rule: hash_files.induct)
  case (2 L dir n ns w)
  obtain r1 w1 where 1: "os_ReadFile (path_Join [dir, n]) w = (r1, w1)" by (cases "os_ReadFile (path_Join [dir, n]) w")
  note s1 = calls_same_rest(2) [OF 1]
  show ?case
  proof (cases r1)
    case (Inr data)
    obtain r2 w2 where run: "hash_files L dir ns w1 = (r2, w2)" by (cases "hash_files L dir ns w1")
    have "w' = w2" using "2.prems" 1 run Inr by (auto split: sum.splits)
    then show ?thesis using same_rest_trans [OF s1 "2.IH" [OF 1 [symmetric] Inr run]] by simp
  qed (use "2.prems" 1 s1 in auto)
qed simp

lemma priorityConfigSHA256_rest: "priorityConfigSHA256 L dir w = (r, w') \<Longrightarrow> same_rest w w'"
  by (auto simp: priorityConfigSHA256_def split: if_splits prod.splits sum.splits
      dest!: hash_files_rest calls_same_rest(12) intro: same_rest_trans)

lemma parsePriorityConfig_rest: "parsePriorityConfig L p w = (r, w') \<Longrightarrow> same_rest w w'"
  by (auto simp: parsePriorityConfig_def split: prod.splits sum.splits dest!: calls_same_rest(2))

lemma merge_files_rest: "merge_files L dir f ns dst w = (r, w') \<Longrightarrow> same_rest w w'"
proof (induction L dir f ns dst w arbitrary: r w' rule: merge_files.induct)
  case (2 L dir f n ns dst w)
  obtain r1 w1 where 1: "parsePriorityConfig L (path_Join [dir, n]) w = (r1, w1)"
    by (cases "parsePriorityConfig L (path_Join [dir, n]) w")
  note s1 = parsePriorityConfig_rest [OF 1]
  show ?case
  proof (cases r1)
    case (Inl e)
    then show ?thesis using 2(3) 1 same_rest_trans [OF s1 2(1) [OF 1 [symmetric] Inl]] by simp
  next
    case (Inr p)
    then show ?thesis using 2(3) 1 same_rest_trans [OF s1 2(2) [OF 1 [symmetric] Inr]] by simp
  qed
qed simp

lemma mergePriorityConfig_rest: "mergePriorityConfig L dir cfg w = (r, cfg', w') \<Longrightarrow> same_rest w w'"
  by (auto simp: mergePriorityConfig_def split: if_splits prod.splits sum.splits
      dest!: merge_files_rest calls_same_rest(12) intro: same_rest_trans)

lemma decodeConfig_rest: "decodeConfig L dir data w = (r, w') \<Longrightarrow> same_rest w w'"
  by (auto simp: decodeConfig_def split: sum.splits prod.splits dest!: mergePriorityConfig_rest)

lemma decodeConfig_Inr: "(\<exists>cfg. fst (decodeConfig L dir data w) = Inr cfg) \<longleftrightarrow> (\<exists>cfg. cl_decode L data = Inr cfg)"
  by (auto simp: decodeConfig_def split: sum.splits prod.splits)

section \<open>Environment\<close>

text \<open>A map of the environment that the operating system accepts.\<close>

definition env_wf :: "(string \<rightharpoonup> string) \<Rightarrow> bool" where
  "env_wf E = (\<forall>k v. E k = Some v \<longrightarrow> env_ok k v)"

text \<open>\<open>E\<close> is what rolling the entries back gives.\<close>

definition pending :: "(string \<rightharpoonup> string) \<Rightarrow> (string \<times> string option) list \<Rightarrow> 'v os_scheme \<Rightarrow> bool" where
  "pending E ps w = (distinct (map fst ps) \<and> list_all (\<lambda>(k, old). old = E k) ps
    \<and> (\<forall>k. k \<notin> fst ` set ps \<longrightarrow> os_env w k = E k))"

lemma rollback_pending:
  "env_wf E \<Longrightarrow> pending E ps w \<Longrightarrow> rollback_envs ps acc w = (acc, w\<lparr>os_env := E\<rparr>)"
proof (induction ps acc w rule: rollback_envs.induct)
  case (1 acc w)
  then have "os_env w = E" by (auto simp: pending_def)
  then show ?case by simp
next
  case (2 k old ps acc w)
  let ?w1 = "w\<lparr>os_env := (os_env w)(k := old)\<rparr>"
  have old: "old = E k" using 2(4) by (simp add: pending_def)
  have "(case old of Some v \<Rightarrow> os_Setenv k v w | None \<Rightarrow> os_Unsetenv k w) = (None, ?w1)"
    using 2(3) old by (auto simp: os_Setenv_def os_Unsetenv_def env_wf_def split: option.splits)
  moreover have "pending E ps ?w1" using 2(4) old by (auto simp: pending_def)
  ultimately show ?case using 2(1) [of None ?w1] 2(3) by simp
qed

lemma set_envs_effect:
  assumes "env_wf E" and "pending E ps w" and "distinct (map fst ps @ ks)" and "set_envs envs ks ps w = (r, w')"
  shows "case r of Inl e \<Rightarrow> w' = w\<lparr>os_env := E\<rparr>
    | Inr qs \<Rightarrow> pending E qs w' \<and> w' = w\<lparr>os_env := os_env w'\<rparr>
        \<and> os_env w' = (\<lambda>k. if k \<in> set ks then Some (md_get envs k) else os_env w k)"
  using assms
proof (induction envs ks ps w arbitrary: r w' rule: set_envs.induct)
  case (1 envs ps w)
  then show ?case by auto
next
  case (2 envs k ks ps w)
  obtain r1 w1 where 1: "os_Setenv k (md_get envs k) w = (r1, w1)" by (cases "os_Setenv k (md_get envs k) w")
  show ?case
  proof (cases r1)
    case (Some e)
    then have "w1 = w" using 1 by (simp add: os_Setenv_def split: if_splits)
    then show ?thesis
      using 2(5) 1 Some rollback_pending [OF 2(2,3)] by (auto split: prod.splits)
  next
    case None
    then have w1: "w1 = w\<lparr>os_env := (os_env w)(k \<mapsto> md_get envs k)\<rparr>"
      using 1 by (simp add: os_Setenv_def split: if_splits)
    have k: "k \<notin> fst ` set ps" using 2(4) by auto
    have p1: "pending E (ps @ [(k, os_env w k)]) w1"
      using 2(3) k by (auto simp: pending_def w1)
    have d1: "distinct (map fst (ps @ [(k, os_env w k)]) @ ks)" using 2(4) by auto
    have run: "set_envs envs ks (ps @ [(k, os_env w k)]) w1 = (r, w')" using 2(5) 1 None by simp
    have kks: "k \<notin> set ks" using 2(4) by auto
    show ?thesis
      using 2(1) [OF 1 [symmetric] None 2(2) p1 d1 run] kks
      by (cases r) (auto simp: w1 fun_eq_iff)
  qed
qed

lemma pending_Nil: "pending (os_env w) [] w"
  by (simp add: pending_def)

lemma pending_cong: "pending E ps w \<Longrightarrow> os_env w' = os_env w \<Longrightarrow> pending E ps w'"
  by (simp add: pending_def)

section \<open>Merging against a reference\<close>

text \<open>What a merge amounts to: a priority endpoint takes the place of the
  endpoint with its method and path, the last one winning; where several
  endpoints share method and path (on different hosts, say), of the last of
  them only.\<close>

definition override :: "endpoint list \<Rightarrow> endpoint \<Rightarrow> endpoint" where
  "override items e = (case List.find (\<lambda>i. endpoint_key i = endpoint_key e) (rev items) of None \<Rightarrow> e | Some i \<Rightarrow> i)"

fun override_last :: "endpoint list \<Rightarrow> endpoint list \<Rightarrow> endpoint list" where
  "override_last items [] = []"
| "override_last items (e # es) =
     (if endpoint_key e \<in> set (map endpoint_key es) then e else override items e) # override_last items es"

lemma override_last_Nil: "override_last [] es = es"
  by (induction es) (simp_all add: override_def)

lemma override_last_other:
  "endpoint_key i \<notin> set (map endpoint_key es) \<Longrightarrow> override_last (items @ [i]) es = override_last items es"
  by (induction es) (auto simp: override_def)

lemma override_last_snoc:
  "endpoint_index es (endpoint_key i) = Some j \<Longrightarrow> override_last (items @ [i]) es = (override_last items es)[j := i]"
proof (induction es arbitrary: j)
  case (Cons e es)
  show ?case
  proof (cases "endpoint_index es (endpoint_key i)")
    case None
    then have "endpoint_key i \<notin> set (map endpoint_key es)"
      using last_index_of_None [of "\<lambda>e. endpoint_key e = endpoint_key i" es] by (auto simp: endpoint_index_def)
    then show ?thesis
      using Cons.prems None override_last_other [of i es items]
      by (auto simp: endpoint_index_def override_def split: if_splits)
  next
    case (Some k)
    then have "endpoint_key i \<in> set (map endpoint_key es)"
      using last_index_of_Some [of "\<lambda>e. endpoint_key e = endpoint_key i" es k]
      by (auto simp: endpoint_index_def) (metis imageI nth_mem)
    then show ?thesis
      using Cons.prems Cons.IH [OF Some] Some by (auto simp: endpoint_index_def override_def)
  qed
qed (simp add: endpoint_index_def)

text \<open>C27: When every priority endpoint has the method and path of an endpoint of
  the main configuration, merging replaces in place: the result is the
  reference override.  The key is method and path, without the host: where several endpoints
  share it, the last of them is replaced and the others stay, and of several
  priority endpoints with one key the last wins.\<close>

theorem merge_is_override:
  assumes "list_all (\<lambda>i. endpoint_key i \<in> set (map endpoint_key origin)) items"
  shows "foldl (MakeReplaceOrPrependEndpointFn origin) origin items = override_last items origin"
  using assms
proof (induction items rule: rev_induct)
  case Nil
  show ?case by (simp add: override_last_Nil)
next
  case (snoc i items)
  then obtain j where "endpoint_index origin (endpoint_key i) = Some j"
    using last_index_of_None [of "\<lambda>e. endpoint_key e = endpoint_key i" origin]
    by (cases "endpoint_index origin (endpoint_key i)") (auto simp: endpoint_index_def)
  then show ?case
    using snoc override_last_snoc [of origin i j items] by (simp add: MakeReplaceOrPrependEndpointFn_def replaceOrPrepend_def)
qed

definition route :: "string \<Rightarrow> string \<Rightarrow> string \<Rightarrow> endpoint" where
  "route m p d = \<lparr>ep_path = p, ep_method = m, ep_description = d, ep_protocol = HTTP, ep_timeout = None,
     ep_middlewares = [], ep_backends = [], ep_retry = None, ep_metadata = [], ep_host = []\<rparr>"

theorem merge_is_override_witness:
  "foldl (MakeReplaceOrPrependEndpointFn [route ''GET'' ''/a'' ''one'', route ''GET'' ''/b'' [], route ''GET'' ''/a'' ''two''])
     [route ''GET'' ''/a'' ''one'', route ''GET'' ''/b'' [], route ''GET'' ''/a'' ''two''] [route ''GET'' ''/b'' ''new'', route ''GET'' ''/a'' ''new'']
   = [route ''GET'' ''/a'' ''one'', route ''GET'' ''/b'' ''new'', route ''GET'' ''/a'' ''new'']"
  by (subst merge_is_override) (simp_all add: endpoint_key_def route_def override_def)

text \<open>The key leaves out the host: a priority endpoint for one host replaces the
  endpoint of another host with its method and path, which is gone, while the
  endpoint of its own host stays as it was.\<close>

theorem merge_ignores_host:
  assumes "a = (route ''GET'' ''/cart'' ''old'')\<lparr>ep_host := ''a.shop.com''\<rparr>" and "b = (route ''GET'' ''/cart'' ''old'')\<lparr>ep_host := ''b.shop.com''\<rparr>"
    and "a' = (route ''GET'' ''/cart'' ''canary'')\<lparr>ep_host := ''a.shop.com''\<rparr>"
  shows "foldl (MakeReplaceOrPrependEndpointFn [a, b]) [a, b] [a'] = [a, a']"
  using assms by (simp add: MakeReplaceOrPrependEndpointFn_def replaceOrPrepend_def endpoint_index_def endpoint_key_def route_def)

text \<open>The index of the endpoints is taken before the merge and not shifted by
  an endpoint that is prepended: a replacement after a new endpoint overwrites
  the new endpoint and leaves the endpoint it should replace in place.\<close>

theorem new_endpoint_is_lost:
  "foldl (MakeReplaceOrPrependEndpointFn [route ''GET'' ''/a'' ''old'']) [route ''GET'' ''/a'' ''old'']
     [route ''GET'' ''/b'' ''added'', route ''GET'' ''/a'' ''changed'']
   = [route ''GET'' ''/a'' ''changed'', route ''GET'' ''/a'' ''old'']"
  by (simp add: MakeReplaceOrPrependEndpointFn_def replaceOrPrepend_def endpoint_index_def endpoint_key_def route_def)

section \<open>Executing the loader\<close>

text \<open>The contract between the loader and a change handler: a handler returns an
  error or not, and leaves the environment and the loader's own fields alone.\<close>

locale change_handler =
  fixes H :: "'h \<Rightarrow> gateway_config \<Rightarrow> ('h, 'x) loader_world \<Rightarrow> err option \<times> ('h, 'x) loader_world"
  assumes keeps_env: "H h g w = (r, w') \<Longrightarrow> os_env w' = os_env w"
    and keeps_loader: "H h g w = (r, w') \<Longrightarrow> os.more w' = (os.more w)\<lparr>fl_ext := fl_ext (os.more w')\<rparr>"
begin

lemma run_handlers_keep:
  "run_handlers H hs cfg acc w = (r, w')
    \<Longrightarrow> os_env w' = os_env w \<and> os.more w' = (os.more w)\<lparr>fl_ext := fl_ext (os.more w')\<rparr>"
proof (induction hs arbitrary: acc w)
  case (Cons h hs)
  obtain r1 w1 where run: "H h cfg w = (r1, w1)" by (cases "H h cfg w")
  obtain acc1 where rest: "run_handlers H hs cfg acc1 w1 = (r, w')"
    using Cons.prems run by (auto split: option.splits)
  have "os.more w' = (os.more w1)\<lparr>fl_ext := fl_ext (os.more w')\<rparr>" "os_env w' = os_env w1"
    using Cons.IH [OF rest] by simp_all
  then show ?case using keeps_env [OF run] keeps_loader [OF run] by (metis file_loader.surjective file_loader.update_convs(8))
qed simp

lemma run_handlers_None:
  "run_handlers H hs cfg (Some e) w = (r, w') \<Longrightarrow> r \<noteq> None"
  by (induction hs arbitrary: e w) (auto split: prod.splits option.splits simp: errors_Join_def)

text \<open>An execution that fails keeps the snapshot and restores the environment;
  one that succeeds sets both.\<close>

lemma executeLoader_effect:
  assumes wf: "env_wf (os_env w)" and run: "executeLoader L C H data hash w = (r, w')"
  shows "case r of
      Some e \<Rightarrow> os_env w' = os_env w \<and> os.more w' = (os.more w)\<lparr>fl_ext := fl_ext (os.more w')\<rparr>
    | None \<Rightarrow> (\<exists>cfg. fst (decodeConfig L (lc_priorityDirectory C) data w) = Inr cfg
        \<and> os_env w' = (\<lambda>k. if k \<in> set (map fst (gc_envs cfg)) then Some (md_get (gc_envs cfg) k) else os_env w k)
        \<and> os.more w' = (os.more w)\<lparr>fl_configData := data, fl_confSHA256 := cl_sha256 L data,
             fl_priorityConfigHash := hash, fl_ext := fl_ext (os.more w')\<rparr>)"
proof -
  obtain d w1 where dec: "decodeConfig L (lc_priorityDirectory C) data w = (d, w1)"
    by (cases "decodeConfig L (lc_priorityDirectory C) data w")
  have rest: "os_env w1 = os_env w" "os.more w1 = os.more w" using decodeConfig_rest [OF dec] by (simp_all add: same_rest_def)
  show ?thesis
  proof (cases d)
    case (Inl e)
    then show ?thesis using run dec rest by (auto simp: executeLoader_def)
  next
    case (Inr cfg)
    let ?ks = "sort (remdups (map fst (gc_envs cfg)))"
    obtain a w2 where app: "applyEnvs cfg w1 = (a, w2)" by (cases "applyEnvs cfg w1")
    have wf1: "env_wf (os_env w1)" using wf rest by simp
    have ks: "distinct (map fst ([] :: (string \<times> string option) list) @ ?ks)" by simp
    note eff = set_envs_effect [OF wf1 pending_Nil _ app [unfolded applyEnvs_def]]
    show ?thesis
    proof (cases a)
      case (Inl e)
      then have "w2 = w1" using eff by simp
      then show ?thesis using run dec Inr app Inl rest by (auto simp: executeLoader_def)
    next
      case prev: (Inr previous)
      have "pending (os_env w1) previous w2 \<and> w2 = w1\<lparr>os_env := os_env w2\<rparr>
          \<and> os_env w2 = (\<lambda>k. if k \<in> set ?ks then Some (md_get (gc_envs cfg) k) else os_env w1 k)"
        using eff [OF ks] unfolding prev sum.case .
      then have p: "pending (os_env w1) previous w2"
          "os_env w2 = (\<lambda>k. if k \<in> set ?ks then Some (md_get (gc_envs cfg) k) else os_env w1 k)"
        and w2: "w2 = w1\<lparr>os_env := os_env w2\<rparr>"
        by blast+
      have more2: "os.more w2 = os.more w" by (subst w2) (simp add: rest)
      obtain c w3 where hs: "run_handlers H (fl_onChangeHandlers (os.more w1)) cfg None w2 = (c, w3)"
        by (cases "run_handlers H (fl_onChangeHandlers (os.more w1)) cfg None w2")
      note k = run_handlers_keep [OF hs]
      show ?thesis
      proof (cases c)
        case None
        then have r: "r = None" "w' = set_snapshot L data hash w3"
          using run dec Inr app prev hs by (auto simp: executeLoader_def Let_def)
        have m: "os.more w3 = (os.more w)\<lparr>fl_ext := fl_ext (os.more w3)\<rparr>" using k more2 by simp
        have "os.more w' = (os.more w)\<lparr>fl_configData := data, fl_confSHA256 := cl_sha256 L data,
             fl_priorityConfigHash := hash, fl_ext := fl_ext (os.more w')\<rparr>"
          unfolding r(2) set_snapshot_def upd_loader_sel by (subst m, subst m) simp
        then show ?thesis using r dec Inr k p(2) rest by (auto simp: set_snapshot_def fun_eq_iff)
      next
        case (Some e)
        have "rollback_envs previous None w3 = (None, w3\<lparr>os_env := os_env w1\<rparr>)"
          by (rule rollback_pending [OF wf1]) (use p k pending_cong in blast)
        then have r: "r = Some (JoinErr [e])" "w' = w3\<lparr>os_env := os_env w1\<rparr>"
          using run dec Inr app prev hs Some by (auto simp: executeLoader_def Let_def errors_Join_def)
        then show ?thesis using k more2 rest by simp
      qed
    qed
  qed
qed

end

section \<open>The invariant of the loader\<close>

definition quiet_source :: "'v os_scheme source \<Rightarrow> bool" where
  "quiet_source S = (\<forall>k w. os_env (snd (so_Load S k w)) = os_env w \<and> os.more (snd (so_Load S k w)) = os.more w)"

lemma quiet_sourceD: "quiet_source S \<Longrightarrow> so_Load S k w = (r, w') \<Longrightarrow> os_env w' = os_env w \<and> os.more w' = os.more w"
  by (metis quiet_source_def snd_conv)

lemma fileSource_quiet: "quiet_source (fileSource F)"
proof -
  have "same_rest w (snd (fileSource_Load F k w))" for k and w :: "'a os_scheme"
  proof (cases "pathForKey F k")
    case (Inr p)
    obtain r w1 where "os_ReadFile p w = (r, w1)" by (cases "os_ReadFile p w")
    then show ?thesis using calls_same_rest(2) [of p w r w1] Inr by (cases r) (simp_all add: fileSource_Load_def)
  qed (simp add: fileSource_Load_def)
  then show ?thesis by (simp add: quiet_source_def fileSource_def same_rest_def)
qed

lemma rollback_more: "rollback_envs ps acc w = (r, w') \<Longrightarrow> os.more w' = os.more w"
proof (induction ps arbitrary: acc w)
  case (Cons p ps)
  obtain k old where p: "p = (k, old)" by (cases p)
  obtain r1 w1 where 1: "(case old of Some v \<Rightarrow> os_Setenv k v w | None \<Rightarrow> os_Unsetenv k w) = (r1, w1)"
    by (cases "case old of Some v \<Rightarrow> os_Setenv k v w | None \<Rightarrow> os_Unsetenv k w")
  have "os.more w1 = os.more w"
    using 1 by (auto simp: os_Setenv_def os_Unsetenv_def split: option.splits if_splits)
  moreover obtain acc1 where "rollback_envs ps acc1 w1 = (r, w')"
    using Cons.prems 1 unfolding p by (cases r1) auto
  ultimately show ?case using Cons.IH by simp
qed simp

lemma set_envs_more: "set_envs envs ks ps w = (r, w') \<Longrightarrow> os.more w' = os.more w"
proof (induction ks arbitrary: ps w)
  case (Cons k ks)
  obtain r1 w1 where 1: "os_Setenv k (md_get envs k) w = (r1, w1)" by (cases "os_Setenv k (md_get envs k) w")
  have m: "os.more w1 = os.more w" using 1 by (auto simp: os_Setenv_def split: if_splits)
  show ?case
  proof (cases r1)
    case None
    then show ?thesis using Cons 1 m by simp
  next
    case (Some e)
    then have "\<exists>re. rollback_envs ps None w1 = (re, w')" using Cons.prems 1 by (auto split: prod.splits)
    then show ?thesis using rollback_more m by metis
  qed
qed simp

lemma compare_data_more: "compare_data L C data w = (pc, w') \<Longrightarrow> os.more w' = os.more w"
  by (auto simp: compare_data_def same_rest_def split: prod.splits sum.splits dest!: priorityConfigSHA256_rest)

lemma wait_step_more:
  assumes "quiet_source (lc_source C)" and "wait_step L C k ev w = (pc, w')"
  shows "os.more w' = os.more w"
proof (cases k)
  case WatchLocal
  obtain r1 w1 where 1: "so_Load (lc_source C) (lc_confKey C) w = (r1, w1)"
    by (cases "so_Load (lc_source C) (lc_confKey C) w")
  then show ?thesis
    using assms(2) WatchLocal quiet_sourceD [OF assms(1) 1]
    by (auto simp: wait_step_def watchLocal_tick_def split: sum.splits dest!: compare_data_more)
next
  case WatchSource
  then show ?thesis
    using assms(2) by (auto simp: wait_step_def watchSource_event_def split: if_splits dest!: compare_data_more)
next
  case WatchPriority
  then show ?thesis
    using assms(2) by (auto simp: wait_step_def watchPriority_tick_def same_rest_def split: sum.splits prod.splits
        dest!: priorityConfigSHA256_rest)
qed

definition fl_inv :: "config_lib \<Rightarrow> ('h, 'x) loader_state \<Rightarrow> bool" where
  "fl_inv L s =
    (let f = os.more (ls_world s)
     in (case fl_watchCancel f of
           None \<Rightarrow> list_all id (fl_canceled f) \<and> (fl_closed f \<or> fl_canceled f = [] \<and> ls_gos s = [])
         | Some c \<Rightarrow> \<not> fl_closed f \<and> c = 0 \<and> fl_canceled f = [False])
        \<and> length (fl_canceled f) \<le> 1 \<and> distinct (map wg_kind (ls_gos s))
        \<and> (\<exists>cfg. cl_decode L (fl_configData f) = Inr cfg))"

lemma fl_inv_cong:
  "fl_inv L s \<Longrightarrow> os.more (ls_world s') = (os.more (ls_world s))\<lparr>fl_ext := x\<rparr> \<Longrightarrow> ls_gos s' = ls_gos s \<Longrightarrow> fl_inv L s'"
  by (simp add: fl_inv_def Let_def split: option.splits)

lemma kinds_set_go [simp]: "map wg_kind (ls_gos (set_go i pc w s)) = map wg_kind (ls_gos s)"
  by (cases "i < length (ls_gos s)") (simp_all add: set_go_def map_update list_update_same_conv list_update_beyond)

lemma set_go_inv:
  assumes "fl_inv L s" and "os.more w = (os.more (ls_world s))\<lparr>fl_configData := d, fl_confSHA256 := a, fl_priorityConfigHash := b, fl_ext := x\<rparr>"
    and "\<exists>cfg. cl_decode L d = Inr cfg"
  shows "fl_inv L (set_go i pc w s)"
  using assms unfolding fl_inv_def Let_def kinds_set_go
  by (auto simp: set_go_def split: option.splits)

lemma set_go_inv_same: "fl_inv L s \<Longrightarrow> os.more w = (os.more (ls_world s))\<lparr>fl_ext := x\<rparr> \<Longrightarrow> fl_inv L (set_go i pc w s)"
  by (rule set_go_inv [where d = "fl_configData (os.more (ls_world s))" and a = "fl_confSHA256 (os.more (ls_world s))"
        and b = "fl_priorityConfigHash (os.more (ls_world s))" and x = x]) (auto simp: fl_inv_def Let_def)

lemma fl_Watch_inv: "fl_inv L s \<Longrightarrow> fl_inv L (fl_Watch C h s)"
  by (auto simp: fl_inv_def fl_Watch_def Let_def started_watchers_def split: option.splits)

lemma fl_Close_inv: "fl_inv L s \<Longrightarrow> fl_inv L (s\<lparr>ls_world := upd_loader fl_Close (ls_world s)\<rparr>)"
  by (auto simp: fl_inv_def fl_Close_def Let_def split: option.splits)

text \<open>The fields of a new loader, when loading from its source leaves them alone.\<close>

lemma NewSourceLoader_fields:
  assumes q: "\<And>k w r w'. so_Load S k w = (r, w') \<Longrightarrow> os.more w' = os.more w"
    and new: "NewSourceLoader L (Some S) dir w0 = (Inr C, w)"
  shows "\<exists>data hash cfg. cl_decode L data = Inr cfg
    \<and> os.more w = (os.more w0)\<lparr>fl_configData := data, fl_confSHA256 := cl_sha256 L data, fl_priorityConfigHash := hash,
        fl_watchCancel := None, fl_closed := False, fl_onChangeHandlers := [], fl_canceled := []\<rparr>"
proof -
  let ?w = "upd_loader (\<lambda>f. f\<lparr>fl_configData := [], fl_confSHA256 := [], fl_priorityConfigHash := [],
                     fl_watchCancel := None, fl_closed := False, fl_onChangeHandlers := [], fl_canceled := []\<rparr>) w0"
  have init: "fl_initialize L C ?w = (None, w)" and C: "lc_source C = S" "lc_priorityDirectory C = dir" "lc_confKey C = so_MainKey S"
    using new by (auto simp: NewSourceLoader_def Let_def split: option.splits prod.splits)
  obtain w1 data w2 w3 hash w4 where
      mk: "(if dir = [] then (Inr (), ?w) else os_MkdirAll dir ?w) = (Inr (), w1)"
    and ld: "so_Load S (so_MainKey S) w1 = (Inr data, w2)"
    and dec: "\<exists>cfg. decodeConfig L dir data w2 = (Inr cfg, w3)"
    and hs: "priorityConfigSHA256 L dir (upd_loader (\<lambda>f. f\<lparr>fl_configData := data, fl_confSHA256 := cl_sha256 L data\<rparr>) w3) = (Inr hash, w4)"
    and w: "w = upd_loader (\<lambda>f. f\<lparr>fl_priorityConfigHash := hash\<rparr>) w4"
    using init by (auto simp: fl_initialize_def C Let_def try_call_def split: sum.splits prod.splits)
  have "os.more w1 = os.more ?w"
    using mk by (auto simp: same_rest_def split: if_splits dest!: calls_same_rest(3))
  moreover have "os.more w2 = os.more w1" using q [OF ld] .
  moreover have "os.more w3 = os.more w2" using dec decodeConfig_rest same_rest_def by blast
  moreover have "os.more w4 = (os.more w3)\<lparr>fl_configData := data, fl_confSHA256 := cl_sha256 L data\<rparr>"
    using priorityConfigSHA256_rest [OF hs] by (simp add: same_rest_def)
  moreover obtain cfg where "cl_decode L data = Inr cfg"
    using dec decodeConfig_Inr [of L dir data w2] by auto
  ultimately show ?thesis by (intro exI [of _ data] exI [of _ hash] exI [of _ cfg]) (simp add: w)
qed

lemma NewSourceLoader_inv:
  assumes q: "quiet_source (lc_source C)" and new: "NewSourceLoader L src dir w0 = (Inr C, w)"
  shows "fl_inv L \<lparr>ls_gos = [], ls_world = w\<rparr>"
proof -
  obtain S where S: "src = Some S" "lc_source C = S"
    using new by (auto simp: NewSourceLoader_def Let_def split: option.splits prod.splits)
  show ?thesis
    using NewSourceLoader_fields [of S L dir w0 C w] quiet_sourceD [OF q] new by (auto simp: fl_inv_def Let_def S)
qed

context change_handler
begin

lemma executeLoader_more:
  assumes run: "executeLoader L C H data hash w = (r, w')"
  shows "(r \<noteq> None \<and> os.more w' = (os.more w)\<lparr>fl_ext := fl_ext (os.more w')\<rparr>)
    \<or> (r = None \<and> (\<exists>cfg. cl_decode L data = Inr cfg) \<and>
       os.more w' = (os.more w)\<lparr>fl_configData := data, fl_confSHA256 := cl_sha256 L data,
             fl_priorityConfigHash := hash, fl_ext := fl_ext (os.more w')\<rparr>)"
proof -
  obtain d w1 where dec: "decodeConfig L (lc_priorityDirectory C) data w = (d, w1)"
    by (cases "decodeConfig L (lc_priorityDirectory C) data w")
  have rest: "os.more w1 = os.more w" using decodeConfig_rest [OF dec] by (simp add: same_rest_def)
  show ?thesis
  proof (cases d)
    case (Inl e)
    then show ?thesis using run dec rest by (auto simp: executeLoader_def)
  next
    case (Inr cfg)
    have ok: "\<exists>cfg. cl_decode L data = Inr cfg" using decodeConfig_Inr [of L "lc_priorityDirectory C" data w] dec Inr by simp
    obtain a w2 where app: "applyEnvs cfg w1 = (a, w2)" by (cases "applyEnvs cfg w1")
    have m2: "os.more w2 = os.more w" using set_envs_more [OF app [unfolded applyEnvs_def]] rest by simp
    show ?thesis
    proof (cases a)
      case (Inl e)
      then show ?thesis using run dec Inr app m2 by (auto simp: executeLoader_def)
    next
      case prev: (Inr previous)
      obtain c w3 where hs: "run_handlers H (fl_onChangeHandlers (os.more w1)) cfg None w2 = (c, w3)"
        by (cases "run_handlers H (fl_onChangeHandlers (os.more w1)) cfg None w2")
      have m3: "os.more w3 = (os.more w)\<lparr>fl_ext := fl_ext (os.more w3)\<rparr>" using run_handlers_keep [OF hs] m2 by simp
      show ?thesis
      proof (cases c)
        case None
        then have r: "r = None" "w' = set_snapshot L data hash w3"
          using run dec Inr app prev hs by (auto simp: executeLoader_def Let_def)
        have "os.more w' = (os.more w)\<lparr>fl_configData := data, fl_confSHA256 := cl_sha256 L data,
             fl_priorityConfigHash := hash, fl_ext := fl_ext (os.more w')\<rparr>"
          unfolding r(2) set_snapshot_def upd_loader_sel by (subst m3, subst m3) simp
        then show ?thesis using r(1) ok by simp
      next
        case (Some e)
        obtain re w4 where rb: "rollback_envs previous None w3 = (re, w4)" by (cases "rollback_envs previous None w3")
        have "r \<noteq> None" "w' = w4"
          using run dec Inr app prev hs Some rb by (auto simp: executeLoader_def Let_def)
        then show ?thesis using rollback_more [OF rb] m3 by simp
      qed
    qed
  qed
qed

lemma fl_step_inv:
  assumes q: "quiet_source (lc_source C)" and st: "fl_step L C H s s'" and inv: "fl_inv L s"
  shows "fl_inv L s'"
  using st
proof (cases rule: fl_step.cases)
  case (at_wait i ev pc w)
  have "os.more w = (os.more (ls_world s))\<lparr>fl_ext := fl_ext (os.more (ls_world s))\<rparr>"
    using wait_step_more [OF q at_wait(4)] by simp
  then show ?thesis unfolding at_wait(1) by (rule set_go_inv_same [OF inv])
next
  case (hash_read i hash)
  show ?thesis unfolding hash_read(1) by (rule set_go_inv_same [OF inv, where x = "fl_ext (os.more (ls_world s))"]) simp
next
  case (run_execute i data hash r w)
  from executeLoader_more [OF run_execute(4)] show ?thesis
  proof (elim disjE conjE)
    assume "os.more w = (os.more (ls_world s))\<lparr>fl_ext := fl_ext (os.more w)\<rparr>"
    then show ?thesis unfolding run_execute(1) by (rule set_go_inv_same [OF inv])
  next
    assume ok: "\<exists>cfg. cl_decode L data = Inr cfg"
      and m: "os.more w = (os.more (ls_world s))\<lparr>fl_configData := data, fl_confSHA256 := cl_sha256 L data,
             fl_priorityConfigHash := hash, fl_ext := fl_ext (os.more w)\<rparr>"
    show ?thesis unfolding run_execute(1) by (rule set_go_inv [OF inv m ok])
  qed
next
  case (watch_end i)
  show ?thesis unfolding watch_end(1) by (rule set_go_inv_same [OF inv, where x = "fl_ext (os.more (ls_world s))"]) simp
next
  case (outside w x)
  then show ?thesis using fl_inv_cong [OF inv] by simp
qed (use inv fl_Watch_inv fl_Close_inv in auto)

lemma fl_reachable_inv [gw_inv]:
  assumes "quiet_source (lc_source C)" and "fl_reachable L C H s"
  shows "fl_inv L s"
  using assms(2)
proof (induction rule: fl_reachable.induct)
  case (fl_new src dir w0 w)
  then show ?case using NewSourceLoader_inv [OF assms(1)] by blast
next
  case (fl_next s s')
  then show ?case using fl_step_inv [OF assms(1)] by blast
qed

end

end
