(* ===== verification/Gateway_Reload.thy ===== *)
theory Gateway_Reload
  imports Config_Loader Proxy_Spec
begin

text \<open>
  The configuration loader and the proxy together: the change handler of
  cmd/gateway/main.go passes a new configuration to Update of the proxy.  The
  locale of the loader is interpreted on it, and the theorems about the loader
  as it runs in the gateway follow.
\<close>

section \<open>The change handler\<close>

text \<open>The state of the proxy and of the world it acts on is the rest of the
  process of the loader.\<close>

definition reloader :: "'x proxy_env \<Rightarrow> 'x world client_factory \<Rightarrow> 'x world factory_v2
    \<Rightarrow> (unit, 'x world proxy \<times> 'x world) run_handler" where
  "reloader E cf mf h cfg w =
    (case fl_ext (os.more w) of
       (p, x) \<Rightarrow>
         (case Update E cf mf cfg p x of
            (r, p1, x1) \<Rightarrow> (r, upd_loader (\<lambda>f. f\<lparr>fl_ext := (p1, x1)\<rparr>) w)))"

interpretation reload: change_handler "reloader E cf mf"
  for E :: "'x proxy_env" and cf :: "'x world client_factory" and mf :: "'x world factory_v2"
  by unfold_locales (auto simp: reloader_def split: prod.splits)

text \<open>The proxy the process serves with.\<close>

definition serving :: "(unit, 'x world proxy \<times> 'x world) loader_world \<Rightarrow> 'x world proxy" where
  "serving w = fst (fl_ext (os.more w))"

lemma Update_failed: "Update E cf mf cfg p x = (Some e, p1, x1) \<Longrightarrow> p1 = p"
  by (auto simp: Update_def Let_def split: prod.splits if_splits)

lemma serving_cong: "fl_ext (os.more w') = fl_ext (os.more w) \<Longrightarrow> serving w' = serving w"
  by (simp add: serving_def)

lemma rollback_serving: "rollback_envs ps acc w = (r, w') \<Longrightarrow> serving w' = serving w"
  using rollback_more by (metis serving_cong)

lemma executeLoader_serving:
  assumes run: "executeLoader L C (reloader E cf mf) data hash w = (r, w')"
    and one: "fl_onChangeHandlers (os.more w) = [()]"
  shows "case r of
      Some e \<Rightarrow> serving w' = serving w
    | None \<Rightarrow> (\<exists>cfg. fst (decodeConfig L (lc_priorityDirectory C) data w) = Inr cfg
        \<and> (\<exists>x1. Update E cf mf cfg (serving w) (snd (fl_ext (os.more w))) = (None, serving w', x1)))"
proof -
  obtain d w1 where dec: "decodeConfig L (lc_priorityDirectory C) data w = (d, w1)"
    by (cases "decodeConfig L (lc_priorityDirectory C) data w")
  have m1: "os.more w1 = os.more w" using decodeConfig_rest [OF dec] by (simp add: same_rest_def)
  show ?thesis
  proof (cases d)
    case (Inl e)
    then show ?thesis using run dec m1 by (auto simp: executeLoader_def serving_def)
  next
    case (Inr cfg)
    obtain a w2 where app: "applyEnvs cfg w1 = (a, w2)" by (cases "applyEnvs cfg w1")
    have m2: "os.more w2 = os.more w" using set_envs_more [OF app [unfolded applyEnvs_def]] m1 by simp
    show ?thesis
    proof (cases a)
      case (Inl e)
      then show ?thesis using run dec Inr app m2 by (auto simp: executeLoader_def serving_def)
    next
      case prev: (Inr previous)
      obtain u p1 x1 where up: "Update E cf mf cfg (serving w) (snd (fl_ext (os.more w))) = (u, p1, x1)"
        by (cases "Update E cf mf cfg (serving w) (snd (fl_ext (os.more w)))")
      have h: "reloader E cf mf () cfg w2 = (u, upd_loader (\<lambda>f. f\<lparr>fl_ext := (p1, x1)\<rparr>) w2)"
        using up by (cases "fl_ext (os.more w)") (simp add: reloader_def m2 serving_def)
      show ?thesis
      proof (cases u)
        case None
        then have "r = None" "w' = set_snapshot L data hash (upd_loader (\<lambda>f. f\<lparr>fl_ext := (p1, x1)\<rparr>) w2)"
          using run dec Inr app prev h one m1 by (auto simp: executeLoader_def Let_def)
        then show ?thesis using up None dec Inr by (simp add: serving_def set_snapshot_def)
      next
        case (Some e)
        obtain re w4 where rb: "rollback_envs previous None (upd_loader (\<lambda>f. f\<lparr>fl_ext := (p1, x1)\<rparr>) w2) = (re, w4)"
          by (cases "rollback_envs previous None (upd_loader (\<lambda>f. f\<lparr>fl_ext := (p1, x1)\<rparr>) w2)")
        have "w' = w4" "\<exists>f. r = Some f"
          using run dec Inr app prev h one m1 Some rb
          by (auto simp: executeLoader_def Let_def errors_Join_def split: option.splits)
        moreover have "serving w4 = serving w"
          using rollback_serving [OF rb] Update_failed up Some by (simp add: serving_def)
        ultimately show ?thesis by auto
      qed
    qed
  qed
qed

section \<open>The snapshot is in force\<close>

text \<open>The proxy is one that Update made for the configuration of the recorded
  snapshot, decoded and merged with the priority files as they were at the time.\<close>

definition in_force :: "'x proxy_env \<Rightarrow> 'x world client_factory \<Rightarrow> 'x world factory_v2 \<Rightarrow> config_lib
    \<Rightarrow> (unit, 'x world proxy \<times> 'x world) loader_world loader_const \<Rightarrow> (unit, 'x world proxy \<times> 'x world) loader_world \<Rightarrow> bool" where
  "in_force E cf mf L C w \<longleftrightarrow>
    (\<exists>(w0 :: (unit, 'x world proxy \<times> 'x world) loader_world) cfg q x0 x1.
       fst (decodeConfig L (lc_priorityDirectory C) (fl_configData (os.more w)) w0) = Inr cfg
       \<and> Update E cf mf cfg q x0 = (None, serving w, x1))"

text \<open>The steps of the loader in a process that calls Watch once, as main does,
  and in which only the change handler gives the proxy its routes: a step that
  moves no goroutine leaves the proxy alone.\<close>

definition gateway_step :: "config_lib \<Rightarrow> (unit, 'x world proxy \<times> 'x world) loader_world loader_const
    \<Rightarrow> (unit, 'x world proxy \<times> 'x world) run_handler \<Rightarrow> (unit, 'x world proxy \<times> 'x world) loader_state
    \<Rightarrow> (unit, 'x world proxy \<times> 'x world) loader_state \<Rightarrow> bool" where
  "gateway_step L C H s s' \<longleftrightarrow> fl_step L C H s s'
    \<and> fl_onChangeHandlers (os.more (ls_world s')) = fl_onChangeHandlers (os.more (ls_world s))
    \<and> (ls_gos s' = ls_gos s \<longrightarrow> serving (ls_world s') = serving (ls_world s))"

lemma in_force_cong:
  "in_force E cf mf L C w \<Longrightarrow> fl_configData (os.more w') = fl_configData (os.more w) \<Longrightarrow> serving w' = serving w
    \<Longrightarrow> in_force E cf mf L C w'"
  unfolding in_force_def by simp

lemma in_force_execute:
  assumes run: "executeLoader L C (reloader E cf mf) data hash w = (r, w')"
    and one: "fl_onChangeHandlers (os.more w) = [()]" and inf: "in_force E cf mf L C w"
  shows "in_force E cf mf L C w'"
proof (cases r)
  case None
  obtain cfg x1 where "fst (decodeConfig L (lc_priorityDirectory C) data w) = Inr cfg"
      "Update E cf mf cfg (serving w) (snd (fl_ext (os.more w))) = (None, serving w', x1)"
    using executeLoader_serving [OF run one] None by auto
  moreover have m: "os.more w' = (os.more w)\<lparr>fl_configData := data, fl_confSHA256 := cl_sha256 L data,
             fl_priorityConfigHash := hash, fl_ext := fl_ext (os.more w')\<rparr>"
    using reload.executeLoader_more [OF run] None by auto
  have "fl_configData (os.more w') = data" by (subst m) simp
  ultimately show ?thesis unfolding in_force_def by blast
next
  case (Some e)
  have m: "os.more w' = (os.more w)\<lparr>fl_ext := fl_ext (os.more w')\<rparr>"
    using reload.executeLoader_more [OF run] Some by auto
  have "fl_configData (os.more w') = fl_configData (os.more w)" by (subst m) simp
  moreover have "serving w' = serving w" using executeLoader_serving [OF run one] Some by simp
  ultimately show ?thesis using in_force_cong [OF inf] by blast
qed

lemma in_force_step:
  assumes q: "quiet_source (lc_source C)" and st: "gateway_step L C (reloader E cf mf) s s'"
    and one: "fl_onChangeHandlers (os.more (ls_world s)) = [()]" and inf: "in_force E cf mf L C (ls_world s)"
  shows "in_force E cf mf L C (ls_world s')"
proof -
  have "fl_step L C (reloader E cf mf) s s'" using st by (simp add: gateway_step_def)
  then show ?thesis
  proof (cases rule: fl_step.cases)
    case (call_watch h)
    then show ?thesis by (intro in_force_cong [OF inf]) (auto simp: fl_Watch_def Let_def serving_def split: option.splits)
  next
    case call_close
    then show ?thesis by (intro in_force_cong [OF inf]) (auto simp: fl_Close_def Let_def serving_def split: option.splits)
  next
    case (at_wait i ev pc w)
    have "os.more w = os.more (ls_world s)" using wait_step_more [OF q at_wait(4)] .
    then show ?thesis unfolding at_wait(1) by (intro in_force_cong [OF inf]) (simp_all add: set_go_def serving_def)
  next
    case (hash_read i hash)
    then show ?thesis by (intro in_force_cong [OF inf]) (simp_all add: set_go_def serving_def)
  next
    case (run_execute i data hash r w)
    then show ?thesis using in_force_execute [OF run_execute(4) one inf] by (simp add: set_go_def)
  next
    case (watch_end i)
    then show ?thesis by (intro in_force_cong [OF inf]) (simp_all add: set_go_def serving_def)
  next
    case (outside w x)
    then have "serving (ls_world s') = serving (ls_world s)" using st by (simp add: gateway_step_def)
    then show ?thesis using outside by (intro in_force_cong [OF inf]) simp_all
  qed
qed

lemma gateway_steps:
  assumes "(gateway_step L C (reloader E cf mf))\<^sup>*\<^sup>* s s'" and "quiet_source (lc_source C)"
    and "fl_onChangeHandlers (os.more (ls_world s)) = [()]" and "in_force E cf mf L C (ls_world s)"
  shows "(fl_step L C (reloader E cf mf))\<^sup>*\<^sup>* s s' \<and> fl_onChangeHandlers (os.more (ls_world s')) = [()] \<and> in_force E cf mf L C (ls_world s')"
  using assms(1)
proof (induction rule: rtranclp_induct)
  case (step t u)
  then show ?case
    using in_force_step [OF assms(2) step(2)] by (auto simp: gateway_step_def intro: rtranclp.rtrancl_into_rtrancl)
qed (use assms in simp)

section \<open>Properties\<close>

text \<open>C26: A configuration that cannot be decoded, whose environment cannot be set
  or that the proxy refuses changes nothing: the proxy serves the old routes, the environment is
  as before and the loader keeps its last known-good snapshot.  One that is
  accepted takes effect in all three places: the proxy is the one Update makes
  for it, its environment is set and it is the new snapshot.\<close>

theorem reload_all_or_nothing:
  assumes "executeLoader L C (reloader E cf mf) data hash w = (r, w')"
    and "fl_onChangeHandlers (os.more w) = [()]" and "env_wf (os_env w)"
  shows "case r of
      Some e \<Rightarrow> serving w' = serving w \<and> os_env w' = os_env w
        \<and> fl_configData (os.more w') = fl_configData (os.more w)
        \<and> fl_priorityConfigHash (os.more w') = fl_priorityConfigHash (os.more w)
    | None \<Rightarrow> (\<exists>cfg x. fst (decodeConfig L (lc_priorityDirectory C) data w) = Inr cfg
        \<and> Update E cf mf cfg (serving w) (snd (fl_ext (os.more w))) = (None, serving w', x)
        \<and> os_env w' = (\<lambda>k. if k \<in> set (map fst (gc_envs cfg)) then Some (md_get (gc_envs cfg) k) else os_env w k)
        \<and> fl_configData (os.more w') = data \<and> fl_priorityConfigHash (os.more w') = hash)"
proof (cases r)
  case None
  from executeLoader_serving [OF assms(1,2)] obtain cfg x1 where
    1: "fst (decodeConfig L (lc_priorityDirectory C) data w) = Inr cfg"
       "Update E cf mf cfg (serving w) (snd (fl_ext (os.more w))) = (None, serving w', x1)"
    unfolding None option.case by blast
  from reload.executeLoader_effect [OF assms(3,1)]
  have "os_env w' = (\<lambda>k. if k \<in> set (map fst (gc_envs cfg)) then Some (md_get (gc_envs cfg) k) else os_env w k)"
    and m: "os.more w' = (os.more w)\<lparr>fl_configData := data, fl_confSHA256 := cl_sha256 L data,
             fl_priorityConfigHash := hash, fl_ext := fl_ext (os.more w')\<rparr>"
    unfolding None option.case using 1(1) by auto
  moreover have "fl_configData (os.more w') = data" "fl_priorityConfigHash (os.more w') = hash" by (subst m, simp)+
  ultimately show ?thesis unfolding None option.case using 1 by blast
next
  case (Some e)
  have m: "os.more w' = (os.more w)\<lparr>fl_ext := fl_ext (os.more w')\<rparr>" and "os_env w' = os_env w"
    using reload.executeLoader_effect [OF assms(3,1)] Some by auto
  moreover have "fl_configData (os.more w') = fl_configData (os.more w)"
      "fl_priorityConfigHash (os.more w') = fl_priorityConfigHash (os.more w)" by (subst m, simp)+
  ultimately show ?thesis using executeLoader_serving [OF assms(1,2)] Some by simp
qed

definition demo_config :: gateway_config where
  "demo_config = \<lparr>gc_name = ''gw'', gc_version = ''v2'', gc_hosts = [], gc_endpoints = [], gc_middlewares = [],
     gc_envs = [(''MODE'', ''prod'')]\<rparr>"

definition demo_config_lib :: config_lib where
  "demo_config_lib = \<lparr>cl_decode = (\<lambda>s. if s = [] then Inl (PlainErr ''empty'') else Inr demo_config),
     cl_decode_priority = (\<lambda>s. Inr \<lparr>pc_name = [], pc_version = [], pc_endpoints = []\<rparr>), cl_sha256 = id\<rparr>"

text \<open>A remote source that serves one value.\<close>

definition remote_source :: "string \<Rightarrow> 'w source" where
  "remote_source v = \<lparr>so_Name = ConfigSourceConfigCenter, so_MainKey = ''config.yaml'', so_Load = (\<lambda>k w. (Inr v, w)),
     so_Watch = (\<lambda>k f w. (None, w))\<rparr>"

definition demo_const :: "string \<Rightarrow> 'w loader_const" where
  "demo_const dir = \<lparr>lc_source = remote_source ''old'', lc_confKey = ''config.yaml'', lc_priorityDirectory = dir\<rparr>"

definition demo_loader :: "'h list \<Rightarrow> 'x \<Rightarrow> ('h, 'x) file_loader" where
  "demo_loader hs x = \<lparr>fl_configData = ''old'', fl_confSHA256 = ''old'', fl_priorityConfigHash = [], fl_watchCancel = None,
     fl_closed = False, fl_onChangeHandlers = hs, fl_canceled = [], fl_ext = x\<rparr>"

definition plain_os :: "(string \<times> string \<times> nat) list \<Rightarrow> string list \<Rightarrow> nat \<Rightarrow> 'v \<Rightarrow> 'v os_scheme" where
  "plain_os files dirs n x = \<lparr>os_files = files, os_dirs = dirs, os_env = Map.empty, os_calls = n,
     os_fault = (\<lambda>_. None), os_rand = (\<lambda>_. []), \<dots> = x\<rparr>"

definition sample_proxy :: "nat world proxy \<times> nat world" where
  "sample_proxy = (proxy_New sample_env, sample_world 0)"

abbreviation sample_reloader :: "(unit, nat world proxy \<times> nat world) run_handler" where
  "sample_reloader \<equiv> reloader sample_env (\<lambda>e w. (Inr sample_client, w)) tag_factory"

lemma demo_dir [simp]: "lc_priorityDirectory (demo_const dir) = dir"
  by (simp add: demo_const_def)

theorem reload_all_or_nothing_witness:
  "\<exists>r w'. executeLoader demo_config_lib (demo_const []) sample_reloader ''new'' []
        (plain_os [] [] 0 (demo_loader [()] sample_proxy)) = (r, w') \<and> r = None
    \<and> os_env w' ''MODE'' = Some ''prod'' \<and> fl_configData (os.more w') = ''new''"
proof -
  let ?w = "plain_os [] [] 0 (demo_loader [()] sample_proxy)"
  obtain r w' where run: "executeLoader demo_config_lib (demo_const []) sample_reloader ''new'' [] ?w = (r, w')"
    by (cases "executeLoader demo_config_lib (demo_const []) sample_reloader ''new'' [] ?w")
  have dec: "decodeConfig demo_config_lib [] ''new'' ?w = (Inr demo_config, ?w)"
    by (simp add: decodeConfig_def demo_config_lib_def mergePriorityConfig_def)
  have "r = None"
    using run unfolding executeLoader_def demo_dir dec
    by (simp add: applyEnvs_def demo_config_def os_Setenv_def env_ok_def md_get_def reloader_def demo_loader_def plain_os_def
        sample_proxy_def Update_def Let_def)
  moreover have "env_wf (os_env ?w)" "fl_onChangeHandlers (os.more ?w) = [()]"
    by (simp_all add: env_wf_def plain_os_def demo_loader_def)
  note all = reload_all_or_nothing [OF run this(2,1)]
  ultimately show ?thesis using run all dec by (auto simp: demo_config_def md_get_def)
qed

text \<open>At most one watch context is ever alive and no goroutine is started
  twice, however Watch and Close are called: after Close every context is
  canceled.\<close>

theorem closed_loader_watches_nothing:
  assumes "fl_reachable L C (reloader E cf mf) s" and "quiet_source (lc_source C)"
  shows "distinct (map wg_kind (ls_gos s)) \<and> length (fl_canceled (os.more (ls_world s))) \<le> 1
    \<and> (fl_closed (os.more (ls_world s)) \<longrightarrow> list_all id (fl_canceled (os.more (ls_world s))))"
  using reload.fl_reachable_inv [OF assms(2,1)]
  by (auto simp: fl_inv_def Let_def split: option.splits)

lemma demo_new:
  "NewSourceLoader demo_config_lib (Some (remote_source ''old'')) [] (plain_os [] [] 0 (demo_loader hs x))
    = (Inr (demo_const []), plain_os [] [] 0 (demo_loader [] x))"
  by (simp add: NewSourceLoader_def fl_initialize_def try_call_def decodeConfig_def mergePriorityConfig_def
      demo_config_lib_def remote_source_def demo_const_def priorityConfigSHA256_def plain_os_def upd_loader_def
      demo_loader_def Let_def)

lemma remote_quiet: "quiet_source (lc_source (demo_const dir))"
  by (simp add: quiet_source_def demo_const_def remote_source_def)

lemma demo_reachable:
  "fl_reachable demo_config_lib (demo_const []) H \<lparr>ls_gos = [], ls_world = plain_os [] [] 0 (demo_loader [] x)\<rparr>"
  by (rule fl_new [OF demo_new])

definition closed_demo :: "(unit, nat world proxy \<times> nat world) loader_state" where
  "closed_demo =
    (let s = fl_Watch (demo_const [] :: (unit, nat world proxy \<times> nat world) loader_world loader_const) ()
           \<lparr>ls_gos = [], ls_world = plain_os [] [] 0 (demo_loader [] sample_proxy)\<rparr>
     in s\<lparr>ls_world := upd_loader fl_Close (ls_world s)\<rparr>)"

lemma closed_demo_reachable:
  "fl_reachable demo_config_lib (demo_const []) sample_reloader closed_demo"
  unfolding closed_demo_def Let_def by (rule fl_next [OF fl_next [OF demo_reachable call_watch] call_close])

theorem closed_loader_watches_nothing_witness:
  "distinct (map wg_kind (ls_gos closed_demo)) \<and> list_all id (fl_canceled (os.more (ls_world closed_demo)))"
proof -
  have "fl_closed (os.more (ls_world closed_demo))"
    by (simp add: closed_demo_def Let_def fl_Close_def split: option.splits)
  then show ?thesis
    using closed_loader_watches_nothing [OF closed_demo_reachable remote_quiet] by blast
qed

text \<open>The snapshot of a loader always decodes: whatever its source delivers
  and whatever happens to the files, Load returns a configuration.\<close>

theorem last_known_good_loads:
  assumes "fl_reachable L C (reloader E cf mf) s" and "quiet_source (lc_source C)"
  shows "\<exists>cfg w'. fl_Load L C (ls_world s) = (Inr cfg, w')"
proof -
  have "\<exists>cfg. cl_decode L (fl_configData (os.more (ls_world s))) = Inr cfg"
    using reload.fl_reachable_inv [OF assms(2,1)] by (simp add: fl_inv_def Let_def)
  then show ?thesis unfolding fl_Load_def using decodeConfig_Inr by (metis prod.collapse)
qed

theorem last_known_good_loads_witness:
  "\<exists>cfg w'. fl_Load demo_config_lib (demo_const []) (plain_os [] [] 0 (demo_loader ([] :: unit list) sample_proxy)) = (Inr cfg, w')"
  using last_known_good_loads [OF demo_reachable [where H = sample_reloader and x = sample_proxy] remote_quiet] by simp

section \<open>Two goroutines\<close>

text \<open>A loader of a remote source with a priority directory, in which a file
  appears, and a handler that accepts everything.\<close>

definition accept_all :: "(unit, unit) run_handler" where
  "accept_all h cfg w = (None, w)"

abbreviation race_loader :: "string \<Rightarrow> (string \<times> string) list \<Rightarrow> (unit, unit) file_loader" where
  "race_loader data hash \<equiv> \<lparr>fl_configData = data, fl_confSHA256 = data, fl_priorityConfigHash = hash, fl_watchCancel = Some 0,
     fl_closed = False, fl_onChangeHandlers = [()], fl_canceled = [False], fl_ext = ()\<rparr>"

abbreviation race_files :: "(string \<times> string \<times> nat) list" where
  "race_files \<equiv> [(''prio/p.yaml'', ''endpoints: []'', 420)]"

abbreviation race_hash :: "(string \<times> string) list" where
  "race_hash \<equiv> [(''p.yaml'', ''endpoints: []'')]"

abbreviation race_state :: "watch_pc \<Rightarrow> watch_pc \<Rightarrow> (unit, unit) loader_world \<Rightarrow> (unit, unit) loader_state" where
  "race_state a b w \<equiv> \<lparr>ls_gos = [\<lparr>wg_kind = WatchSource, wg_ctx = 0, wg_pc = a\<rparr>, \<lparr>wg_kind = WatchPriority, wg_ctx = 0, wg_pc = b\<rparr>],
     ls_world = w\<rparr>"

definition race_os :: "nat \<Rightarrow> (string \<rightharpoonup> string) \<Rightarrow> (unit, unit) file_loader \<Rightarrow> (unit, unit) loader_world" where
  "race_os n E x = (plain_os race_files [''prio''] n x)\<lparr>os_env := E\<rparr>"

lemma race_names: "child_of ''prio'' ''prio/p.yaml'' = Some ''p.yaml''" "child_of ''prio'' ''prio'' = None"
  by (simp_all add: child_of_def dir_base_def suffix_def Let_def)

lemma race_dir: "os_ReadDir ''prio'' (race_os n E x) = (Inr [(''p.yaml'', False)], race_os (Suc n) E x)"
  by (simp add: os_ReadDir_def sys_def race_os_def plain_os_def race_names dir_base_def suffix_def List.map_filter_simps)

lemma race_yaml: "yaml_names [(''p.yaml'', False)] = [''p.yaml'']"
  by (simp add: yaml_names_def path_Ext_def Let_def)

lemma race_join: "path_Join [''prio'', ''p.yaml''] = ''prio/p.yaml''"
  by code_simp

lemma race_read:
  "os_ReadFile ''prio/p.yaml'' (race_os n E x) = (Inr ''endpoints: []'', race_os (Suc n) E x)"
  by (simp add: os_ReadFile_def sys_def race_os_def plain_os_def file_at_def)

lemma race_hashes:
  "priorityConfigSHA256 demo_config_lib ''prio'' (race_os n E x)
    = (Inr race_hash, race_os (Suc (Suc n)) E x)"
  by (simp add: priorityConfigSHA256_def race_dir race_yaml race_join race_read) (simp add: demo_config_lib_def)

lemma race_execute:
  assumes "data \<noteq> []"
  shows "executeLoader demo_config_lib (demo_const ''prio'') accept_all data hash (race_os n E (race_loader d h))
    = (None, race_os (Suc (Suc n)) (E(''MODE'' \<mapsto> ''prod'')) (race_loader data hash))"
proof -
  have dec: "decodeConfig demo_config_lib ''prio'' data (race_os n E (race_loader d h))
      = (Inr demo_config, race_os (Suc (Suc n)) E (race_loader d h))"
    using assms
    by (simp add: decodeConfig_def mergePriorityConfig_def demo_config_lib_def race_dir race_yaml race_join race_read
        parsePriorityConfig_def demo_config_def)
  show ?thesis
    unfolding executeLoader_def demo_dir dec
    by (simp add: applyEnvs_def demo_config_def os_Setenv_def env_ok_def md_get_def race_os_def plain_os_def accept_all_def
        set_snapshot_def upd_loader_def demo_config_lib_def Let_def)
qed

lemma race_start: "fl_reachable demo_config_lib (demo_const ''prio'') accept_all
    (race_state AtWait AtWait (race_os 0 Map.empty (race_loader ''old'' [])))"
proof -
  let ?w = "plain_os [] [''prio''] 0 (demo_loader [] ()) :: (unit, unit) loader_world"
  have dir: "os_ReadDir ''prio'' (plain_os [] [''prio''] n x) = (Inr [], plain_os [] [''prio''] (Suc n) x)"
    for n and x :: "(unit, unit) file_loader"
    by (simp add: os_ReadDir_def sys_def plain_os_def race_names List.map_filter_simps)
  have mk: "os_MkdirAll ''prio'' (plain_os [] [''prio''] n x) = (Inr (), plain_os [] [''prio''] (Suc n) x)"
    for n and x :: "(unit, unit) file_loader"
    by (simp add: os_MkdirAll_def sys_def plain_os_def ancestors_def file_at_def)
  have upd: "upd_loader f (plain_os fs ds n x) = plain_os fs ds n (f x)" for f fs ds n and x :: "(unit, unit) file_loader"
    by (simp add: upd_loader_def plain_os_def)
  have yaml: "yaml_names [] = []" by (simp add: yaml_names_def)
  have dec: "decodeConfig demo_config_lib ''prio'' ''old'' (plain_os [] [''prio''] n x)
      = (Inr demo_config, plain_os [] [''prio''] (Suc n) x)" for n and x :: "(unit, unit) file_loader"
    by (simp add: decodeConfig_def mergePriorityConfig_def demo_config_lib_def dir yaml demo_config_def)
  have hash: "priorityConfigSHA256 demo_config_lib ''prio'' (plain_os [] [''prio''] n x)
      = (Inr [], plain_os [] [''prio''] (Suc n) x)" for n and x :: "(unit, unit) file_loader"
    by (simp add: priorityConfigSHA256_def dir yaml)
  have "NewSourceLoader demo_config_lib (Some (remote_source ''old'')) ''prio'' ?w
      = (Inr (demo_const ''prio''), plain_os [] [''prio''] 3 (demo_loader [] ()))"
    by (simp add: NewSourceLoader_def fl_initialize_def try_call_def mk dec hash upd remote_source_def demo_const_def
        demo_loader_def Let_def) (simp add: demo_config_lib_def eval_nat_numeral)
  from fl_new [OF this]
  have 1: "fl_reachable demo_config_lib (demo_const ''prio'') accept_all
      \<lparr>ls_gos = [], ls_world = plain_os [] [''prio''] 3 (demo_loader [] ())\<rparr>" .
  have "fl_Watch (demo_const ''prio'') () \<lparr>ls_gos = [], ls_world = plain_os [] [''prio''] 3 (demo_loader [] ())\<rparr>
      = race_state AtWait AtWait (plain_os [] [''prio''] 3 (race_loader ''old'' []))"
    by (simp add: fl_Watch_def upd demo_loader_def plain_os_def Let_def started_watchers_def demo_const_def remote_source_def
        upd_loader_def)
  with fl_next [OF 1 call_watch] have 2: "fl_reachable demo_config_lib (demo_const ''prio'') accept_all
      (race_state AtWait AtWait (plain_os [] [''prio''] 3 (race_loader ''old'' [])))" by metis
  show ?thesis
    using fl_next [OF 2 outside [where w = "race_os 0 Map.empty (race_loader ''old'' [])" and x = "()"]]
    by (simp add: race_os_def plain_os_def)
qed

text \<open>C28: The goroutine that follows the priority files reads the current
  configuration before it waits for the lock of the execution.  A remote
  update applied in between is undone: the loader falls back to the old
  configuration, and with it the digest, while the source has already
  delivered the new one.\<close>

theorem stale_priority_reload_undoes_update:
  "\<exists>w1 w2. fl_reachable demo_config_lib (demo_const ''prio'') accept_all (race_state AtWait (Execute ''old'' race_hash) w1)
    \<and> fl_configData (os.more w1) = ''new''
    \<and> fl_reachable demo_config_lib (demo_const ''prio'') accept_all (race_state AtWait AtWait w2)
    \<and> fl_step demo_config_lib (demo_const ''prio'') accept_all (race_state AtWait (Execute ''old'' race_hash) w1)
        (race_state AtWait AtWait w2)
    \<and> fl_configData (os.more w2) = ''old''"
proof -
  let ?C = "demo_const ''prio'' :: (unit, unit) loader_world loader_const"
  let ?R = "fl_reachable demo_config_lib ?C accept_all" and ?S = "fl_step demo_config_lib ?C accept_all"
  have more: "os.more (race_os n E x) = x" for n E x by (simp add: race_os_def plain_os_def)
  have 1: "?S (race_state AtWait AtWait (race_os 0 Map.empty (race_loader ''old'' [])))
      (race_state AtWait (HashRead race_hash) (race_os 2 Map.empty (race_loader ''old'' [])))"
    using at_wait [of 1 "race_state AtWait AtWait (race_os 0 Map.empty (race_loader ''old'' []))" demo_config_lib ?C]
    by (simp add: wait_step_def watchPriority_tick_def race_hashes set_go_def numeral_2_eq_2)
  have 2: "?S (race_state AtWait (HashRead race_hash) (race_os 2 Map.empty (race_loader ''old'' [])))
      (race_state AtWait (Execute ''old'' race_hash) (race_os 2 Map.empty (race_loader ''old'' [])))"
    using hash_read [of 1 "race_state AtWait (HashRead race_hash) (race_os 2 Map.empty (race_loader ''old'' []))" race_hash
        demo_config_lib ?C accept_all]
    by (simp add: watchPriority_read_def more set_go_def)
  let ?ev = "\<lparr>le_value = ''new'', le_deleted = False, le_err = None\<rparr>"
  have 3: "?S (race_state AtWait (Execute ''old'' race_hash) (race_os 2 Map.empty (race_loader ''old'' [])))
      (race_state (Execute ''new'' race_hash) (Execute ''old'' race_hash) (race_os 4 Map.empty (race_loader ''old'' [])))"
    using at_wait [of 0 "race_state AtWait (Execute ''old'' race_hash) (race_os 2 Map.empty (race_loader ''old'' []))"
        demo_config_lib ?C ?ev]
    by (simp add: wait_step_def watchSource_event_def compare_data_def race_hashes fl_changed_def more set_go_def)
  let ?w1 = "race_os 6 (Map.empty(''MODE'' \<mapsto> ''prod'')) (race_loader ''new'' race_hash)"
  have 4: "?S (race_state (Execute ''new'' race_hash) (Execute ''old'' race_hash) (race_os 4 Map.empty (race_loader ''old'' [])))
      (race_state AtWait (Execute ''old'' race_hash) ?w1)"
    using run_execute [of 0 "race_state (Execute ''new'' race_hash) (Execute ''old'' race_hash) (race_os 4 Map.empty (race_loader ''old'' []))"
        "''new''" race_hash demo_config_lib ?C accept_all]
    by (simp add: race_execute set_go_def)
  let ?w2 = "race_os 8 (Map.empty(''MODE'' \<mapsto> ''prod'')) (race_loader ''old'' race_hash)"
  have 5: "?S (race_state AtWait (Execute ''old'' race_hash) ?w1) (race_state AtWait AtWait ?w2)"
    using run_execute [of 1 "race_state AtWait (Execute ''old'' race_hash) ?w1" "''old''" race_hash demo_config_lib ?C accept_all]
    by (simp add: race_execute set_go_def)
  have r: "?R (race_state AtWait (Execute ''old'' race_hash) ?w1)"
    by (rule fl_next [OF fl_next [OF fl_next [OF fl_next [OF race_start 1] 2] 3] 4])
  show ?thesis using r fl_next [OF r 5] 5 by (intro exI conjI) (assumption | simp add: more)+
qed

end
