(* ===== verification/Router_Drain.thy ===== *)
theory Router_Drain
  imports Mux
begin

text \<open>
  The hand-over between routers: every request loads the router of the proxy,
  is counted by the wait group of that router while it is served, and an
  update swaps the router and leaves a goroutine behind that waits for the
  counter, at most 120 seconds, and then closes the clients of the old router
  (ServeHTTP, SyncClose and waitTimeout of router/mux/mux.go, the end of
  Update, tryCloseRouter and ServeHTTP of proxy/proxy.go).  The atomic
  operations of all goroutines interleave freely.
\<close>

section \<open>The state\<close>

text \<open>Where a request is: it has loaded a router, it is counted, it is over;
  and where the closing of a router is.\<close>

datatype req_pc = RqLoaded nat | RqServing nat | RqOver

datatype close_pc = InUse | Waiting | WaitPassed | ClosingFrom nat | ClosedAll

text \<open>Routers are numbered in the order they were published.  The log names
  the closers that were called; \<open>dn_late\<close> and \<open>dn_timeout\<close> record
  for the theorems which requests had loaded a router without being counted
  when its wait ended, and which waits ended by the timeout.\<close>

record 'w drain =
  dn_routers :: "'w mux_router list"
  dn_current :: nat
  dn_wg :: "nat \<Rightarrow> nat"
  dn_req :: "nat \<Rightarrow> req_pc option"
  dn_close :: "nat \<Rightarrow> close_pc"
  dn_log :: "(nat \<times> nat) list"
  dn_late :: "nat \<Rightarrow> nat set"
  dn_timeout :: "nat \<Rightarrow> bool"
  dn_world :: 'w

definition drain_init :: "'w mux_router \<Rightarrow> 'w \<Rightarrow> 'w drain" where
  "drain_init r w = \<lparr>dn_routers = [r], dn_current = 0, dn_wg = (\<lambda>_. 0), dn_req = (\<lambda>_. None), dn_close = (\<lambda>_. InUse),
     dn_log = [], dn_late = (\<lambda>_. {}), dn_timeout = (\<lambda>_. False), dn_world = w\<rparr>"

section \<open>The operations\<close>

definition load_router :: "nat \<Rightarrow> 'w drain \<Rightarrow> 'w drain" where
  "load_router q d = d\<lparr>dn_req := (dn_req d)(q \<mapsto> RqLoaded (dn_current d))\<rparr>"

definition wg_add :: "nat \<Rightarrow> nat \<Rightarrow> 'w drain \<Rightarrow> 'w drain" where
  "wg_add q r d = d\<lparr>dn_wg := (dn_wg d)(r := dn_wg d r + 1), dn_req := (dn_req d)(q \<mapsto> RqServing r)\<rparr>"

definition wg_done :: "nat \<Rightarrow> nat \<Rightarrow> 'w drain \<Rightarrow> 'w drain" where
  "wg_done q r d = d\<lparr>dn_wg := (dn_wg d)(r := dn_wg d r - 1), dn_req := (dn_req d)(q \<mapsto> RqOver)\<rparr>"

text \<open>Swap and the start of the goroutine of tryCloseRouter.\<close>

definition swap_router :: "'w mux_router \<Rightarrow> 'w drain \<Rightarrow> 'w drain" where
  "swap_router rt d =
    d\<lparr>dn_routers := dn_routers d @ [rt], dn_current := length (dn_routers d),
      dn_close := (dn_close d)(dn_current d := Waiting)\<rparr>"

text \<open>wg.Wait returns in the goroutine of waitTimeout; the select takes the
  channel it closes, or the end of the context.\<close>

definition wait_over :: "nat \<Rightarrow> 'w drain \<Rightarrow> 'w drain" where
  "wait_over r d = d\<lparr>dn_close := (dn_close d)(r := WaitPassed),
     dn_late := (dn_late d)(r := {q. dn_req d q = Some (RqLoaded r)})\<rparr>"

definition wait_timeout :: "nat \<Rightarrow> 'w drain \<Rightarrow> 'w drain" where
  "wait_timeout r d = d\<lparr>dn_close := (dn_close d)(r := ClosingFrom 0), dn_timeout := (dn_timeout d)(r := True)\<rparr>"

definition start_closing :: "nat \<Rightarrow> 'w drain \<Rightarrow> 'w drain" where
  "start_closing r d = d\<lparr>dn_close := (dn_close d)(r := ClosingFrom 0)\<rparr>"

definition close_next :: "nat \<Rightarrow> nat \<Rightarrow> 'w drain \<Rightarrow> 'w drain" where
  "close_next r k d =
    (if k < length (mr_closers (dn_routers d ! r))
     then d\<lparr>dn_close := (dn_close d)(r := ClosingFrom (Suc k)), dn_log := dn_log d @ [(r, k)],
            dn_world := snd ((mr_closers (dn_routers d ! r) ! k) (dn_world d))\<rparr>
     else d\<lparr>dn_close := (dn_close d)(r := ClosedAll)\<rparr>)"

text \<open>A request that is served does its work on the rest of the world.\<close>

definition serve_work :: "('w \<Rightarrow> 'w) \<Rightarrow> 'w drain \<Rightarrow> 'w drain" where
  "serve_work f d = d\<lparr>dn_world := f (dn_world d)\<rparr>"

inductive drain_step :: "'w drain \<Rightarrow> 'w drain \<Rightarrow> bool" where
  Load: "dn_req d q = None \<Longrightarrow> drain_step d (load_router q d)"
| Add: "dn_req d q = Some (RqLoaded r) \<Longrightarrow> drain_step d (wg_add q r d)"
| Work: "dn_req d q = Some (RqServing r) \<Longrightarrow> drain_step d (serve_work f d)"
| Done: "dn_req d q = Some (RqServing r) \<Longrightarrow> drain_step d (wg_done q r d)"
| Swap: "drain_step d (swap_router rt d)"
| WaitOver: "dn_close d r = Waiting \<Longrightarrow> dn_wg d r = 0 \<Longrightarrow> drain_step d (wait_over r d)"
| Timeout: "dn_close d r \<in> {Waiting, WaitPassed} \<Longrightarrow> drain_step d (wait_timeout r d)"
| Select: "dn_close d r = WaitPassed \<Longrightarrow> drain_step d (start_closing r d)"
| Close: "dn_close d r = ClosingFrom k \<Longrightarrow> drain_step d (close_next r k d)"

inductive drain_reachable :: "'w drain \<Rightarrow> bool" where
  init: "drain_reachable (drain_init r w)"
| step: "drain_reachable d \<Longrightarrow> drain_step d d' \<Longrightarrow> drain_reachable d'"

section \<open>The invariant\<close>

text \<open>How many closers of a router were called.\<close>

definition closed_count :: "'w drain \<Rightarrow> nat \<Rightarrow> nat" where
  "closed_count d r =
    (case dn_close d r of
       ClosingFrom k \<Rightarrow> k
     | ClosedAll \<Rightarrow> length (mr_closers (dn_routers d ! r))
     | _ \<Rightarrow> 0)"

definition calls_of :: "'w drain \<Rightarrow> nat \<Rightarrow> nat list" where
  "calls_of d r = map snd (filter (\<lambda>c. fst c = r) (dn_log d))"

definition holders :: "'w drain \<Rightarrow> nat \<Rightarrow> nat set" where
  "holders d r = {q. dn_req d q = Some (RqServing r)}"

definition routers_ok :: "'w drain \<Rightarrow> bool" where
  "routers_ok d \<longleftrightarrow>
    dn_current d < length (dn_routers d)
    \<and> (\<forall>r. dn_close d r = InUse \<longleftrightarrow> r = dn_current d \<or> length (dn_routers d) \<le> r)
    \<and> (\<forall>q r. dn_req d q \<in> {Some (RqLoaded r), Some (RqServing r)} \<longrightarrow> r < length (dn_routers d))"

definition counters_ok :: "'w drain \<Rightarrow> bool" where
  "counters_ok d \<longleftrightarrow> finite {q. dn_req d q \<noteq> None} \<and> (\<forall>r. dn_wg d r = card (holders d r))"

definition closers_ok :: "'w drain \<Rightarrow> bool" where
  "closers_ok d \<longleftrightarrow> (\<forall>r. calls_of d r = [0..<closed_count d r]
     \<and> (\<forall>k. dn_close d r = ClosingFrom k \<longrightarrow> k \<le> length (mr_closers (dn_routers d ! r))))"

definition late_ok :: "'w drain \<Rightarrow> bool" where
  "late_ok d \<longleftrightarrow> (\<forall>r q. dn_close d r \<notin> {InUse, Waiting} \<longrightarrow> \<not> dn_timeout d r
     \<longrightarrow> dn_req d q \<in> {Some (RqLoaded r), Some (RqServing r)} \<longrightarrow> q \<in> dn_late d r)"

lemmas drain_ops = load_router_def wg_add_def wg_done_def swap_router_def wait_over_def wait_timeout_def
  start_closing_def close_next_def serve_work_def

lemma finite_holders: "counters_ok d \<Longrightarrow> finite (holders d r)"
  unfolding counters_ok_def holders_def by (auto elim: rev_finite_subset)

text \<open>A router that is being closed is an older one, and stays so.\<close>

lemma closing_is_old:
  "routers_ok d \<Longrightarrow> dn_close d r \<noteq> InUse \<Longrightarrow> r \<noteq> dn_current d \<and> r < length (dn_routers d)"
  unfolding routers_ok_def by (metis not_less)

lemma routers_ok_close:
  "routers_ok d \<Longrightarrow> dn_close d r \<noteq> InUse \<Longrightarrow> c \<noteq> InUse \<Longrightarrow> dn_routers d' = dn_routers d \<Longrightarrow> dn_current d' = dn_current d
    \<Longrightarrow> dn_req d' = dn_req d \<Longrightarrow> dn_close d' = (dn_close d)(r := c) \<Longrightarrow> routers_ok d'"
  using closing_is_old [of d r] by (auto simp: routers_ok_def)

lemma routers_ok_step:
  assumes "routers_ok d" "drain_step d d'"
  shows "routers_ok d'"
  using assms(2)
proof (cases rule: drain_step.cases)
  case (Swap rt)
  then show ?thesis using assms(1) by (auto simp: routers_ok_def drain_ops less_Suc_eq)
next
  case (Close r k)
  then show ?thesis
    using routers_ok_close [OF assms(1), of r "if k < length (mr_closers (dn_routers d ! r)) then ClosingFrom (Suc k) else ClosedAll"]
    by (simp add: drain_ops)
next
  case (WaitOver r)
  then show ?thesis using routers_ok_close [OF assms(1), of r WaitPassed] by (simp add: drain_ops)
next
  case (Timeout r)
  then show ?thesis using routers_ok_close [OF assms(1), of r "ClosingFrom 0"] by (auto simp: drain_ops)
next
  case (Select r)
  then show ?thesis using routers_ok_close [OF assms(1), of r "ClosingFrom 0"] by (simp add: drain_ops)
qed (use assms(1) in \<open>auto simp: routers_ok_def drain_ops\<close>)

lemma counters_ok_step:
  assumes "counters_ok d" "drain_step d d'"
  shows "counters_ok d'"
  using assms(2)
proof (cases rule: drain_step.cases)
  case (Load q)
  have "{q'. dn_req d' q' \<noteq> None} = insert q {q. dn_req d q \<noteq> None}" using Load by (auto simp: drain_ops)
  moreover have "holders d' r = holders d r" for r using Load by (auto simp: drain_ops holders_def)
  ultimately show ?thesis using assms(1) Load by (simp add: counters_ok_def) (simp add: drain_ops)
next
  case (Add q r)
  have dom: "{q'. dn_req d' q' \<noteq> None} = {q. dn_req d q \<noteq> None}" using Add by (auto simp: drain_ops)
  have "holders d' r' = (if r' = r then insert q (holders d r) else holders d r')" for r'
    using Add by (auto simp: drain_ops holders_def)
  moreover have "q \<notin> holders d r" using Add by (simp add: holders_def)
  ultimately show ?thesis using assms(1) Add dom finite_holders [OF assms(1)]
    by (simp add: counters_ok_def) (simp add: drain_ops)
next
  case (Done q r)
  have dom: "{q'. dn_req d' q' \<noteq> None} = {q. dn_req d q \<noteq> None}" using Done by (auto simp: drain_ops)
  have "holders d' r' = (if r' = r then holders d r - {q} else holders d r')" for r'
    using Done by (auto simp: drain_ops holders_def)
  moreover have "q \<in> holders d r" using Done by (simp add: holders_def)
  ultimately show ?thesis using assms(1) Done dom finite_holders [OF assms(1)]
    by (simp add: counters_ok_def) (simp add: drain_ops)
qed (use assms(1) in \<open>simp_all add: counters_ok_def holders_def drain_ops\<close>)

lemma closers_ok_before:
  assumes "closers_ok d" and "dn_routers d' = dn_routers d" and "dn_log d' = dn_log d"
    and "\<And>r. dn_close d' r = dn_close d r
          \<or> dn_close d r \<in> {Waiting, WaitPassed} \<and> dn_close d' r \<in> {WaitPassed, ClosingFrom 0}"
  shows "closers_ok d'"
proof -
  have "closed_count d' r = closed_count d r \<and> (\<forall>k. dn_close d' r = ClosingFrom k \<longrightarrow> k = 0 \<or> dn_close d r = ClosingFrom k)" for r
    using assms(4) [of r] assms(2) by (cases "dn_close d r") (auto simp: closed_count_def)
  moreover have "calls_of d' r = calls_of d r" for r using assms(3) by (simp add: calls_of_def)
  ultimately show ?thesis using assms(1,2) unfolding closers_ok_def by (metis le0)
qed

lemma closers_ok_step:
  assumes "routers_ok d" "closers_ok d" "drain_step d d'"
  shows "closers_ok d'"
  using assms(3)
proof (cases rule: drain_step.cases)
  case (Swap rt)
  have u: "dn_close d (dn_current d) = InUse" using assms(1) by (simp add: routers_ok_def)
  have o: "dn_close d r = InUse" if "length (dn_routers d) \<le> r" for r
    using assms(1) that by (simp add: routers_ok_def)
  have "closed_count d' r = closed_count d r" for r
  proof (cases "r < length (dn_routers d)")
    case True
    with Swap u show ?thesis by (simp add: drain_ops closed_count_def nth_append split: close_pc.split)
  next
    case False
    then have "r \<noteq> dn_current d" using assms(1) by (auto simp: routers_ok_def)
    with False Swap o [of r] show ?thesis by (simp add: drain_ops closed_count_def)
  qed
  moreover have "calls_of d' r = calls_of d r" for r using Swap by (simp add: drain_ops calls_of_def)
  moreover have "k \<le> length (mr_closers (dn_routers d' ! r))" if "dn_close d' r = ClosingFrom k" for r k
    using that Swap assms(1,2) by (auto simp: drain_ops closers_ok_def routers_ok_def nth_append split: if_splits)
  ultimately show ?thesis using assms(2) by (simp add: closers_ok_def)
next
  case (Close r k)
  then have c: "closed_count d r = k" "k \<le> length (mr_closers (dn_routers d ! r))"
    using assms(2) by (simp_all add: closed_count_def closers_ok_def)
  have "closed_count d' r' = closed_count d r'" "calls_of d' r' = calls_of d r'" if "r' \<noteq> r" for r'
    using that Close by (auto simp: close_next_def closed_count_def calls_of_def split: close_pc.splits)
  moreover have "calls_of d' r = [0..<closed_count d' r]"
  proof -
    have "calls_of d r = [0..<k]" using assms(2) c by (simp add: closers_ok_def)
    moreover have "k = length (mr_closers (dn_routers d ! r))" if "\<not> k < length (mr_closers (dn_routers d ! r))"
      using c(2) that by simp
    ultimately show ?thesis using Close
      by (cases "k < length (mr_closers (dn_routers d ! r))") (simp_all add: close_next_def closed_count_def calls_of_def)
  qed
  moreover have "k' \<le> length (mr_closers (dn_routers d' ! r'))" if "dn_close d' r' = ClosingFrom k'" for r' k'
    using that Close assms(2) by (auto simp: close_next_def closers_ok_def split: if_splits)
  ultimately show ?thesis using assms(2) by (metis closers_ok_def)
qed (rule closers_ok_before [OF assms(2)]; auto simp: drain_ops)+

lemma late_ok_step:
  assumes "routers_ok d" "counters_ok d" "late_ok d" "drain_step d d'"
  shows "late_ok d'"
  using assms(4)
proof (cases rule: drain_step.cases)
  case (Load q)
  have "dn_close d (dn_current d) = InUse" using assms(1) by (simp add: routers_ok_def)
  then show ?thesis using assms(3) Load by (auto simp: late_ok_def drain_ops)
next
  case (WaitOver r)
  have "holders d r = {}" using WaitOver assms(2) finite_holders [OF assms(2)] by (simp add: counters_ok_def)
  then show ?thesis using assms(3) WaitOver by (auto simp: late_ok_def drain_ops holders_def)
next
  case (Close r k)
  then show ?thesis using assms(3) by (auto simp: late_ok_def close_next_def split: if_splits)
qed (use assms(3) in \<open>auto simp: late_ok_def drain_ops split: if_splits\<close>)

lemma drain_invariant:
  "drain_reachable d \<Longrightarrow> routers_ok d \<and> counters_ok d \<and> closers_ok d \<and> late_ok d"
proof (induction rule: drain_reachable.induct)
  case (init r w)
  show ?case
    by (auto simp: drain_init_def routers_ok_def counters_ok_def closers_ok_def late_ok_def holders_def
        closed_count_def calls_of_def)
next
  case (step d d')
  then show ?case using routers_ok_step counters_ok_step closers_ok_step late_ok_step by blast
qed


section \<open>Properties\<close>

text \<open>C11: The clients of a router are closed in order and each at most once,
  never those of the router in use.  Where the wait for the requests ended by
  itself, every request still on that router is one that had loaded it before
  it was replaced and was not yet counted when the wait ended.  Where the wait was given
  up after its 120 seconds, which the code does, nothing is claimed of the
  requests: the clients are closed under those that are still running.\<close>

theorem drain_closes_once_after_requests:
  assumes "drain_reachable d"
  shows "calls_of d r = [0..<closed_count d r] \<and> calls_of d (dn_current d) = []
    \<and> (\<not> dn_timeout d r \<and> closed_count d r \<noteq> 0 \<and> dn_req d q = Some (RqServing r) \<longrightarrow> q \<in> dn_late d r)"
proof -
  note inv = drain_invariant [OF assms]
  have "dn_close d (dn_current d) = InUse" using inv by (simp add: routers_ok_def)
  then have "closed_count d (dn_current d) = 0" by (simp add: closed_count_def)
  have "dn_close d r \<notin> {InUse, Waiting}" if "closed_count d r \<noteq> 0"
    using that by (auto simp: closed_count_def split: close_pc.splits)
  then have "\<not> dn_timeout d r \<and> closed_count d r \<noteq> 0 \<and> dn_req d q = Some (RqServing r) \<longrightarrow> q \<in> dn_late d r"
    using inv by (auto simp: late_ok_def)
  then show ?thesis using inv \<open>closed_count d (dn_current d) = 0\<close> by (simp add: closers_ok_def)
qed

text \<open>The loop of the closing goroutine is SyncClose, when nothing comes between.\<close>

lemma close_loop:
  "dn_close d r = ClosingFrom k \<Longrightarrow> k \<le> length (mr_closers (dn_routers d ! r)) \<Longrightarrow>
    \<exists>d'. drain_step\<^sup>*\<^sup>* d d' \<and> dn_close d' r = ClosedAll \<and> dn_req d' = dn_req d \<and> dn_current d' = dn_current d
      \<and> dn_world d' = foldl (\<lambda>w c. snd (c w)) (dn_world d) (drop k (mr_closers (dn_routers d ! r)))"
proof (induction "length (mr_closers (dn_routers d ! r)) - k" arbitrary: d k)
  case 0
  let ?d = "close_next r k d"
  have st: "drain_step d ?d" using Close 0 by blast
  have "\<not> k < length (mr_closers (dn_routers d ! r))" using 0 by simp
  then show ?case using 0 st
    by (intro exI [of _ ?d]) (simp add: close_next_def r_into_rtranclp)
next
  case (Suc n)
  let ?d = "close_next r k d"
  have st: "drain_step d ?d" using Close Suc.prems(1) by blast
  have k: "k < length (mr_closers (dn_routers d ! r))" using Suc.hyps(2) by simp
  then have eqs: "dn_routers ?d = dn_routers d" "dn_close ?d r = ClosingFrom (Suc k)" "dn_req ?d = dn_req d"
    "dn_current ?d = dn_current d" "dn_world ?d = snd ((mr_closers (dn_routers d ! r) ! k) (dn_world d))"
    by (simp_all add: close_next_def)
  have n: "n = length (mr_closers (dn_routers ?d ! r)) - Suc k" and le: "Suc k \<le> length (mr_closers (dn_routers ?d ! r))"
    using Suc.hyps(2) k eqs(1) by simp_all
  obtain d' where d': "drain_step\<^sup>*\<^sup>* ?d d'" "dn_close d' r = ClosedAll" "dn_req d' = dn_req ?d"
    "dn_current d' = dn_current ?d"
    "dn_world d' = foldl (\<lambda>w c. snd (c w)) (dn_world ?d) (drop (Suc k) (mr_closers (dn_routers ?d ! r)))"
    using Suc.hyps(1) [OF n eqs(2) le] by auto
  have "drop k (mr_closers (dn_routers d ! r)) = mr_closers (dn_routers d ! r) ! k # drop (Suc k) (mr_closers (dn_routers d ! r))"
    using k by (rule Cons_nth_drop_Suc [symmetric])
  then show ?case using d' eqs st by (intro exI [of _ d']) (simp add: converse_rtranclp_into_rtranclp)
qed

text \<open>C12: Whatever the requests do, the clients of a replaced router can always
  be closed by the steps of its own goroutine alone, none left out: the world
  it leaves is that of SyncClose.\<close>

theorem replaced_router_gets_closed:
  assumes "drain_reachable d" and "r < length (dn_routers d)" and "r \<noteq> dn_current d" and "calls_of d r = []"
    and "dn_close d r \<noteq> ClosedAll"
  shows "\<exists>d'. drain_step\<^sup>*\<^sup>* d d' \<and> dn_close d' r = ClosedAll \<and> dn_req d' = dn_req d \<and> dn_current d' = dn_current d
    \<and> dn_world d' = SyncClose (dn_routers d ! r) (dn_world d)"
proof -
  note inv = drain_invariant [OF assms(1)]
  have "dn_close d r \<noteq> InUse" using inv assms(2,3) by (auto simp: routers_ok_def)
  then consider (early) "dn_close d r \<in> {Waiting, WaitPassed}" | (closing) k where "dn_close d r = ClosingFrom k"
    using assms(5) by (cases "dn_close d r") auto
  then show ?thesis
  proof cases
    case early
    let ?d = "wait_timeout r d"
    have "drain_step d ?d" by (rule Timeout [OF early])
    moreover have "dn_close ?d r = ClosingFrom 0" "dn_routers ?d = dn_routers d" "dn_req ?d = dn_req d"
      "dn_current ?d = dn_current d" "dn_world ?d = dn_world d" by (simp_all add: wait_timeout_def)
    ultimately show ?thesis using close_loop [of ?d r 0] by (auto simp: SyncClose_def intro: converse_rtranclp_into_rtranclp)
  next
    case (closing k)
    then have "k = 0" using inv assms(4) by (auto simp: closers_ok_def closed_count_def)
    then show ?thesis using closing close_loop [of d r 0] by (simp add: SyncClose_def)
  qed
qed

definition one_client :: "nat mux_router" where
  "one_client = \<lparr>mr_strict = False, mr_routes = [], mr_closers = [\<lambda>w. (None, w + 1)],
     mr_not_found = (\<lambda>wr r w. Finished wr w), mr_bad_method = (\<lambda>wr r w. Finished wr w)\<rparr>"

definition replaced :: "nat drain" where
  "replaced = swap_router one_client (load_router 7 (drain_init one_client 0))"

lemma replaced_reachable: "drain_reachable replaced"
proof -
  have "dn_req (drain_init one_client 0) 7 = None" by (simp add: drain_init_def)
  from drain_reachable.step [OF drain_reachable.step [OF drain_reachable.init Load [OF this]] Swap]
  show ?thesis by (simp add: replaced_def)
qed

lemma replaced_sel:
  "dn_routers replaced = [one_client, one_client]" "dn_current replaced = 1" "dn_close replaced 0 = Waiting"
  "dn_wg replaced 0 = 0" "dn_req replaced 7 = Some (RqLoaded 0)" "dn_log replaced = []" "dn_world replaced = 0"
  by (simp_all add: replaced_def drain_ops drain_init_def)

theorem drain_closes_once_after_requests_witness:
  "calls_of replaced 0 = [0..<closed_count replaced 0] \<and> calls_of replaced 1 = []"
  using drain_closes_once_after_requests [OF replaced_reachable] replaced_sel(2) by metis

theorem replaced_router_gets_closed_witness:
  "\<exists>d'. drain_step\<^sup>*\<^sup>* replaced d' \<and> dn_close d' 0 = ClosedAll \<and> dn_world d' = 1"
  using replaced_router_gets_closed [OF replaced_reachable, of 0]
  by (auto simp: replaced_sel calls_of_def SyncClose_def one_client_def)

text \<open>The request that has loaded the router but is not yet counted is not
  waited for: the update replaces the router, the wait ends at once, every
  client is closed, and only then the request is served by the closed router.
  No timeout is involved.\<close>

theorem uncounted_request_hits_closed_router:
  "\<exists>d :: nat drain. drain_reachable d \<and> dn_req d 7 = Some (RqServing 0) \<and> dn_close d 0 = ClosedAll
    \<and> calls_of d 0 = [0] \<and> \<not> dn_timeout d 0"
proof -
  let ?d1 = "start_closing 0 (wait_over 0 replaced)"
  let ?d2 = "close_next 0 1 (close_next 0 0 ?d1)"
  have "drain_reachable (wait_over 0 replaced)"
    using drain_reachable.step [OF replaced_reachable WaitOver] replaced_sel by blast
  then have "drain_reachable ?d1"
    using drain_reachable.step [OF _ drain_step.Select [of "wait_over 0 replaced" 0]] by (simp add: wait_over_def)
  moreover have c0: "dn_close ?d1 0 = ClosingFrom 0" by (simp add: start_closing_def)
  moreover have c1: "dn_close (close_next 0 0 ?d1) 0 = ClosingFrom 1"
    by (simp add: close_next_def start_closing_def wait_over_def replaced_sel one_client_def)
  ultimately have "drain_reachable ?d2" using drain_reachable.step drain_step.Close by blast
  moreover have "dn_req ?d2 7 = Some (RqLoaded 0)"
    by (simp add: close_next_def start_closing_def wait_over_def replaced_sel)
  ultimately have "drain_reachable (wg_add 7 0 ?d2)" using drain_reachable.step drain_step.Add by blast
  then show ?thesis
    by (rule exI [of _ "wg_add 7 0 ?d2", OF conjI])
      (simp add: wg_add_def close_next_def start_closing_def wait_over_def replaced_sel one_client_def calls_of_def,
        simp add: replaced_def drain_ops drain_init_def)
qed

end
