(* ===== verification/Server.thy ===== *)
theory Server
  imports Go_Time Go_Os Mux
begin

text \<open>
  Package server, file proxy.go: the settings of the public server, the
  Alt-Svc header, the start of the listeners and the loop that serves HTTP/3.
  The TLS key pair loader, the h2c wrapper, quic-go and the protocol version
  of a request (a field the requests of this model do not carry) are
  parameters; log lines are left out.
\<close>

section \<open>Timeouts\<close>

record server_timeouts =
  st_readHeader :: int
  st_read :: int
  st_write :: int
  st_idle :: int

definition default_timeouts :: server_timeouts where
  "default_timeouts = \<lparr>st_readHeader = 10 * time_second, st_read = 15 * time_second,
     st_write = 15 * time_second, st_idle = 120 * time_second\<rparr>"

text \<open>One variable of the environment; \<open>None\<close> is the panic of init.\<close>

definition env_timeout :: "'a os_scheme \<Rightarrow> string \<Rightarrow> int \<Rightarrow> int option" where
  "env_timeout w k def' =
    (let v = os_Getenv k w in if v = [] then Some def' else time_ParseDuration v)"

definition server_init :: "'a os_scheme \<Rightarrow> server_timeouts \<Rightarrow> server_timeouts option" where
  "server_init w t =
    (case env_timeout w ProxyReadHeaderTimeout (st_readHeader t) of
       None \<Rightarrow> None
     | Some a \<Rightarrow>
         (case env_timeout w ProxyReadTimeout (st_read t) of
            None \<Rightarrow> None
          | Some b \<Rightarrow>
              (case env_timeout w ProxyWriteTimeout (st_write t) of
                 None \<Rightarrow> None
               | Some c \<Rightarrow>
                   (case env_timeout w ProxyIdleTimeout (st_idle t) of
                      None \<Rightarrow> None
                    | Some d \<Rightarrow> Some \<lparr>st_readHeader = a, st_read = b, st_write = c, st_idle = d\<rparr>))))"

section \<open>Building the server\<close>

datatype tls_version = TLS12 | TLS13

record tls_config =
  tc_certificate :: string
  tc_next_protos :: "string list"
  tc_min_version :: tls_version
  tc_cipher_suites :: "string list"
  tc_curves :: "string list"

record quic_config =
  qc_max_idle :: int
  qc_keep_alive :: int
  qc_streams :: int
  qc_uni_streams :: int
  qc_datagrams :: bool
  qc_handshake_idle :: int

record 'w h3_server =
  h3_addr :: string
  h3_tls :: "tls_config option"
  h3_handler :: "'w handler option"
  h3_quic :: "quic_config option"

record 'w proxy_server =
  ps_addr :: string
  ps_tls :: "tls_config option"
  ps_handler :: "'w handler"
  ps_timeouts :: server_timeouts
  ps_h3 :: "'w h3_server"
  ps_use_tls :: bool
  ps_use_h3 :: bool
  ps_http_port :: string
  ps_http3_port :: string

text \<open>Third-party calls: the certificate of a pair of files, and the wrapper
  that accepts HTTP/2 without TLS.\<close>

record ('a, 'w) server_lib =
  sl_LoadX509KeyPair :: "string \<Rightarrow> string \<Rightarrow> 'a os_scheme \<Rightarrow> (err + string) \<times> 'a os_scheme"
  sl_h2c :: "'w handler \<Rightarrow> 'w handler"
  sl_proto_major :: "request \<Rightarrow> int"

definition add_header :: "string \<Rightarrow> string \<Rightarrow> response_writer \<Rightarrow> response_writer" where
  "add_header k v wr = wr\<lparr>rw_header := hadd (rw_header wr) k v\<rparr>"

definition altSvc_value :: "string \<Rightarrow> string" where
  "altSvc_value port = ''h3=\":'' @ port @ ''\"; ma=86400, h3-29=\":'' @ port @ ''\"; ma=86400''"

definition altSvcMiddleware :: "(request \<Rightarrow> int) \<Rightarrow> 'w handler \<Rightarrow> string \<Rightarrow> 'w handler" where
  "altSvcMiddleware major h h3Port wr r w =
    (if major r < 3 \<and> h3Port \<noteq> [] then h (add_header ''Alt-Svc'' (altSvc_value h3Port) wr) r w
     else h wr r w)"

definition fileExists :: "string \<Rightarrow> 'a os_scheme \<Rightarrow> bool \<times> 'a os_scheme" where
  "fileExists p w = (case os_Stat p w of (Inl e, w1) \<Rightarrow> (False, w1) | (Inr m, w1) \<Rightarrow> (True, w1))"

text \<open>The TLS configuration; \<open>Inl\<close> is a call of Fatal, which ends the process.\<close>

definition make_tls :: "('a, 'w) server_lib \<Rightarrow> 'a os_scheme \<Rightarrow> (string + tls_config) \<times> 'a os_scheme" where
  "make_tls L w =
    (let certFile = os_Getenv CrtFile w; keyFile = os_Getenv KeyFile w
     in if certFile = [] \<or> keyFile = [] then (Inl ''certFile and keyFile must be set'', w)
        else
          (case fileExists certFile w of
             (False, w1) \<Rightarrow> (Inl ''certificate file does not exist'', w1)
           | (True, w1) \<Rightarrow>
               (case fileExists keyFile w1 of
                  (False, w2) \<Rightarrow> (Inl ''key file does not exist'', w2)
                | (True, w2) \<Rightarrow>
                    (case sl_LoadX509KeyPair L certFile keyFile w2 of
                       (Inl e, w3) \<Rightarrow> (Inl ''certificate cannot be loaded'', w3)
                     | (Inr cert, w3) \<Rightarrow>
                         (Inr \<lparr>tc_certificate = cert, tc_next_protos = [''h3'', ''h2'', ''http/1.1''], tc_min_version = TLS13,
                            tc_cipher_suites = [''TLS_AES_128_GCM_SHA256'', ''TLS_AES_256_GCM_SHA384'', ''TLS_CHACHA20_POLY1305_SHA256''],
                            tc_curves = [''X25519'', ''P384'']\<rparr>, w3)))))"

definition default_quic :: quic_config where
  "default_quic = \<lparr>qc_max_idle = 180 * time_second, qc_keep_alive = 15 * time_second, qc_streams = 500, qc_uni_streams = 100,
     qc_datagrams = True, qc_handshake_idle = 3 * time_second\<rparr>"

definition default_port :: "string \<Rightarrow> string \<Rightarrow> string" where
  "default_port v d = (if v = [] then d else v)"

definition build_server :: "('a, 'w) server_lib \<Rightarrow> server_timeouts \<Rightarrow> 'w handler \<Rightarrow> 'a os_scheme \<Rightarrow> bool \<Rightarrow> tls_config option
    \<Rightarrow> 'w proxy_server" where
  "build_server L t handler w useTLS tls =
    (let useH3 = (os_Getenv UseHttp3 w = ''true'');
         httpPort = default_port (os_Getenv HTTPPort w) DefaultHTTPPort;
         http3Port = default_port (os_Getenv HTTP3Port w) DefaultHTTP3Port
     in \<lparr>ps_addr = httpPort, ps_tls = tls,
         ps_handler = sl_h2c L (altSvcMiddleware (sl_proto_major L) handler http3Port),
         ps_timeouts = t,
         ps_h3 = (if useH3 \<and> tls \<noteq> None
                  then \<lparr>h3_addr = http3Port, h3_tls = tls, h3_handler = Some handler, h3_quic = Some default_quic\<rparr>
                  else \<lparr>h3_addr = http3Port, h3_tls = None, h3_handler = None, h3_quic = None\<rparr>),
         ps_use_tls = useTLS, ps_use_h3 = useH3, ps_http_port = httpPort, ps_http3_port = http3Port\<rparr>)"

definition NewProxy :: "('a, 'w) server_lib \<Rightarrow> server_timeouts \<Rightarrow> 'w handler \<Rightarrow> 'a os_scheme
    \<Rightarrow> (string + 'w proxy_server) \<times> 'a os_scheme" where
  "NewProxy L t handler w =
    (if os_Getenv UseTLS w = ''true'' then
       (case make_tls L w of
          (Inl msg, w1) \<Rightarrow> (Inl msg, w1)
        | (Inr tls, w1) \<Rightarrow> (Inr (build_server L t handler w True (Some tls)), w1))
     else (Inr (build_server L t handler w False None), w))"

section \<open>Serving HTTP/3\<close>

text \<open>The UDP sockets of the host and what the loop does with them.  A second
  socket for an address that is taken is refused, unless the port is 0 (any
  free port); every call may fail for reasons of its own.\<close>

datatype serve_end = ServeReturned "err option" | ServePanicked

datatype h3_event = H3Served | H3Slept int | H3Failed string

record 'x udp =
  ud_bound :: "(string \<times> nat) list"
  ud_events :: "h3_event list"
  ud_ext :: 'x

record 'x quic_lib =
  ql_ResolveUDPAddr :: "string \<Rightarrow> err + string \<times> nat"
  ql_listen_fault :: "'x \<Rightarrow> bool \<times> 'x"
  ql_ListenEarly :: "tls_config option \<Rightarrow> quic_config option \<Rightarrow> 'x \<Rightarrow> bool \<times> 'x"
  ql_ServeListener :: "'x \<Rightarrow> serve_end \<times> 'x"

definition ud_emit :: "h3_event \<Rightarrow> 'x udp \<Rightarrow> 'x udp" where
  "ud_emit e u = u\<lparr>ud_events := ud_events u @ [e]\<rparr>"

definition ListenUDP :: "'x quic_lib \<Rightarrow> string \<times> nat \<Rightarrow> 'x udp \<Rightarrow> bool \<times> 'x udp" where
  "ListenUDP Q a u =
    (if snd a \<noteq> 0 \<and> a \<in> set (ud_bound u) then (False, u)
     else
       (case ql_listen_fault Q (ud_ext u) of
          (True, x1) \<Rightarrow> (False, u\<lparr>ud_ext := x1\<rparr>)
        | (False, x1) \<Rightarrow> (True, u\<lparr>ud_bound := a # ud_bound u, ud_ext := x1\<rparr>)))"

text \<open>The deferred closes run when the function returns, not at the end of a
  round: the argument \<open>open'\<close> holds the sockets of the rounds so far.\<close>

definition close_sockets :: "(string \<times> nat) list \<Rightarrow> 'x udp \<Rightarrow> 'x udp" where
  "close_sockets as u = u\<lparr>ud_bound := foldl (\<lambda>b a. remove1 a b) (ud_bound u) as\<rparr>"

function h3_loop :: "'x quic_lib \<Rightarrow> 'w proxy_server \<Rightarrow> nat \<Rightarrow> (string \<times> nat) list \<Rightarrow> 'x udp \<Rightarrow> 'x udp" where
  "h3_loop Q s retry open' u =
    (if 3 \<le> retry then close_sockets open' u
     else
       (case ql_ResolveUDPAddr Q (ps_http3_port s) of
          Inl e \<Rightarrow> close_sockets open' (ud_emit (H3Failed ''resolve'') u)
        | Inr a \<Rightarrow>
            (case ListenUDP Q a u of
               (False, u1) \<Rightarrow> close_sockets open' (ud_emit (H3Failed ''listen'') u1)
             | (True, u1) \<Rightarrow>
                 (case ql_ListenEarly Q (h3_tls (ps_h3 s)) (h3_quic (ps_h3 s)) (ud_ext u1) of
                    (False, x2) \<Rightarrow> close_sockets (a # open') (ud_emit (H3Failed ''quic'') (u1\<lparr>ud_ext := x2\<rparr>))
                  | (True, x2) \<Rightarrow>
                      (case ql_ServeListener Q x2 of
                         (ServePanicked, x3) \<Rightarrow> close_sockets (a # open') (ud_emit H3Served (u1\<lparr>ud_ext := x3\<rparr>))
                       | (ServeReturned None, x3) \<Rightarrow> close_sockets (a # open') (ud_emit H3Served (u1\<lparr>ud_ext := x3\<rparr>))
                       | (ServeReturned (Some e), x3) \<Rightarrow>
                           h3_loop Q s (Suc retry) (a # open')
                             (ud_emit (H3Slept (time_second * 2 ^ retry)) (ud_emit H3Served (u1\<lparr>ud_ext := x3\<rparr>))))))))"
  by pat_completeness auto
termination by (relation "measure (\<lambda>(Q, s, retry, op, u). 3 - retry)") auto

declare h3_loop.simps [simp del]

section \<open>Start\<close>

text \<open>Start launches the loop in a goroutine and listens on TCP.\<close>

datatype tcp_listen = ListenAndServeTLS string | ListenAndServe string

definition proxy_Start :: "'w proxy_server \<Rightarrow> bool \<times> tcp_listen" where
  "proxy_Start s = (ps_use_h3 s, if ps_use_tls s then ListenAndServeTLS (ps_addr s) else ListenAndServe (ps_addr s))"

text \<open>The warning that the port is above 1024 compares strings.\<close>

definition h3_port_warning :: "'w proxy_server \<Rightarrow> bool" where
  "h3_port_warning s =
    (ps_use_h3 s \<and> hasPrefix (ps_http3_port s) '':''
      \<and> (let port = trimPrefix (ps_http3_port s) '':'' in snd (parseInt 64 port) \<and> ''1024'' \<le> port))"

section \<open>Properties\<close>

definition served :: "'x udp \<Rightarrow> nat" where
  "served u = length (filter (\<lambda>e. e = H3Served) (ud_events u))"

lemma udp_simps [simp]:
  "served (ud_emit H3Served u) = Suc (served u)" "served (ud_emit (H3Slept d) u) = served u"
  "served (ud_emit (H3Failed m) u) = served u" "served (close_sockets as u) = served u"
  "served (u\<lparr>ud_ext := x\<rparr>) = served u" "ud_bound (ud_emit e u) = ud_bound u" "ud_ext (ud_emit e u) = ud_ext u"
  by (simp_all add: served_def ud_emit_def close_sockets_def)

lemma close_own_sockets: "ud_bound u = as @ base \<Longrightarrow> ud_bound (close_sockets as u) = base"
proof -
  have "foldl (\<lambda>b a. remove1 a b) (as @ base) as = base" by (induction as) simp_all
  then show "ud_bound u = as @ base \<Longrightarrow> ud_bound (close_sockets as u) = base" by (simp add: close_sockets_def)
qed

lemma ListenUDP_cases:
  assumes "ListenUDP Q a u = (ok, u1)"
  shows "served u1 = served u" and "ok \<Longrightarrow> ud_bound u1 = a # ud_bound u \<and> \<not> (snd a \<noteq> 0 \<and> a \<in> set (ud_bound u))"
    and "\<not> ok \<Longrightarrow> ud_bound u1 = ud_bound u"
  using assms by (auto simp: ListenUDP_def served_def split: if_splits prod.splits bool.splits)

lemma h3_loop_effect:
  "ud_bound u = open' @ base \<Longrightarrow>
    ud_bound (h3_loop Q s retry open' u) = base
    \<and> served (h3_loop Q s retry open' u) \<le> served u + (3 - retry)
    \<and> (\<forall>a. ql_ResolveUDPAddr Q (ps_http3_port s) = Inr a \<longrightarrow> snd a \<noteq> 0 \<longrightarrow>
         served (h3_loop Q s retry open' u) \<le> (if a \<in> set (ud_bound u) then served u else Suc (served u)))"
proof (induction Q s retry open' u rule: h3_loop.induct)
  case (1 Q s retry open' u)
  show ?case
  proof (cases "3 \<le> retry")
    case True
    then show ?thesis using 1(2) close_own_sockets by (subst (1 2 3) h3_loop.simps) simp
  next
    case small: False
    show ?thesis
    proof (cases "ql_ResolveUDPAddr Q (ps_http3_port s)")
      case (Inl e)
      then show ?thesis using small 1(2) close_own_sockets [of "ud_emit (H3Failed ''resolve'') u" open' base]
        by (subst (1 2 3) h3_loop.simps) simp
    next
      case (Inr a)
      obtain ok u1 where l: "ListenUDP Q a u = (ok, u1)" by (cases "ListenUDP Q a u")
      show ?thesis
      proof (cases ok)
        case False
        then have "h3_loop Q s retry open' u = close_sockets open' (ud_emit (H3Failed ''listen'') u1)"
          using small Inr l by (subst h3_loop.simps) simp
        then show ?thesis
          using 1(2) ListenUDP_cases [OF l] False close_own_sockets [of "ud_emit (H3Failed ''listen'') u1" open' base] by simp
      next
        case True
        note bound = ListenUDP_cases(2) [OF l True] and sv = ListenUDP_cases(1) [OF l]
        obtain q x2 where q: "ql_ListenEarly Q (h3_tls (ps_h3 s)) (h3_quic (ps_h3 s)) (ud_ext u1) = (q, x2)"
          by (cases "ql_ListenEarly Q (h3_tls (ps_h3 s)) (h3_quic (ps_h3 s)) (ud_ext u1)")
        obtain r x3 where r: "ql_ServeListener Q x2 = (r, x3)" by (cases "ql_ServeListener Q x2")
        let ?u3 = "ud_emit H3Served (u1\<lparr>ud_ext := x3\<rparr>)"
        let ?again = "ud_emit (H3Slept (time_second * 2 ^ retry)) ?u3"
        have loop: "h3_loop Q s retry open' u =
            (if \<not> q then close_sockets (a # open') (ud_emit (H3Failed ''quic'') (u1\<lparr>ud_ext := x2\<rparr>))
             else case r of ServeReturned (Some e) \<Rightarrow> h3_loop Q s (Suc retry) (a # open') ?again
                  | _ \<Rightarrow> close_sockets (a # open') ?u3)"
          using small Inr l True q r by (subst h3_loop.simps) (simp split: serve_end.split option.split)
        have own: "ud_bound u1 = (a # open') @ base" using bound 1(2) by simp
        show ?thesis
        proof (cases "q \<and> (\<exists>e. r = ServeReturned (Some e))")
          case more: True
          then obtain e where e: "q" "r = ServeReturned (Some e)" by blast
          have eq: "h3_loop Q s retry open' u = h3_loop Q s (Suc retry) (a # open') ?again" using loop e by simp
          have own': "ud_bound ?again = (a # open') @ base" using own by simp
          have IH: "ud_bound (h3_loop Q s (Suc retry) (a # open') ?again) = base
              \<and> served (h3_loop Q s (Suc retry) (a # open') ?again) \<le> served ?again + (3 - Suc retry)
              \<and> (\<forall>a'. ql_ResolveUDPAddr Q (ps_http3_port s) = Inr a' \<longrightarrow> snd a' \<noteq> 0 \<longrightarrow>
                   served (h3_loop Q s (Suc retry) (a # open') ?again)
                     \<le> (if a' \<in> set (ud_bound ?again) then served ?again else Suc (served ?again)))"
            by (rule "1.IH" [OF small Inr l [symmetric] _ q [symmetric] _ r [symmetric] e(2) refl own']) (simp_all add: True e(1))
          have in_: "a \<in> set (ud_bound ?again)" using own by simp
          have "served (h3_loop Q s retry open' u) \<le> Suc (served u)" if "snd a \<noteq> 0"
            using IH Inr that in_ sv unfolding eq by auto
          moreover have "a \<notin> set (ud_bound u)" if "snd a \<noteq> 0" using bound that by simp
          ultimately show ?thesis using IH small sv Inr unfolding eq by auto
        next
          case False
          have "h3_loop Q s retry open' u = close_sockets (a # open') (ud_emit (H3Failed ''quic'') (u1\<lparr>ud_ext := x2\<rparr>))
              \<or> h3_loop Q s retry open' u = close_sockets (a # open') ?u3"
            using loop False by (auto split: serve_end.splits option.splits)
          then show ?thesis
            using own sv small bound Inr close_own_sockets [of "ud_emit (H3Failed ''quic'') (u1\<lparr>ud_ext := x2\<rparr>)" "a # open'" base]
              close_own_sockets [of ?u3 "a # open'" base] by auto
        qed
      qed
    qed
  qed
qed

text \<open>C39: The loop that serves HTTP/3 ends after at most three rounds and
  releases every socket it opened.  For a fixed port it never serves a second
  time: the socket of the failed round is closed by a deferred call only when
  the function returns, so the next round cannot bind the port again.\<close>

theorem h3_retry_never_rebinds:
  "ud_bound (h3_loop Q s 0 [] u) = ud_bound u
    \<and> served (h3_loop Q s 0 [] u) \<le> served u + 3
    \<and> (\<forall>a. ql_ResolveUDPAddr Q (ps_http3_port s) = Inr a \<longrightarrow> snd a \<noteq> 0 \<longrightarrow> served (h3_loop Q s 0 [] u) \<le> Suc (served u))"
proof -
  note e = h3_loop_effect [of u "[]" "ud_bound u" Q s 0]
  have "served (h3_loop Q s 0 [] u) \<le> Suc (served u)"
    if "ql_ResolveUDPAddr Q (ps_http3_port s) = Inr a" "snd a \<noteq> 0" for a
    using e that by (cases "a \<in> set (ud_bound u)") simp_all
  then show ?thesis using e by simp
qed

definition plain_server :: "nat proxy_server" where
  "plain_server = \<lparr>ps_addr = DefaultHTTPPort, ps_tls = None, ps_handler = (\<lambda>wr r w. Finished wr w), ps_timeouts = default_timeouts,
     ps_h3 = \<lparr>h3_addr = DefaultHTTP3Port, h3_tls = None, h3_handler = None, h3_quic = None\<rparr>, ps_use_tls = True, ps_use_h3 = True,
     ps_http_port = DefaultHTTPPort, ps_http3_port = DefaultHTTP3Port\<rparr>"

definition failing_quic :: "unit quic_lib" where
  "failing_quic = \<lparr>ql_ResolveUDPAddr = (\<lambda>_. Inr ([], 443)), ql_listen_fault = (\<lambda>x. (False, x)),
     ql_ListenEarly = (\<lambda>t q x. (True, x)), ql_ServeListener = (\<lambda>x. (ServeReturned (Some (PlainErr ''timeout'')), x))\<rparr>"

definition free_host :: "unit udp" where
  "free_host = \<lparr>ud_bound = [], ud_events = [], ud_ext = ()\<rparr>"

lemma failing_run:
  "ud_events (h3_loop failing_quic plain_server 0 [] free_host) = [H3Served, H3Slept time_second, H3Failed ''listen'']"
proof -
  have r: "ql_ResolveUDPAddr failing_quic p = Inr ([], 443)" for p by (simp add: failing_quic_def)
  let ?a = "([], 443) :: string \<times> nat"
  let ?u1 = "ud_emit (H3Slept time_second) (ud_emit H3Served (free_host\<lparr>ud_bound := [?a]\<rparr>))"
  have "h3_loop failing_quic plain_server 0 [] free_host = h3_loop failing_quic plain_server 1 [?a] ?u1"
    by (subst h3_loop.simps) (simp add: failing_quic_def ListenUDP_def free_host_def ud_emit_def)
  moreover have "h3_loop failing_quic plain_server 1 [?a] ?u1 = close_sockets [?a] (ud_emit (H3Failed ''listen'') ?u1)"
    by (subst h3_loop.simps) (simp add: failing_quic_def ListenUDP_def free_host_def ud_emit_def)
  ultimately show ?thesis by (simp add: close_sockets_def ud_emit_def free_host_def)
qed

theorem h3_retry_never_rebinds_witness:
  "served (h3_loop failing_quic plain_server 0 [] free_host) \<le> 1
    \<and> ud_events (h3_loop failing_quic plain_server 0 [] free_host) = [H3Served, H3Slept time_second, H3Failed ''listen'']"
  using h3_retry_never_rebinds [of failing_quic plain_server free_host] failing_run
  by (simp add: failing_quic_def) (simp add: served_def free_host_def)

text \<open>A server that is built either has no TLS at all, or has the TLS
  that was asked for: the loaded key pair and no version below 1.3; it serves
  HTTP/3 with the original handler only when both are switched on.\<close>

theorem built_server_modes:
  assumes "NewProxy L t handler w = (Inr s, w')"
  shows "ps_use_tls s = (os_Getenv UseTLS w = ''true'')
    \<and> (case ps_tls s of
          None \<Rightarrow> \<not> ps_use_tls s
        | Some tls \<Rightarrow> ps_use_tls s \<and> tc_min_version tls = TLS13
            \<and> (\<exists>w1 w2. sl_LoadX509KeyPair L (os_Getenv CrtFile w) (os_Getenv KeyFile w) w1 = (Inr (tc_certificate tls), w2)))
    \<and> h3_handler (ps_h3 s) = (if ps_use_h3 s \<and> ps_use_tls s then Some handler else None)"
proof -
  have modes: "ps_use_tls (build_server L t handler w1 b tls) = b" "ps_tls (build_server L t handler w1 b tls) = tls"
    "h3_handler (ps_h3 (build_server L t handler w1 b tls)) =
       (if ps_use_h3 (build_server L t handler w1 b tls) \<and> tls \<noteq> None then Some handler else None)" for w1 b tls
    by (simp_all add: build_server_def Let_def)
  show ?thesis
  proof (cases "os_Getenv UseTLS w = ''true''")
    case False
    then show ?thesis using assms by (auto simp: NewProxy_def modes)
  next
    case True
    obtain tls where m: "make_tls L w = (Inr tls, w')" and s: "s = build_server L t handler w True (Some tls)"
      using assms True by (auto simp: NewProxy_def split: prod.splits sum.splits)
    have "tc_min_version tls = TLS13 \<and> (\<exists>w1. sl_LoadX509KeyPair L (os_Getenv CrtFile w) (os_Getenv KeyFile w) w1
        = (Inr (tc_certificate tls), w'))"
      using m by (auto simp: make_tls_def Let_def split: if_splits prod.splits sum.splits bool.splits)
    then show ?thesis using True by (auto simp: s modes)
  qed
qed

definition tls_host :: os where
  "tls_host = \<lparr>os_files = [(''gw.crt'', ''CERT'', 420), (''gw.key'', ''KEY'', 384)], os_dirs = [],
     os_env = [UseTLS \<mapsto> ''true'', CrtFile \<mapsto> ''gw.crt'', KeyFile \<mapsto> ''gw.key''], os_calls = 0,
     os_fault = (\<lambda>_. None), os_rand = (\<lambda>_. [])\<rparr>"

definition sample_server_lib :: "(unit, nat) server_lib" where
  "sample_server_lib = \<lparr>sl_LoadX509KeyPair = (\<lambda>c k w. case os_ReadFile c w of
       (Inl e, w1) \<Rightarrow> (Inl e, w1)
     | (Inr s, w1) \<Rightarrow> (case os_ReadFile k w1 of (Inl e, w2) \<Rightarrow> (Inl e, w2) | (Inr t, w2) \<Rightarrow> (Inr s, w2))),
     sl_h2c = (\<lambda>h. h), sl_proto_major = (\<lambda>_. 2)\<rparr>"

lemma tls_host_env:
  "os_Getenv UseTLS tls_host = ''true''" "os_Getenv CrtFile tls_host = ''gw.crt''"
  "os_Getenv KeyFile tls_host = ''gw.key''" "os_Getenv HTTP3Port tls_host = []"
  by (simp_all add: tls_host_def os_Getenv_def)

lemma tls_host_built:
  "\<exists>s w'. NewProxy sample_server_lib default_timeouts h tls_host = (Inr s, w') \<and> ps_use_tls s"
proof -
  have "\<exists>tls w'. make_tls sample_server_lib tls_host = (Inr tls, w')"
    unfolding make_tls_def Let_def tls_host_env
    by (simp add: fileExists_def os_Stat_def os_ReadFile_def sys_def file_at_def tls_host_def sample_server_lib_def)
  then show ?thesis by (auto simp: NewProxy_def tls_host_env(1) build_server_def Let_def)
qed

theorem built_server_modes_witness:
  "\<exists>s w' tls. NewProxy sample_server_lib default_timeouts (\<lambda>wr r w. Finished wr w) tls_host = (Inr s, w')
    \<and> ps_tls s = Some tls \<and> tc_min_version tls = TLS13"
proof -
  obtain s w' where b: "NewProxy sample_server_lib default_timeouts (\<lambda>wr r w. Finished wr w) tls_host = (Inr s, w')" and u: "ps_use_tls s"
    using tls_host_built by blast
  show ?thesis using built_server_modes [OF b] b u by (cases "ps_tls s") auto
qed

text \<open>With the documented form of HTTP3\_PORT, whose default is ":443", the
  announced authority is "::443", and it is announced to every client below
  HTTP/3, also when HTTP/3 is switched off.\<close>

theorem alt_svc_doubles_the_colon:
  assumes "NewProxy L t handler w = (Inr s, w')" and "os_Getenv HTTP3Port w = []"
    and "sl_h2c L = (\<lambda>h. h)" and "sl_proto_major L r < 3"
  shows "ps_handler s wr r v =
    handler (add_header ''Alt-Svc'' ''h3=\"::443\"; ma=86400, h3-29=\"::443\"; ma=86400'' wr) r v"
proof -
  have "s = build_server L t handler w (ps_use_tls s) (ps_tls s)"
    using assms(1) by (auto simp: NewProxy_def build_server_def Let_def split: if_splits prod.splits sum.splits)
  then have "ps_handler s = altSvcMiddleware (sl_proto_major L) handler DefaultHTTP3Port"
    using assms(2,3) by (metis (no_types, lifting) build_server_def default_port_def proxy_server.select_convs(3))
  then show ?thesis using assms(4) by (simp add: altSvcMiddleware_def altSvc_value_def)
qed

theorem alt_svc_doubles_the_colon_witness:
  "\<exists>s w'. NewProxy sample_server_lib default_timeouts (\<lambda>wr r w. Finished wr w) tls_host = (Inr s, w') \<and> \<not> ps_use_h3 s
    \<and> ps_handler s new_writer sample_request 0
        = Finished (add_header ''Alt-Svc'' ''h3=\"::443\"; ma=86400, h3-29=\"::443\"; ma=86400'' new_writer) 0"
proof -
  obtain s w' where b: "NewProxy sample_server_lib default_timeouts (\<lambda>wr r w. Finished wr w) tls_host = (Inr s, w')"
    using tls_host_built by blast
  have "os_Getenv UseHttp3 tls_host = []" by (simp add: tls_host_def os_Getenv_def)
  then have "\<not> ps_use_h3 s"
    using b by (auto simp: NewProxy_def build_server_def Let_def tls_host_env split: prod.splits sum.splits)
  then show ?thesis using alt_svc_doubles_the_colon [OF b tls_host_env(4)] b by (simp add: sample_server_lib_def)
qed

text \<open>The warning about ports above 1024 is given for 443 and not for 10000.\<close>

lemma port_warning_inverted:
  "h3_port_warning (plain_server\<lparr>ps_http3_port := DefaultHTTP3Port\<rparr>) \<and> \<not> h3_port_warning (plain_server\<lparr>ps_http3_port := '':10000''\<rparr>)"
  by code_simp

end
