(* ===== verification/Ctrl_Loader.thy ===== *)
theory Ctrl_Loader
  imports Config_Loader Go_Values Client_Ip
begin

text \<open>
  Package ctrlloader (config/config-loader/ctrl-loader.go): the loader that
  fetches the configuration from a control service and writes it to the files
  the configuration loader watches.  The HTTP exchange, JSON and YAML decoding,
  the printing of a URL, the shuffle, UUIDs, the network interfaces of the host
  and the feature switches are parameters; log lines and debug pages are left
  out.
\<close>

section \<open>State and parameters\<close>

text \<open>An item of the list may be a JSON null, which leaves a nil pointer; so may
  the whole response.\<close>

record priority_item =
  pi_key :: string
  pi_config :: string
  pi_version :: string

record load_response =
  lr_config :: string
  lr_version :: string
  lr_priority :: "priority_item option list"

record ctrl_loader =
  cc_services :: "string list"
  cc_idx :: nat
  cc_next :: bool
  cc_dst :: string
  cc_priority_dir :: string
  cc_name :: string
  cc_addr :: string
  cc_last_version :: string
  cc_last_priority :: "(string \<times> string) list option"

text \<open>A network interface: its name, whether it is up, its addresses; an address
  of a type the code does not look at has no bytes.\<close>

record net_iface =
  if_name :: string
  if_up :: bool
  if_addrs :: "err + nat list option list"

record 'w ctrl_lib =
  cl_url_String :: "url \<Rightarrow> string"
  cl_Shuffle :: "string list \<Rightarrow> string list"
  cl_Interfaces :: "err + net_iface list"
  cl_Get :: "string \<Rightarrow> 'w \<Rightarrow> (err + int \<times> body) \<times> 'w"
  cl_release :: "string \<Rightarrow> err + load_response option"
  cl_features :: "string \<Rightarrow> err + (string \<times> bool) list option"
  cl_JSONToYAML :: "string \<Rightarrow> err + string"
  cl_uuid :: "'w \<Rightarrow> string \<times> 'w"
  cl_priority_enabled :: "'w \<Rightarrow> bool"
  cl_SetEnabled :: "string \<Rightarrow> bool \<Rightarrow> 'w \<Rightarrow> 'w"
  cl_ctx_done :: "'w \<Rightarrow> bool"

text \<open>The result of a method that may also panic.\<close>

datatype 'a ctrl_result = CtrlPanic | CtrlErr err | CtrlOk 'a

section \<open>Construction\<close>

definition prepareCtrlService :: "'w ctrl_lib \<Rightarrow> string \<Rightarrow> string list" where
  "prepareCtrlService L in' =
    cl_Shuffle L (map (cl_url_String L) (List.map_filter url_Parse (split_char (CHR '','') in')))"

definition bytes_To4 :: "nat list \<Rightarrow> nat list option" where
  "bytes_To4 b = (if length b = 4 then Some b else ip_To4 b)"

definition ip_IsLoopback :: "nat list \<Rightarrow> bool" where
  "ip_IsLoopback b = (case bytes_To4 b of Some v \<Rightarrow> v ! 0 = 127 | None \<Rightarrow> b = replicate 15 0 @ [1])"

fun first_ipv4 :: "nat list option list \<Rightarrow> string option" where
  "first_ipv4 [] = None"
| "first_ipv4 (a # as) =
     (case a of
        None \<Rightarrow> first_ipv4 as
      | Some b \<Rightarrow>
          if ip_IsLoopback b then first_ipv4 as
          else (case bytes_To4 b of
                  None \<Rightarrow> first_ipv4 as
                | Some v \<Rightarrow> Some (join_str ''.'' (map dec_digits v))))"

fun getIPInterface :: "string \<Rightarrow> net_iface list \<Rightarrow> err + string" where
  "getIPInterface name [] = Inl (PlainErr ''interface not found'')"
| "getIPInterface name (i # is) =
     (if if_name i \<noteq> name then getIPInterface name is
      else if \<not> if_up i then Inl (PlainErr ''interfaces is down'')
      else (case if_addrs i of
              Inl e \<Rightarrow> Inl e
            | Inr as \<Rightarrow>
                (case first_ipv4 as of
                   Some s \<Rightarrow> Inr s
                 | None \<Rightarrow> Inl (PlainErr ''interfaces does not have a valid IPv4''))))"

definition getAdvertiseAddr :: "'a os_scheme ctrl_lib \<Rightarrow> 'a os_scheme \<Rightarrow> string" where
  "getAdvertiseAddr L w =
    (let advAddr = os_Getenv ''ADVERTISE_ADDR'' w; dev = os_Getenv ''ADVERTISE_DEVICE'' w
     in if advAddr \<noteq> [] then advAddr
        else (case cl_Interfaces L of
                Inl e \<Rightarrow> []
              | Inr ifs \<Rightarrow>
                  (case getIPInterface (if dev = [] then ''eth0'' else dev) ifs of Inl e \<Rightarrow> [] | Inr a \<Rightarrow> a)))"

definition ctrl_New :: "'a os_scheme ctrl_lib \<Rightarrow> string \<Rightarrow> string \<Rightarrow> string \<Rightarrow> string \<Rightarrow> 'a os_scheme \<Rightarrow> ctrl_loader" where
  "ctrl_New L name raw dst dir w =
    \<lparr>cc_services = prepareCtrlService L raw, cc_idx = 0, cc_next = False, cc_dst = dst, cc_priority_dir = dir,
     cc_name = name, cc_addr = getAdvertiseAddr L w, cc_last_version = [], cc_last_priority = None\<rparr>"

section \<open>The request\<close>

text \<open>\<open>None\<close> is the panic of an index out of range or a division by zero.\<close>

definition choseCtrlService :: "ctrl_loader \<Rightarrow> (string \<times> ctrl_loader) option" where
  "choseCtrlService c =
    (if cc_services c = [] then None
     else if cc_next c then
       (let i = (cc_idx c + 1) mod length (cc_services c)
        in Some (cc_services c ! i, c\<lparr>cc_idx := i, cc_next := False\<rparr>))
     else if cc_idx c < length (cc_services c) then Some (cc_services c ! cc_idx c, c)
     else None)"

definition urlfor :: "'w ctrl_lib \<Rightarrow> string \<Rightarrow> url_values \<Rightarrow> ctrl_loader \<Rightarrow> string ctrl_result \<times> ctrl_loader" where
  "urlfor L upath params c =
    (case choseCtrlService c of
       None \<Rightarrow> (CtrlPanic, c)
     | Some (s, c1) \<Rightarrow>
         (case url_Parse s of
            None \<Rightarrow> (CtrlErr (PlainErr ''parse''), c1)
          | Some u \<Rightarrow>
              (CtrlOk (cl_url_String L (u\<lparr>ul_path := path_Join [ul_path u, upath], ul_raw_query := values_Encode params\<rparr>)), c1)))"

text \<open>The loop sets the same key for every entry of the map (listed here in the
  order the loop happens to take).\<close>

definition encodeLastPriorityVersion :: "bool \<Rightarrow> ctrl_loader \<Rightarrow> url_values \<Rightarrow> url_values" where
  "encodeLastPriorityVersion enabled c dst =
    (if \<not> enabled then dst
     else
       (let dst1 = values_Set ''supportPriorityConfig'' ''1'' dst
        in case cc_last_priority c of
             None \<Rightarrow> dst1
           | Some vs \<Rightarrow> foldl (\<lambda>d (k, v). values_Set ''lastPriorityVersions'' (k @ CHR ''='' # v) d) dst1 vs))"

abbreviation errNotModified :: err where
  "errNotModified \<equiv> Sentinel ''config not modified''"

text \<open>The tail load and loadFeatures share: the GET request and its answer.\<close>

definition ctrl_get :: "'w ctrl_lib \<Rightarrow> string \<Rightarrow> 'w \<Rightarrow> string ctrl_result \<times> 'w" where
  "ctrl_get L api w =
    (case cl_Get L api w of
       (Inl e, w1) \<Rightarrow> (CtrlErr e, w1)
     | (Inr (status, b), w1) \<Rightarrow>
         (if status = 304 then CtrlErr errNotModified
          else if status \<noteq> 200 then CtrlErr (PlainErr (''invalid status code: '' @ formatInt status))
          else (case bd_err b of Some e \<Rightarrow> CtrlErr e | None \<Rightarrow> CtrlOk (bd_data b)), w1))"

definition base_params :: "ctrl_loader \<Rightarrow> url_values" where
  "base_params c = values_Set ''ip_addr'' (cc_addr c) (values_Set ''gateway'' (cc_name c) [])"

definition ctrl_load :: "'a os_scheme ctrl_lib \<Rightarrow> ctrl_loader \<Rightarrow> 'a os_scheme \<Rightarrow> string ctrl_result \<times> ctrl_loader \<times> 'a os_scheme" where
  "ctrl_load L c w =
    (let params = encodeLastPriorityVersion (cl_priority_enabled L w) c
                    (values_Set ''last_version'' (cc_last_version c) (base_params c))
     in case urlfor L ''/v1/control/gateway/release'' params c of
          (CtrlPanic, c1) \<Rightarrow> (CtrlPanic, c1, w)
        | (CtrlErr e, c1) \<Rightarrow> (CtrlErr e, c1, w)
        | (CtrlOk api, c1) \<Rightarrow> (case ctrl_get L api w of (r, w1) \<Rightarrow> (r, c1, w1)))"

definition ctrl_loadFeatures :: "'a os_scheme ctrl_lib \<Rightarrow> ctrl_loader \<Rightarrow> 'a os_scheme \<Rightarrow> string ctrl_result \<times> ctrl_loader \<times> 'a os_scheme" where
  "ctrl_loadFeatures L c w =
    (case urlfor L ''/v1/control/gateway/features'' (base_params c) c of
       (CtrlPanic, c1) \<Rightarrow> (CtrlPanic, c1, w)
     | (CtrlErr e, c1) \<Rightarrow> (CtrlErr e, c1, w)
     | (CtrlOk api, c1) \<Rightarrow> (case ctrl_get L api w of (r, w1) \<Rightarrow> (r, c1, w1)))"

section \<open>Writing the files\<close>

text \<open>A file is written under a temporary name and renamed.\<close>

definition write_renamed :: "string \<Rightarrow> string \<Rightarrow> string \<Rightarrow> 'a os_scheme \<Rightarrow> err option \<times> 'a os_scheme" where
  "write_renamed tmp dst data =
    try_call (os_WriteFile tmp data 420) (\<lambda>e. e) (\<lambda>_. try_call (os_Rename tmp dst) (\<lambda>e. e) (\<lambda>_ w. (None, w)))"

fun write_items :: "'a os_scheme ctrl_lib \<Rightarrow> string \<Rightarrow> priority_item option list \<Rightarrow> (string \<times> string) list \<Rightarrow> 'a os_scheme
    \<Rightarrow> (string \<times> string) list ctrl_result \<times> 'a os_scheme" where
  "write_items L dir [] vs w = (CtrlOk vs, w)"
| "write_items L dir (None # is) vs w = (CtrlPanic, w)"
| "write_items L dir (Some i # is) vs w =
     (case cl_JSONToYAML L (pi_config i) of
        Inl e \<Rightarrow> (CtrlErr e, w)
      | Inr yaml \<Rightarrow>
          (case write_renamed (path_Join [dir, pi_key i @ ''.yaml.tmp'']) (path_Join [dir, pi_key i @ ''.yaml'']) yaml w of
             (Some e, w1) \<Rightarrow> (CtrlErr e, w1)
           | (None, w1) \<Rightarrow> write_items L dir is (AList.update (pi_key i) (pi_version i) vs) w1))"

fun remove_expired :: "string \<Rightarrow> string list \<Rightarrow> (string \<times> bool) list \<Rightarrow> 'a os_scheme \<Rightarrow> 'a os_scheme" where
  "remove_expired dir keys [] w = w"
| "remove_expired dir keys ((n, isdir) # es) w =
     (if isdir \<or> path_Ext n \<noteq> ''.yaml'' \<or> trimSuffix n ''.yaml'' \<in> set keys then remove_expired dir keys es w
      else remove_expired dir keys es (snd (os_Remove (path_Join [dir, n]) w)))"

definition cleanUpPriorityConfigs :: "string \<Rightarrow> string list \<Rightarrow> 'a os_scheme \<Rightarrow> 'a os_scheme" where
  "cleanUpPriorityConfigs dir keys w =
    (case os_ReadDir dir w of (Inl e, w1) \<Rightarrow> w1 | (Inr es, w1) \<Rightarrow> remove_expired dir keys es w1)"

definition writePriorityConfigs :: "'a os_scheme ctrl_lib \<Rightarrow> load_response \<Rightarrow> ctrl_loader \<Rightarrow> 'a os_scheme
    \<Rightarrow> unit ctrl_result \<times> ctrl_loader \<times> 'a os_scheme" where
  "writePriorityConfigs L resp c w =
    (if cc_priority_dir c = [] then (CtrlOk (), c, w)
     else
       (case write_items L (cc_priority_dir c) (lr_priority resp) [] w of
          (CtrlPanic, w1) \<Rightarrow> (CtrlPanic, c, w1)
        | (CtrlErr e, w1) \<Rightarrow> (CtrlErr e, c, w1)
        | (CtrlOk vs, w1) \<Rightarrow>
            (CtrlOk (), c\<lparr>cc_last_priority := Some vs\<rparr>, cleanUpPriorityConfigs (cc_priority_dir c) (map fst vs) w1)))"

section \<open>Load and Run\<close>

definition temp_file :: "string \<Rightarrow> string \<Rightarrow> string" where
  "temp_file dst uuid = dst @ ''.'' @ uuid @ ''.tmp''"

text \<open>The body of Load after the answer: an error of the priority files is only
  logged.\<close>

definition apply_release :: "'a os_scheme ctrl_lib \<Rightarrow> load_response \<Rightarrow> ctrl_loader \<Rightarrow> 'a os_scheme
    \<Rightarrow> unit ctrl_result \<times> ctrl_loader \<times> 'a os_scheme" where
  "apply_release L resp c w =
    (case cl_JSONToYAML L (lr_config resp) of
       Inl e \<Rightarrow> (CtrlErr e, c, w)
     | Inr yaml \<Rightarrow>
         (case cl_uuid L w of
            (uuid, w1) \<Rightarrow>
              (case write_renamed (temp_file (cc_dst c) uuid) (cc_dst c) yaml w1 of
                 (Some e, w2) \<Rightarrow> (CtrlErr e, c, w2)
               | (None, w2) \<Rightarrow>
                   (case writePriorityConfigs L resp (c\<lparr>cc_last_version := lr_version resp\<rparr>) w2 of
                      (CtrlPanic, c3, w3) \<Rightarrow> (CtrlPanic, c3, w3)
                    | (_, c3, w3) \<Rightarrow> (CtrlOk (), c3, w3)))))"

text \<open>The deferred function of Load.\<close>

definition mark_next :: "unit ctrl_result \<Rightarrow> ctrl_loader \<Rightarrow> ctrl_loader" where
  "mark_next r c = (case r of CtrlErr e \<Rightarrow> c\<lparr>cc_next := True\<rparr> | _ \<Rightarrow> c)"

definition load_body :: "'a os_scheme ctrl_lib \<Rightarrow> ctrl_loader \<Rightarrow> 'a os_scheme \<Rightarrow> unit ctrl_result \<times> ctrl_loader \<times> 'a os_scheme" where
  "load_body L c w =
    (case ctrl_load L c w of
       (CtrlPanic, c1, w1) \<Rightarrow> (CtrlPanic, c1, w1)
     | (CtrlErr e, c1, w1) \<Rightarrow> (if e = errNotModified then CtrlOk () else CtrlErr e, c1, w1)
     | (CtrlOk data, c1, w1) \<Rightarrow>
         (case cl_release L data of
            Inl e \<Rightarrow> (CtrlErr e, c1, w1)
          | Inr None \<Rightarrow> (CtrlPanic, c1, w1)
          | Inr (Some resp) \<Rightarrow> apply_release L resp c1 w1))"

definition ctrl_Load :: "'a os_scheme ctrl_lib \<Rightarrow> ctrl_loader \<Rightarrow> 'a os_scheme \<Rightarrow> unit ctrl_result \<times> ctrl_loader \<times> 'a os_scheme" where
  "ctrl_Load L c w = (case load_body L c w of (r, c1, w1) \<Rightarrow> (r, mark_next r c1, w1))"

definition LoadFeatures :: "'a os_scheme ctrl_lib \<Rightarrow> ctrl_loader \<Rightarrow> 'a os_scheme \<Rightarrow> unit ctrl_result \<times> ctrl_loader \<times> 'a os_scheme" where
  "LoadFeatures L c w =
    (case ctrl_loadFeatures L c w of
       (CtrlPanic, c1, w1) \<Rightarrow> (CtrlPanic, c1, w1)
     | (CtrlErr e, c1, w1) \<Rightarrow> (CtrlErr e, c1, w1)
     | (CtrlOk data, c1, w1) \<Rightarrow>
         (case cl_features L data of
            Inl e \<Rightarrow> (CtrlErr e, c1, w1)
          | Inr None \<Rightarrow> (CtrlPanic, c1, w1)
          | Inr (Some fs) \<Rightarrow> (CtrlOk (), c1, foldl (\<lambda>w (k, b). cl_SetEnabled L k b w) w1 fs)))"

text \<open>One round of Run: it ends the loop, starts the next round at once after a
  failed Load, or waits five seconds first.\<close>

datatype run_end = RunReturned | RunAgain | RunWaited | RunCrashed

definition run_round :: "'a os_scheme ctrl_lib \<Rightarrow> ctrl_loader \<Rightarrow> 'a os_scheme \<Rightarrow> run_end \<times> ctrl_loader \<times> 'a os_scheme" where
  "run_round L c w =
    (case ctrl_Load L c w of
       (CtrlPanic, c1, w1) \<Rightarrow> (RunCrashed, c1, w1)
     | (CtrlErr e, c1, w1) \<Rightarrow> (RunAgain, c1, w1)
     | (CtrlOk _, c1, w1) \<Rightarrow>
         (case LoadFeatures L c1 w1 of
            (CtrlPanic, c2, w2) \<Rightarrow> (RunCrashed, c2, w2)
          | (_, c2, w2) \<Rightarrow> (if cl_ctx_done L w2 then RunReturned else RunWaited, c2, w2)))"

text \<open>Run, followed for \<open>n\<close> rounds: the ends of the rounds.\<close>

fun ctrl_Run :: "nat \<Rightarrow> 'a os_scheme ctrl_lib \<Rightarrow> ctrl_loader \<Rightarrow> 'a os_scheme \<Rightarrow> run_end list \<times> ctrl_loader \<times> 'a os_scheme" where
  "ctrl_Run 0 L c w = ([], c, w)"
| "ctrl_Run (Suc n) L c w =
     (case run_round L c w of
        (r, c1, w1) \<Rightarrow>
          if r \<in> {RunReturned, RunCrashed} then ([r], c1, w1)
          else (case ctrl_Run n L c1 w1 of (rs, c2, w2) \<Rightarrow> (r # rs, c2, w2)))"

section \<open>Lemmas\<close>

text \<open>The exchange and the UUID source touch no file.\<close>

definition leaves_files :: "'a os_scheme ctrl_lib \<Rightarrow> bool" where
  "leaves_files L \<longleftrightarrow> (\<forall>api w. file_at (snd (cl_Get L api w)) = file_at w) \<and> (\<forall>w. file_at (snd (cl_uuid L w)) = file_at w)"

lemma os_WriteFile_other: "os_WriteFile q data m w = (r, w') \<Longrightarrow> p \<noteq> q \<Longrightarrow> file_at w' p = file_at w p"
  by (auto simp: os_WriteFile_def elim!: sysE split: option.splits if_splits)

lemma write_renamed_fails:
  assumes "write_renamed tmp dst data w = (Some e, w')" and "p \<noteq> tmp"
  shows "file_at w' p = file_at w p"
  using assms(1) unfolding write_renamed_def
proof (rule try_callE)
  fix e' assume "os_WriteFile tmp data 420 w = (Inl e', w')"
  then show ?thesis by (rule os_WriteFile_other [OF _ assms(2)])
next
  fix u w1 assume 1: "os_WriteFile tmp data 420 w = (Inr u, w1)"
    and "try_call (os_Rename tmp dst) (\<lambda>e. e) (\<lambda>_ w. (None, w)) w1 = (Some e, w')"
  then obtain e' where "os_Rename tmp dst w1 = (Inl e', w')" by (auto elim: try_callE)
  then show ?thesis using os_WriteFile_other [OF 1 assms(2)] os_RenameE(1) by metis
qed

text \<open>The service a request goes to; nothing else of the loader changes.\<close>

lemma choseCtrlService_effect:
  "choseCtrlService c = Some (s, c1) \<Longrightarrow>
    s = cc_services c ! cc_idx c1 \<and> cc_idx c1 < length (cc_services c)
    \<and> cc_idx c1 = (if cc_next c then (cc_idx c + 1) mod length (cc_services c) else cc_idx c)
    \<and> c1 = c\<lparr>cc_idx := cc_idx c1, cc_next := False\<rparr>"
  by (cases c) (auto simp: choseCtrlService_def Let_def split: if_splits)

lemma choseCtrlService_total:
  "cc_services c \<noteq> [] \<Longrightarrow> cc_idx c < length (cc_services c) \<Longrightarrow> choseCtrlService c \<noteq> None"
  by (simp add: choseCtrlService_def Let_def)

lemma urlfor_effect:
  assumes "urlfor L upath params c = (r, c1)" and "r \<noteq> CtrlPanic"
  shows "cc_idx c1 < length (cc_services c)
    \<and> cc_idx c1 = (if cc_next c then (cc_idx c + 1) mod length (cc_services c) else cc_idx c)
    \<and> c1 = c\<lparr>cc_idx := cc_idx c1, cc_next := False\<rparr>"
  using assms choseCtrlService_effect [of c] by (auto simp: urlfor_def split: option.splits prod.splits)

lemma ctrl_load_effect:
  assumes "ctrl_load L c w = (r, c1, w1)" and "r \<noteq> CtrlPanic"
  shows "cc_idx c1 < length (cc_services c)
    \<and> cc_idx c1 = (if cc_next c then (cc_idx c + 1) mod length (cc_services c) else cc_idx c)
    \<and> c1 = c\<lparr>cc_idx := cc_idx c1, cc_next := False\<rparr>"
  using assms unfolding ctrl_load_def Let_def
  by (auto split: prod.splits ctrl_result.splits dest!: urlfor_effect)

lemma ctrl_load_files: "leaves_files L \<Longrightarrow> ctrl_load L c w = (r, c1, w1) \<Longrightarrow> file_at w1 = file_at w"
  unfolding leaves_files_def ctrl_load_def ctrl_get_def Let_def
  by (auto split: prod.splits ctrl_result.splits sum.splits) (metis snd_conv)+

lemma apply_release_fails:
  assumes "leaves_files L" and "apply_release L resp c w = (CtrlErr e, c', w')"
  shows "c' = c \<and> (\<forall>p. (\<forall>u. p \<noteq> temp_file (cc_dst c) u) \<longrightarrow> file_at w' p = file_at w p)"
proof (cases "cl_JSONToYAML L (lr_config resp)")
  case (Inl er)
  then show ?thesis using assms(2) by (simp add: apply_release_def)
next
  case (Inr yaml)
  obtain u w1 where u: "cl_uuid L w = (u, w1)" by (cases "cl_uuid L w")
  then have f: "file_at w1 = file_at w" using assms(1) unfolding leaves_files_def by (metis snd_conv)
  obtain r w2 where wr: "write_renamed (temp_file (cc_dst c) u) (cc_dst c) yaml w1 = (r, w2)"
    by (cases "write_renamed (temp_file (cc_dst c) u) (cc_dst c) yaml w1")
  have "\<exists>er. r = Some er \<and> c' = c \<and> w' = w2"
    using assms(2) by (auto simp: apply_release_def Inr u wr split: option.splits prod.splits ctrl_result.splits)
  then show ?thesis using wr write_renamed_fails f by metis
qed

section \<open>Properties\<close>

text \<open>C40: A load that fails, at whatever point and for whatever reason, leaves
  the configuration file and all others but its own temporary one as they
  were, keeps the version it asks with, and turns to the next control service.\<close>

theorem failed_release_changes_nothing:
  assumes "leaves_files L" and "ctrl_Load L c w = (CtrlErr e, c', w')"
  shows "(\<forall>p. (\<forall>u. p \<noteq> temp_file (cc_dst c) u) \<longrightarrow> file_at w' p = file_at w p)
    \<and> file_at w' (cc_dst c) = file_at w (cc_dst c)
    \<and> c' = c\<lparr>cc_idx := cc_idx c', cc_next := True\<rparr> \<and> cc_idx c' < length (cc_services c)"
proof -
  obtain c1 where b: "load_body L c w = (CtrlErr e, c1, w')" and c': "c' = c1\<lparr>cc_next := True\<rparr>"
    using assms(2) by (auto simp: ctrl_Load_def mark_next_def split: prod.splits ctrl_result.splits)
  obtain r c2 w2 where l: "ctrl_load L c w = (r, c2, w2)" by (cases "ctrl_load L c w")
  then have r: "r \<noteq> CtrlPanic" using b by (auto simp: load_body_def)
  note f = ctrl_load_files [OF assms(1) l] and eff = ctrl_load_effect [OF l r]
  have "c1 = c2 \<and> (\<forall>p. (\<forall>u. p \<noteq> temp_file (cc_dst c2) u) \<longrightarrow> file_at w' p = file_at w p)"
  proof (cases "\<exists>data resp. r = CtrlOk data \<and> cl_release L data = Inr (Some resp)")
    case True
    then obtain data resp where "r = CtrlOk data" "cl_release L data = Inr (Some resp)" by blast
    then have "apply_release L resp c2 w2 = (CtrlErr e, c1, w')" using b by (simp add: load_body_def l)
    from apply_release_fails [OF assms(1) this] show ?thesis using f by simp
  next
    case False
    then have "c1 = c2 \<and> w' = w2" using b by (auto simp: load_body_def l split: ctrl_result.splits sum.splits option.splits if_splits)
    then show ?thesis using f by simp
  qed
  moreover have "cc_dst c2 = cc_dst c" using eff by (metis ctrl_loader.ext_inject ctrl_loader.surjective ctrl_loader.update_convs(2,3))
  moreover have "cc_dst c \<noteq> temp_file (cc_dst c) u" for u by (simp add: temp_file_def)
  moreover have "c' = c\<lparr>cc_idx := cc_idx c', cc_next := True\<rparr>" "cc_idx c' < length (cc_services c)" if "c1 = c2"
    using eff c' that by (cases c, cases c2, simp)+
  ultimately show ?thesis by auto
qed

text \<open>While no control service can be reached, Run tries them in turn, one
  round after the other without any wait, and never ends, whether or not the
  context it was given is done.\<close>

theorem run_spins_through_services:
  assumes "\<forall>api w. \<exists>e w1. cl_Get L api w = (Inl e, w1) \<and> e \<noteq> errNotModified"
    and "cc_services c \<noteq> []" and "cc_idx c < length (cc_services c)" and "\<not> cc_next c"
  shows "\<exists>c' w'. ctrl_Run n L c w = (replicate n RunAgain, c', w')
    \<and> (n \<noteq> 0 \<longrightarrow> cc_idx c' = (cc_idx c + (n - 1)) mod length (cc_services c))"
proof -
  have round: "\<exists>c' w'. run_round L c w = (RunAgain, c', w') \<and> cc_next c' \<and> cc_services c' = cc_services c
      \<and> cc_idx c' < length (cc_services c)
      \<and> cc_idx c' = (if cc_next c then (cc_idx c + 1) mod length (cc_services c) else cc_idx c)"
    if c: "cc_services c \<noteq> []" "cc_idx c < length (cc_services c)" for c and w
  proof -
    obtain r c1 w1 where l: "ctrl_load L c w = (r, c1, w1)" by (cases "ctrl_load L c w")
    have "\<exists>e. r = CtrlErr e \<and> e \<noteq> errNotModified"
    proof -
      obtain s c2 where ch: "choseCtrlService c = Some (s, c2)" using choseCtrlService_total [OF c] by (cases "choseCtrlService c") auto
      have get: "\<exists>e w2. ctrl_get L api w = (CtrlErr e, w2) \<and> e \<noteq> errNotModified" for api
        using assms(1) [rule_format, of api w] by (auto simp: ctrl_get_def)
      show ?thesis
      proof (cases "url_Parse s")
        case None
        then show ?thesis using l by (auto simp: ctrl_load_def urlfor_def ch Let_def)
      next
        case (Some u)
        then show ?thesis using l get by (auto simp: ctrl_load_def urlfor_def ch Let_def split: prod.splits) (metis prod.inject)
      qed
    qed
    then obtain e where e: "r = CtrlErr e" "e \<noteq> errNotModified" by blast
    note eff = ctrl_load_effect [OF l]
    have "run_round L c w = (RunAgain, c1\<lparr>cc_next := True\<rparr>, w1)"
      by (simp add: run_round_def ctrl_Load_def load_body_def l e mark_next_def)
    moreover have "cc_services c1 = cc_services c"
      using eff e by (metis ctrl_result.distinct(1) ctrl_loader.ext_inject ctrl_loader.surjective ctrl_loader.update_convs(2,3))
    ultimately show ?thesis using eff e by simp
  qed
  have more: "\<exists>c' w'. ctrl_Run m L d v = (replicate m RunAgain, c', w') \<and> cc_idx c' = (cc_idx d + m) mod length (cc_services d)"
    if "cc_next d" "cc_services d \<noteq> []" "cc_idx d < length (cc_services d)" for m d v
    using that
  proof (induction m arbitrary: d v)
    case (Suc m)
    obtain d1 v1 where r: "run_round L d v = (RunAgain, d1, v1)" "cc_next d1" "cc_services d1 = cc_services d"
      "cc_idx d1 < length (cc_services d)" "cc_idx d1 = (cc_idx d + 1) mod length (cc_services d)"
      using round [OF Suc.prems(2,3), of v] Suc.prems(1) by auto
    obtain d2 v2 where "ctrl_Run m L d1 v1 = (replicate m RunAgain, d2, v2)" "cc_idx d2 = (cc_idx d1 + m) mod length (cc_services d1)"
      using Suc.IH [of d1 v1] r Suc.prems(2) by auto
    then show ?case using r by (simp add: mod_simps)
  qed simp
  show ?thesis
  proof (cases n)
    case (Suc m)
    obtain d v where "run_round L c w = (RunAgain, d, v)" "cc_next d" "cc_services d = cc_services c"
      "cc_idx d < length (cc_services c)" "cc_idx d = cc_idx c"
      using round [OF assms(2,3), of w] assms(4) by auto
    then show ?thesis using more [of d m v] assms(2) Suc by auto
  qed simp
qed

definition no_network :: "os ctrl_lib" where
  "no_network = \<lparr>cl_url_String = (\<lambda>u. ''http://'' @ ul_host u @ ul_path u), cl_Shuffle = (\<lambda>l. l), cl_Interfaces = Inr [],
     cl_Get = (\<lambda>api w. (Inl (PlainErr ''connection refused''), w)), cl_release = (\<lambda>s. Inr None), cl_features = (\<lambda>s. Inr None),
     cl_JSONToYAML = Inr, cl_uuid = (\<lambda>w. (''u'', w)), cl_priority_enabled = (\<lambda>w. True), cl_SetEnabled = (\<lambda>k b w. w),
     cl_ctx_done = (\<lambda>w. True)\<rparr>"

definition two_services :: ctrl_loader where
  "two_services = \<lparr>cc_services = [''http://a'', ''http://b''], cc_idx = 0, cc_next = False, cc_dst = ''/etc/gw.yaml'',
     cc_priority_dir = ''/etc/prio'', cc_name = ''gw'', cc_addr = ''10.0.0.1'', cc_last_version = ''7'', cc_last_priority = None\<rparr>"

definition gw_host :: os where
  "gw_host = \<lparr>os_files = [(''/etc/gw.yaml'', ''old'', 420)], os_dirs = [''/etc'', ''/etc/prio''], os_env = Map.empty, os_calls = 0,
     os_fault = (\<lambda>_. None), os_rand = (\<lambda>_. [])\<rparr>"

lemma two_services_facts:
  "\<forall>api w. \<exists>e w1. cl_Get no_network api w = (Inl e, w1) \<and> e \<noteq> errNotModified" "cc_services two_services \<noteq> []"
  "cc_idx two_services < length (cc_services two_services)" "\<not> cc_next two_services"
  by (simp_all add: no_network_def two_services_def)

theorem run_spins_through_services_witness:
  "\<exists>c' w'. ctrl_Run 4 no_network two_services gw_host = (replicate 4 RunAgain, c', w') \<and> cc_idx c' = 1"
proof -
  have "(cc_idx two_services + (4 - 1)) mod length (cc_services two_services) = 1"
    by (simp add: two_services_def flip: numeral_2_eq_2)
  then show ?thesis using run_spins_through_services [OF two_services_facts, of 4 gw_host] by auto
qed

lemma no_network_load: "\<exists>e c' w'. ctrl_Load no_network two_services gw_host = (CtrlErr e, c', w')"
proof -
  have "url_Parse ''http://a'' \<noteq> None" by code_simp
  then show ?thesis
    by (auto simp: ctrl_Load_def load_body_def ctrl_load_def urlfor_def choseCtrlService_def two_services_def ctrl_get_def
        no_network_def mark_next_def)
qed

theorem failed_release_changes_nothing_witness:
  "\<exists>e c' w'. ctrl_Load no_network two_services gw_host = (CtrlErr e, c', w') \<and> file_at w' ''/etc/gw.yaml'' = Some (''old'', 420)
    \<and> cc_last_version c' = ''7'' \<and> cc_next c'"
proof -
  obtain e c' w' where l: "ctrl_Load no_network two_services gw_host = (CtrlErr e, c', w')" using no_network_load by blast
  have "leaves_files no_network" by (simp add: leaves_files_def no_network_def)
  from failed_release_changes_nothing [OF this l] have "file_at w' (cc_dst two_services) = file_at gw_host (cc_dst two_services)"
    "c' = two_services\<lparr>cc_idx := cc_idx c', cc_next := True\<rparr>" by blast+
  moreover from this(2) have "cc_last_version c' = ''7''" "cc_next c'"
    by (metis ctrl_loader.select_convs(8) ctrl_loader.update_convs(2,3) two_services_def,
        metis ctrl_loader.select_convs(3) ctrl_loader.update_convs(2,3) two_services_def)
  ultimately show ?thesis using l by (simp add: two_services_def gw_host_def file_at_def)
qed

text \<open>A release whose priority files cannot all be written is taken as loaded:
  the version it is asked with next time is the new one, while the
  priority configurations and their versions stay behind, so a service that
  answers "not modified" never sends them again.\<close>

theorem release_loaded_without_priorities:
  assumes "ctrl_load L c w = (CtrlOk data, c1, w1)" and "cl_release L data = Inr (Some resp)"
    and "cl_JSONToYAML L (lr_config resp) = Inr yaml"
    and "cl_uuid L w1 = (u, w2)" and "write_renamed (temp_file (cc_dst c) u) (cc_dst c) yaml w2 = (None, w3)"
    and "cc_priority_dir c \<noteq> []" and "write_items L (cc_priority_dir c) (lr_priority resp) [] w3 = (CtrlErr e, w4)"
  shows "\<exists>c'. ctrl_Load L c w = (CtrlOk (), c', w4) \<and> cc_last_version c' = lr_version resp
    \<and> cc_last_priority c' = cc_last_priority c \<and> cc_next c' = cc_next c1"
proof -
  have "CtrlOk data \<noteq> CtrlPanic" by simp
  from ctrl_load_effect [OF assms(1) this] have c1: "c1 = c\<lparr>cc_idx := cc_idx c1, cc_next := False\<rparr>" by blast
  then have eqs: "cc_dst c1 = cc_dst c" "cc_priority_dir c1 = cc_priority_dir c" "cc_last_priority c1 = cc_last_priority c"
    by (metis (no_types) ctrl_loader.select_convs(4,5,9) ctrl_loader.surjective ctrl_loader.update_convs(2,3))+
  show ?thesis
    using assms eqs by (simp add: ctrl_Load_def load_body_def apply_release_def writePriorityConfigs_def mark_next_def)
qed

text \<open>Only one version is sent, however many priority configurations there are.\<close>

lemma one_priority_version_sent:
  "values_get dst ''lastPriorityVersions'' = [] \<Longrightarrow>
    length (values_get (encodeLastPriorityVersion True c dst) ''lastPriorityVersions'') \<le> 1"
proof -
  assume dst: "values_get dst ''lastPriorityVersions'' = []"
  have one: "length (values_get (foldl (\<lambda>d (k, v). values_Set ''lastPriorityVersions'' (k @ CHR ''='' # v) d) d vs) ''lastPriorityVersions'') \<le> 1"
    if "length (values_get d ''lastPriorityVersions'') \<le> 1" for d :: url_values and vs :: "(string \<times> string) list"
    using that
  proof (induction vs arbitrary: d)
    case (Cons kv vs)
    have "length (values_get (values_Set ''lastPriorityVersions'' x d) ''lastPriorityVersions'') \<le> 1" for x
      by (simp add: values_get_def values_Set_def update_conv)
    then show ?case using Cons.IH by (cases kv) simp
  qed simp
  have "values_get (values_Set ''supportPriorityConfig'' ''1'' dst) ''lastPriorityVersions'' = values_get dst ''lastPriorityVersions''"
    by (simp add: values_get_def values_Set_def update_conv)
  then show ?thesis using one dst by (simp add: encodeLastPriorityVersion_def Let_def split: option.split)
qed

text \<open>A key of a priority configuration is not checked: this one is written over
  the configuration file beside the directory.\<close>

lemma priority_key_escapes: "path_Join [''/etc/prio'', ''../gw'' @ ''.yaml''] = ''/etc/gw.yaml''"
  by code_simp

end
