(* ===== verification/Tracing.thy ===== *)
theory Tracing
  imports Complex_Main Go_Time Middleware_Core
begin

text \<open>
  Package middleware/tracing: the options of the exporters, the providers that
  are set up once for the whole process, and the middleware that carries the
  span context through the headers of a request.  The OpenTelemetry SDK
  (exporters, providers, spans, propagation), x509 and the decoding of the
  options are parameters.
\<close>

section \<open>Options\<close>

record tls_options =
  to_enable :: bool
  to_skip_verify :: bool
  to_ca_pem :: string

record tracing_options =
  tr_endpoint :: string
  tr_timeout :: "int option"
  tr_sample_ratio :: "rat option"
  tr_insecure :: "bool option"
  tr_tls :: "tls_options option"

definition no_tracing_options :: tracing_options where
  "no_tracing_options = \<lparr>tr_endpoint = [], tr_timeout = None, tr_sample_ratio = None, tr_insecure = None, tr_tls = None\<rparr>"

text \<open>The TLS configuration handed to the exporters: whether certificates go
  unverified and the pool of roots, where \<open>None\<close> is the system's.\<close>

record client_tls =
  ct_skip_verify :: bool
  ct_roots :: "string option"

definition tlsClientConfig :: "(string \<Rightarrow> string option) \<Rightarrow> tracing_options \<Rightarrow> client_tls option" where
  "tlsClientConfig appendCerts o' =
    (case tr_tls o' of
       None \<Rightarrow> None
     | Some t \<Rightarrow>
         if \<not> to_enable t then None
         else Some \<lparr>ct_skip_verify = to_skip_verify t,
                ct_roots = (if \<not> to_skip_verify t \<and> to_ca_pem t \<noteq> [] then appendCerts (to_ca_pem t) else None)\<rparr>)"

section \<open>Providers\<close>

datatype otlp_option =
    WithEndpoint string
  | WithTimeout int
  | WithCompressionGzip
  | WithInsecure
  | WithTLSClientConfig client_tls

datatype sampler = AlwaysSample | TraceIDRatioBased rat

abbreviation tracing_default_timeout :: int where
  "tracing_default_timeout \<equiv> 10 * time_second"

definition exporter_timeout :: "tracing_options \<Rightarrow> int" where
  "exporter_timeout o' = (case tr_timeout o' of Some d \<Rightarrow> d | None \<Rightarrow> tracing_default_timeout)"

text \<open>The options both exporters end with.\<close>

definition transport_options :: "(string \<Rightarrow> string option) \<Rightarrow> tracing_options \<Rightarrow> otlp_option list" where
  "transport_options appendCerts o' =
    (if tr_insecure o' = Some True then [WithInsecure] else [])
    @ (case tlsClientConfig appendCerts o' of None \<Rightarrow> [] | Some t \<Rightarrow> [WithTLSClientConfig t])"

definition trace_exporter_options :: "(string \<Rightarrow> string option) \<Rightarrow> tracing_options \<Rightarrow> otlp_option list" where
  "trace_exporter_options appendCerts o' =
    [WithEndpoint (tr_endpoint o'), WithTimeout (exporter_timeout o')] @ transport_options appendCerts o'"

definition metric_exporter_options :: "(string \<Rightarrow> string option) \<Rightarrow> tracing_options \<Rightarrow> otlp_option list" where
  "metric_exporter_options appendCerts o' =
    [WithEndpoint (tr_endpoint o'), WithTimeout (exporter_timeout o'), WithCompressionGzip] @ transport_options appendCerts o'"

definition trace_sampler :: "tracing_options \<Rightarrow> sampler" where
  "trace_sampler o' = (case tr_sample_ratio o' of None \<Rightarrow> AlwaysSample | Some r \<Rightarrow> TraceIDRatioBased r)"

text \<open>What is set up: the exporter of a provider, the sampler or the export
  interval, and the service name.  The context handed to both constructors is
  the background context, which carries no application, so the name is the
  default one.\<close>

record 'e tracer_provider =
  tp_exporter :: 'e
  tp_sampler :: sampler
  tp_service :: string

record 'e meter_provider =
  mp_exporter :: 'e
  mp_interval :: int
  mp_service :: string

record ('e, 'x) otel_lib =
  ot_appendCerts :: "string \<Rightarrow> string option"
  ot_new_trace :: "otlp_option list \<Rightarrow> 'x \<Rightarrow> (err + 'e) \<times> 'x"
  ot_new_metric :: "otlp_option list \<Rightarrow> 'x \<Rightarrow> (err + 'e) \<times> 'x"
  ot_start_runtime :: "'x \<Rightarrow> 'x"
  ot_extract :: "header \<Rightarrow> string option"
  ot_start_span :: "string option \<Rightarrow> string \<Rightarrow> 'x \<Rightarrow> string \<times> 'x"
  ot_inject :: "string \<Rightarrow> header \<Rightarrow> header"
  ot_end_span :: "string \<Rightarrow> err option \<Rightarrow> int option \<Rightarrow> 'x \<Rightarrow> 'x"

text \<open>\<open>None\<close> is a call of Fatalf, which ends the process.\<close>

definition newTracerProvider :: "('e, 'x) otel_lib \<Rightarrow> tracing_options \<Rightarrow> 'x \<Rightarrow> 'e tracer_provider option \<times> 'x" where
  "newTracerProvider T o' x =
    (case ot_new_trace T (trace_exporter_options (ot_appendCerts T) o') x of
       (Inl e, x1) \<Rightarrow> (None, x1)
     | (Inr ex, x1) \<Rightarrow> (Some \<lparr>tp_exporter = ex, tp_sampler = trace_sampler o', tp_service = ''gateway''\<rparr>, x1))"

definition newMeterProvider :: "('e, 'x) otel_lib \<Rightarrow> tracing_options \<Rightarrow> 'x \<Rightarrow> 'e meter_provider option \<times> 'x" where
  "newMeterProvider T o' x =
    (case ot_new_metric T (metric_exporter_options (ot_appendCerts T) o') x of
       (Inl e, x1) \<Rightarrow> (None, x1)
     | (Inr ex, x1) \<Rightarrow> (Some \<lparr>mp_exporter = ex, mp_interval = 30 * time_second, mp_service = ''gateway''\<rparr>, x1))"

text \<open>The global state of the package and of the SDK.\<close>

record ('e, 'x) tracing_state =
  ts_provider :: "'e tracer_provider option"
  ts_meter :: "'e meter_provider option"
  ts_once :: bool
  ts_ext :: 'x

section \<open>The middleware\<close>

datatype 'a tracing_result = TracingFatal | TracingErr err | TracingOk 'a

text \<open>The body of the once: the trace provider, then the meter provider.\<close>

definition init_providers :: "('e, 'x) otel_lib \<Rightarrow> tracing_options \<Rightarrow> ('e, 'x) tracing_state \<Rightarrow> bool \<times> ('e, 'x) tracing_state" where
  "init_providers T o' s =
    (case newTracerProvider T o' (ts_ext s) of
       (None, x1) \<Rightarrow> (False, s\<lparr>ts_ext := x1\<rparr>)
     | (Some tp, x1) \<Rightarrow>
         (case newMeterProvider T o' x1 of
            (None, x2) \<Rightarrow> (False, s\<lparr>ts_provider := Some tp, ts_ext := x2\<rparr>)
          | (Some mp, x2) \<Rightarrow>
              (True, \<lparr>ts_provider = Some tp, ts_meter = Some mp, ts_once = True, ts_ext = ot_start_runtime T x2\<rparr>)))"

definition span_name :: "request \<Rightarrow> string" where
  "span_name req = rq_method req @ '' '' @ rq_path req"

text \<open>The round trip: the headers of the request are overwritten in place; the
  deferred function ends the span with what the named results hold.\<close>

definition tracing_RoundTrip :: "('e, 'x) otel_lib \<Rightarrow> ('e, 'x) tracing_state middleware" where
  "tracing_RoundTrip T next req s =
    (case ot_start_span T (ot_extract T (rq_header req)) (span_name req) (ts_ext s) of
       (sp, x1) \<Rightarrow>
         (case next (req\<lparr>rq_header := ot_inject T sp (rq_header req)\<rparr>) (s\<lparr>ts_ext := x1\<rparr>) of
            (Panicked, s2) \<Rightarrow> (Panicked, s2\<lparr>ts_ext := ot_end_span T sp None None (ts_ext s2)\<rparr>)
          | (Ret r e, s2) \<Rightarrow> (Ret r e, s2\<lparr>ts_ext := ot_end_span T sp e (map_option rs_status r) (ts_ext s2)\<rparr>)))"

definition tracing_Middleware :: "(any_msg \<Rightarrow> err + tracing_options) \<Rightarrow> ('e, 'x) otel_lib \<Rightarrow> mw_config
    \<Rightarrow> ('e, 'x) tracing_state \<Rightarrow> ('e, 'x) tracing_state middleware tracing_result \<times> ('e, 'x) tracing_state" where
  "tracing_Middleware decode T c s =
    (case (case mc_options c of None \<Rightarrow> Inr no_tracing_options | Some a \<Rightarrow> decode a) of
       Inl e \<Rightarrow> (TracingErr e, s)
     | Inr o' \<Rightarrow>
         if ts_provider s = None \<and> \<not> ts_once s then
           (case init_providers T o' s of
              (False, s1) \<Rightarrow> (TracingFatal, s1)
            | (True, s1) \<Rightarrow> (TracingOk (tracing_RoundTrip T), s1))
         else (TracingOk (tracing_RoundTrip T), s))"

section \<open>Properties\<close>

text \<open>A series of constructions, one for each tracing middleware of each
  configuration that is loaded; it ends with the process.\<close>

fun build_tracing :: "(any_msg \<Rightarrow> err + tracing_options) \<Rightarrow> ('e, 'x) otel_lib \<Rightarrow> mw_config list
    \<Rightarrow> ('e, 'x) tracing_state \<Rightarrow> ('e, 'x) tracing_state" where
  "build_tracing decode T [] s = s"
| "build_tracing decode T (c # cs) s =
     (case tracing_Middleware decode T c s of
        (TracingFatal, s1) \<Rightarrow> s1
      | (_, s1) \<Rightarrow> build_tracing decode T cs s1)"

lemma providers_kept: "ts_provider s = Some tp \<Longrightarrow> build_tracing decode T cs s = s"
  by (induction cs) (auto simp: tracing_Middleware_def split: sum.splits)

text \<open>The options of the first tracing middleware that can be decoded decide
  what is exported, and where to, until the process ends: those of every later
  construction, such as a reloaded configuration, are only checked.\<close>

theorem first_tracing_options_win:
  assumes "(case mc_options c of None \<Rightarrow> Inr no_tracing_options | Some a \<Rightarrow> decode a) = Inr o'"
    and "ts_provider s = None" "\<not> ts_once s"
    and "tracing_Middleware decode T c s = (TracingOk m, s1)"
  shows "m = tracing_RoundTrip T \<and> build_tracing decode T cs s1 = s1
    \<and> (\<exists>x1 x2 ex em. ot_new_trace T (trace_exporter_options (ot_appendCerts T) o') (ts_ext s) = (Inr ex, x1)
          \<and> ot_new_metric T (metric_exporter_options (ot_appendCerts T) o') x1 = (Inr em, x2)
          \<and> ts_provider s1 = Some \<lparr>tp_exporter = ex, tp_sampler = trace_sampler o', tp_service = ''gateway''\<rparr>
          \<and> ts_meter s1 = Some \<lparr>mp_exporter = em, mp_interval = 30 * time_second, mp_service = ''gateway''\<rparr>)"
proof -
  have init: "init_providers T o' s = (True, s1)" and m: "m = tracing_RoundTrip T"
    using assms by (auto simp: tracing_Middleware_def split: prod.splits bool.splits)
  then obtain x1 x2 ex em where "ot_new_trace T (trace_exporter_options (ot_appendCerts T) o') (ts_ext s) = (Inr ex, x1)"
    "ot_new_metric T (metric_exporter_options (ot_appendCerts T) o') x1 = (Inr em, x2)"
    "ts_provider s1 = Some \<lparr>tp_exporter = ex, tp_sampler = trace_sampler o', tp_service = ''gateway''\<rparr>"
    "ts_meter s1 = Some \<lparr>mp_exporter = em, mp_interval = 30 * time_second, mp_service = ''gateway''\<rparr>"
    by (auto simp: init_providers_def newTracerProvider_def newMeterProvider_def split: prod.splits sum.splits option.splits)
  then show ?thesis using m providers_kept by blast
qed

text \<open>Certificates go unverified only when the options say so, and given roots
  are used only when they parse; the two exporters differ in compression alone.\<close>

lemma tlsClientConfig_cases:
  "tlsClientConfig A o' = Some t \<longleftrightarrow>
    (\<exists>c. tr_tls o' = Some c \<and> to_enable c \<and> ct_skip_verify t = to_skip_verify c
      \<and> ct_roots t = (if to_skip_verify c \<or> to_ca_pem c = [] then None else A (to_ca_pem c)))"
  by (cases t) (auto simp: tlsClientConfig_def split: option.splits)

lemma exporters_agree: "remove1 WithCompressionGzip (metric_exporter_options A o') = trace_exporter_options A o'"
  by (simp add: metric_exporter_options_def trace_exporter_options_def)

text \<open>The middleware hands the result on, and ends the span it started whatever
  the next layer does.\<close>

lemma tracing_transparent:
  "fst (tracing_RoundTrip T next req s) =
    fst (next (req\<lparr>rq_header := ot_inject T (fst (ot_start_span T (ot_extract T (rq_header req)) (span_name req) (ts_ext s))) (rq_header req)\<rparr>)
      (s\<lparr>ts_ext := snd (ot_start_span T (ot_extract T (rq_header req)) (span_name req) (ts_ext s))\<rparr>))"
  by (simp add: tracing_RoundTrip_def split: prod.split rt_result.split)

end
