(* ===== verification/Discovery.thy ===== *)
theory Discovery
  imports Go_Values
begin

text \<open>
  Service discovery: the registry of discovery/registry.go and the Consul
  client of discovery/consul/consul.go.  The default configuration of the
  Consul API and its constructors are parameters.
\<close>

section \<open>The registry\<close>

type_synonym ('w, 'd) discovery_factory = "url \<Rightarrow> 'w \<Rightarrow> err + 'd"

type_synonym ('w, 'd) discovery_registry = "string \<rightharpoonup> ('w, 'd) discovery_factory"

definition discovery_NewRegistry :: "('w, 'd) discovery_registry" where
  "discovery_NewRegistry = Map.empty"

definition discovery_Register :: "string \<Rightarrow> ('w, 'd) discovery_factory \<Rightarrow> ('w, 'd) discovery_registry \<Rightarrow> ('w, 'd) discovery_registry" where
  "discovery_Register name f R = R(name \<mapsto> f)"

definition discovery_Create :: "('w, 'd) discovery_registry \<Rightarrow> string \<Rightarrow> 'w \<Rightarrow> err + 'd" where
  "discovery_Create R dsn w =
    (if dsn = [] then Inl (PlainErr ''discoveryDSN is empty'')
     else
       (case url_Parse dsn of
          None \<Rightarrow> Inl (PlainErr ''parse discoveryDSN error'')
        | Some u \<Rightarrow>
            (case R (ul_scheme u) of
               None \<Rightarrow> Inl (PlainErr (''discovery '' @ ul_scheme u @ '' has not been registered''))
             | Some f \<Rightarrow>
                 (case f u w of
                    Inl e \<Rightarrow> Inl (PlainErr ''create discovery error'')
                  | Inr d \<Rightarrow> Inr d))))"

section \<open>Consul\<close>

record consul_config =
  co_Address :: string
  co_Scheme :: string
  co_WaitTime :: int
  co_Token :: string
  co_Datacenter :: string
  co_InsecureSkipVerify :: bool

definition consul_scheme :: "url \<Rightarrow> 'a os_scheme \<Rightarrow> string" where
  "consul_scheme dsn w =
    (let scheme = os_Getenv ConsulScheme w
     in if scheme \<noteq> [] then scheme else if hasSuffix (ul_host dsn) '':443'' then ''https'' else ''http'')"

definition consul_insecure :: "string \<Rightarrow> 'a os_scheme \<Rightarrow> bool" where
  "consul_insecure scheme w =
    (let v = os_Getenv ConsulInsecureSkipVerify w
     in if v \<noteq> [] then v = ''true'' else scheme = ''https'')"

text \<open>A query parameter of the DSN, or else an environment variable.\<close>

definition query_or_env :: "url \<Rightarrow> string \<Rightarrow> string \<Rightarrow> 'a os_scheme \<Rightarrow> string" where
  "query_or_env dsn k env w = (let v = url_query_get dsn k in if v = [] then os_Getenv env w else v)"

definition consul_config_of :: "consul_config \<Rightarrow> url \<Rightarrow> 'a os_scheme \<Rightarrow> consul_config" where
  "consul_config_of def' dsn w =
    (let c = def'\<lparr>co_Address := ul_host dsn, co_WaitTime := 10000000000, co_Scheme := consul_scheme dsn w\<rparr>;
         c1 = (if consul_insecure (co_Scheme c) w then c\<lparr>co_InsecureSkipVerify := True\<rparr> else c);
         token = query_or_env dsn ''token'' ConsulToken w;
         c2 = (if token \<noteq> [] then c1\<lparr>co_Token := token\<rparr> else c1);
         dc = query_or_env dsn ''datacenter'' ConsulDatacenter w
     in if dc \<noteq> [] then c2\<lparr>co_Datacenter := dc\<rparr> else c2)"

definition consul_New :: "('a os_scheme \<Rightarrow> consul_config) \<Rightarrow> (consul_config \<Rightarrow> err + 'd) \<Rightarrow> ('a os_scheme, 'd) discovery_factory" where
  "consul_New DefaultConfig NewClient dsn w = NewClient (consul_config_of (DefaultConfig w) dsn w)"

section \<open>Properties\<close>

text \<open>What is registered under the scheme of a DSN is what creates its client.\<close>

lemma discovery_Create_registered:
  "dsn \<noteq> [] \<Longrightarrow> url_Parse dsn = Some u \<Longrightarrow> f u w = Inr d \<Longrightarrow>
    discovery_Create (discovery_Register (ul_scheme u) f R) dsn w = Inr d"
  by (simp add: discovery_Create_def discovery_Register_def)

text \<open>The certificate of the Consul server goes unchecked by the gateway's own
  choice only over TLS, or when the environment asks for it; and an explicit
  false keeps the check on.\<close>

theorem consul_verification:
  assumes "\<not> co_InsecureSkipVerify (DefaultConfig w)"
  shows "co_InsecureSkipVerify (consul_config_of (DefaultConfig w) dsn w)
    \<longleftrightarrow> os_Getenv ConsulInsecureSkipVerify w = ''true''
      \<or> os_Getenv ConsulInsecureSkipVerify w = [] \<and> co_Scheme (consul_config_of (DefaultConfig w) dsn w) = ''https''"
  using assms by (auto simp: consul_config_of_def consul_insecure_def Let_def)

text \<open>A token in the DSN wins over the environment, and the environment over the
  default of the library.\<close>

lemma consul_token:
  "co_Token (consul_config_of c dsn w) =
    (if url_query_get dsn ''token'' \<noteq> [] then url_query_get dsn ''token''
     else if os_Getenv ConsulToken w \<noteq> [] then os_Getenv ConsulToken w else co_Token c)"
  by (simp add: consul_config_of_def query_or_env_def Let_def)

end
