(* ===== verification/Entry.thy ===== *)
theory Entry
  imports Proxy_Spec Server
begin

text \<open>
  The entry of the gateway: the handler of cmd/gateway/main.go that is put
  around the proxy, with the service for paths below /auth (proxy/auth/auth.go)
  and the debug service for those below /debug (proxy/debug/debug.go).  The
  handlers of pprof, those of the debug pages (theory Debug_Pages has them) and
  the answers gorilla/mux gives itself are arguments; so is the otelhttp wrapper, which is left out here.
\<close>

section \<open>The service below /auth\<close>

type_synonym 'w auth_service = "string \<rightharpoonup> 'w handler"

definition auth_prefix :: string where
  "auth_prefix = ''/auth''"

definition auth_Registry :: "string \<Rightarrow> 'w handler \<Rightarrow> 'w auth_service \<Rightarrow> 'w auth_service" where
  "auth_Registry path h m = m(auth_prefix @ path \<mapsto> h)"

text \<open>Calling the nil handler of an unknown path panics; every panic is
  recovered and answered.\<close>

definition authService_ServeHTTP :: "gw_libs \<Rightarrow> 'w auth_service \<Rightarrow> 'w handler" where
  "authService_ServeHTTP L m wr r w =
    (case (case m (rq_path r) of None \<Rightarrow> HPanic wr w | Some h \<Rightarrow> h wr r w) of
       Finished wr1 w1 \<Rightarrow> Finished wr1 w1
     | HPanic wr1 w1 \<Rightarrow> write_outcome L wr1 r (KratosErr ErrInternalServer) [] (\<lambda>_ w. w) w1)"

definition auth_Handler :: "gw_libs \<Rightarrow> 'w auth_service \<Rightarrow> 'w handler \<Rightarrow> 'w handler" where
  "auth_Handler L m origin wr r w =
    (if hasPrefix (rq_path r) auth_prefix then ProtectedHandler L (authService_ServeHTTP L m) wr r w
     else origin wr r w)"

section \<open>The service below /debug\<close>

record 'w debug_service =
  ds_handlers :: "string \<rightharpoonup> 'w handler"
  ds_routes :: "'w route list"

record 'w debug_env =
  de_gorilla :: gorilla
  de_not_found :: "'w handler"
  de_bad_method :: "'w handler"
  de_redirect :: "string \<Rightarrow> 'w handler"

definition debug_prefix :: string where
  "debug_prefix = ''/debug''"

definition debug_Register :: "string \<Rightarrow> 'w handler \<Rightarrow> 'w debug_service \<Rightarrow> 'w debug_service" where
  "debug_Register name h d =
    d\<lparr>ds_routes := ds_routes d @ [\<lparr>rou_matchers = [MPathPrefix (path_Join [debug_prefix, name])], rou_handler = h\<rparr>]\<rparr>"

definition debugService_ServeHTTP :: "'w debug_env \<Rightarrow> 'w debug_service \<Rightarrow> 'w handler" where
  "debugService_ServeHTTP D d wr r w =
    (case ds_handlers d (rq_path r) of
       Some h \<Rightarrow> h wr r w
     | None \<Rightarrow>
         (case go_select (de_gorilla D) False (map rou_matchers (ds_routes d)) r of
            Selected i \<Rightarrow> rou_handler (ds_routes d ! i) wr r w
          | NoRoute \<Rightarrow> de_not_found D wr r w
          | BadMethod \<Rightarrow> de_bad_method D wr r w
          | Redirected url \<Rightarrow> de_redirect D url wr r w))"

definition MashupWithDebugHandler :: "gw_libs \<Rightarrow> 'w debug_env \<Rightarrow> 'w debug_service \<Rightarrow> 'w handler \<Rightarrow> 'w handler" where
  "MashupWithDebugHandler L D d origin wr r w =
    (if hasPrefix (rq_path r) debug_prefix then ProtectedHandler L (debugService_ServeHTTP D d) wr r w
     else origin wr r w)"

section \<open>The handler of the server\<close>

definition serverHandler :: "'x proxy_env \<Rightarrow> 'x world auth_service \<Rightarrow> 'x world debug_env \<Rightarrow> 'x world debug_service
    \<Rightarrow> bool \<Rightarrow> 'x world proxy \<Rightarrow> 'x world handler" where
  "serverHandler E A D d withDebug p =
    auth_Handler (px_libs E) A
      (if withDebug then MashupWithDebugHandler (px_libs E) D d (proxy_ServeHTTP E p) else proxy_ServeHTTP E p)"

section \<open>Lemmas\<close>

lemma write_outcome_answers:
  assumes st: "inf_status (Classify L (Some e)) = st" and "200 \<le> st" "st \<le> 999"
  shows "\<exists>wr'. write_outcome L wr r e opts fin w = Finished wr' (fin st w)
    \<and> (case rw_sent wr of None \<Rightarrow> (\<exists>h. rw_sent wr' = Some (st, h)) | Some s \<Rightarrow> rw_sent wr' = Some s)"
proof -
  obtain code wr' where W: "Write L wr r (Some e) opts = Some (code, wr')"
    using Write_valid_status [of L "Some e" wr r opts] assms by auto
  have "code = st" using Write_Some(1) [OF W] st by simp
  then show ?thesis
    using W Write_Some(2) [OF W] Write_already_sent [OF W] assms(2) by (auto simp: write_outcome_def split: option.split)
qed

lemma entry_status:
  "inf_status (Classify L (Some (KratosErr ErrInternalServer))) = 500"
  "inf_status (Classify L (Some (KratosErr ErrForbiddenRoute))) = 403"
  by (simp_all add: Classify_def normalize_info_wf ErrInternalServer_def ErrForbiddenRoute_def kratos_New_def)

lemma ProtectedHandler_forwarded:
  assumes "hget (rq_header r) ''X-Forwarded-For'' \<noteq> []"
  shows "\<exists>wr'. ProtectedHandler L h wr r w = Finished wr' w
    \<and> (case rw_sent wr of None \<Rightarrow> (\<exists>hd'. rw_sent wr' = Some (403, hd')) | Some s \<Rightarrow> rw_sent wr' = Some s)"
  using assms write_outcome_answers [OF entry_status(2), of L wr r "[]" "\<lambda>_ w. w" w] by (simp add: ProtectedHandler_def)

lemma authService_finishes: "\<exists>wr' w'. authService_ServeHTTP L m wr r w = Finished wr' w'"
proof (cases "case m (rq_path r) of None \<Rightarrow> HPanic wr w | Some h \<Rightarrow> h wr r w")
  case (HPanic wr1 w1)
  then show ?thesis
    using write_outcome_answers [OF entry_status(1), of L wr1 r "[]" "\<lambda>_ w. w" w1] by (auto simp: authService_ServeHTTP_def)
qed (simp add: authService_ServeHTTP_def)

lemma Protected_finishes:
  assumes "\<And>wr. \<exists>wr' w'. h wr r w = Finished wr' w'"
  shows "\<exists>wr' w'. ProtectedHandler L h wr r w = Finished wr' w'"
  using assms ProtectedHandler_forwarded [of r L h wr w] by (cases "hget (rq_header r) ''X-Forwarded-For'' = []") (auto simp: ProtectedHandler_def)

lemma proxy_finishes: "\<exists>wr' w'. proxy_ServeHTTP E p wr req w = Finished wr' w'"
proof (cases "mux_ServeHTTP (px_gorilla E) (py_router p) wr req w")
  case (HPanic wr1 w1)
  then show ?thesis
    using write_outcome_answers [OF bad_gateway_status, of "px_libs E" wr1 "req\<lparr>rq_path := cleanPath (rq_path req)\<rparr>" "[]" "\<lambda>_ w. w" w1]
    by (auto simp: proxy_ServeHTTP_def)
qed (simp add: proxy_ServeHTTP_def)

section \<open>Properties\<close>

text \<open>Whatever a request is, wherever it leads and whatever panics on the
  way, the handler of the server finishes; with debugging on this takes debug
  handlers that do not panic themselves.\<close>

theorem every_entry_finishes:
  assumes "withDebug \<longrightarrow> (\<forall>wr w. \<exists>wr' w'. debugService_ServeHTTP D d wr r w = Finished wr' w')"
  shows "\<exists>wr' w'. altSvcMiddleware major (serverHandler E A D d withDebug p) port wr r w = Finished wr' w'"
proof -
  have mash: "\<exists>wr' w'. MashupWithDebugHandler L D d (proxy_ServeHTTP E p) wr r w = Finished wr' w'" if "withDebug" for L wr w
    using assms that Protected_finishes [of "debugService_ServeHTTP D d" r w] proxy_finishes
    by (auto simp: MashupWithDebugHandler_def)
  have inner: "\<exists>wr' w'. (if withDebug then MashupWithDebugHandler (px_libs E) D d (proxy_ServeHTTP E p) else proxy_ServeHTTP E p) wr r w
      = Finished wr' w'" for wr w
    using mash proxy_finishes by (cases withDebug) simp_all
  have "\<exists>wr' w'. serverHandler E A D d withDebug p wr r w = Finished wr' w'" for wr w
    unfolding serverHandler_def auth_Handler_def
    using inner Protected_finishes [of "authService_ServeHTTP (px_libs E) A" r w, OF authService_finishes] by (auto split: if_splits)
  then show ?thesis by (simp add: altSvcMiddleware_def)
qed

definition auth_request :: "header \<Rightarrow> request" where
  "auth_request h = sample_request\<lparr>rq_path := ''/authors/7'', rq_header := h\<rparr>"

definition quiet_debug :: "unit world debug_env" where
  "quiet_debug = \<lparr>de_gorilla = sample_gorilla, de_not_found = (\<lambda>wr r w. Finished wr w), de_bad_method = (\<lambda>wr r w. Finished wr w),
     de_redirect = (\<lambda>u wr r w. Finished wr w)\<rparr>"

definition no_pages :: "unit world debug_service" where
  "no_pages = \<lparr>ds_handlers = Map.empty, ds_routes = []\<rparr>"

lemma no_pages_quiet: "\<exists>wr' w'. debugService_ServeHTTP quiet_debug no_pages wr r w = Finished wr' w'"
  by (simp add: debugService_ServeHTTP_def no_pages_def quiet_debug_def sample_gorilla_def)

theorem every_entry_finishes_witness:
  "\<exists>wr' w'. altSvcMiddleware (\<lambda>_. 2) (serverHandler sample_env Map.empty quiet_debug no_pages True (proxy_New sample_env)) DefaultHTTP3Port
      new_writer (auth_request Map.empty) (sample_world ()) = Finished wr' w'"
  by (rule every_entry_finishes) (use no_pages_quiet in blast)

text \<open>A request that came through another proxy reaches neither the service
  below /auth nor the debug pages: it is answered with 403 and changes nothing.\<close>

theorem forwarded_request_kept_out:
  assumes "hget (rq_header r) ''X-Forwarded-For'' \<noteq> []"
    and "hasPrefix (rq_path r) ''/auth'' \<or> withDebug \<and> hasPrefix (rq_path r) ''/debug''"
  shows "\<exists>wr' h. serverHandler E A D d withDebug p new_writer r w = Finished wr' w \<and> rw_sent wr' = Some (403, h)"
  using assms ProtectedHandler_forwarded [OF assms(1), of "px_libs E" _ new_writer w]
  by (fastforce simp: serverHandler_def auth_Handler_def MashupWithDebugHandler_def auth_prefix_def debug_prefix_def new_writer_def)

theorem forwarded_request_kept_out_witness:
  "\<exists>wr' h. serverHandler sample_env Map.empty quiet_debug no_pages True (proxy_New sample_env) new_writer
      (auth_request [''X-Forwarded-For'' \<mapsto> [''10.0.0.1'']]) (sample_world ()) = Finished wr' (sample_world ()) \<and> rw_sent wr' = Some (403, h)"
  by (rule forwarded_request_kept_out) (simp_all add: auth_request_def hget_def)

text \<open>The gateway registers nothing below /auth, and the prefix is compared by
  bytes: every request whose path begins with /auth, /authors among them, is
  answered with 500 (403 when forwarded) and never reaches a route, whatever
  endpoints the configuration has.\<close>

theorem auth_prefix_unreachable:
  assumes "hasPrefix (rq_path r) ''/auth''"
  shows "\<exists>wr' h. serverHandler E Map.empty D d withDebug p new_writer r w = Finished wr' w
    \<and> (rw_sent wr' = Some (500, h) \<or> rw_sent wr' = Some (403, h))"
proof (cases "hget (rq_header r) ''X-Forwarded-For'' = []")
  case True
  then show ?thesis
    using assms write_outcome_answers [OF entry_status(1), of "px_libs E" new_writer r "[]" "\<lambda>_ w. w" w]
    by (auto simp: serverHandler_def auth_Handler_def auth_prefix_def ProtectedHandler_def authService_ServeHTTP_def new_writer_def)
next
  case False
  then show ?thesis using forwarded_request_kept_out [OF False] assms by blast
qed

theorem auth_prefix_unreachable_witness:
  "\<exists>wr' h. serverHandler sample_env Map.empty quiet_debug no_pages False (proxy_New sample_env) new_writer
      (auth_request Map.empty) (sample_world ()) = Finished wr' (sample_world ())
    \<and> (rw_sent wr' = Some (500, h) \<or> rw_sent wr' = Some (403, h))"
  by (rule auth_prefix_unreachable) (simp add: auth_request_def)

end
