(* ===== verification/Startup.thy ===== *)
theory Startup
  imports Gateway_Reload Auth_Chain Discovery Entry Client_Ip Factory
begin

text \<open>
  The start of the gateway, cmd/gateway/main.go: main as it puts the components
  together, up to the handler it hands to the server.  The process has one
  operating system and the variables of each package; a component runs on the
  two of them that are its own.  What calls Fatal ends the process.  Logging,
  the random seed, the kratos application around the server and the otelhttp
  wrapper are left out.
\<close>

section \<open>The process\<close>

text \<open>What the requests run on: the state of rbac, with the public key of jwt and
  the rest of the process.\<close>

type_synonym ('k, 'e, 'x) auth_state = "('e, 'k option \<times> 'x) rbac_state"

type_synonym ('k, 'e, 'x) gw_world = "('k, 'e, 'x) auth_state world"

definition state_key :: "('k, 'e, 'x) auth_state \<Rightarrow> 'k option" where
  "state_key s = fst (rs_service s)"

text \<open>The variables of the packages jwt and rbac, which their handlers read, in
  the state of the requests.\<close>

definition share_auth :: "'k jwt_vars \<Rightarrow> 'e rbac_vars \<Rightarrow> ('k, 'e, 'x) auth_state \<Rightarrow> ('k, 'e, 'x) auth_state" where
  "share_auth j r s =
    s\<lparr>rs_enforcer := rb_enforcer r, rs_casdoorUrl := rb_casdoorUrl r, rs_userOwner := rb_userOwner r,
      rs_service := (jw_publicKey j, snd (rs_service s))\<rparr>"

definition keyed_casdoor :: "'x casdoor \<Rightarrow> ('k option \<times> 'x) casdoor" where
  "keyed_casdoor D =
    \<lparr>cd_get = (\<lambda>u p q x. case cd_get D u p q (snd x) of (r, y) \<Rightarrow> (r, (fst x, y))), cd_decode = cd_decode D\<rparr>"


record main_vars =
  mn_ctrlService :: string
  mn_consulAddr :: string
  mn_priorityConfigDir :: string
  mn_withDebug :: bool

record ('k, 'e, 'x) process =
  pr_os :: os
  pr_loader :: "(unit, ('k, 'e, 'x) gw_world proxy \<times> ('k, 'e, 'x) gw_world) file_loader"
  pr_gos :: "watch_go list"
  pr_jwt :: "'k jwt_vars"
  pr_rbac :: "'e rbac_vars"
  pr_registry :: "('k, 'e, 'x) gw_world registry"
  pr_main :: main_vars

text \<open>The views in which the components run.\<close>

definition view :: "('p \<Rightarrow> os) \<Rightarrow> ('p \<Rightarrow> 'v) \<Rightarrow> 'p \<Rightarrow> 'v os_scheme" where
  "view o' g p = os.extend (o' p) (g p)"

abbreviation loader_view :: "('k, 'e, 'x) process \<Rightarrow> (unit, ('k, 'e, 'x) gw_world proxy \<times> ('k, 'e, 'x) gw_world) loader_world" where
  "loader_view \<equiv> view pr_os pr_loader"

definition with_loader :: "((unit, ('k, 'e, 'x) gw_world proxy \<times> ('k, 'e, 'x) gw_world) loader_world \<Rightarrow> 'r \<times> (unit, ('k, 'e, 'x) gw_world proxy \<times> ('k, 'e, 'x) gw_world) loader_world)
    \<Rightarrow> ('k, 'e, 'x) process \<Rightarrow> 'r \<times> ('k, 'e, 'x) process" where
  "with_loader f p = (case f (loader_view p) of (r, w) \<Rightarrow> (r, p\<lparr>pr_os := os.truncate w, pr_loader := os.more w\<rparr>))"

definition with_jwt :: "('k jwt_world \<Rightarrow> 'r \<times> 'k jwt_world) \<Rightarrow> ('k, 'e, 'x) process \<Rightarrow> 'r \<times> ('k, 'e, 'x) process" where
  "with_jwt f p = (case f (view pr_os pr_jwt p) of (r, w) \<Rightarrow> (r, p\<lparr>pr_os := os.truncate w, pr_jwt := os.more w\<rparr>))"

definition with_rbac :: "('e rbac_world \<Rightarrow> 'r \<times> 'e rbac_world) \<Rightarrow> ('k, 'e, 'x) process \<Rightarrow> 'r \<times> ('k, 'e, 'x) process" where
  "with_rbac f p = (case f (view pr_os pr_rbac p) of (r, w) \<Rightarrow> (r, p\<lparr>pr_os := os.truncate w, pr_rbac := os.more w\<rparr>))"

text \<open>The one source all components share, as data: each of them uses it in its
  own view, through an SDK that touches nothing but the operating system.\<close>

datatype source_choice = LocalChoice file_source | CenterChoice cs_config

definition view_sdk :: "os cs_sdk \<Rightarrow> 'v os_scheme cs_sdk" where
  "view_sdk S =
    \<lparr>sdk_LoadSourceConfig = (\<lambda>s w. case sdk_LoadSourceConfig S s (os.truncate w) of (r, o') \<Rightarrow> (r, os.extend o' (os.more w))),
     sdk_Load = (\<lambda>c w. case sdk_Load S c (os.truncate w) of (r, o') \<Rightarrow> (r, os.extend o' (os.more w))),
     sdk_rounds = sdk_rounds S\<rparr>"

fun source_of :: "os cs_sdk \<Rightarrow> source_choice \<Rightarrow> 'v os_scheme source" where
  "source_of S (LocalChoice f) = fileSource f"
| "source_of S (CenterChoice c) = configCenterSource (view_sdk S) c"

definition choose_source :: "os cs_sdk \<Rightarrow> os \<Rightarrow> (err + source_choice) \<times> os" where
  "choose_source S w =
    (let selector = os_Getenv EnvConfigSourceFile w;
         sourceType = os_Getenv EnvConfigSource w
     in if selector \<noteq> [] then
          (case sdk_LoadSourceConfig S selector w of
             (Inl e, w1) \<Rightarrow> (Inl e, w1)
           | (Inr cfg, w1) \<Rightarrow>
               if cs_type cfg \<noteq> ConfigSourceConfigCenter then (Inl (PlainErr ''must select config_center''), w1)
               else (Inr (CenterChoice cfg), w1))
        else if sourceType = ConfigSourceFile then
          (let configFile = os_Getenv EnvConfigFile w
           in if configFile = [] then (Inl (PlainErr ''required env CONFIG_FILE is missing''), w)
              else (Inr (LocalChoice (NewLocalSource configFile)), w))
        else if sourceType = ConfigSourceConfigCenter then (Inl (PlainErr ''CONFIG_SOURCE=config_center is deprecated''), w)
        else if sourceType = [] then (Inl (PlainErr ''required env CONFIG_SOURCE_FILE is missing''), w)
        else (Inl (PlainErr ''unknown CONFIG_SOURCE''), w))"

section \<open>The parts of main\<close>

text \<open>What main takes from other packages.  The factory of the circuit breaker
  stands for the one of its theory, run on the state of the proxy.\<close>

record ('k, 'm, 'e, 'd, 'x) main_env =
  me_sdk :: "os cs_sdk"
  me_config :: config_lib
  me_jwt :: "'k jwt_lib"
  me_casbin :: "('m, 'e) casbin"
  me_casdoor :: "'x casdoor"
  me_discovery :: "(os, 'd) discovery_registry"
  me_factory :: "'d option \<Rightarrow> ('k, 'e, 'x) auth_state factory_env"
  me_proxy :: "('k, 'e, 'x) auth_state proxy_env"
  me_breaker :: "('k, 'e, 'x) gw_world client_factory \<Rightarrow> ('k, 'e, 'x) gw_world factory_v2"
  me_range :: "string list \<Rightarrow> string list"
  me_debug :: "('k, 'e, 'x) gw_world debug_env"
  me_pages :: "('k, 'e, 'x) gw_world debug_service"
  me_proxy_pages :: "('k, 'e, 'x) gw_world handler"
  me_config_pages :: "('k, 'e, 'x) gw_world handler"

definition jwt_factory :: "('k, 'm, 'e, 'd, 'x) main_env \<Rightarrow> ('k, 'e, 'x) gw_world factory" where
  "jwt_factory E = jwt_Middleware (me_jwt E) state_key"

definition rbac_factory :: "('k, 'm, 'e, 'd, 'x) main_env \<Rightarrow> ('k, 'e, 'x) gw_world factory" where
  "rbac_factory E = rbac_Middleware (me_casbin E) (keyed_casdoor (me_casdoor E))"

datatype boot_error =
    NoSource err
  | NoLoader err
  | NoConfig err
  | CtrlIncompatible
  | JwtFailed err
  | RbacFailed err
  | NoDiscovery err
  | UpdateFailed err

definition initConfig :: "('k, 'e, 'x) process \<Rightarrow> ('k, 'e, 'x) process" where
  "initConfig p =
    p\<lparr>pr_main := (pr_main p)\<lparr>mn_withDebug := os_Getenv Debug (pr_os p) = ''true'',
        mn_priorityConfigDir := os_Getenv PriorityConfigDir (pr_os p)\<rparr>\<rparr>"

definition loadRuntimeConfig :: "('k, 'e, 'x) process \<Rightarrow> ('k, 'e, 'x) process" where
  "loadRuntimeConfig p =
    (let addr = os_Getenv ConsulAddr (pr_os p)
     in p\<lparr>pr_main := (pr_main p)\<lparr>mn_withDebug := os_Getenv Debug (pr_os p) = ''true'',
          mn_ctrlService := os_Getenv ''ctrlService'' (pr_os p),
          mn_consulAddr := (if addr = [] then ''consul://localhost:8500'' else addr)\<rparr>\<rparr>)"

definition makeDiscovery :: "(os, 'd) discovery_registry \<Rightarrow> ('k, 'e, 'x) process \<Rightarrow> err + 'd option" where
  "makeDiscovery R p =
    (if mn_consulAddr (pr_main p) = [] then Inr None
     else (case discovery_Create R (mn_consulAddr (pr_main p)) (pr_os p) of Inl e \<Rightarrow> Inl e | Inr d \<Rightarrow> Inr (Some d)))"

text \<open>The loop that injects the environment; a failed Setenv is only logged.  The
  order in which a map is ranged over is that of \<open>me_range\<close>.\<close>

fun inject_envs :: "(string \<times> string) list \<Rightarrow> string list \<Rightarrow> 'a os_scheme \<Rightarrow> 'a os_scheme" where
  "inject_envs envs [] w = w"
| "inject_envs envs (k # ks) w = inject_envs envs ks (snd (os_Setenv k (md_get envs k) w))"

definition load_stage :: "('k, 'm, 'e, 'd, 'x) main_env \<Rightarrow> ('k, 'e, 'x) process
    \<Rightarrow> (boot_error + source_choice \<times> (unit, ('k, 'e, 'x) gw_world proxy \<times> ('k, 'e, 'x) gw_world) loader_world loader_const \<times> gateway_config) \<times> ('k, 'e, 'x) process" where
  "load_stage E p =
    (case choose_source (me_sdk E) (pr_os p) of
       (Inl e, o1) \<Rightarrow> (Inl (NoSource e), p\<lparr>pr_os := o1\<rparr>)
     | (Inr src, o1) \<Rightarrow>
         (case with_loader (NewSourceLoader (me_config E) (Some (source_of (me_sdk E) src)) (mn_priorityConfigDir (pr_main p)))
                 (p\<lparr>pr_os := o1\<rparr>) of
            (Inl e, p2) \<Rightarrow> (Inl (NoLoader e), p2)
          | (Inr C, p2) \<Rightarrow>
              (case with_loader (fl_Load (me_config E) C) p2 of
                 (Inl e, p3) \<Rightarrow> (Inl (NoConfig e), p3)
               | (Inr bc, p3) \<Rightarrow> (Inr (src, C, bc), p3))))"

definition env_stage :: "('k, 'm, 'e, 'd, 'x) main_env \<Rightarrow> gateway_config \<Rightarrow> ('k, 'e, 'x) process
    \<Rightarrow> (boot_error + unit) \<times> ('k, 'e, 'x) process" where
  "env_stage E bc p =
    (let p1 = loadRuntimeConfig (p\<lparr>pr_os := inject_envs (gc_envs bc) (me_range E (remdups (map fst (gc_envs bc)))) (pr_os p)\<rparr>)
     in if mn_ctrlService (pr_main p1) \<noteq> [] then (Inl CtrlIncompatible, p1) else (Inr (), p1))"

definition auth_stage :: "('k, 'm, 'e, 'd, 'x) main_env \<Rightarrow> source_choice \<Rightarrow> ('k, 'e, 'x) process
    \<Rightarrow> (boot_error + unit) \<times> ('k, 'e, 'x) process" where
  "auth_stage E src p =
    (case with_jwt (jwt_Init (me_jwt E) (source_of (me_sdk E) src)) p of
       (Some e, p1) \<Rightarrow> (Inl (JwtFailed e), p1)
     | (None, p1) \<Rightarrow>
         (let p2 = (if jw_registered (pr_jwt p1) then p1\<lparr>pr_registry := Register ''jwt'' (jwt_factory E) (pr_registry p1)\<rparr> else p1)
          in case with_rbac (InitEnforcer (me_casbin E) (source_of (me_sdk E) src)) p2 of
               (Some e, p3) \<Rightarrow> (Inl (RbacFailed e), p3)
             | (None, p3) \<Rightarrow>
                 (let R = (if rb_registered (pr_rbac p3) then Register ''rbac'' (rbac_factory E) (pr_registry p3) else pr_registry p3)
                  in (Inr (), p3\<lparr>pr_registry := Register ''ip'' ip_Middleware R\<rparr>))))"

definition proxy_stage :: "('k, 'm, 'e, 'd, 'x) main_env \<Rightarrow> gateway_config \<Rightarrow> ('k, 'e, 'x) process
    \<Rightarrow> (boot_error + ('k, 'e, 'x) gw_world client_factory) \<times> ('k, 'e, 'x) process" where
  "proxy_stage E bc p =
    (case makeDiscovery (me_discovery E) p of
       Inl e \<Rightarrow> (Inl (NoDiscovery e), p)
     | Inr d \<Rightarrow>
         (let cf = NewFactory (me_factory E d) [];
              R = RegisterV2 ''circuitbreaker'' (me_breaker E cf) (pr_registry p);
              p1 = p\<lparr>pr_registry := R\<rparr>
          in case Update (me_proxy E) cf (Create R) bc (proxy_New (me_proxy E))
                 (upd_ext (share_auth (pr_jwt p1) (pr_rbac p1)) (snd (fl_ext (pr_loader p1)))) of
               (r, px, x) \<Rightarrow>
                 (let p2 = p1\<lparr>pr_loader := (pr_loader p1)\<lparr>fl_ext := (px, x)\<rparr>\<rparr>
                  in case r of Some e \<Rightarrow> (Inl (UpdateFailed e), p2) | None \<Rightarrow> (Inr cf, p2))))"

definition watch_stage :: "(unit, ('k, 'e, 'x) gw_world proxy \<times> ('k, 'e, 'x) gw_world) loader_world loader_const \<Rightarrow> ('k, 'e, 'x) process \<Rightarrow> ('k, 'e, 'x) process" where
  "watch_stage C p =
    (let s = fl_Watch C () \<lparr>ls_gos = pr_gos p, ls_world = loader_view p\<rparr>
     in p\<lparr>pr_gos := ls_gos s, pr_os := os.truncate (ls_world s), pr_loader := os.more (ls_world s)\<rparr>)"

text \<open>The handler, which serves with the proxy as it is when the request comes.\<close>

definition boot_pages :: "('k, 'm, 'e, 'd, 'x) main_env \<Rightarrow> ('k, 'e, 'x) gw_world debug_service" where
  "boot_pages E = debug_Register ''config'' (me_config_pages E) (debug_Register ''proxy'' (me_proxy_pages E) (me_pages E))"

definition boot_handler :: "('k, 'm, 'e, 'd, 'x) main_env \<Rightarrow> bool \<Rightarrow> ('k, 'e, 'x) gw_world proxy \<Rightarrow> ('k, 'e, 'x) gw_world handler" where
  "boot_handler E withDebug =
    serverHandler (me_proxy E) Map.empty (me_debug E) (if withDebug then boot_pages E else me_pages E) withDebug"

record ('k, 'e, 'x) booted =
  bt_loader :: "(unit, ('k, 'e, 'x) gw_world proxy \<times> ('k, 'e, 'x) gw_world) loader_world loader_const"
  bt_config :: gateway_config
  bt_clients :: "('k, 'e, 'x) gw_world client_factory"
  bt_handler :: "('k, 'e, 'x) gw_world proxy \<Rightarrow> ('k, 'e, 'x) gw_world handler"

definition main_boot :: "('k, 'm, 'e, 'd, 'x) main_env \<Rightarrow> ('k, 'e, 'x) process \<Rightarrow> (boot_error + ('k, 'e, 'x) booted) \<times> ('k, 'e, 'x) process" where
  "main_boot E p =
    (case load_stage E (initConfig p) of
       (Inl e, p1) \<Rightarrow> (Inl e, p1)
     | (Inr (src, C, bc), p1) \<Rightarrow>
         (case env_stage E bc p1 of
            (Inl e, p2) \<Rightarrow> (Inl e, p2)
          | (Inr u, p2) \<Rightarrow>
              (case auth_stage E src p2 of
                 (Inl e, p3) \<Rightarrow> (Inl e, p3)
               | (Inr v, p3) \<Rightarrow>
                   (case proxy_stage E bc p3 of
                      (Inl e, p4) \<Rightarrow> (Inl e, p4)
                    | (Inr cf, p4) \<Rightarrow>
                        (let p5 = watch_stage C p4
                         in (Inr \<lparr>bt_loader = C, bt_config = bc, bt_clients = cf,
                                  bt_handler = boot_handler E (mn_withDebug (pr_main p5))\<rparr>, p5))))))"

section \<open>Lemmas\<close>

lemma view_simps [simp]:
  "os.more (view o' g p) = g p" "os_env (view o' g p) = os_env (o' p)" "os_files (view o' g p) = os_files (o' p)"
  by (simp_all add: view_def os.defs)

lemma os_parts [simp]: "os.extend (os.truncate w) (os.more w) = w" "os_files (os.truncate w) = os_files w"
  "os_env (os.truncate w) = os_env w"
  by (cases w; simp add: os.defs)+

lemma truncate_os [simp]: "os.truncate (o' :: os) = o'" "os.truncate (os.extend o' m) = o'"
  by (cases o'; simp add: os.defs)+

lemma with_loader_view: "with_loader f p = (r, p') \<Longrightarrow> f (loader_view p) = (r, loader_view p')
    \<and> pr_gos p' = pr_gos p \<and> pr_jwt p' = pr_jwt p \<and> pr_rbac p' = pr_rbac p \<and> pr_registry p' = pr_registry p \<and> pr_main p' = pr_main p"
  by (cases "f (loader_view p)") (auto simp: with_loader_def view_def)

lemma with_jwt_view: "with_jwt f p = (r, p') \<Longrightarrow> f (view pr_os pr_jwt p) = (r, view pr_os pr_jwt p')
    \<and> pr_loader p' = pr_loader p \<and> pr_gos p' = pr_gos p \<and> pr_rbac p' = pr_rbac p \<and> pr_registry p' = pr_registry p \<and> pr_main p' = pr_main p"
  by (cases "f (view pr_os pr_jwt p)") (auto simp: with_jwt_def view_def)

lemma with_rbac_view: "with_rbac f p = (r, p') \<Longrightarrow> f (view pr_os pr_rbac p) = (r, view pr_os pr_rbac p')
    \<and> pr_loader p' = pr_loader p \<and> pr_gos p' = pr_gos p \<and> pr_jwt p' = pr_jwt p \<and> pr_registry p' = pr_registry p \<and> pr_main p' = pr_main p"
  by (cases "f (view pr_os pr_rbac p)") (auto simp: with_rbac_def view_def)

text \<open>The shared source is the one NewSource gives in every view.\<close>

lemma choose_source_NewSource:
  "NewSource (view_sdk S) w =
    (case choose_source S (os.truncate w) of
       (Inl e, o1) \<Rightarrow> (Inl e, os.extend o1 (os.more w))
     | (Inr src, o1) \<Rightarrow> (Inr (source_of S src), os.extend o1 (os.more w)))"
  by (simp add: NewSource_def choose_source_def NewConfigCenterSource_def view_sdk_def os_Getenv_def Let_def
      split: prod.split sum.split)

lemma inject_envs_env:
  "os_env (inject_envs envs ks w) =
    (\<lambda>k. if k \<in> set ks \<and> env_ok k (md_get envs k) then Some (md_get envs k) else os_env w k)"
  by (induction ks arbitrary: w) (auto simp: os_Setenv_def fun_eq_iff)

text \<open>What each part leaves behind.\<close>

lemma load_stage_ok:
  assumes "load_stage E p = (Inr (src, C, bc), p1)"
  shows "\<exists>o1 w. NewSourceLoader (me_config E) (Some (source_of (me_sdk E) src)) (mn_priorityConfigDir (pr_main p))
            (os.extend o1 (pr_loader p)) = (Inr C, w) \<and> fl_Load (me_config E) C w = (Inr bc, loader_view p1)
      \<and> pr_gos p1 = pr_gos p \<and> pr_jwt p1 = pr_jwt p \<and> pr_rbac p1 = pr_rbac p \<and> pr_registry p1 = pr_registry p \<and> pr_main p1 = pr_main p"
proof -
  obtain o1 p2 where "with_loader (NewSourceLoader (me_config E) (Some (source_of (me_sdk E) src)) (mn_priorityConfigDir (pr_main p)))
                 (p\<lparr>pr_os := o1\<rparr>) = (Inr C, p2)" and "with_loader (fl_Load (me_config E) C) p2 = (Inr bc, p1)"
    using assms by (auto simp: load_stage_def split: prod.splits sum.splits)
  note a = with_loader_view [OF this(1)] and b = with_loader_view [OF this(2)]
  show ?thesis
    by (rule exI [of _ o1], rule exI [of _ "loader_view p2"]) (use a b in \<open>auto simp: view_def\<close>)
qed

lemma jwt_Init_ok:
  assumes "jwt_Init L source w = (None, w')" "\<not> jw_initialized (os.more w)"
  shows "jw_publicKey (os.more w') \<noteq> None" "jw_registered (os.more w')"
proof -
  obtain wa w3 where "reloadPublicKey L (getPublicKeyPath w) wa = (None, w3)"
    and w': "jw_publicKey (os.more w') = jw_publicKey (os.more w3)" "jw_registered (os.more w')"
    using assms by (auto simp: jwt_Init_def Let_def split: prod.splits sum.splits option.splits)
  then show "jw_publicKey (os.more w') \<noteq> None" "jw_registered (os.more w')"
    using reloadPublicKey_effect(3) [of L "getPublicKeyPath w" wa None w3] by simp_all
qed

lemma InitEnforcer_registered:
  "InitEnforcer B source w = (None, w') \<Longrightarrow> \<not> rb_initialized (os.more w) \<Longrightarrow> rb_registered (os.more w')"
  by (auto simp: InitEnforcer_def Let_def split: prod.splits option.splits)

definition boot_registry :: "('k, 'm, 'e, 'd, 'x) main_env \<Rightarrow> ('k, 'e, 'x) gw_world registry \<Rightarrow> ('k, 'e, 'x) gw_world registry" where
  "boot_registry E R = Register ''ip'' ip_Middleware (Register ''rbac'' (rbac_factory E) (Register ''jwt'' (jwt_factory E) R))"

lemma auth_stage_ok:
  assumes "auth_stage E src p = (Inr u, p')" "\<not> jw_initialized (pr_jwt p)" "\<not> rb_initialized (pr_rbac p)"
  shows "jw_publicKey (pr_jwt p') \<noteq> None
    \<and> policy_on_disk (me_casbin E) (rb_localModelFile (pr_rbac p')) (rb_localPolicyFile (pr_rbac p')) (pr_rbac p') (file_at (pr_os p'))
    \<and> pr_loader p' = pr_loader p \<and> pr_gos p' = pr_gos p \<and> pr_main p' = pr_main p \<and> pr_registry p' = boot_registry E (pr_registry p)"
proof -
  let ?reg = "\<lambda>p1. p1\<lparr>pr_registry := Register ''jwt'' (jwt_factory E) (pr_registry p1)\<rparr>"
  obtain p1 where j: "with_jwt (jwt_Init (me_jwt E) (source_of (me_sdk E) src)) p = (None, p1)"
    using assms(1) by (auto simp: auth_stage_def split: prod.splits option.splits)
  note jv = with_jwt_view [OF j]
  have jok: "jw_publicKey (pr_jwt p1) \<noteq> None" "jw_registered (pr_jwt p1)"
    using jwt_Init_ok [OF jv [THEN conjunct1]] assms(2) by simp_all
  obtain p3 where r: "with_rbac (InitEnforcer (me_casbin E) (source_of (me_sdk E) src)) (?reg p1) = (None, p3)"
    and p': "p' = p3\<lparr>pr_registry := Register ''ip'' ip_Middleware
        (if rb_registered (pr_rbac p3) then Register ''rbac'' (rbac_factory E) (pr_registry p3) else pr_registry p3)\<rparr>"
    using assms(1) j jok by (auto simp: auth_stage_def Let_def split: prod.splits option.splits)
  note rv = with_rbac_view [OF r]
  have un: "\<not> rb_initialized (os.more (view pr_os pr_rbac (?reg p1)))" using assms(3) jv by simp
  have files: "file_at (view pr_os pr_rbac p3) = file_at (pr_os p3)" by (simp add: file_at_def fun_eq_iff)
  have pol: "policy_on_disk (me_casbin E) (rb_localModelFile (pr_rbac p3)) (rb_localPolicyFile (pr_rbac p3)) (pr_rbac p3) (file_at (pr_os p3))"
    using InitEnforcer_on_disk [OF un rv [THEN conjunct1]] unfolding files by simp
  have rg: "rb_registered (pr_rbac p3)"
    using InitEnforcer_registered [OF rv [THEN conjunct1] un] by simp
  show ?thesis using pol jok rv jv rg by (simp add: p' boot_registry_def)
qed

lemma source_of_more: "so_Load (source_of S src) k w = (r, w') \<Longrightarrow> os.more w' = os.more w"
proof (cases src)
  case (LocalChoice f)
  assume "so_Load (source_of S src) k w = (r, w')"
  then show ?thesis using quiet_sourceD [OF fileSource_quiet, of f k w r w'] by (simp add: LocalChoice)
next
  case (CenterChoice c)
  have ext: "os.more (os.extend a m) = m" for a and m :: 'a by (simp add: os.defs)
  assume "so_Load (source_of S src) k w = (r, w')"
  then show ?thesis
    by (auto simp: CenterChoice configCenterSource_def configCenterSource_Load_def view_sdk_def ext split: sum.splits prod.splits)
qed

lemma proxy_stage_ok:
  assumes "proxy_stage E bc p = (Inr cf, p')"
  shows "\<exists>x0 x1. Update (me_proxy E) cf (Create (pr_registry p')) bc (proxy_New (me_proxy E))
        (upd_ext (share_auth (pr_jwt p') (pr_rbac p')) x0) = (None, fst (fl_ext (pr_loader p')), x1)"
    "pr_registry p' = RegisterV2 ''circuitbreaker'' (me_breaker E cf) (pr_registry p)"
    "pr_loader p' = (pr_loader p)\<lparr>fl_ext := fl_ext (pr_loader p')\<rparr>"
    "pr_os p' = pr_os p" "pr_gos p' = pr_gos p" "pr_jwt p' = pr_jwt p" "pr_rbac p' = pr_rbac p" "pr_main p' = pr_main p"
  using assms by (force simp: proxy_stage_def Let_def split: sum.splits prod.splits option.splits)+

lemma watch_stage_state:
  "\<lparr>ls_gos = pr_gos (watch_stage C p), ls_world = loader_view (watch_stage C p)\<rparr> = fl_Watch C () \<lparr>ls_gos = pr_gos p, ls_world = loader_view p\<rparr>"
  by (simp add: watch_stage_def Let_def view_def)

lemma stages_watch_nothing:
  "load_stage E p = (r1, p') \<Longrightarrow> pr_gos p' = pr_gos p"
  "env_stage E bc p = (r2, p') \<Longrightarrow> pr_gos p' = pr_gos p"
  "auth_stage E src p = (r3, p') \<Longrightarrow> pr_gos p' = pr_gos p"
  "proxy_stage E bc p = (r4, p') \<Longrightarrow> pr_gos p' = pr_gos p"
  by (auto simp: load_stage_def env_stage_def auth_stage_def proxy_stage_def loadRuntimeConfig_def Let_def
      split: sum.splits prod.splits option.splits if_splits dest!: with_loader_view with_jwt_view with_rbac_view)

lemma env_stage_ok:
  assumes "env_stage E bc p = (Inr u, p')"
  shows "pr_loader p' = pr_loader p" "pr_gos p' = pr_gos p" "pr_jwt p' = pr_jwt p" "pr_rbac p' = pr_rbac p"
    "pr_registry p' = pr_registry p"
  using assms by (auto simp: env_stage_def loadRuntimeConfig_def Let_def split: if_splits)

lemma main_boot_ok:
  assumes "main_boot E p = (Inr b, p')"
    and "pr_gos p = []" "\<not> jw_initialized (pr_jwt p)" "\<not> rb_initialized (pr_rbac p)"
  shows "(\<exists>src. lc_source (bt_loader b) = source_of (me_sdk E) src) \<and> bt_handler b = boot_handler E (mn_withDebug (pr_main p'))
    \<and> in_force (me_proxy E) (bt_clients b) (Create (pr_registry p')) (me_config E) (bt_loader b) (loader_view p')
    \<and> fl_reachable (me_config E) (bt_loader b) (reloader (me_proxy E) (bt_clients b) (Create (pr_registry p')))
        \<lparr>ls_gos = pr_gos p', ls_world = loader_view p'\<rparr>
    \<and> fl_onChangeHandlers (pr_loader p') = [()] \<and> pr_gos p' = started_watchers (bt_loader b) 0
    \<and> (\<exists>x0 x1. Update (me_proxy E) (bt_clients b) (Create (pr_registry p')) (bt_config b) (proxy_New (me_proxy E))
          (upd_ext (share_auth (pr_jwt p') (pr_rbac p')) x0) = (None, serving (loader_view p'), x1))
    \<and> pr_registry p' = RegisterV2 ''circuitbreaker'' (me_breaker E (bt_clients b)) (boot_registry E (pr_registry p))
    \<and> jw_publicKey (pr_jwt p') \<noteq> None
    \<and> policy_on_disk (me_casbin E) (rb_localModelFile (pr_rbac p')) (rb_localPolicyFile (pr_rbac p')) (pr_rbac p') (file_at (pr_os p'))"
proof -
  obtain src C bc p1 p2 p3 cf p4 where
      ld: "load_stage E (initConfig p) = (Inr (src, C, bc), p1)" and en: "env_stage E bc p1 = (Inr (), p2)"
    and au: "auth_stage E src p2 = (Inr (), p3)" and px: "proxy_stage E bc p3 = (Inr cf, p4)"
    and p': "p' = watch_stage C p4" and b: "bt_loader b = C" "bt_config b = bc" "bt_clients b = cf" "bt_handler b = boot_handler E (mn_withDebug (pr_main (watch_stage C p4)))"
    using assms(1) by (auto simp: main_boot_def Let_def split: sum.splits prod.splits)
  obtain o1 w where new: "NewSourceLoader (me_config E) (Some (source_of (me_sdk E) src)) (mn_priorityConfigDir (pr_main (initConfig p)))
            (os.extend o1 (pr_loader (initConfig p))) = (Inr C, w)"
    and fl: "fl_Load (me_config E) C w = (Inr bc, loader_view p1)" and f1: "pr_gos p1 = pr_gos p" "pr_jwt p1 = pr_jwt p"
      "pr_rbac p1 = pr_rbac p" "pr_registry p1 = pr_registry p"
    using load_stage_ok [OF ld] by (auto simp: initConfig_def)
  note f2 = env_stage_ok [OF en]
  have f3: "jw_publicKey (pr_jwt p3) \<noteq> None"
    "policy_on_disk (me_casbin E) (rb_localModelFile (pr_rbac p3)) (rb_localPolicyFile (pr_rbac p3)) (pr_rbac p3) (file_at (pr_os p3))"
    "pr_loader p3 = pr_loader p2" "pr_gos p3 = pr_gos p2" "pr_registry p3 = boot_registry E (pr_registry p2)"
    using auth_stage_ok [OF au] assms(3,4) f1 f2 by simp_all
  note f4 = proxy_stage_ok [OF px]
  have cfg: "fst (decodeConfig (me_config E) (lc_priorityDirectory C) (fl_configData (os.more w)) w) = Inr bc"
    using fl by (simp add: fl_Load_def)
  have m: "pr_loader p1 = os.more w" using decodeConfig_rest [OF fl [unfolded fl_Load_def]] by (simp add: same_rest_def)
  have l4: "pr_loader p4 = (os.more w)\<lparr>fl_ext := fl_ext (pr_loader p4)\<rparr>" using f4(3) f3(3) f2(1) m by simp
  have "\<exists>data hash cfg. cl_decode (me_config E) data = Inr cfg
    \<and> os.more w = (os.more (os.extend o1 (pr_loader (initConfig p))))\<lparr>fl_configData := data, fl_confSHA256 := cl_sha256 (me_config E) data,
        fl_priorityConfigHash := hash, fl_watchCancel := None, fl_closed := False, fl_onChangeHandlers := [], fl_canceled := []\<rparr>"
    by (rule NewSourceLoader_fields [OF _ new]) (rule source_of_more)
  then have fresh: "fl_onChangeHandlers (os.more w) = []" "fl_watchCancel (os.more w) = None" "\<not> fl_closed (os.more w)"
      "fl_canceled (os.more w) = []"
    by auto
  let ?H = "reloader (me_proxy E) cf (Create (pr_registry p4))"
  have "fl_reachable (me_config E) C ?H \<lparr>ls_gos = [], ls_world = w\<rparr>" by (rule fl_new [OF new])
  then have "fl_reachable (me_config E) C ?H (\<lparr>ls_gos = [], ls_world = w\<rparr>\<lparr>ls_world := loader_view p4\<rparr>)"
    by (rule fl_next, intro outside) (use l4 in simp)
  then have "fl_reachable (me_config E) C ?H (fl_Watch C () \<lparr>ls_gos = pr_gos p4, ls_world = loader_view p4\<rparr>)"
    using assms(2) f1(1) f2(2) f3(4) f4(5) by (auto intro: fl_next call_watch)
  then have r: "fl_reachable (me_config E) C ?H \<lparr>ls_gos = pr_gos p', ls_world = loader_view p'\<rparr>"
    unfolding p' watch_stage_state .
  have st: "fl_onChangeHandlers (pr_loader p4) = []" "fl_watchCancel (pr_loader p4) = None" "\<not> fl_closed (pr_loader p4)"
      "fl_canceled (pr_loader p4) = []" "pr_gos p4 = []"
    by (subst l4, simp add: fresh)+ (simp add: assms(2) f1 f2(2) f3(4) f4(5))
  then have w5: "fl_onChangeHandlers (pr_loader p') = [()]" "pr_gos p' = started_watchers C 0" "fl_ext (pr_loader p') = fl_ext (pr_loader p4)"
      "pr_registry p' = pr_registry p4" "pr_jwt p' = pr_jwt p4" "pr_rbac p' = pr_rbac p4" "os_files (pr_os p') = os_files (pr_os p4)"
    by (simp_all add: p' watch_stage_def fl_Watch_def Let_def)
  have "fl_configData (pr_loader p4) = fl_configData (os.more w)" by (subst l4) simp
  then have "fl_configData (pr_loader p') = fl_configData (os.more w)"
    by (simp add: p' watch_stage_def fl_Watch_def Let_def)
  then have "in_force (me_proxy E) (bt_clients b) (Create (pr_registry p')) (me_config E) (bt_loader b) (loader_view p')"
    unfolding in_force_def using cfg b(1,3) f4(1) w5(3,4) by (simp add: serving_def) blast
  moreover have "file_at (pr_os p') = file_at (pr_os p3)" using w5(7) f4(4) by (simp add: file_at_def fun_eq_iff)
  moreover have "\<exists>src. lc_source C = source_of (me_sdk E) src"
    using new by (auto simp: NewSourceLoader_def Let_def split: prod.splits option.splits)
  moreover have "bt_handler b = boot_handler E (mn_withDebug (pr_main p'))" using b p' by simp
  ultimately show ?thesis using r w5 f1 f2(5) f3 f4(1,2,6,7) b(1-3) by (simp add: serving_def)
qed

text \<open>Loading through an SDK that leaves the environment alone.\<close>

definition quiet_sdk :: "os cs_sdk \<Rightarrow> bool" where
  "quiet_sdk S = (\<forall>c w. os_env (snd (sdk_Load S c w)) = os_env w)"

lemma source_of_quiet: "quiet_sdk S \<Longrightarrow> quiet_source (source_of S src)"
proof (cases src)
  case (CenterChoice c)
  have ext: "os.more (os.extend a m) = m" "os_env (os.extend a m) = os_env a" for a and m :: 'a by (simp_all add: os.defs)
  assume "quiet_sdk S"
  then have "os_env (snd (case configForKey c k of Inl e \<Rightarrow> (Inl e, w) | Inr cfg \<Rightarrow> sdk_Load (view_sdk S) cfg w)) = os_env w" for k and w :: "'a os_scheme"
    by (cases "configForKey c k"; cases "sdk_Load S (projr (configForKey c k)) (os.truncate w)")
       (auto simp: view_sdk_def ext quiet_sdk_def dest!: spec [of _ "projr (configForKey c k)"] spec [of _ "os.truncate w"])
  moreover have "os.more (snd (so_Load (source_of S src) k w)) = os.more w" for k and w :: "'a os_scheme"
    using source_of_more by (metis prod.collapse)
  ultimately show ?thesis
    by (simp add: quiet_source_def CenterChoice configCenterSource_def configCenterSource_Load_def)
qed (simp add: fileSource_quiet)

section \<open>Properties\<close>

text \<open>A start that fails ends with a call of Fatal before anything is watched.\<close>

theorem failed_start_watches_nothing:
  assumes "main_boot E p = (Inl e, p')"
  shows "pr_gos p' = pr_gos p"
  using assms
  by (auto simp: main_boot_def initConfig_def Let_def split: sum.splits prod.splits dest!: stages_watch_nothing)

text \<open>C6: A start that succeeds leaves the gateway in a state the theorems on the
  configuration loader are about: its loader is reachable with the change
  handler as its only handler and one watch under way; the proxy is the one
  Update makes for the loaded configuration, with the middlewares that the
  initialisations registered; a key is loaded, and requests are judged by the
  model and the policy on disk.\<close>

theorem startup_complete:
  assumes "main_boot E p = (Inr b, p')"
    and "pr_gos p = []" "\<not> jw_initialized (pr_jwt p)" "\<not> rb_initialized (pr_rbac p)"
  shows "fl_reachable (me_config E) (bt_loader b) (reloader (me_proxy E) (bt_clients b) (Create (pr_registry p')))
        \<lparr>ls_gos = pr_gos p', ls_world = loader_view p'\<rparr>
    \<and> fl_onChangeHandlers (pr_loader p') = [()] \<and> pr_gos p' = started_watchers (bt_loader b) 0
    \<and> (\<exists>x0 x1. Update (me_proxy E) (bt_clients b) (Create (pr_registry p')) (bt_config b) (proxy_New (me_proxy E))
          (upd_ext (share_auth (pr_jwt p') (pr_rbac p')) x0) = (None, serving (loader_view p'), x1))
    \<and> pr_registry p' = RegisterV2 ''circuitbreaker'' (me_breaker E (bt_clients b)) (boot_registry E (pr_registry p))
    \<and> jw_publicKey (pr_jwt p') \<noteq> None
    \<and> policy_on_disk (me_casbin E) (rb_localModelFile (pr_rbac p')) (rb_localPolicyFile (pr_rbac p')) (pr_rbac p') (file_at (pr_os p'))"
  using main_boot_ok [OF assms] by blast

definition boot_state :: "(nat, string, unit) auth_state" where
  "boot_state = \<lparr>rs_enforcer = None, rs_casdoorUrl = [], rs_userOwner = [], rs_cache = NewCache 0 0, rs_now = 0,
     rs_service = (None, ())\<rparr>"

text \<open>A factory whose selector finds no node.\<close>

definition idle_factory :: "'x factory_env" where
  "idle_factory = \<lparr>fe_client = (\<lambda>e. \<lparr>cx_select = (\<lambda>fs x. (Inl (PlainErr ''no node''), x)), cx_apply = (\<lambda>ns x. x), cx_nodes = (\<lambda>x. []),
       cx_do = (\<lambda>n r x. (Inl CtxCanceled, x)), cx_health = (\<lambda>x. None), cx_set_health = (\<lambda>h x. x)\<rparr>),
     fe_watch = (\<lambda>e s x. (False, x)), fe_cancel = (\<lambda>e x. x)\<rparr>"

definition demo_process :: "(nat, string, unit) process" where
  "demo_process =
    \<lparr>pr_os = \<lparr>os_files = [], os_dirs = [], os_env = [EnvConfigSourceFile \<mapsto> ''source.yaml'', JwtPubkeyPath \<mapsto> ''k/j'',
         PoliciesfilePath \<mapsto> ''k/p'', ModelFilePath \<mapsto> ''k/m''], os_calls = 0,
       os_fault = (\<lambda>_. None), os_rand = (\<lambda>n. ''1'')\<rparr>,
     pr_loader = \<lparr>fl_configData = [], fl_confSHA256 = [], fl_priorityConfigHash = [], fl_watchCancel = None, fl_closed = False,
       fl_onChangeHandlers = [], fl_canceled = [], fl_ext = (proxy_New sample_env, client_world boot_state)\<rparr>,
     pr_gos = [],
     pr_jwt = \<lparr>jw_publicKey = None, jw_publicKeyPath = [], jw_initialized = False, jw_registered = False, jw_watching = None\<rparr>,
     pr_rbac = \<lparr>rb_enforcer = None, rb_casdoorUrl = [], rb_userOwner = [], rb_initialized = False, rb_localPolicyFile = [],
       rb_localModelFile = [], rb_registered = False, rb_watching = []\<rparr>,
     pr_registry = Map.empty,
     pr_main = \<lparr>mn_ctrlService = [], mn_consulAddr = [], mn_priorityConfigDir = [], mn_withDebug = False\<rparr>\<rparr>"

definition demo_main :: "(nat, string, string, unit, unit) main_env" where
  "demo_main =
    \<lparr>me_sdk = \<lparr>sdk_LoadSourceConfig = (\<lambda>s w. (Inr \<lparr>cs_type = ConfigSourceConfigCenter, cs_key = ''config.yaml'', cs_rest = []\<rparr>, w)),
       sdk_Load = (\<lambda>c w. (Inr ''cert'', w)), sdk_rounds = (\<lambda>c. [])\<rparr>,
     me_config = demo_config_lib, me_jwt = demo_lib, me_casbin = demo_casbin, me_casdoor = demo_casdoor,
     me_discovery = discovery_Register ''consul'' (\<lambda>u w. Inr ()) discovery_NewRegistry,
     me_factory = (\<lambda>d. idle_factory), me_proxy = sample_env,
     me_breaker = (\<lambda>cf. wrapFactory ip_Middleware),
     me_range = id, me_debug = \<lparr>de_gorilla = sample_gorilla, de_not_found = (\<lambda>wr r w. Finished wr w),
       de_bad_method = (\<lambda>wr r w. Finished wr w), de_redirect = (\<lambda>u wr r w. Finished wr w)\<rparr>,
     me_pages = \<lparr>ds_handlers = Map.empty, ds_routes = []\<rparr>,
     me_proxy_pages = (\<lambda>wr r w. Finished wr w), me_config_pages = (\<lambda>wr r w. Finished wr w)\<rparr>"

abbreviation demo_choice :: source_choice where
  "demo_choice \<equiv> CenterChoice \<lparr>cs_type = ConfigSourceConfigCenter, cs_key = ''config.yaml'', cs_rest = []\<rparr>"

lemma demo_load:
  "\<exists>C q. load_stage demo_main (initConfig demo_process) = (Inr (demo_choice, C, demo_config), q) \<and> pr_os q = pr_os demo_process"
  by (simp add: load_stage_def choose_source_def demo_main_def demo_process_def initConfig_def os_Getenv_def Let_def with_loader_def
      view_def os.defs NewSourceLoader_def fl_initialize_def try_call_def configCenterSource_def configCenterSource_Load_def
      configForKey_def view_sdk_def decodeConfig_def mergePriorityConfig_def demo_config_lib_def priorityConfigSHA256_def upd_loader_def
      fl_Load_def validateKey_def path_Clean_def path_comps_def clean_comps_cases)

definition demo_env_os :: os where
  "demo_env_os = (pr_os demo_process)\<lparr>os_env := (os_env (pr_os demo_process))(''MODE'' \<mapsto> ''prod'')\<rparr>"

lemma demo_dirs: "path_Dir ''k/j'' = ''k''" "path_Dir ''k/p'' = ''k''" "path_Dir ''k/m'' = ''k''"
  by code_simp+

lemma demo_clean: "path_Clean ''k/j'' = ''k/j''" by code_simp

lemma demo_keys: "RelatedKey ''config.yaml'' (path_Join [SecretsDirName, JwtPublicFileName]) = ''secrets/public.pem''"
  "RelatedKey ''config.yaml'' policies_rel = policies_rel" "RelatedKey ''config.yaml'' model_rel = model_rel"
  by code_simp+

lemma demo_sdk:
  "so_Load (source_of (me_sdk demo_main) demo_choice) k w = (case validateKey k of Some e \<Rightarrow> (Inl e, w) | None \<Rightarrow> (Inr ''cert'', w))"
  "so_MainKey (source_of (me_sdk demo_main) demo_choice) = ''config.yaml''"
  "so_Name (source_of (me_sdk demo_main) demo_choice) = ConfigSourceConfigCenter"
  by (simp_all add: demo_main_def configCenterSource_def configCenterSource_Load_def configForKey_def view_sdk_def split: option.split)

lemma demo_valid: "validateKey ''secrets/public.pem'' = None" "validateKey policies_rel = None" "validateKey model_rel = None"
  by code_simp+

definition key_os :: "nat \<Rightarrow> os" where
  "key_os n = demo_env_os\<lparr>os_files := [(''k/j'', (''cert'', 384))], os_dirs := [''k''], os_calls := n\<rparr>"

lemma demo_jwt:
  "\<exists>w. jwt_Init demo_lib (source_of (me_sdk demo_main) demo_choice) (os.extend demo_env_os (pr_jwt demo_process)) = (None, w)
    \<and> (\<exists>n. os.truncate w = key_os n)"
proof -
  note sys_defs = sys_def os_Stat_def os_ReadFile_def os_MkdirAll_def os_CreateTemp_def os_Chmod_def os_Write_def
    os_Sync_def os_Close_def os_Rename_def os_Remove_def
  have p: "getPublicKeyPath (os.extend demo_env_os (pr_jwt demo_process)) = ''k/j''"
    by (simp add: getPublicKeyPath_def os_Getenv_def demo_env_os_def demo_process_def os.defs demo_clean)
  show ?thesis
    unfolding jwt_Init_def p Let_def SyncFile_def demo_sdk demo_keys demo_valid
    by (simp add: demo_dirs demo_env_os_def demo_process_def os.defs upd_vars_def ReplaceFile_def replaceFile_def
        fill_and_rename_def try_call_def sys_defs Let_def ancestors_def file_at_def set_file_def del_file_def
        is_not_exist_def temp_name.simps dir_base_def suffix_def validatePublicKey_def reloadPublicKey_def demo_lib_def key_os_def)
qed


lemma demo_rbac:
  "\<exists>w. InitEnforcer demo_casbin (source_of (me_sdk demo_main) demo_choice) (os.extend (key_os n) (pr_rbac demo_process)) = (None, w)
    \<and> os_env (os.truncate w) = os_env demo_env_os"
proof -
  note sys_defs = sys_def os_Stat_def os_ReadFile_def os_MkdirAll_def os_CreateTemp_def os_Chmod_def os_Write_def
    os_Sync_def os_Close_def os_Rename_def os_Remove_def
  show ?thesis
    unfolding InitEnforcer_def syncEssentialFiles_def SyncFile_def demo_sdk demo_keys demo_valid setupWatchers_def
    by (simp add: demo_dirs key_os_def demo_env_os_def demo_process_def os.defs upd_rbac_def ReplaceFile_def replaceFile_def
        initPaths_def initializeEnforcer_def fill_and_rename_def try_call_def sys_defs Let_def ancestors_def file_at_def set_file_def del_file_def
        is_not_exist_def temp_name.simps dir_base_def suffix_def validateFileContent_def demo_casbin_def os_Getenv_def adapter_read_def)
qed


lemma demo_auth:
  assumes "pr_os p = demo_env_os" "pr_jwt p = pr_jwt demo_process" "pr_rbac p = pr_rbac demo_process"
  shows "\<exists>p'. auth_stage demo_main demo_choice p = (Inr (), p')"
proof -
  have lib: "me_jwt demo_main = demo_lib" "me_casbin demo_main = demo_casbin" by (simp_all add: demo_main_def)
  obtain w n where j: "jwt_Init demo_lib (source_of (me_sdk demo_main) demo_choice) (os.extend demo_env_os (pr_jwt demo_process)) = (None, w)"
    and w: "os.truncate w = key_os n" using demo_jwt by blast
  obtain v where r: "InitEnforcer demo_casbin (source_of (me_sdk demo_main) demo_choice) (os.extend (key_os n) (pr_rbac demo_process)) = (None, v)"
    using demo_rbac by blast
  show ?thesis
    by (simp add: auth_stage_def with_jwt_def with_rbac_def view_def lib assms j w r Let_def del: source_of.simps)
qed

lemma demo_consul: "url_Parse ''consul://localhost:8500'' \<noteq> None \<and> ul_scheme (the (url_Parse ''consul://localhost:8500'')) = ''consul''"
  by code_simp

lemma demo_proxy:
  assumes "mn_consulAddr (pr_main p) = ''consul://localhost:8500''"
  shows "\<exists>cf p'. proxy_stage demo_main demo_config p = (Inr cf, p')"
proof -
  have "makeDiscovery (me_discovery demo_main) p = Inr (Some ())"
    using demo_consul by (auto simp: makeDiscovery_def discovery_Create_def assms demo_main_def discovery_Register_def)
  then show ?thesis by (simp add: proxy_stage_def Let_def Update_def demo_config_def)
qed

lemma demo_boot: "\<exists>b p'. main_boot demo_main demo_process = (Inr b, p')"
proof -
  obtain C q where ld: "load_stage demo_main (initConfig demo_process) = (Inr (demo_choice, C, demo_config), q)"
    and q: "pr_os q = pr_os demo_process" using demo_load by blast
  have f: "pr_jwt q = pr_jwt demo_process" "pr_rbac q = pr_rbac demo_process"
    using load_stage_ok [OF ld] by (auto simp: initConfig_def)
  have os2: "inject_envs (gc_envs demo_config) (me_range demo_main (remdups (map fst (gc_envs demo_config)))) (pr_os q) = demo_env_os"
    by (simp add: demo_config_def demo_main_def os_Setenv_def env_ok_def md_get_def q demo_env_os_def)
  obtain p2 where en: "env_stage demo_main demo_config q = (Inr (), p2)" and e2: "pr_os p2 = demo_env_os"
      "mn_consulAddr (pr_main p2) = ''consul://localhost:8500''"
    unfolding env_stage_def Let_def os2
    by (simp add: loadRuntimeConfig_def demo_env_os_def demo_process_def os_Getenv_def)
  note f2 = env_stage_ok [OF en]
  obtain p3 where au: "auth_stage demo_main demo_choice p2 = (Inr (), p3)"
    using demo_auth [OF e2(1)] f f2 by auto
  have "\<not> jw_initialized (pr_jwt p2)" "\<not> rb_initialized (pr_rbac p2)" using f f2 by (simp_all add: demo_process_def)
  then have "pr_main p3 = pr_main p2" using auth_stage_ok [OF au] by simp
  then obtain cf p4 where "proxy_stage demo_main demo_config p3 = (Inr cf, p4)" using demo_proxy e2 by metis
  then show ?thesis by (simp add: main_boot_def ld en au Let_def)
qed

theorem startup_complete_witness:
  "\<exists>b p'. main_boot demo_main demo_process = (Inr b, p') \<and> fl_onChangeHandlers (pr_loader p') = [()]
    \<and> jw_publicKey (pr_jwt p') \<noteq> None"
proof -
  obtain b p' where m: "main_boot demo_main demo_process = (Inr b, p')" using demo_boot by blast
  have "pr_gos demo_process = []" "\<not> jw_initialized (pr_jwt demo_process)" "\<not> rb_initialized (pr_rbac demo_process)"
    by (simp_all add: demo_process_def)
  from startup_complete [OF m this] m show ?thesis by blast
qed

definition no_source :: "(nat, string, unit) process" where
  "no_source = demo_process\<lparr>pr_os := (pr_os demo_process)\<lparr>os_env := Map.empty\<rparr>\<rparr>"

theorem failed_start_watches_nothing_witness:
  "\<exists>e p'. main_boot demo_main no_source = (Inl e, p') \<and> pr_gos p' = pr_gos no_source"
proof -
  have "fst (main_boot demo_main no_source) = Inl (NoSource (PlainErr ''required env CONFIG_SOURCE_FILE is missing''))"
    by (simp add: main_boot_def load_stage_def choose_source_def no_source_def demo_process_def initConfig_def os_Getenv_def)
  then obtain e p' where "main_boot demo_main no_source = (Inl e, p')" by (metis prod.collapse)
  then show ?thesis using failed_start_watches_nothing [of demo_main no_source] by blast
qed

end
