(* ===== verification/Client_Dial.thy ===== *)
theory Client_Dial
  imports Client_Settings Factory
begin

text \<open>
  The three HTTP clients of client/node.go: the settings of their transports and
  what the HTTP/2 ones do when they dial, down to the connection a node of the
  registry is reached by.  The dialer, the handshake of TLS and the transports
  themselves are parameters.
\<close>

section \<open>Clients\<close>

definition ClientKeepAlive :: int where
  "ClientKeepAlive = 30000000000"

definition ClientIdleConnTimeout :: int where
  "ClientIdleConnTimeout = 90000000000"

definition ClientTLSHandshakeTimeout :: int where
  "ClientTLSHandshakeTimeout = 10000000000"

definition ClientExpectContinueTimeout :: int where
  "ClientExpectContinueTimeout = 1000000000"

text \<open>The limits of a transport; zero means none.\<close>

record transport =
  tn_proxy_from_env :: bool
  tn_disable_compression :: bool
  tn_keep_alive :: int
  tn_max_idle :: nat
  tn_max_idle_per_host :: nat
  tn_max_per_host :: nat
  tn_idle_timeout :: int
  tn_handshake_timeout :: int
  tn_continue_timeout :: int

definition defaultClient :: transport where
  "defaultClient =
    \<lparr>tn_proxy_from_env = True, tn_disable_compression = True, tn_keep_alive = ClientKeepAlive,
     tn_max_idle = 10000, tn_max_idle_per_host = 1000, tn_max_per_host = 1000, tn_idle_timeout = ClientIdleConnTimeout,
     tn_handshake_timeout = ClientTLSHandshakeTimeout, tn_continue_timeout = ClientExpectContinueTimeout\<rparr>"

section \<open>Dialling\<close>

record tls_conf =
  tc_NextProtos :: "string list"
  tc_rest :: string

datatype 'c connection = PlainConn 'c | TlsConn 'c tls_conf

record ('c, 'x) net_lib =
  nl_dial :: "int \<Rightarrow> int \<Rightarrow> string \<Rightarrow> string \<Rightarrow> 'x \<Rightarrow> (err + 'c) \<times> 'x"
  nl_handshake :: "'c \<Rightarrow> tls_conf \<Rightarrow> 'x \<Rightarrow> err option \<times> 'x"
  nl_close :: "'c \<Rightarrow> 'x \<Rightarrow> 'x"

text \<open>DialTLSContext of the HTTP/2 client: without a TLS configuration the
  connection is plain.\<close>

definition h2_dial :: "('c, 'x) net_lib \<Rightarrow> client_vars \<Rightarrow> string \<Rightarrow> string \<Rightarrow> tls_conf option \<Rightarrow> 'x \<Rightarrow> (err + 'c connection) \<times> 'x" where
  "h2_dial N cv network addr cfg x =
    (case cfg of
       None \<Rightarrow> (case nl_dial N (cv_dialTimeout cv) ClientKeepAlive network addr x of
                  (Inl e, x1) \<Rightarrow> (Inl e, x1) | (Inr c, x1) \<Rightarrow> (Inr (PlainConn c), x1))
     | Some t \<Rightarrow>
         (case nl_dial N (cv_dialTimeout cv) ClientKeepAlive network addr x of
            (Inl e, x1) \<Rightarrow> (Inl e, x1)
          | (Inr rawConn, x1) \<Rightarrow>
              (let conf = (if tc_NextProtos t = [] then t\<lparr>tc_NextProtos := [''h2'', ''http/1.1'']\<rparr> else t)
               in case nl_handshake N rawConn conf x1 of
                    (Some e, x2) \<Rightarrow> (Inl e, nl_close N rawConn x2)
                  | (None, x2) \<Rightarrow> (Inr (TlsConn rawConn conf), x2))))"

text \<open>That of the client for HTTP/2 without TLS ignores the configuration.\<close>

definition h2c_dial :: "('c, 'x) net_lib \<Rightarrow> client_vars \<Rightarrow> string \<Rightarrow> string \<Rightarrow> tls_conf option \<Rightarrow> 'x \<Rightarrow> (err + 'c connection) \<times> 'x" where
  "h2c_dial N cv network addr cfg x =
    (case nl_dial N (cv_dialTimeout cv) ClientKeepAlive network addr x of
       (Inl e, x1) \<Rightarrow> (Inl e, x1) | (Inr c, x1) \<Rightarrow> (Inr (PlainConn c), x1))"

text \<open>How a node of a gRPC endpoint is dialled.\<close>

definition node_dial :: "('c, 'x) net_lib \<Rightarrow> client_vars \<Rightarrow> node \<Rightarrow> string \<Rightarrow> string \<Rightarrow> tls_conf option \<Rightarrow> 'x
    \<Rightarrow> (err + 'c connection) \<times> 'x" where
  "node_dial N cv n = (if nd_client n = GlobalH2Client then h2_dial N cv else h2c_dial N cv)"

section \<open>Hosts have no slash\<close>

lemma hex_value_range: "hex_value c = Some x \<Longrightarrow> x < 16"
  by (auto simp: hex_value_def Let_def split: if_splits)

lemma unescape_host_no_slash: "url_unescape EncodeHost s = Some t \<Longrightarrow> CHR ''/'' \<notin> set t"
proof (induction "EncodeHost" s arbitrary: t rule: url_unescape.induct)
  case (2 c cs)
  show ?case
  proof (cases "c = CHR ''%''")
    case False
    then obtain u where "url_unescape EncodeHost cs = Some u" "t = c # u" "\<not> (byte c < 128 \<and> \<not> host_char c)"
      using 2(4) by (auto split: if_splits)
    moreover have "byte (CHR ''/'') < 128" "\<not> host_char (CHR ''/'')"
      by (simp_all add: host_char_def is_alnum_def is_digit_def byte_def)
    ultimately show ?thesis using 2(3) False by auto
  next
    case True
    then obtain a b rest x y u where cs: "cs = a # b # rest" "hex_value a = Some x" "hex_value b = Some y"
      and u: "url_unescape EncodeHost rest = Some u" "t = char_of (16 * x + y) # u"
      and ok: "128 \<le> 16 * x + y \<or> a = CHR ''2'' \<and> b = CHR ''5''"
      using 2(4) by (auto split: list.splits option.splits if_splits)
    have "16 * x + y < 256" using hex_value_range [OF cs(2)] hex_value_range [OF cs(3)] by simp
    moreover have "16 * x + y \<noteq> 47" using ok cs by (auto simp: hex_value_def byte_def)
    moreover have "byte (CHR ''/'') = 47" by (simp add: byte_def)
    ultimately have "char_of (16 * x + y) \<noteq> CHR ''/''" by (metis byte_char_of)
    moreover have "CHR ''/'' \<notin> set u"
      by (rule 2(1) [OF True cs(1) refl refl cs(2,3) _ u(1)]) (use ok in auto)
    ultimately show ?thesis using u(2) by simp
  qed
qed simp

lemma parseHost_no_slash: "parseHost h = Some t \<Longrightarrow> CHR ''/'' \<notin> set h \<Longrightarrow> CHR ''/'' \<notin> set t"
  by (auto simp: parseHost_def Let_def dest!: in_set_takeD in_set_dropD dest: unescape_host_no_slash split: option.splits if_splits)

lemma url_host_no_slash: "url_Parse s = Some u \<Longrightarrow> CHR ''/'' \<notin> set (ul_host u)"
proof -
  have auth: "CHR ''/'' \<notin> set h" if "parseAuthority (takeWhile (\<lambda>c. c \<noteq> CHR ''/'') r) = Some h" for r h
    using that parseHost_no_slash
    by (auto simp: parseAuthority_def split: option.splits if_splits dest!: in_set_dropD set_takeWhileD)
  assume "url_Parse s = Some u"
  then obtain r where "url_parse_main r = Some u" by (auto simp: url_Parse_def split: prod.splits option.splits if_splits)
  then show ?thesis
    by (auto simp: url_parse_main_def Let_def auth split: prod.splits option.splits if_splits)
qed

lemma splitHostPort_no_slash: "splitHostPort s = Some (h, p) \<Longrightarrow> CHR ''/'' \<notin> set s \<Longrightarrow> CHR ''/'' \<notin> set h"
  by (auto simp: splitHostPort_def split: option.splits if_splits dest!: in_set_takeD in_set_dropD)

lemma formatInt_no_slash: "CHR ''/'' \<notin> set (formatInt i)"
  using dec_digits_all [of "nat i"] dec_digits_all [of "nat (- i)"]
  by (auto simp: formatInt_def list_all_iff is_digit_def byte_def)

lemma parseEndpoint_no_slash: "parseEndpoint es scheme secure = Some a \<Longrightarrow> CHR ''/'' \<notin> set a"
  by (induction es) (auto split: option.splits if_splits dest: url_host_no_slash)

lemma extractAddress_no_slash: "CHR ''/'' \<notin> set (extractAddressFromEndpoints es port)"
  by (induction es) (auto simp: formatInt_no_slash split: option.splits dest: url_host_no_slash splitHostPort_no_slash)

lemma instance_address_no_slash: "instance_address scheme ser = Some a \<Longrightarrow> CHR ''/'' \<notin> set a"
  using extractAddress_no_slash parseEndpoint_no_slash [of "si_endpoints ser" scheme False]
  by (auto simp: instance_address_def Let_def split: option.splits list.splits if_splits)

section \<open>Properties\<close>

text \<open>C17: A gRPC instance of the registry is always dialled in plaintext, whatever
  its endpoints say and whatever TLS configuration the transport hands over:
  no address of an instance starts with https://, by which the client with TLS
  is chosen.\<close>

theorem discovered_grpc_in_plaintext:
  assumes "ep_protocol e = GRPC" "n \<in> set (instance_nodes e services)"
    and "node_dial N cv n network addr cfg x = (Inr conn, x')"
  shows "nd_client n = GlobalH2CClient \<and> (\<exists>c. conn = PlainConn c)"
proof -
  obtain ser a where a: "instance_address (toLower (protocol_String (ep_protocol e))) ser = Some a"
    and n: "nd_client n = nd_client (newNode a (ep_protocol e) (Some (nodeWeight ser)) (si_metadata ser) (si_version ser) (si_name ser))"
    using assms(2) by (force simp: instance_nodes_def split: option.splits)
  have "\<not> hasPrefix a ''https://''"
    using instance_address_no_slash [OF a] by (auto simp: prefix_def)
  then have "nd_client n = GlobalH2CClient" by (simp add: n assms(1) newNode_def)
  then show ?thesis using assms(3) by (auto simp: node_dial_def h2c_dial_def split: prod.splits sum.splits)
qed

text \<open>An instance that offers nothing but a secure endpoint on another host.\<close>

definition secure_only :: service_instance where
  "secure_only = \<lparr>si_id = ''i'', si_name = ''pay'', si_version = [], si_metadata = [],
     si_endpoints = [''grpc://10.0.0.9:9443?isSecure=true'']\<rparr>"

definition grpc_endpoint_of :: "string \<Rightarrow> endpoint" where
  "grpc_endpoint_of p = sample_endpoint\<lparr>ep_path := p, ep_protocol := GRPC\<rparr>"

definition secure_url :: url where
  "secure_url = \<lparr>ul_scheme = ''grpc'', ul_opaque = [], ul_host = ''10.0.0.9:9443'', ul_path = [], ul_raw_query = ''isSecure=true''\<rparr>"

lemma secure_parses: "url_Parse ''grpc://10.0.0.9:9443?isSecure=true'' = Some secure_url"
  by code_simp

lemma secure_is: "IsSecure secure_url"
  by code_simp

lemma secure_port: "splitHostPort ''10.0.0.9:9443'' = Some (''10.0.0.9'', ''9443'')"
  by code_simp

lemma secure_number: "formatInt 9443 = ''9443''" "parseInt 64 ''9443'' = (9443, True)"
proof -
  show f: "formatInt 9443 = ''9443''"
    by (simp add: formatInt_def dec_digits.simps digit_char_def char_of_def bit_iff_odd)
  show "parseInt 64 ''9443'' = (9443, True)" using parseInt_formatInt_nat [of 9443 64] by (simp add: f)
qed

lemma secure_instance_address: "instance_address ''grpc'' secure_only = Some ''localhost:9443''"
  by (simp add: instance_address_def secure_only_def secure_parses secure_is Let_def secure_number)
     (simp add: secure_url_def secure_port secure_number)

definition loop_net :: "(string, unit) net_lib" where
  "loop_net = \<lparr>nl_dial = (\<lambda>t k n a x. (Inr a, x)), nl_handshake = (\<lambda>c t x. (None, x)), nl_close = (\<lambda>c x. x)\<rparr>"

text \<open>Such an instance becomes the same port of the local host.\<close>

theorem discovered_grpc_in_plaintext_witness:
  "\<exists>n \<in> set (instance_nodes (grpc_endpoint_of ''/pay'') [secure_only]). nd_address n = ''localhost:9443''
    \<and> node_dial loop_net client_var_init n ''tcp'' (nd_address n) (Some \<lparr>tc_NextProtos = [], tc_rest = []\<rparr>) () = (Inr (PlainConn ''localhost:9443''), ())"
proof -
  let ?e = "grpc_endpoint_of ''/pay''"
  let ?n = "newNode ''localhost:9443'' GRPC (Some (nodeWeight secure_only)) (si_metadata secure_only) (si_version secure_only) (si_name secure_only)"
  have "toLower (protocol_String GRPC) = ''grpc''" by code_simp
  then have n: "?n \<in> set (instance_nodes ?e [secure_only])"
    by (simp add: instance_nodes_def grpc_endpoint_of_def secure_instance_address)
  obtain conn where d: "node_dial loop_net client_var_init ?n ''tcp'' ''localhost:9443'' (Some \<lparr>tc_NextProtos = [], tc_rest = []\<rparr>) () = (Inr conn, ())"
    by (cases "nd_client ?n = GlobalH2Client") (simp_all add: node_dial_def h2_dial_def h2c_dial_def loop_net_def Let_def)
  have "ep_protocol ?e = GRPC" by (simp add: grpc_endpoint_of_def)
  from discovered_grpc_in_plaintext [OF this n d] have "nd_client ?n = GlobalH2CClient" by simp
  then have "node_dial loop_net client_var_init ?n ''tcp'' (nd_address ?n) (Some \<lparr>tc_NextProtos = [], tc_rest = []\<rparr>) () = (Inr (PlainConn ''localhost:9443''), ())"
    by (simp add: node_dial_def h2c_dial_def loop_net_def newNode_def)
  then show ?thesis using n by (intro bexI [of _ ?n]) (simp_all add: newNode_def)
qed

end
