(* ===== verification/Rbac_Locks.thy ===== *)
theory Rbac_Locks
  imports Rbac
begin

text \<open>
  The goroutines of package middleware/rbac: requests that judge by the
  enforcer under the read lock of enforcerMutex, and the two watches of
  setupWatchers, each of which replaces its file, builds a new enforcer from
  both files and switches to it under the write lock.  Every access to the
  files, to the lock and to the enforcer is a step, so the goroutines
  interleave freely.  The contents of a file that did not exist before its
  first update count as the empty string.
\<close>

section \<open>State\<close>

datatype rbac_file = ModelFile | PolicyFile

text \<open>A request with the read locks it holds and, before the end of the chain,
  the rbac layers behind the one it is in: an endpoint can have the middleware
  in the global list and in its own.\<close>

datatype req_pc =
    Looking nat nat
  | AtLock nat nat
  | Locked nat nat
  | Upstream nat
  | Leaving nat

text \<open>A watch, with the previous contents of its file, whether this is the
  reload after these were put back, and what it has built so far.\<close>

datatype 'e upd_pc =
    Quiet
  | Reload string bool
  | HaveModel string bool string
  | HaveEnforcer string bool 'e
  | AtWLock string bool 'e
  | WaitReaders string bool 'e
  | Switch string bool 'e
  | Undo string

text \<open>A writer that waits for the readers to leave keeps new readers out.\<close>

datatype writer = NoWriter | Pending rbac_file | Holding rbac_file

record 'e rbac_sys =
  ry_disk :: "rbac_file \<Rightarrow> string"
  ry_enforcer :: 'e
  ry_readers :: nat
  ry_writer :: writer
  ry_upd :: "rbac_file \<Rightarrow> 'e upd_pc"
  ry_req :: "req_pc list"

fun held :: "req_pc \<Rightarrow> nat" where
  "held (Looking h r) = h"
| "held (AtLock h r) = h"
| "held (Locked h r) = h"
| "held (Upstream h) = h"
| "held (Leaving h) = h"

section \<open>Steps\<close>

text \<open>The next layer, called with the lock still held.\<close>

definition inner :: "nat \<Rightarrow> nat \<Rightarrow> req_pc" where
  "inner h r = (case r of 0 \<Rightarrow> Upstream h | Suc n \<Rightarrow> Looking h n)"

text \<open>What a request does without the lock or under it: it is skipped by a
  rule, has no user or no role, or goes to the lock; it is refused or passes.\<close>

fun req_moves :: "req_pc \<Rightarrow> req_pc list" where
  "req_moves (Looking h r) = [AtLock h r, inner h r, Leaving h]"
| "req_moves (Locked h r) = [inner h r, Leaving h]"
| "req_moves _ = []"

definition upd_failed :: "string \<Rightarrow> bool \<Rightarrow> 'e upd_pc" where
  "upd_failed prev again = (if again then Quiet else Undo prev)"

text \<open>initializeEnforcer up to the write lock.\<close>

definition load_step :: "('m, 'e) casbin \<Rightarrow> (rbac_file \<Rightarrow> string) \<Rightarrow> 'e upd_pc \<Rightarrow> 'e upd_pc" where
  "load_step B disk pc =
    (case pc of
       Reload prev again \<Rightarrow> HaveModel prev again (disk ModelFile)
     | HaveModel prev again mc \<Rightarrow>
         (case cb_NewModelFromString B mc of
            Inl e \<Rightarrow> upd_failed prev again
          | Inr m \<Rightarrow> (case cb_NewEnforcer B m (disk PolicyFile) of
              Inl e \<Rightarrow> upd_failed prev again | Inr e0 \<Rightarrow> HaveEnforcer prev again e0))
     | HaveEnforcer prev again e0 \<Rightarrow>
         (case cb_LoadPolicy B e0 (disk PolicyFile) of
            Inl e \<Rightarrow> upd_failed prev again | Inr e1 \<Rightarrow> AtWLock prev again e1)
     | _ \<Rightarrow> pc)"

fun loading :: "'e upd_pc \<Rightarrow> (string \<times> bool) option" where
  "loading (Reload prev again) = Some (prev, again)"
| "loading (HaveModel prev again mc) = Some (prev, again)"
| "loading (HaveEnforcer prev again e) = Some (prev, again)"
| "loading _ = None"

definition set_req :: "nat \<Rightarrow> req_pc \<Rightarrow> 'e rbac_sys \<Rightarrow> 'e rbac_sys" where
  "set_req i pc s = s\<lparr>ry_req := (ry_req s)[i := pc]\<rparr>"

definition set_upd :: "rbac_file \<Rightarrow> 'e upd_pc \<Rightarrow> 'e rbac_sys \<Rightarrow> 'e rbac_sys" where
  "set_upd k pc s = s\<lparr>ry_upd := (ry_upd s)(k := pc)\<rparr>"

text \<open>A step is labelled with the request whose upstream call returns in it, if
  there is one; \<open>K\<close> bounds the rbac layers of an endpoint.\<close>

inductive rbac_step :: "('m, 'e) casbin \<Rightarrow> nat \<Rightarrow> nat option \<Rightarrow> 'e rbac_sys \<Rightarrow> 'e rbac_sys \<Rightarrow> bool"
  for B :: "('m, 'e) casbin" and K :: nat where
  req_enter: "r < K \<Longrightarrow> rbac_step B K None s (s\<lparr>ry_req := ry_req s @ [Looking 0 r]\<rparr>)"
| req_move: "\<lbrakk> i < length (ry_req s); pc \<in> set (req_moves (ry_req s ! i)) \<rbrakk> \<Longrightarrow> rbac_step B K None s (set_req i pc s)"
| req_rlock: "\<lbrakk> i < length (ry_req s); ry_req s ! i = AtLock h r; ry_writer s = NoWriter \<rbrakk>
    \<Longrightarrow> rbac_step B K None s (set_req i (Locked (Suc h) r) (s\<lparr>ry_readers := Suc (ry_readers s)\<rparr>))"
| req_answer: "\<lbrakk> i < length (ry_req s); ry_req s ! i = Upstream h \<rbrakk> \<Longrightarrow> rbac_step B K (Some i) s (set_req i (Leaving h) s)"
| req_runlock: "\<lbrakk> i < length (ry_req s); ry_req s ! i = Leaving (Suc h) \<rbrakk>
    \<Longrightarrow> rbac_step B K None s (set_req i (Leaving h) (s\<lparr>ry_readers := ry_readers s - 1\<rparr>))"
| upd_replace: "ry_upd s k = Quiet
    \<Longrightarrow> rbac_step B K None s (set_upd k (Reload (ry_disk s k) False) (s\<lparr>ry_disk := (ry_disk s)(k := c)\<rparr>))"
| upd_load: "loading (ry_upd s k) \<noteq> None \<Longrightarrow> rbac_step B K None s (set_upd k (load_step B (ry_disk s) (ry_upd s k)) s)"
| upd_io: "loading (ry_upd s k) = Some (prev, again) \<Longrightarrow> rbac_step B K None s (set_upd k (upd_failed prev again) s)"
| upd_undo: "ry_upd s k = Undo prev
    \<Longrightarrow> rbac_step B K None s (set_upd k (Reload prev True) (s\<lparr>ry_disk := (ry_disk s)(k := prev)\<rparr>))"
| upd_lock: "\<lbrakk> ry_upd s k = AtWLock prev again e; ry_writer s = NoWriter \<rbrakk>
    \<Longrightarrow> rbac_step B K None s (set_upd k (WaitReaders prev again e) (s\<lparr>ry_writer := Pending k\<rparr>))"
| upd_acquire: "\<lbrakk> ry_upd s k = WaitReaders prev again e; ry_readers s = 0 \<rbrakk>
    \<Longrightarrow> rbac_step B K None s (set_upd k (Switch prev again e) (s\<lparr>ry_writer := Holding k\<rparr>))"
| upd_switch: "ry_upd s k = Switch prev again e
    \<Longrightarrow> rbac_step B K None s (set_upd k Quiet (s\<lparr>ry_enforcer := e, ry_writer := NoWriter\<rparr>))"

text \<open>After InitEnforcer: no watch is at work and no request is under way.\<close>

definition rbac_start :: "(rbac_file \<Rightarrow> string) \<Rightarrow> 'e \<Rightarrow> 'e rbac_sys" where
  "rbac_start disk e = \<lparr>ry_disk = disk, ry_enforcer = e, ry_readers = 0, ry_writer = NoWriter, ry_upd = (\<lambda>k. Quiet), ry_req = []\<rparr>"

inductive rbac_reach :: "('m, 'e) casbin \<Rightarrow> nat \<Rightarrow> 'e rbac_sys \<Rightarrow> bool" for B :: "('m, 'e) casbin" and K :: nat where
  start: "enforcer_of B (disk ModelFile) (disk PolicyFile) = Some e \<Longrightarrow> rbac_reach B K (rbac_start disk e)"
| further: "\<lbrakk> rbac_reach B K s; rbac_step B K l s s' \<rbrakk> \<Longrightarrow> rbac_reach B K s'"

section \<open>Invariants\<close>

lemma set_req_sel [simp]:
  "ry_req (set_req i pc s) = (ry_req s)[i := pc]" "ry_readers (set_req i pc s) = ry_readers s"
  "ry_writer (set_req i pc s) = ry_writer s" "ry_upd (set_req i pc s) = ry_upd s" "ry_enforcer (set_req i pc s) = ry_enforcer s"
  "ry_disk (set_req i pc s) = ry_disk s"
  by (simp_all add: set_req_def)

lemma set_upd_sel [simp]:
  "ry_upd (set_upd k pc s) = (ry_upd s)(k := pc)" "ry_readers (set_upd k pc s) = ry_readers s"
  "ry_writer (set_upd k pc s) = ry_writer s" "ry_req (set_upd k pc s) = ry_req s" "ry_enforcer (set_upd k pc s) = ry_enforcer s"
  "ry_disk (set_upd k pc s) = ry_disk s"
  by (simp_all add: set_upd_def)

text \<open>The lock counts the read locks held; a request holds one for every layer
  it has passed; the writer is the watch that is at the lock.\<close>

fun depth_ok :: "nat \<Rightarrow> req_pc \<Rightarrow> bool" where
  "depth_ok K (Looking h r) \<longleftrightarrow> h + r < K"
| "depth_ok K (AtLock h r) \<longleftrightarrow> h + r < K"
| "depth_ok K (Locked h r) \<longleftrightarrow> 0 < h \<and> h + r \<le> K"
| "depth_ok K _ \<longleftrightarrow> True"

definition readers_ok :: "'e rbac_sys \<Rightarrow> bool" where
  "readers_ok s \<longleftrightarrow> ry_readers s = sum_list (map held (ry_req s))"

definition writer_ok :: "'e rbac_sys \<Rightarrow> bool" where
  "writer_ok s \<longleftrightarrow>
    (\<forall>k. (ry_writer s = Pending k) = (\<exists>p a e. ry_upd s k = WaitReaders p a e))
    \<and> (\<forall>k. (ry_writer s = Holding k) = (\<exists>p a e. ry_upd s k = Switch p a e))
    \<and> (\<forall>k. ry_writer s = Holding k \<longrightarrow> ry_readers s = 0)"

lemma held_moves: "pc' \<in> set (req_moves pc) \<Longrightarrow> held pc' = held pc"
  by (cases pc) (auto simp: inner_def split: nat.split)

lemma depth_moves: "pc' \<in> set (req_moves pc) \<Longrightarrow> depth_ok K pc \<Longrightarrow> depth_ok K pc'"
  by (cases pc) (auto simp: inner_def split: nat.split)

lemma held_le_sum: "i < length xs \<Longrightarrow> held (xs ! i) \<le> sum_list (map held xs)"
  using elem_le_sum_list [of i "map held xs"] by simp

lemma sum_held_update: "i < length xs \<Longrightarrow> sum_list (map held (xs[i := pc])) + held (xs ! i) = sum_list (map held xs) + held pc"
  using held_le_sum [of i xs] by (simp add: map_update sum_list_update)

lemma readers_step: "rbac_step B K l s s' \<Longrightarrow> readers_ok s \<Longrightarrow> readers_ok s'"
proof (induction rule: rbac_step.induct)
  case (req_move i s pc)
  then show ?case using sum_held_update [of i "ry_req s" pc] held_moves [of pc "ry_req s ! i"] by (simp add: readers_ok_def)
next
  case (req_rlock i s h r)
  then show ?case using sum_held_update [of i "ry_req s" "Locked (Suc h) r"] by (simp add: readers_ok_def)
next
  case (req_answer i s h)
  then show ?case using sum_held_update [of i "ry_req s" "Leaving h"] by (simp add: readers_ok_def)
next
  case (req_runlock i s h)
  then show ?case using sum_held_update [of i "ry_req s" "Leaving h"] by (simp add: readers_ok_def)
qed (simp_all add: readers_ok_def)

lemma loading_not_at_lock: "loading pc \<noteq> None \<Longrightarrow> pc \<noteq> WaitReaders p a e \<and> pc \<noteq> Switch p a e"
  by (cases pc) auto

lemma load_step_not_at_lock: "loading pc \<noteq> None \<Longrightarrow> load_step B d pc \<noteq> WaitReaders p a e \<and> load_step B d pc \<noteq> Switch p a e"
  by (cases pc) (auto simp: load_step_def upd_failed_def split: sum.splits)

lemma writer_step: "rbac_step B K l s s' \<Longrightarrow> writer_ok s \<Longrightarrow> writer_ok s'"
proof (induction rule: rbac_step.induct)
  case (upd_load s k)
  then show ?case using loading_not_at_lock [of "ry_upd s k"] load_step_not_at_lock [of "ry_upd s k" B "ry_disk s"]
    by (auto simp: writer_ok_def)
next
  case (upd_io s k prev again)
  then show ?case using loading_not_at_lock [of "ry_upd s k"] by (auto simp: writer_ok_def upd_failed_def)
next
  case (upd_acquire s k prev again e)
  then have "ry_writer s = Pending k" unfolding writer_ok_def by blast
  then show ?case using upd_acquire by (auto simp: writer_ok_def)
next
  case (upd_switch s k prev again e)
  then have "ry_writer s = Holding k" unfolding writer_ok_def by blast
  then show ?case using upd_switch by (auto simp: writer_ok_def)
qed (auto simp: writer_ok_def)

lemma depth_step: "rbac_step B K l s s' \<Longrightarrow> list_all (depth_ok K) (ry_req s) \<Longrightarrow> list_all (depth_ok K) (ry_req s')"
proof (induction rule: rbac_step.induct)
  case (req_move i s pc)
  then show ?case using depth_moves [OF req_move(2), of K] by (auto simp: list_all_length nth_list_update)
next
  case (req_rlock i s h r)
  then show ?case by (auto simp: list_all_length nth_list_update dest!: spec [of _ i])
next
  case (req_enter r s)
  then show ?case by simp
qed (auto simp: list_all_length nth_list_update)

lemma reach_ok: "rbac_reach B K s \<Longrightarrow> readers_ok s \<and> writer_ok s \<and> list_all (depth_ok K) (ry_req s)"
proof (induction rule: rbac_reach.induct)
  case (further s l s')
  then show ?case using readers_step writer_step depth_step by blast
qed (simp add: readers_ok_def writer_ok_def rbac_start_def)

section \<open>A switch waits for the upstream calls\<close>

text \<open>The request sits at a call that does not return, or at the lock, with a
  read lock in its hands.\<close>

fun sits :: "req_pc \<Rightarrow> bool" where
  "sits (Upstream h) \<longleftrightarrow> 0 < h"
| "sits (AtLock h r) \<longleftrightarrow> 0 < h"
| "sits _ \<longleftrightarrow> False"

definition held_at :: "'e rbac_sys \<Rightarrow> nat \<Rightarrow> nat" where
  "held_at s j = (if j < length (ry_req s) then held (ry_req s ! j) else 0)"

definition frozen :: "nat \<Rightarrow> req_pc \<Rightarrow> rbac_file \<Rightarrow> 'e rbac_sys \<Rightarrow> 'e rbac_sys \<Rightarrow> bool" where
  "frozen i pc k s s' \<longleftrightarrow> i < length (ry_req s') \<and> ry_req s' ! i = pc \<and> ry_writer s' = Pending k
    \<and> ry_enforcer s' = ry_enforcer s \<and> (\<forall>j. held_at s' j \<le> held_at s j)"

lemma frozen_step:
  assumes "rbac_step B K l t t'" "frozen i pc k s t" "sits pc" "l \<noteq> Some i \<or> (\<exists>h r. pc = AtLock h r)"
    and ok: "readers_ok t" "writer_ok t"
  shows "frozen i pc k s t'"
proof -
  have pc: "i < length (ry_req t)" "ry_req t ! i = pc" and w: "ry_writer t = Pending k"
    and e: "ry_enforcer t = ry_enforcer s" and le: "\<And>j. held_at t j \<le> held_at s j"
    using assms(2) by (auto simp: frozen_def)
  have "0 < held pc" using assms(3) by (cases pc) auto
  then have pos: "0 < ry_readers t" using held_le_sum [OF pc(1)] pc(2) ok(1) by (simp add: readers_ok_def)
  have no_switch: "ry_upd t k' \<noteq> Switch p a e'" for k' p a e'
    using ok(2) w unfolding writer_ok_def by (metis writer.distinct(5))
  have mono: "frozen i pc k s t'" if "i < length (ry_req t')" "ry_req t' ! i = pc" "ry_writer t' = Pending k"
    "ry_enforcer t' = ry_enforcer t" "\<And>j. held_at t' j \<le> held_at t j"
    using that e le order_trans unfolding frozen_def by metis
  have same: "frozen i pc k s t'" if "ry_req t' = ry_req t" "ry_writer t' = ry_writer t" "ry_enforcer t' = ry_enforcer t"
    by (rule mono) (simp_all add: that pc w held_at_def)
  show ?thesis
    using assms(1)
  proof cases
    case (req_enter r)
    show ?thesis by (rule mono) (auto simp: req_enter pc w held_at_def nth_append less_SucI)
  next
    case (req_move j pc')
    then have "j \<noteq> i" using assms(3) pc(2) by (cases pc) auto
    then show ?thesis using held_moves [OF req_move(4)] req_move by (intro mono) (auto simp: pc w held_at_def nth_list_update)
  next
    case (req_answer j h)
    then have "j \<noteq> i" using assms(4) pc(2) by auto
    then show ?thesis using req_answer by (intro mono) (auto simp: pc w held_at_def nth_list_update)
  next
    case (req_runlock j h)
    then have "j \<noteq> i" using assms(3) pc(2) by auto
    then show ?thesis using req_runlock by (intro mono) (auto simp: pc w held_at_def nth_list_update)
  next
    case (upd_acquire k' p a e')
    then show ?thesis using pos by simp
  next
    case (upd_replace k' c)
    then show ?thesis by (intro same) simp_all
  next
    case (upd_load k')
    then show ?thesis by (intro same) simp_all
  next
    case (upd_io k' p a)
    then show ?thesis by (intro same) simp_all
  next
    case (upd_undo k' p)
    then show ?thesis by (intro same) simp_all
  qed (use w no_switch assms(3) pc in auto)
qed

lemma frozen_steps:
  assumes "(\<lambda>t t'. \<exists>l. (l \<noteq> Some i \<or> (\<exists>h r. pc = AtLock h r)) \<and> rbac_step B K l t t')\<^sup>*\<^sup>* s s'"
    and "rbac_reach B K s" "i < length (ry_req s)" "ry_req s ! i = pc" "sits pc" "ry_writer s = Pending k"
  shows "frozen i pc k s s' \<and> rbac_reach B K s'"
  using assms(1)
proof (induction rule: rtranclp_induct)
  case base
  then show ?case using assms(2-6) by (simp add: frozen_def)
next
  case (step t t')
  then obtain l where l: "l \<noteq> Some i \<or> (\<exists>h r. pc = AtLock h r)" "rbac_step B K l t t'" by blast
  show ?case
    using frozen_step [OF l(2) _ assms(5) l(1)] step.IH reach_ok rbac_reach.further [OF _ l(2)] by blast
qed

text \<open>C32: The read lock is held until the call upstream returns.  So while one such
  call does not return, an update of the policy that has come to the lock
  waits, the old enforcer stays in force, and no request of any endpoint gets
  past its rbac middleware.\<close>

theorem pending_update_stops_requests:
  assumes "rbac_reach B K s" "i < length (ry_req s)" "ry_req s ! i = Upstream h" "0 < h" "ry_writer s = Pending k"
    and "(\<lambda>t t'. \<exists>l. l \<noteq> Some i \<and> rbac_step B K l t t')\<^sup>*\<^sup>* s s'"
  shows "ry_writer s' = Pending k \<and> ry_enforcer s' = ry_enforcer s
    \<and> (\<forall>j < length (ry_req s'). held (ry_req s' ! j) \<le> (if j < length (ry_req s) then held (ry_req s ! j) else 0))"
proof -
  have "(\<lambda>t t'. \<exists>l. (l \<noteq> Some i \<or> (\<exists>h' r. Upstream h = AtLock h' r)) \<and> rbac_step B K l t t')\<^sup>*\<^sup>* s s'"
    using assms(6) by (rule rtranclp_mono [THEN predicate2D, rotated]) auto
  from frozen_steps [OF this assms(1-3)] assms(4,5) have "frozen i (Upstream h) k s s'" by simp
  then show ?thesis by (auto simp: frozen_def held_at_def split: if_splits)
qed

section \<open>Runs\<close>

text \<open>The steps as a function of a choice, so that a run can be evaluated.\<close>

datatype choice =
    Enter nat
  | Move nat nat
  | RLock nat
  | Answer nat
  | RUnlock nat
  | Replace rbac_file string
  | Load rbac_file
  | WLock rbac_file
  | Acquire rbac_file
  | DoSwitch rbac_file

fun do_choice :: "('m, 'e) casbin \<Rightarrow> nat \<Rightarrow> choice \<Rightarrow> 'e rbac_sys \<Rightarrow> 'e rbac_sys option" where
  "do_choice B K (Enter r) s = (if r < K then Some (s\<lparr>ry_req := ry_req s @ [Looking 0 r]\<rparr>) else None)"
| "do_choice B K (Move i n) s =
     (if i < length (ry_req s) \<and> n < length (req_moves (ry_req s ! i)) then Some (set_req i (req_moves (ry_req s ! i) ! n) s) else None)"
| "do_choice B K (RLock i) s =
     (if i < length (ry_req s) then
        (case (ry_req s ! i, ry_writer s) of
           (AtLock h r, NoWriter) \<Rightarrow> Some (set_req i (Locked (Suc h) r) (s\<lparr>ry_readers := Suc (ry_readers s)\<rparr>))
         | _ \<Rightarrow> None)
      else None)"
| "do_choice B K (Answer i) s =
     (if i < length (ry_req s) then (case ry_req s ! i of Upstream h \<Rightarrow> Some (set_req i (Leaving h) s) | _ \<Rightarrow> None) else None)"
| "do_choice B K (RUnlock i) s =
     (if i < length (ry_req s) then
        (case ry_req s ! i of Leaving (Suc h) \<Rightarrow> Some (set_req i (Leaving h) (s\<lparr>ry_readers := ry_readers s - 1\<rparr>)) | _ \<Rightarrow> None)
      else None)"
| "do_choice B K (Replace k c) s =
     (case ry_upd s k of Quiet \<Rightarrow> Some (set_upd k (Reload (ry_disk s k) False) (s\<lparr>ry_disk := (ry_disk s)(k := c)\<rparr>)) | _ \<Rightarrow> None)"
| "do_choice B K (Load k) s =
     (if loading (ry_upd s k) \<noteq> None then Some (set_upd k (load_step B (ry_disk s) (ry_upd s k)) s) else None)"
| "do_choice B K (WLock k) s =
     (case (ry_upd s k, ry_writer s) of
        (AtWLock p a e, NoWriter) \<Rightarrow> Some (set_upd k (WaitReaders p a e) (s\<lparr>ry_writer := Pending k\<rparr>)) | _ \<Rightarrow> None)"
| "do_choice B K (Acquire k) s =
     (case ry_upd s k of
        WaitReaders p a e \<Rightarrow> (if ry_readers s = 0 then Some (set_upd k (Switch p a e) (s\<lparr>ry_writer := Holding k\<rparr>)) else None)
      | _ \<Rightarrow> None)"
| "do_choice B K (DoSwitch k) s =
     (case ry_upd s k of Switch p a e \<Rightarrow> Some (set_upd k Quiet (s\<lparr>ry_enforcer := e, ry_writer := NoWriter\<rparr>)) | _ \<Rightarrow> None)"

fun run :: "('m, 'e) casbin \<Rightarrow> nat \<Rightarrow> choice list \<Rightarrow> 'e rbac_sys \<Rightarrow> 'e rbac_sys option" where
  "run B K [] s = Some s"
| "run B K (c # cs) s = (case do_choice B K c s of None \<Rightarrow> None | Some s' \<Rightarrow> run B K cs s')"

lemma do_choice_step: "do_choice B K c s = Some s' \<Longrightarrow> \<exists>l. rbac_step B K l s s'"
  by (cases c)
     (auto split: if_splits req_pc.splits writer.splits upd_pc.splits nat.splits intro: rbac_step.intros rbac_step.req_runlock [simplified] nth_mem)

lemma run_reach: "run B K cs s = Some s' \<Longrightarrow> rbac_reach B K s \<Longrightarrow> rbac_reach B K s'"
  by (induction cs arbitrary: s) (auto split: option.splits dest!: do_choice_step intro: rbac_reach.further)

definition two_files :: "string \<Rightarrow> string \<Rightarrow> rbac_file \<Rightarrow> string" where
  "two_files m p k = (case k of ModelFile \<Rightarrow> m | PolicyFile \<Rightarrow> p)"

lemma demo_start: "rbac_reach demo_casbin K (rbac_start (two_files ''m1'' ''p1'') ''m1p1'')"
  by (rule rbac_reach.start) (simp add: enforcer_of_def demo_casbin_def two_files_def)

text \<open>A request at its upstream and an update of the policy at the lock.\<close>

definition stuck_run :: "choice list" where
  "stuck_run = [Enter 0, Move 0 0, RLock 0, Move 0 0, Replace PolicyFile ''p2'', Load PolicyFile, Load PolicyFile,
     Load PolicyFile, WLock PolicyFile]"

definition seen :: "'e rbac_sys \<Rightarrow> req_pc list \<times> writer \<times> 'e upd_pc \<times> 'e upd_pc \<times> string \<times> string \<times> 'e" where
  "seen s = (ry_req s, ry_writer s, ry_upd s ModelFile, ry_upd s PolicyFile, ry_disk s ModelFile, ry_disk s PolicyFile, ry_enforcer s)"

lemma stuck_state: "map_option seen (run demo_casbin 1 stuck_run (rbac_start (two_files ''m1'' ''p1'') ''m1p1''))
    = Some ([Upstream 1], Pending PolicyFile, Quiet, WaitReaders ''p1'' False ''m1p2'', ''m1'', ''p2'', ''m1p1'')"
  by code_simp

theorem pending_update_stops_requests_witness:
  "\<exists>s. rbac_reach demo_casbin 1 s \<and> ry_writer s = Pending PolicyFile \<and> held (ry_req s ! 0) \<le> 1"
proof -
  obtain s where r: "run demo_casbin 1 stuck_run (rbac_start (two_files ''m1'' ''p1'') ''m1p1'') = Some s"
    and s: "ry_req s = [Upstream 1]" "ry_writer s = Pending PolicyFile"
    using stuck_state by (auto simp: seen_def)
  have reach: "rbac_reach demo_casbin 1 s" by (rule run_reach [OF r demo_start])
  have "ry_writer s = Pending PolicyFile \<and> ry_enforcer s = ry_enforcer s
    \<and> (\<forall>j < length (ry_req s). held (ry_req s ! j) \<le> (if j < length (ry_req s) then held (ry_req s ! j) else 0))"
    by (rule pending_update_stops_requests [OF reach, of 0 1]) (simp_all add: s)
  then show ?thesis using reach s by auto
qed

section \<open>Two layers\<close>

text \<open>C33: With the rbac middleware both in the global list and in that of an
  endpoint, an update can come to the lock between the two read locks of one
  request: the writer waits for the request, the request for the writer, and
  from then on no request of any endpoint gets past its rbac middleware and no
  update takes effect, whatever happens.\<close>

theorem two_layers_deadlock:
  "\<exists>s k. rbac_reach demo_casbin 2 s \<and> ry_req s = [AtLock 1 0] \<and> ry_writer s = Pending k
    \<and> (\<forall>s'. (\<lambda>t t'. \<exists>l. rbac_step demo_casbin 2 l t t')\<^sup>*\<^sup>* s s' \<longrightarrow>
          ry_req s' ! 0 = AtLock 1 0 \<and> ry_writer s' = Pending k \<and> ry_enforcer s' = ry_enforcer s
          \<and> (\<forall>j < length (ry_req s'). 0 < j \<longrightarrow> held (ry_req s' ! j) = 0))"
proof -
  let ?run = "[Enter 1, Move 0 0, RLock 0, Move 0 0, Replace PolicyFile ''p2'', Load PolicyFile, Load PolicyFile,
     Load PolicyFile, WLock PolicyFile, Move 0 0]"
  have "map_option seen (run demo_casbin 2 ?run (rbac_start (two_files ''m1'' ''p1'') ''m1p1''))
      = Some ([AtLock 1 0], Pending PolicyFile, Quiet, WaitReaders ''p1'' False ''m1p2'', ''m1'', ''p2'', ''m1p1'')"
    by code_simp
  then obtain s where r: "run demo_casbin 2 ?run (rbac_start (two_files ''m1'' ''p1'') ''m1p1'') = Some s"
    and s: "ry_req s = [AtLock 1 0]" "ry_writer s = Pending PolicyFile" by (auto simp: seen_def)
  have reach: "rbac_reach demo_casbin 2 s" by (rule run_reach [OF r demo_start])
  have fz: "frozen 0 (AtLock 1 0) PolicyFile s s'" if "(\<lambda>t t'. \<exists>l. rbac_step demo_casbin 2 l t t')\<^sup>*\<^sup>* s s'" for s'
  proof -
    have "(\<lambda>t t'. \<exists>l. (l \<noteq> Some 0 \<or> (\<exists>h r. AtLock 1 0 = AtLock h r)) \<and> rbac_step demo_casbin 2 l t t')\<^sup>*\<^sup>* s s'"
      using that by (rule rtranclp_mono [THEN predicate2D, rotated]) auto
    from frozen_steps [OF this reach, of PolicyFile] show ?thesis by (simp add: s)
  qed
  have none: "held (ry_req s' ! j) = 0" if "frozen 0 (AtLock 1 0) PolicyFile s s'" "j < length (ry_req s')" "0 < j" for s' j
  proof -
    have "held_at s' j \<le> held_at s j" using that(1) by (simp add: frozen_def)
    then show ?thesis using that(2,3) s by (simp add: held_at_def)
  qed
  have fin: "ry_req s' ! 0 = AtLock 1 0 \<and> ry_writer s' = Pending PolicyFile \<and> ry_enforcer s' = ry_enforcer s
          \<and> (\<forall>j < length (ry_req s'). 0 < j \<longrightarrow> held (ry_req s' ! j) = 0)"
    if "(\<lambda>t t'. \<exists>l. rbac_step demo_casbin 2 l t t')\<^sup>*\<^sup>* s s'" for s'
    using fz [OF that] none [OF fz [OF that]] by (simp add: frozen_def)
  show ?thesis
    by (rule exI [of _ s], rule exI [of _ PolicyFile], intro conjI allI impI, rule reach, rule s(1), rule s(2), (use fin in blast)+)
qed

theorem two_layers_deadlock_witness:
  "\<exists>s s'. rbac_reach demo_casbin 2 s \<and> ry_req s = [AtLock 1 0] \<and> rbac_step demo_casbin 2 None s s'
    \<and> length (ry_req s') = 2 \<and> ry_req s' ! 0 = AtLock 1 0 \<and> ry_writer s' \<noteq> NoWriter \<and> held (ry_req s' ! 1) = 0"
proof -
  obtain s k where s: "rbac_reach demo_casbin 2 s" "ry_req s = [AtLock 1 0]"
    and stuck: "\<And>s'. (\<lambda>t t'. \<exists>l. rbac_step demo_casbin 2 l t t')\<^sup>*\<^sup>* s s' \<Longrightarrow>
          ry_req s' ! 0 = AtLock 1 0 \<and> ry_writer s' = Pending k \<and> (\<forall>j < length (ry_req s'). 0 < j \<longrightarrow> held (ry_req s' ! j) = 0)"
    using two_layers_deadlock by blast
  let ?s = "s\<lparr>ry_req := ry_req s @ [Looking 0 1]\<rparr>"
  have step: "rbac_step demo_casbin 2 None s ?s" by (rule req_enter) simp
  then have "(\<lambda>t t'. \<exists>l. rbac_step demo_casbin 2 l t t')\<^sup>*\<^sup>* s ?s" by blast
  from stuck [OF this] s step show ?thesis by (intro exI [of _ s] exI [of _ ?s]) simp
qed

section \<open>Overlapping reloads\<close>

text \<open>C34: The two watches reload independently: one that has read the old model
  before the other replaced it can switch last.  Then both are done, nothing
  failed, and requests are judged by an enforcer that is not the one of the
  files on disk.\<close>

theorem overlapping_reloads_leave_stale_enforcer:
  "\<exists>s. rbac_reach demo_casbin 1 s \<and> ry_upd s = (\<lambda>k. Quiet) \<and> ry_writer s = NoWriter
    \<and> enforcer_of demo_casbin (ry_disk s ModelFile) (ry_disk s PolicyFile) = Some ''m2p2'' \<and> ry_enforcer s = ''m1p2''"
proof -
  let ?run = "[Replace PolicyFile ''p2'', Load PolicyFile, Replace ModelFile ''m2'', Load ModelFile, Load ModelFile, Load ModelFile,
     WLock ModelFile, Acquire ModelFile, DoSwitch ModelFile, Load PolicyFile, Load PolicyFile, WLock PolicyFile, Acquire PolicyFile,
     DoSwitch PolicyFile]"
  have "map_option seen (run demo_casbin 1 ?run (rbac_start (two_files ''m1'' ''p1'') ''m1p1''))
      = Some ([], NoWriter, Quiet, Quiet, ''m2'', ''p2'', ''m1p2'')"
    by code_simp
  then obtain s where r: "run demo_casbin 1 ?run (rbac_start (two_files ''m1'' ''p1'') ''m1p1'') = Some s"
    and s: "ry_upd s ModelFile = Quiet" "ry_upd s PolicyFile = Quiet" "ry_writer s = NoWriter" "ry_disk s ModelFile = ''m2''"
      "ry_disk s PolicyFile = ''p2''" "ry_enforcer s = ''m1p2''"
    by (auto simp: seen_def)
  have "ry_upd s = (\<lambda>k. Quiet)" using s rbac_file.exhaust by (metis ext)
  moreover have "rbac_reach demo_casbin 1 s" by (rule run_reach [OF r demo_start])
  ultimately show ?thesis using s by (intro exI [of _ s]) (simp add: enforcer_of_def demo_casbin_def)
qed

section \<open>One layer\<close>

lemma reach_steps: "(\<lambda>t t'. \<exists>l. rbac_step B K l t t')\<^sup>*\<^sup>* s s' \<Longrightarrow> rbac_reach B K s \<Longrightarrow> rbac_reach B K s'"
  by (induction rule: rtranclp_induct) (auto intro: rbac_reach.further)

lemma steps_one: "(\<lambda>t t'. \<exists>l. rbac_step B K l t t')\<^sup>*\<^sup>* s t \<Longrightarrow> rbac_step B K l t t'
    \<Longrightarrow> (\<lambda>t t'. \<exists>l. rbac_step B K l t t')\<^sup>*\<^sup>* s t'"
  by (rule rtranclp.rtrancl_into_rtrancl) blast+

text \<open>A request that holds its only lock can leave.\<close>

lemma leave_one:
  assumes "i < length (ry_req s)" "0 < held (ry_req s ! i)" "depth_ok 1 (ry_req s ! i)"
  shows "\<exists>t h. (\<lambda>t t'. \<exists>l. rbac_step B 1 l t t')\<^sup>*\<^sup>* s t \<and> i < length (ry_req t) \<and> ry_req t ! i = Leaving (Suc h)
    \<and> ry_readers t = ry_readers s \<and> ry_upd t = ry_upd s"
proof (cases "ry_req s ! i")
  case (Locked h r)
  then obtain h' where h: "h = Suc h'" using assms(2) by (cases h) auto
  have "rbac_step B 1 None s (set_req i (Leaving h) s)" by (rule req_move) (simp_all add: assms(1) Locked)
  then show ?thesis using assms(1) h by (intro exI [of _ "set_req i (Leaving h) s"] exI [of _ h']) auto
next
  case (Upstream h)
  then obtain h' where h: "h = Suc h'" using assms(2) by (cases h) auto
  have "rbac_step B 1 (Some i) s (set_req i (Leaving h) s)" by (rule req_answer) (simp_all add: assms(1) Upstream)
  then show ?thesis using assms(1) h by (intro exI [of _ "set_req i (Leaving h) s"] exI [of _ h']) auto
next
  case (Leaving h)
  then obtain h' where "h = Suc h'" using assms(2) by (cases h) auto
  then show ?thesis using assms(1) Leaving by (intro exI [of _ s] exI [of _ h']) simp
qed (use assms in auto)

lemma drain_readers:
  "rbac_reach B 1 s \<Longrightarrow> \<exists>t. (\<lambda>t t'. \<exists>l. rbac_step B 1 l t t')\<^sup>*\<^sup>* s t \<and> ry_readers t = 0 \<and> ry_upd t = ry_upd s"
proof (induction "ry_readers s" arbitrary: s rule: less_induct)
  case less
  show ?case
  proof (cases "ry_readers s = 0")
    case False
    note ok = reach_ok [OF less.prems]
    then have "sum_list (map held (ry_req s)) \<noteq> 0" using False by (simp add: readers_ok_def)
    then obtain i where i: "i < length (ry_req s)" "0 < held (ry_req s ! i)"
      by (auto simp: sum_list_eq_0_iff in_set_conv_nth)
    have "depth_ok 1 (ry_req s ! i)" using ok i(1) by (simp add: list_all_length)
    then obtain t h where t: "(\<lambda>t t'. \<exists>l. rbac_step B 1 l t t')\<^sup>*\<^sup>* s t" "i < length (ry_req t)" "ry_req t ! i = Leaving (Suc h)"
      "ry_readers t = ry_readers s" "ry_upd t = ry_upd s"
      using leave_one [OF i] by blast
    let ?u = "set_req i (Leaving h) (t\<lparr>ry_readers := ry_readers t - 1\<rparr>)"
    have su: "(\<lambda>t t'. \<exists>l. rbac_step B 1 l t t')\<^sup>*\<^sup>* s ?u"
      by (rule steps_one [OF t(1) req_runlock [OF t(2,3)]])
    have "ry_readers ?u < ry_readers s" using False t(4) by simp
    from less.hyps [OF this reach_steps [OF su less.prems]] obtain v where
      "(\<lambda>t t'. \<exists>l. rbac_step B 1 l t t')\<^sup>*\<^sup>* ?u v" "ry_readers v = 0" "ry_upd v = ry_upd s" using t(5) by auto
    then show ?thesis using su by (meson rtranclp_trans)
  qed auto
qed

text \<open>With one rbac layer there is no such deadlock: from every reachable state
  in which an update has come to the lock, the requests can leave (their
  upstream calls returning) and the new enforcer come into force.\<close>

theorem single_layer_update_can_finish:
  assumes "rbac_reach B 1 s" "ry_upd s k = WaitReaders p a e"
  shows "\<exists>s'. (\<lambda>t t'. \<exists>l. rbac_step B 1 l t t')\<^sup>*\<^sup>* s s' \<and> ry_enforcer s' = e \<and> ry_upd s' k = Quiet \<and> ry_writer s' = NoWriter"
proof -
  obtain t where t: "(\<lambda>t t'. \<exists>l. rbac_step B 1 l t t')\<^sup>*\<^sup>* s t" "ry_readers t = 0" "ry_upd t k = WaitReaders p a e"
    using drain_readers [OF assms(1)] assms(2) by metis
  let ?u = "set_upd k (Switch p a e) (t\<lparr>ry_writer := Holding k\<rparr>)"
  let ?v = "set_upd k Quiet (?u\<lparr>ry_enforcer := e, ry_writer := NoWriter\<rparr>)"
  have u: "rbac_step B 1 None t ?u" by (rule upd_acquire [OF t(3,2)])
  have "rbac_step B 1 None ?u ?v" by (rule upd_switch) simp
  then have "(\<lambda>t t'. \<exists>l. rbac_step B 1 l t t')\<^sup>*\<^sup>* s ?v"
    using steps_one [OF steps_one [OF t(1) u]] by blast
  then show ?thesis by (intro exI [of _ ?v]) simp
qed

theorem single_layer_update_can_finish_witness:
  "\<exists>s s'. rbac_reach demo_casbin 1 s \<and> ry_req s = [Upstream 1] \<and> ry_enforcer s = ''m1p1''
    \<and> (\<lambda>t t'. \<exists>l. rbac_step demo_casbin 1 l t t')\<^sup>*\<^sup>* s s' \<and> ry_enforcer s' = ''m1p2''"
proof -
  obtain s where r: "run demo_casbin 1 stuck_run (rbac_start (two_files ''m1'' ''p1'') ''m1p1'') = Some s"
    and s: "ry_req s = [Upstream 1]" "ry_upd s PolicyFile = WaitReaders ''p1'' False ''m1p2''" "ry_enforcer s = ''m1p1''"
    using stuck_state by (auto simp: seen_def)
  have reach: "rbac_reach demo_casbin 1 s" by (rule run_reach [OF r demo_start])
  from single_layer_update_can_finish [OF reach s(2)] reach s show ?thesis by blast
qed

end
