(* ===== verification/Json_Out.thy ===== *)
theory Json_Out
  imports Go_Json Go_Regexp
begin

text \<open>
  The encoder of encoding/json, as the debug pages use it: values of structs,
  maps and slices, and the string literals with the escapes of the default
  encoder (HTML characters, control characters, U+2028 and U+2029, U+FFFD for a
  byte that is not UTF-8).
\<close>

section \<open>String literals\<close>

definition json_hex :: "nat \<Rightarrow> char" where
  "json_hex n = ''0123456789abcdef'' ! n"

definition json_byte :: "char \<Rightarrow> string" where
  "json_byte c =
    (let b = byte c
     in if b = 0x22 \<or> b = 0x5C then [CHR 0x5C, c]
        else if b = 0x08 then [CHR 0x5C, CHR ''b'']
        else if b = 0x0C then [CHR 0x5C, CHR ''f'']
        else if b = 0x0A then [CHR 0x5C, CHR ''n'']
        else if b = 0x0D then [CHR 0x5C, CHR ''r'']
        else if b = 0x09 then [CHR 0x5C, CHR ''t'']
        else if b < 0x20 \<or> b \<in> {0x26, 0x3C, 0x3E} then [CHR 0x5C, CHR ''u'', CHR ''0'', CHR ''0'', json_hex (b div 16), json_hex (b mod 16)]
        else [c])"

definition json_rune :: "string \<Rightarrow> string" where
  "json_rune u =
    (if u = bytes [0xE2, 0x80, 0xA8] then CHR 0x5C # ''u2028''
     else if u = bytes [0xE2, 0x80, 0xA9] then CHR 0x5C # ''u2029''
     else u)"

function json_escape :: "string \<Rightarrow> string" where
  "json_escape [] = []"
| "json_escape (c # s) =
     (if byte c < 0x80 then json_byte c @ json_escape s
      else if rune_width (c # s) = 1 then CHR 0x5C # ''ufffd'' @ json_escape s
      else json_rune (take (rune_width (c # s)) (c # s)) @ json_escape (drop (rune_width (c # s)) (c # s)))"
  by pat_completeness auto

termination
  by (relation "measure length") (auto simp: rune_width_ne_pos)

definition json_quote :: "string \<Rightarrow> string" where
  "json_quote s = CHR 0x22 # json_escape s @ [CHR 0x22]"

section \<open>Values\<close>

text \<open>A nil slice or map is null; the keys of a map come in the order of their
  bytes, the fields of a struct in the order of the type.\<close>

datatype json_value =
    JNull
  | JStr string
  | JNum int
  | JBool bool
  | JArr "json_value list"
  | JObj "(string \<times> json_value) list"

fun json_text :: "json_value \<Rightarrow> string" where
  "json_text JNull = ''null''"
| "json_text (JStr s) = json_quote s"
| "json_text (JNum n) = formatInt n"
| "json_text (JBool b) = (if b then ''true'' else ''false'')"
| "json_text (JArr vs) = CHR ''['' # join_str '','' (map json_text vs) @ '']''"
| "json_text (JObj fs) = CHR ''{'' # join_str '','' (map (\<lambda>(k, v). json_quote k @ CHR '':'' # json_text v) fs) @ ''}''"

definition json_map :: "(string \<times> json_value) list \<Rightarrow> json_value" where
  "json_map kvs = JObj (sort_key fst kvs)"

definition json_strings :: "string list option \<Rightarrow> json_value" where
  "json_strings l = (case l of None \<Rightarrow> JNull | Some ss \<Rightarrow> JArr (map JStr ss))"

section \<open>What is encoded is read back\<close>

lemma utf8_ascii: "n < 0x80 \<Longrightarrow> utf8_encode n = [char_of n]"
  by (simp add: utf8_encode_def bytes_def)

lemma hex_nibble_json_hex: "n < 16 \<Longrightarrow> hex_nibble (json_hex n) = Some n"
  by (auto simp: json_hex_def hex_nibble_def byte_def less_Suc_eq numeral_eq_Suc)

lemma hex4_json_hex:
  assumes "n < 0x80"
  shows "hex4 (CHR ''0'' # CHR ''0'' # json_hex (n div 16) # json_hex (n mod 16) # t) = Some (n, t)"
proof -
  have "hex_nibble (CHR ''0'') = Some 0" by (simp add: hex_nibble_def byte_def)
  then show ?thesis using assms hex_nibble_json_hex [of "n div 16"] hex_nibble_json_hex [of "n mod 16"] by simp
qed

lemma json_string_unit:
  assumes "u = c # v" "c \<noteq> CHR 0x22" "json_unit c (v @ t) = Some (x, t)"
  shows "json_string (u @ t) = map_option (\<lambda>(y, r). (x @ y, r)) (json_string t)"
  using assms by simp

lemma json_string_escape:
  assumes "json_unit (CHR 0x5C) (v @ t) = Some (x, t)"
  shows "json_string (CHR 0x5C # v @ t) = map_option (\<lambda>(y, r). (x @ y, r)) (json_string t)"
  using assms by simp

lemma json_string_byte:
  assumes c: "byte c < 0x80"
  shows "json_string (json_byte c @ t) = map_option (\<lambda>(y, r). (c # y, r)) (json_string t)"
proof -
  have char: "c = char_of n" if "byte c = n" for n using that char_of_byte [of c] by simp
  have b5: "byte (CHR 0x5C) = 0x5C" by (simp add: byte_def)
  consider (pair) "byte c \<in> {0x22, 0x5C, 8, 0x0C, 0x0A, 0x0D, 9}"
    | (hex) "byte c \<notin> {0x22, 0x5C, 8, 0x0C, 0x0A, 0x0D, 9}" "byte c < 0x20 \<or> byte c \<in> {0x26, 0x3C, 0x3E}"
    | (plain) "byte c \<notin> {0x22, 0x5C}" "\<not> byte c < 0x20" "byte c \<notin> {0x26, 0x3C, 0x3E}"
    by fastforce
  then show ?thesis
  proof cases
    case pair
    then have "c \<in> {CHR 0x22, CHR 0x5C, CHR 0x08, CHR 0x0C, CHR 0x0A, CHR 0x0D, CHR 0x09}" by (simp add: byte_inj [symmetric]) (auto simp: byte_def)
    then have "\<exists>d. json_byte c = [CHR 0x5C, d] \<and> d \<noteq> CHR ''u'' \<and> simple_escape d = Some c"
      by (elim insertE emptyE) (simp_all add: json_byte_def Let_def simple_escape_def byte_def)
    then obtain d where d: "json_byte c = [CHR 0x5C, d]" "d \<noteq> CHR ''u''" "simple_escape d = Some c" by blast
    then have "json_unit (CHR 0x5C) ([d] @ t) = Some ([c], t)" by (simp add: json_unit_def b5)
    from json_string_escape [OF this] show ?thesis by (simp add: d)
  next
    case hex
    have e: "json_byte c = CHR 0x5C # CHR ''u'' # CHR ''0'' # CHR ''0'' # json_hex (byte c div 16) # [json_hex (byte c mod 16)]"
      using hex by (auto simp: json_byte_def Let_def)
    have s: "\<not> high_surrogate (byte c) \<and> \<not> low_surrogate (byte c)" using c by (simp add: high_surrogate_def low_surrogate_def)
    have "json_unit (CHR 0x5C) ((CHR ''u'' # CHR ''0'' # CHR ''0'' # json_hex (byte c div 16) # [json_hex (byte c mod 16)]) @ t) = Some ([c], t)"
      using hex4_json_hex [OF c, of t] s by (simp add: json_unit_def b5 join_surrogates_def utf8_ascii [OF c] del: hex4.simps)
    from json_string_escape [OF this] show ?thesis by (simp add: e)
  next
    case plain
    then have e: "json_byte c = [c]" "c \<noteq> CHR 0x22" using c by (auto simp: json_byte_def Let_def byte_def)
    then have "json_unit c ([] @ t) = Some ([c], t)" using plain c by (simp add: json_unit_def)
    from json_string_unit [OF _ e(2) this] show ?thesis by (simp add: e)
  qed
qed

lemma wide_first: "1 < rune_width (c # cs) \<Longrightarrow> 0xC2 \<le> byte c"
  by (simp add: rune_width_def Let_def split: if_splits)

lemma cont_ok_drop: "cont_ok lo hi (drop n cs) \<Longrightarrow> n < length cs"
  by (rule ccontr) simp

lemma rune_width_length: "rune_width (c # cs) \<le> length (c # cs)"
proof -
  consider "rune_width (c # cs) = 1" | "rune_width (c # cs) = 2" | "rune_width (c # cs) = 3" | "rune_width (c # cs) = 4"
    using rune_width_range [of c cs] by auto
  then show ?thesis
  proof cases
    case 2
    then show ?thesis using rune_width_2 [of c cs] by (cases cs) auto
  next
    case 3
    then show ?thesis using cont_ok_drop [of "0x80" "0xBF" 1 cs] rune_width_3 [of c cs] by simp
  next
    case 4
    then show ?thesis using cont_ok_drop [of "0x80" "0xBF" 2 cs] rune_width_4 [of c cs] by simp
  qed simp
qed

lemma rune_width_take:
  assumes "1 < rune_width s" "u = take (rune_width s) s"
  shows "rune_width (u @ t) = rune_width s" "length u = rune_width s"
proof -
  obtain c cs where s: "s = c # cs" using assms by (cases s) (auto simp: rune_width_def)
  have len: "rune_width s \<le> length s" unfolding s by (rule rune_width_length)
  then show "length u = rune_width s" using assms by simp
  consider "rune_width s = 2" | "rune_width s = 3" | "rune_width s = 4"
    using assms rune_width_range [of c cs] s by auto
  then show "rune_width (u @ t) = rune_width s"
  proof cases
    case 1
    then obtain d ds where cs: "cs = d # ds" using s len by (cases cs) auto
    show ?thesis using 1 assms(2) by (auto simp: s cs rune_width_def Let_def split: if_splits)
  next
    case 2
    then obtain d e ds where cs: "cs = d # e # ds" using s len by (cases cs; cases "tl cs") auto
    show ?thesis using 2 assms(2) by (auto simp: s cs rune_width_def Let_def split: if_splits)
  next
    case 3
    then obtain d e f ds where cs: "cs = d # e # f # ds" using s len by (cases cs; cases "tl cs"; cases "tl (tl cs)") auto
    show ?thesis using 3 assms(2) by (auto simp: s cs rune_width_def Let_def split: if_splits)
  qed
qed

lemma json_string_rune:
  assumes w: "1 < rune_width s" and u: "u = take (rune_width s) s"
  shows "json_string (json_rune u @ t) = map_option (\<lambda>(y, r). (u @ y, r)) (json_string t)"
proof -
  have b5: "byte (CHR 0x5C) = 0x5C" by (simp add: byte_def)
  have sep: "json_unit (CHR 0x5C) (''u2028'' @ t) = Some (bytes [0xE2, 0x80, 0xA8], t)"
    "json_unit (CHR 0x5C) (''u2029'' @ t) = Some (bytes [0xE2, 0x80, 0xA9], t)"
    by (simp_all add: json_unit_def b5 hex_nibble_def byte_def join_surrogates_def high_surrogate_def low_surrogate_def utf8_encode_def)
  show ?thesis
  proof (cases "u = bytes [0xE2, 0x80, 0xA8] \<or> u = bytes [0xE2, 0x80, 0xA9]")
    case True
    then show ?thesis
      using json_string_escape [OF sep(1)] json_string_escape [OF sep(2)] by (auto simp: json_rune_def)
  next
    case False
    obtain c cs where s: "s = c # cs" using w by (cases s) (auto simp: rune_width_def)
    then obtain v where c: "u = c # v" using w u by (cases "rune_width s") auto
    have hd: "0xC2 \<le> byte c" using wide_first w s by simp
    have "take (rune_width s) (c # v @ t) = c # v \<and> drop (rune_width s) (c # v @ t) = t"
      using rune_width_take(2) [OF w u] c by (metis append_Cons append_eq_conv_conj)
    then have "json_unit c (v @ t) = Some (u, t)"
      using hd w rune_width_take(1) [OF w u, of t] c by (simp add: json_unit_def)
    moreover have "c \<noteq> CHR 0x22" using hd by (auto simp: byte_def)
    ultimately show ?thesis using json_string_unit [OF c] False by (simp add: json_rune_def)
  qed
qed

text \<open>A valid string comes back from its literal as it was, and nothing of
  what follows the literal is consumed.\<close>

theorem json_literal_roundtrip: "valid_utf8 s \<Longrightarrow> json_string (json_escape s @ CHR 0x22 # t) = Some (s, t)"
proof (induction s rule: json_escape.induct)
  case (2 c s)
  let ?w = "rune_width (c # s)"
  show ?case
  proof (cases "byte c < 0x80")
    case True
    then have "valid_utf8 s" using 2(4) by (subst (asm) valid_utf8.simps) (simp add: rune_width_ascii)
    then show ?thesis using True 2(1) by (simp add: json_string_byte)
  next
    case False
    then have w: "?w \<noteq> 1" "valid_utf8 (drop ?w (c # s))" using 2(4) valid_utf8.simps [of "c # s"] by (simp_all split: if_splits)
    then have "1 < ?w" using rune_width_ne_pos [of "c # s"] by simp
    from json_string_rune [OF this refl] show ?thesis using False w 2(3) by simp
  qed
qed simp

theorem json_literal_roundtrip_witness:
  "json_string (json_escape (CHR ''<'' # CHR 0x0A # CHR 0x5C # bytes [0xC3, 0xA9, 0xE2, 0x80, 0xA8]) @ CHR 0x22 # '','')
    = Some (CHR ''<'' # CHR 0x0A # CHR 0x5C # bytes [0xC3, 0xA9, 0xE2, 0x80, 0xA8], '','')"
  by (rule json_literal_roundtrip) code_simp

end
