(* ===== verification/Debug_Pages.thy ===== *)
theory Debug_Pages
  imports Json_Out Go_Values Entry Service_Watch Gateway_Reload Ctrl_Loader
begin

text \<open>
  The pages the components register with the debug service: the handlers
  DebugHandler of config/config.go, client/servicewatch.go, proxy/proxy.go and
  config/config-loader/ctrl-loader.go, and the listing of the routes in
  router/mux/mux.go.  Each is a handler on the state of its component.
  Protojson, the JSON form of a registry instance and what gorilla/mux tells of
  a route are parameters.
\<close>

section \<open>Answers\<close>

text \<open>\<open>json.NewEncoder(rw).Encode(v)\<close> after the content type is set.\<close>

definition json_reply :: "json_value \<Rightarrow> response_writer \<Rightarrow> 'w \<Rightarrow> 'w outcome" where
  "json_reply v wr w =
    Finished (writeChunk (RawBytes (json_text v @ [CHR 0x0A])) (set_header ''Content-Type'' ''application/json'' wr)) w"

definition error_reply :: "int \<Rightarrow> string \<Rightarrow> response_writer \<Rightarrow> 'w \<Rightarrow> 'w outcome" where
  "error_reply code body wr w =
    (case writeHeader code wr of None \<Rightarrow> HPanic wr w | Some wr1 \<Rightarrow> Finished (writeChunk (RawBytes body) wr1) w)"

definition http_NotFound :: "response_writer \<Rightarrow> 'w \<Rightarrow> 'w outcome" where
  "http_NotFound wr w =
    error_reply 404 (''404 page not found'' @ [CHR 0x0A])
      (set_header ''X-Content-Type-Options'' ''nosniff'' (set_header ''Content-Type'' ''text/plain; charset=utf-8''
        (wr\<lparr>rw_header := hdel (rw_header wr) ''Content-Length''\<rparr>))) w"

text \<open>A ServeMux whose patterns are plain paths: an unclean path is redirected,
  a path without a handler not found.\<close>

definition serve_pages :: "(string \<Rightarrow> 'w handler) \<Rightarrow> (string \<times> 'w handler) list \<Rightarrow> 'w handler" where
  "serve_pages redirect ps wr r w =
    (if rq_method r \<noteq> ''CONNECT'' \<and> cleanPath (rq_path r) \<noteq> rq_path r then redirect (cleanPath (rq_path r)) wr r w
     else case map_of ps (rq_path r) of None \<Rightarrow> http_NotFound wr w | Some h \<Rightarrow> h wr r w)"

text \<open>\<open>r.URL.Query().Get("service")\<close>\<close>

definition query_service :: "request \<Rightarrow> string" where
  "query_service r =
    (case cut_char (CHR ''?'') (rq_request_uri r) of (_, q, _) \<Rightarrow>
       (case values_get (parse_query q) ''service'' of [] \<Rightarrow> [] | v # _ \<Rightarrow> v))"

section \<open>The loader of the configuration\<close>

record router_inspect =
  ri_PathTemplate :: string
  ri_PathRegexp :: string
  ri_QueriesTemplates :: "string list option"
  ri_QueriesRegexps :: "string list option"
  ri_Methods :: "string list option"

record page_lib =
  pg_protojson :: "gateway_config \<Rightarrow> string"
  pg_instance :: "service_instance \<Rightarrow> json_value"
  pg_route :: "matcher list \<Rightarrow> router_inspect"

definition inspect_file_loader :: "('h, 'x) loader_world loader_const \<Rightarrow> ('h, 'x) file_loader \<Rightarrow> json_value" where
  "inspect_file_loader C f =
    JObj [(''source'', JStr (so_Name (lc_source C))), (''configKey'', JStr (lc_confKey C)),
      (''confSha256'', JStr (fl_confSHA256 f)),
      (''priorityConfigHash'', json_map (map (\<lambda>(k, v). (k, JStr v)) (fl_priorityConfigHash f))),
      (''onChangeHandlers'', JNum (int (length (fl_onChangeHandlers f))))]"

definition config_inspect :: "('h, 'x) loader_world loader_const \<Rightarrow> ('h, 'x) loader_world handler" where
  "config_inspect C wr r w = json_reply (inspect_file_loader C (os.more w)) wr w"

definition config_load :: "gw_libs \<Rightarrow> page_lib \<Rightarrow> config_lib \<Rightarrow> ('h, 'x) loader_world loader_const \<Rightarrow> ('h, 'x) loader_world handler" where
  "config_load G P L C wr r w =
    (case fl_Load L C w of
       (Inl e, w1) \<Rightarrow> error_reply 500 (err_text (lib_kratos_text G) e) wr w1
     | (Inr cfg, w1) \<Rightarrow>
         Finished (writeChunk (RawBytes (pg_protojson P cfg)) (set_header ''Content-Type'' ''application/json'' wr)) w1)"

definition config_version :: "gw_libs \<Rightarrow> config_lib \<Rightarrow> ('h, 'x) loader_world loader_const \<Rightarrow> ('h, 'x) loader_world handler" where
  "config_version G L C wr r w =
    (case fl_Load L C w of
       (Inl e, w1) \<Rightarrow> error_reply 500 (err_text (lib_kratos_text G) e) wr w1
     | (Inr cfg, w1) \<Rightarrow> json_reply (json_map [(''version'', JStr (gc_version cfg))]) wr w1)"

definition config_DebugHandler :: "(string \<Rightarrow> ('h, 'x) loader_world handler) \<Rightarrow> gw_libs \<Rightarrow> page_lib \<Rightarrow> config_lib
    \<Rightarrow> ('h, 'x) loader_world loader_const \<Rightarrow> ('h, 'x) loader_world handler" where
  "config_DebugHandler redirect G P L C =
    serve_pages redirect
      [(''/debug/config/inspect'', config_inspect C), (''/debug/config/load'', config_load G P L C),
       (''/debug/config/version'', config_version G L C)]"

section \<open>The service watcher\<close>

text \<open>The instances are null before the first push, and no push stores an empty
  list; an applier has no exported fields.\<close>

definition watcher_nodes :: "page_lib \<Rightarrow> ('a, 'x) service_watcher handler" where
  "watcher_nodes P wr r s =
    json_reply (case getSelectedCache (query_service r) s of
                  None \<Rightarrow> JNull
                | Some is \<Rightarrow> if is = [] then JNull else JArr (map (pg_instance P) is)) wr s"

definition watcher_appliers :: "('a, 'x) service_watcher handler" where
  "watcher_appliers wr r s =
    json_reply (case getAppliers (query_service r) s of
                  None \<Rightarrow> JNull
                | Some as \<Rightarrow> json_map (map (\<lambda>(uuid, a). (uuid, JObj [])) as)) wr s"

definition watcher_DebugHandler :: "(string \<Rightarrow> ('a, 'x) service_watcher handler) \<Rightarrow> page_lib \<Rightarrow> ('a, 'x) service_watcher handler" where
  "watcher_DebugHandler redirect P =
    serve_pages redirect [(''/debug/watcher/nodes'', watcher_nodes P), (''/debug/watcher/appliers'', watcher_appliers)]"

section \<open>The routes\<close>

definition inspect_json :: "router_inspect \<Rightarrow> json_value" where
  "inspect_json i =
    JObj [(''path_template'', JStr (ri_PathTemplate i)), (''path_regexp'', JStr (ri_PathRegexp i)),
      (''queries_templates'', json_strings (ri_QueriesTemplates i)), (''queries_regexps'', json_strings (ri_QueriesRegexps i)),
      (''methods'', json_strings (ri_Methods i))]"

text \<open>The walk visits every route of the router in the order of registration.\<close>

definition InspectMuxRouter :: "page_lib \<Rightarrow> 'w mux_router \<Rightarrow> router_inspect list" where
  "InspectMuxRouter P router = map (\<lambda>r. pg_route P (rou_matchers r)) (mr_routes router)"

definition proxy_inspect :: "page_lib \<Rightarrow> 'v proxy \<Rightarrow> 'w handler" where
  "proxy_inspect P p wr r w =
    json_reply (let l = InspectMuxRouter P (py_router p) in if l = [] then JNull else JArr (map inspect_json l)) wr w"

definition proxy_DebugHandler :: "(string \<Rightarrow> 'w handler) \<Rightarrow> page_lib \<Rightarrow> 'v proxy \<Rightarrow> 'w handler" where
  "proxy_DebugHandler redirect P p = serve_pages redirect [(''/debug/proxy/router/inspect'', proxy_inspect P p)]"

section \<open>The control loader\<close>

definition inspect_ctrl_loader :: "ctrl_loader \<Rightarrow> json_value" where
  "inspect_ctrl_loader c =
    JObj [(''ctrl_service'', JArr (map JStr (cc_services c))), (''ctrl_service_idx'', JNum (int (cc_idx c))),
      (''next_ctrl_service'', JBool (cc_next c)), (''dst_path'', JStr (cc_dst c)), (''hostname'', JStr (cc_name c)),
      (''advertise_addr'', JStr (cc_addr c))]"

definition ctrl_inspect :: "(ctrl_loader \<times> 'a os_scheme) handler" where
  "ctrl_inspect wr r s = json_reply (inspect_ctrl_loader (fst s)) wr s"

definition ctrl_load_page :: "gw_libs \<Rightarrow> 'a os_scheme ctrl_lib \<Rightarrow> (ctrl_loader \<times> 'a os_scheme) handler" where
  "ctrl_load_page G L wr r s =
    (if rq_method r \<noteq> ''POST'' then
       (case writeHeader 405 wr of None \<Rightarrow> HPanic wr s | Some wr1 \<Rightarrow> Finished wr1 s)
     else
       (case ctrl_Load L (fst s) (snd s) of
          (CtrlPanic, s1) \<Rightarrow> HPanic wr s1
        | (CtrlErr e, s1) \<Rightarrow> error_reply 500 (err_text (lib_kratos_text G) e) wr s1
        | (CtrlOk u, s1) \<Rightarrow> json_reply (JObj []) wr s1))"

definition ctrl_DebugHandler :: "(string \<Rightarrow> (ctrl_loader \<times> 'a os_scheme) handler) \<Rightarrow> gw_libs \<Rightarrow> 'a os_scheme ctrl_lib
    \<Rightarrow> (ctrl_loader \<times> 'a os_scheme) handler" where
  "ctrl_DebugHandler redirect G L =
    serve_pages redirect [(''/debug/ctrl/inspect'', ctrl_inspect), (''/debug/ctrl/load'', ctrl_load_page G L)]"

section \<open>What the pages do\<close>

lemma json_reply_sent:
  "rw_sent wr = None \<Longrightarrow> \<exists>wr' h. json_reply v wr w = Finished wr' w \<and> rw_sent wr' = Some (200, h) \<and> rw_chunks wr' = rw_chunks wr @ [RawBytes (json_text v @ [CHR 0x0A])]"
  by (simp add: json_reply_def writeChunk_def set_header_def)

lemma json_reply_finishes: "\<exists>wr'. json_reply v wr w = Finished wr' w"
  by (simp add: json_reply_def)

lemma error_reply_finishes: "100 \<le> code \<Longrightarrow> code \<le> 999 \<Longrightarrow> \<exists>wr'. error_reply code body wr w = Finished wr' w"
  by (auto simp: error_reply_def writeHeader_def)

lemma http_NotFound_finishes: "\<exists>wr'. http_NotFound wr w = Finished wr' w"
  unfolding http_NotFound_def by (rule error_reply_finishes) simp_all

lemma serve_pages_keeps:
  assumes "\<And>u wr. \<exists>wr' w'. redirect u wr r w = Finished wr' w' \<and> Q w'"
    and "\<And>p h wr. (p, h) \<in> set ps \<Longrightarrow> \<exists>wr' w'. h wr r w = Finished wr' w' \<and> Q w'"
    and "Q w"
  shows "\<exists>wr' w'. serve_pages redirect ps wr r w = Finished wr' w' \<and> Q w'"
  using assms http_NotFound_finishes [of wr w] by (auto simp: serve_pages_def split: option.split dest!: map_of_SomeD)

lemma config_pages_keep:
  "\<exists>wr' w'. config_load G P L C wr r w = Finished wr' w' \<and> same_rest w w'"
  "\<exists>wr' w'. config_version G L C wr r w = Finished wr' w' \<and> same_rest w w'"
proof -
  obtain res w1 where load: "fl_Load L C w = (res, w1)" by fastforce
  then have "same_rest w w1" by (auto simp: fl_Load_def dest: decodeConfig_rest)
  then show "\<exists>wr' w'. config_load G P L C wr r w = Finished wr' w' \<and> same_rest w w'"
    "\<exists>wr' w'. config_version G L C wr r w = Finished wr' w' \<and> same_rest w w'"
    using error_reply_finishes [of 500 "err_text (lib_kratos_text G) (projl res)" wr w1]
      json_reply_finishes [of "json_map [(''version'', JStr (gc_version (projr res)))]" wr w1]
    by (cases res; auto simp: config_load_def config_version_def load)+
qed

text \<open>The pages of the loader do not panic and change neither the loader nor the
  environment, whatever fails below them.\<close>

theorem config_pages_only_read:
  assumes "\<And>u wr. \<exists>wr'. redirect u wr r w = Finished wr' w"
  shows "\<exists>wr' w'. config_DebugHandler redirect G P L C wr r w = Finished wr' w' \<and> same_rest w w'"
  unfolding config_DebugHandler_def
proof (rule serve_pages_keeps)
  show "\<exists>wr' w'. redirect u wr r w = Finished wr' w' \<and> same_rest w w'" for u wr
    using assms [of u wr] same_rest_refl [of w] by blast
  show "\<exists>wr' w'. h wr r w = Finished wr' w' \<and> same_rest w w'"
    if "(p, h) \<in> set [(''/debug/config/inspect'', config_inspect C), (''/debug/config/load'', config_load G P L C),
       (''/debug/config/version'', config_version G L C)]" for p h wr
    using that config_pages_keep(1) [of G P L C wr r w] config_pages_keep(2) [of G L C wr r w] same_rest_refl [of w]
    by (auto simp: config_inspect_def json_reply_def)
qed simp

text \<open>A loader that serves always has a configuration to show: its pages answer
  with 200 in every reachable state.\<close>

lemma config_page_paths:
  "cleanPath ''/debug/config/load'' = ''/debug/config/load''" "cleanPath ''/debug/config/version'' = ''/debug/config/version''"
  by code_simp+

theorem config_pages_answer:
  assumes "fl_reachable L C (reloader E cf mf) s" and "quiet_source (lc_source C)"
    and "rq_path r = ''/debug/config/load'' \<or> rq_path r = ''/debug/config/version''"
  shows "\<exists>wr' w' h. config_DebugHandler redirect G P L C new_writer r (ls_world s) = Finished wr' w' \<and> rw_sent wr' = Some (200, h)"
proof -
  have "\<exists>cfg. cl_decode L (fl_configData (os.more (ls_world s))) = Inr cfg"
    using reload.fl_reachable_inv [OF assms(2,1)] by (simp add: fl_inv_def Let_def)
  then obtain cfg w1 where load: "fl_Load L C (ls_world s) = (Inr cfg, w1)"
    unfolding fl_Load_def using decodeConfig_Inr by (metis prod.collapse)
  show ?thesis
    using assms(3)
    by (auto simp: config_DebugHandler_def serve_pages_def config_page_paths config_load_def config_version_def load
        json_reply_def writeChunk_def set_header_def new_writer_def)
qed

text \<open>A release is loaded from the control service only by a POST: any other
  request to the page is answered with 405 and changes nothing.\<close>

theorem ctrl_load_needs_post:
  assumes "rq_path r = ''/debug/ctrl/load''" and "rq_method r \<noteq> ''POST''"
  shows "\<exists>wr' h. ctrl_DebugHandler redirect G L new_writer r s = Finished wr' s \<and> rw_sent wr' = Some (405, h)"
proof -
  have "cleanPath ''/debug/ctrl/load'' = ''/debug/ctrl/load''" by code_simp
  then show ?thesis
    using assms by (simp add: ctrl_DebugHandler_def serve_pages_def ctrl_load_page_def writeHeader_def new_writer_def)
qed

section \<open>The page of the appliers and the watcher\<close>

text \<open>getAppliers gives out the map of the endpoint itself, and the encoder walks
  over it without the lock.  A write to a map that is being walked over can end
  the process; it can also go unnoticed.  A run names the endpoints whose maps
  pages are walking over; a map taken out of the watcher is not written to again.\<close>

datatype 'p page_run = Running "string list" 'p | Crashed

definition map_written :: "('a, 'x) service_watcher \<Rightarrow> ('a, 'x) service_watcher \<Rightarrow> string \<Rightarrow> bool" where
  "map_written s s' ep \<longleftrightarrow>
    (case getAppliers ep s' of None \<Rightarrow> False | Some as \<Rightarrow> getAppliers ep s \<noteq> Some as)"

inductive page_step :: "('a, 'x) applier_ops \<Rightarrow> ('a, 'x) service_watcher page_run \<Rightarrow> ('a, 'x) service_watcher page_run \<Rightarrow> bool"
  for P :: "('a, 'x) applier_ops" where
  page_open: "getAppliers ep s \<noteq> None \<Longrightarrow> page_step P (Running its s) (Running (ep # its) s)"
| page_done: "ep \<in> set its \<Longrightarrow> page_step P (Running its s) (Running (remove1 ep its) s)"
| page_other: "sw_step P s s'
    \<Longrightarrow> page_step P (Running its s) (Running (filter (\<lambda>ep. getAppliers ep s' \<noteq> None) its) s')"
| page_race: "\<lbrakk> sw_step P s s'; ep \<in> set its; map_written s s' ep \<rbrakk> \<Longrightarrow> page_step P (Running its s) Crashed"

lemma Add_locked_appliers:
  "sw_appliers (snd (Add_locked ep (Some a) uuid s)) = AList.update ep (AList.update uuid a (endpoint_appliers s ep)) (sw_appliers s)"
  by (cases "sw_status s ep = None") (simp_all add: Add_locked_def Let_def add_applier_def endpoint_appliers_def)

text \<open>Once an endpoint has appliers, its page and the next Add for it can end
  the gateway, in every state of the watcher.\<close>

theorem appliers_page_can_crash:
  assumes "getAppliers ep s \<noteq> None"
  shows "(page_step P)\<^sup>*\<^sup>* (Running [] s) Crashed"
proof -
  obtain as where as: "map_of (sw_appliers s) ep = Some as" using assms by (auto simp: getAppliers_def)
  obtain uuid where new: "uuid \<notin> fst ` set as"
    using ex_new_if_finite [OF infinite_UNIV_listI, of "fst ` set as"] by auto
  fix a
  let ?s = "snd (Add_locked ep (Some a) uuid s)"
  have "getAppliers ep ?s = Some (AList.update uuid a as)"
    using as by (simp add: getAppliers_def Add_locked_appliers endpoint_appliers_def update_conv')
  moreover have "AList.update uuid a as \<noteq> as"
  proof
    assume eq: "AList.update uuid a as = as"
    have "map_of (AList.update uuid a as) uuid = Some a" by (simp add: update_conv')
    then show False using new unfolding eq by (auto dest: map_of_SomeD simp: rev_image_eqI)
  qed
  ultimately have "map_written s ?s ep" using as by (simp add: map_written_def getAppliers_def)
  then have "page_step P (Running [ep] s) Crashed" by (intro page_race [OF add]) auto
  then show ?thesis using page_open [OF assms, of P "[]"] by (meson converse_rtranclp_into_rtranclp r_into_rtranclp)
qed

theorem appliers_page_can_crash_witness: "(page_step idle_ops)\<^sup>*\<^sup>* (Running [] one_watched) Crashed"
  by (rule appliers_page_can_crash [of "''shop''"]) (simp add: one_watched_eq getAppliers_def)

end
