(* ===== verification/Spec2Isabelle.thy ===== *)
theory Spec2Isabelle
  imports Errors_Response Auth_Chain Guarded_Gateway Metrics Service_Watch Gateway_Reload Traffic_Guards Cors Client_Ip Router_Drain Client_Settings Server Ctrl_Loader Tracing Startup Client_Dial Rbac_Locks Debug_Pages
begin

text \<open>
  Verification development of an API gateway written in Go (the sources are
  under src/): it terminates HTTP/1, HTTP/2 and HTTP/3, chooses a route, runs
  the request through the middlewares of the route, sends it to a healthy node
  of the backend, with retries, and follows the changes of its configuration,
  of its files and of the service registry.

  The program and its parts.  cmd/gateway/main.go reads the configuration from
  a source (pkg/loader) through the loader of package config, initialises jwt
  and rbac, makes the client factory (package client) over a service discovery
  (package discovery), builds the proxy (package proxy), registers a change
  handler with the loader and hands the handler of the proxy, below those of
  proxy/auth and proxy/debug, to the server (package server).  A request enters
  through the server, is sent by router/mux to the handler of its endpoint, and
  passes the chain of middlewares to the RoundTripper of the client, which asks
  a selector for a node that the health checker allows.  Errors become answers
  in package errors.

  How the code is modelled.  A struct is a record, a tagged union a datatype,
  an interface of one method the function type of the method.  State is passed
  explicitly.  For the request path it is the record world of Middleware_Core
  (options of the request in flight, log of observable effects, the rest of
  the process); for what touches files and environment it is the record os of
  Go_Os, extended by the variables of the package.  Every call of the operating
  system may fail, by a schedule the state carries.  Errors are values, a panic
  is a result of its own, and a call of Fatal ends the run.  What goroutines
  do is an inductive step relation whose steps are the critical sections and
  the calls between them; invariants are proved by rule induction, so they
  hold in every interleaving.  Strings are byte sequences; integers are int
  with the bounds of the Go type written out where they can be reached, and
  words where the code computes with them.

  The Go standard library the gateway relies on: Go_Strings (strings, strconv,
  UTF-8), Go_Path (path, filepath), Go_Http (errors, net/http), Go_Url and
  Go_Values (net/url), Go_Json and Json_Out (encoding/json), Go_Regexp (regexp), Go_Time
  (time.ParseDuration) and Go_Os (os).  Gateway_Prelude holds what all share,
  Constants the names and defaults of constants/env.go.

  The components.
    Errors: Gw_Errors and Errors_Response (errors/).  Every error value has a
      well-formed envelope; Write sends it once.
    Configuration messages: Gw_Config (api/gateway/config/v1).
    Middlewares: Middleware_Core (middleware/, client/node.go) with the
      registry; Gate, the locale of the middlewares that decide before the next
      layer; Jwt and Jwt_Middleware; Rbac, and Rbac_Locks for its goroutines
      and their lock; Auth_Chain (jwt and rbac together) and Guarded_Gateway (both
      in the gateway, from the configuration to the calls upstream);
      Router_Filter, Cors, Client_Ip, Rewrite, Transcoder, Tracing, and
      Traffic_Guards (circuit breaker, rate limiter, access log).
    Routing: Mux (router/mux), and Router_Drain for the hand-over from one
      router to the next while requests are served.
    Proxy: Condition and Retry (proxy/condition, proxy/retry.go), Proxy
      (proxy/proxy.go) and Proxy_Spec, with the abstract retry loop it refines;
      Metrics, the metrics all packages register and their updates.
    Client: Health (health checker), Client (RoundTrip), Factory (targets,
      instances to nodes), Service_Watch (the registry watcher),
      Client_Settings and Client_Dial (the HTTP clients of client/node.go).
    Configuration: Loader_Source (pkg/loader), Config_Loader (config/),
      Gateway_Reload (the loader with the proxy as its handler), Ctrl_Loader
      (config/config-loader), Discovery (discovery/).
    Process: Server (server/), Entry (proxy/auth, proxy/debug, the handler
      stack), Debug_Pages (the debug pages of the components) and Startup
      (cmd/gateway/main.go).

  Interfaces.  Four contracts are locales, proved once and interpreted on the
  definitions of the code: change_handler of Config_Loader (a handler touches
  neither the environment nor the loader) on the reloader of main; watched_file
  of Loader_Source (what is loaded is what is on disk) on the key of jwt and
  the two files of rbac; gate and identity_gate of Gate on jwt, rbac, the
  router filter and ip; node_health of Health on the health checker.

  What is proved, from the top.  A start either fails before anything is
  watched or leaves a state in which the theorems on the loader hold, and
  from then on the proxy in use is the one of the recorded configuration, which
  stays loadable, and no panic leaves the handler of the server.  The
  retry loop refines its specification, whatever its environment does, and
  bounds the calls upstream; a finished request is counted once and no metric update panics; a failed
  update of the proxy, of a file or of the configuration changes nothing; the
  key, the policy and the model in force are those on disk after updates that
  come one at a time and whose rollback, if any, succeeds; with jwt
  and rbac among the global middlewares nothing goes upstream for a request
  that is not authenticated and authorised, except on the paths their rules
  skip; only healthy nodes are
  contacted; the clients of a replaced router are closed once, after the
  requests it counted unless the wait for them times out; watched endpoints keep
  a goroutine and recover from failures that are no cancellation; grants of
  cross-origin access, rewritten paths, transcoded messages, cleaned paths and
  route patterns are what they should be.  Where the code does something
  else, a theorem shows what it does: those are listed as findings.

  Fuel and bounds.  No definition of the request path needs fuel: the retry
  loop runs down the attempts of the strategy (at most 2^32-1), the client
  loop and the HTTP/3 loop (three rounds) likewise.  The control loader's Run
  may run forever and takes the number of rounds; its theorem holds for every
  number.  temp_name tries the 10000 names of os.CreateTemp.  Loops on strings
  end by their length.  Watch loops are step relations and have no bound.

  State of the requests.  Startup runs the requests on the state of rbac with the
  key of jwt beside it: the variables of the two packages are copied into it when
  the first routes are built (share_auth); that later updates of the files reach
  the handlers is not composed further, it is shown for each package on its own.

  Parameters.  Code that is not under src/ is an argument: gorilla/mux, the
  selector of kratos, the sre and bbr algorithms, the token library and x509,
  casbin and the Casdoor server, protobuf, protojson and YAML, the SDK of the
  configuration center, the Consul API, OpenTelemetry, quic-go, the handshake
  of TLS and the sockets.  What a theorem takes of them is a hypothesis of its
  own name (gorilla_dispatch, selector_ok, checks_signature, quiet_sdk and
  others), and its witness instantiates it.

  Not modelled: the text of log lines; the help texts and buckets of metrics;
  the pages of pprof; the reflection code of the
  generated protobuf files; the kratos application that runs and stops the
  server; deadlines of contexts other than as errors of the call that
  notices them; the programs under examples/.
\<close>

section \<open>The gateway as it runs\<close>

lemma reachable_steps: "(fl_step L C H)\<^sup>*\<^sup>* s t \<Longrightarrow> fl_reachable L C H s \<Longrightarrow> fl_reachable L C H t"
  by (induction rule: rtranclp_induct) (auto intro: fl_next)

lemma boot_handler_finishes:
  assumes "\<forall>wr w. \<exists>wr' w'. debugService_ServeHTTP (me_debug E) (boot_pages E) wr r w = Finished wr' w'"
  shows "\<exists>wr' w'. altSvcMiddleware major (boot_handler E d p) port wr r w = Finished wr' w'"
  unfolding boot_handler_def by (rule every_entry_finishes) (use assms in simp)

text \<open>C5: After a successful start, whatever happens to the files and whatever
  updates the source delivers, in every interleaving of the goroutines of the
  loader with calls of Close: the proxy in use is one that Update made for the
  configuration of the recorded snapshot, that snapshot decodes, after a Close
  the context of every watch is canceled (a goroutine past its wait may still
  apply the update it has read, as in the code), and no panic leaves the handler
  of the server for any request that comes in such a state (that a handler can
  block for good, as in Rbac_Locks, is not excluded).  main calls Watch once, and only
  its change handler calls Update.  The SDK of the configuration center
  is taken to leave the environment of the process alone, and the handlers of
  the debug pages not to panic.\<close>

theorem started_gateway_serves:
  assumes "main_boot E p = (Inr b, p')"
    and "pr_gos p = []" "\<not> jw_initialized (pr_jwt p)" "\<not> rb_initialized (pr_rbac p)" "quiet_sdk (me_sdk E)"
    and "(gateway_step (me_config E) (bt_loader b) (reloader (me_proxy E) (bt_clients b) (Create (pr_registry p'))))\<^sup>*\<^sup>*
           \<lparr>ls_gos = pr_gos p', ls_world = loader_view p'\<rparr> s"
    and "\<forall>wr w. \<exists>wr' w'. debugService_ServeHTTP (me_debug E) (boot_pages E) wr r w = Finished wr' w'"
  shows "in_force (me_proxy E) (bt_clients b) (Create (pr_registry p')) (me_config E) (bt_loader b) (ls_world s)
    \<and> (\<exists>cfg w'. fl_Load (me_config E) (bt_loader b) (ls_world s) = (Inr cfg, w'))
    \<and> (fl_closed (os.more (ls_world s)) \<longrightarrow> list_all id (fl_canceled (os.more (ls_world s))))
    \<and> (\<exists>wr' w'. altSvcMiddleware major (bt_handler b (serving (ls_world s))) port wr r w = Finished wr' w')"
proof -
  note boot = main_boot_ok [OF assms(1-4)]
  let ?H = "reloader (me_proxy E) (bt_clients b) (Create (pr_registry p'))"
  have q: "quiet_source (lc_source (bt_loader b))" using boot source_of_quiet [OF assms(5)] by auto
  have steps: "(fl_step (me_config E) (bt_loader b) ?H)\<^sup>*\<^sup>* \<lparr>ls_gos = pr_gos p', ls_world = loader_view p'\<rparr> s
      \<and> in_force (me_proxy E) (bt_clients b) (Create (pr_registry p')) (me_config E) (bt_loader b) (ls_world s)"
    using gateway_steps [OF assms(6) q, unfolded loader_state.simps view_simps] boot by blast
  have "fl_reachable (me_config E) (bt_loader b) ?H s" using reachable_steps [of _ _ ?H] steps boot by blast
  with q have inv: "fl_inv (me_config E) s" using reload.fl_reachable_inv by blast
  then have "\<exists>cfg. cl_decode (me_config E) (fl_configData (os.more (ls_world s))) = Inr cfg" by (simp add: fl_inv_def Let_def)
  then have "\<exists>cfg w'. fl_Load (me_config E) (bt_loader b) (ls_world s) = (Inr cfg, w')"
    unfolding fl_Load_def using decodeConfig_Inr by (metis prod.collapse)
  moreover have "fl_closed (os.more (ls_world s)) \<longrightarrow> list_all id (fl_canceled (os.more (ls_world s)))"
    using inv by (auto simp: fl_inv_def Let_def split: option.splits)
  moreover have "bt_handler b = boot_handler E (mn_withDebug (pr_main p'))" using boot by blast
  ultimately show ?thesis using boot_handler_finishes [OF assms(7)] steps by simp
qed

text \<open>A start, and a Close of the loader.\<close>

theorem started_gateway_serves_witness:
  "\<exists>b p' w. main_boot demo_main demo_process = (Inr b, p') \<and> w = upd_loader fl_Close (loader_view p')
    \<and> in_force sample_env (bt_clients b) (Create (pr_registry p')) demo_config_lib (bt_loader b) w
    \<and> (\<exists>cfg w'. fl_Load demo_config_lib (bt_loader b) w = (Inr cfg, w')) \<and> list_all id (fl_canceled (os.more w))
    \<and> (\<exists>wr' w'. altSvcMiddleware (\<lambda>_. 2) (bt_handler b (serving w)) DefaultHTTP3Port new_writer sample_request (client_world boot_state)
         = Finished wr' w')"
proof -
  obtain b p' where m: "main_boot demo_main demo_process = (Inr b, p')" using demo_boot by blast
  have p: "pr_gos demo_process = []" "\<not> jw_initialized (pr_jwt demo_process)" "\<not> rb_initialized (pr_rbac demo_process)"
    and q: "quiet_sdk (me_sdk demo_main)" and L: "me_config demo_main = demo_config_lib" "me_proxy demo_main = sample_env"
    by (simp_all add: demo_process_def demo_main_def quiet_sdk_def)
  have "\<forall>wr w. \<exists>wr' w'. debugService_ServeHTTP (me_debug demo_main) (boot_pages demo_main) wr sample_request w = Finished wr' w'"
    by (simp add: debugService_ServeHTTP_def boot_pages_def debug_Register_def demo_main_def sample_gorilla_def less_Suc_eq split: selection.split option.split)
  note serves = started_gateway_serves [OF m p q r_into_rtranclp this]
  let ?s = "\<lparr>ls_gos = pr_gos p', ls_world = loader_view p'\<rparr>"
  have step: "gateway_step (me_config demo_main) (bt_loader b) (reloader (me_proxy demo_main) (bt_clients b) (Create (pr_registry p')))
      ?s (?s\<lparr>ls_world := upd_loader fl_Close (ls_world ?s)\<rparr>)"
    unfolding gateway_step_def by (intro conjI call_close) (simp_all add: fl_Close_def Let_def serving_def split: option.split)
  have "fl_closed (os.more (upd_loader fl_Close (loader_view p')))" by (simp add: fl_Close_def Let_def split: option.split)
  with serves [OF step] m L show ?thesis by simp
qed

end
